(* ===== verification/Hmc_Prelude.thy ===== *)
theory Hmc_Prelude
  imports Main "HOL-Library.Word"
begin

text \<open>
  Shared vocabulary of the development: the machine integers of the C++ sources, a flat byte
  memory with the two C library copies (\<^verbatim>\<open>memcpy\<close>, \<^verbatim>\<open>memmove\<close>), the in-memory (little
  endian) and network (big endian) images of fixed-width integers, the decimal text of
  \<^verbatim>\<open>std::to_string\<close> and \<^verbatim>\<open>strtoul\<close>, and the generic lemmas the component theories use.
  Nothing here maps to a source line of the repository; it models the language and its standard
  library.
\<close>

unbundle bit_operations_syntax

section \<open>Machine integers and collections of simplification rules\<close>

type_synonym u8 = "8 word"
type_synonym u16 = "16 word"
type_synonym u32 = "32 word"
type_synonym u64 = "64 word"
type_synonym size_t = "64 word"
type_synonym addr = "64 word"
type_synonym memory = "addr \<Rightarrow> u8"

named_theorems mem_simps
named_theorems word_nat_simps

lemma unat_add_no_wrap [word_nat_simps]:
  fixes a b :: "'a::len word"
  assumes "unat a + unat b < 2 ^ LENGTH('a)"
  shows "unat (a + b) = unat a + unat b"
  using assms by (simp add: unat_word_ariths)

lemma unat_sub_le [word_nat_simps]:
  fixes a b :: "'a::len word"
  assumes "b \<le> a"
  shows "unat (a - b) = unat a - unat b"
  using assms by (simp add: unat_sub)

lemma unat_u64_bound [simp]: "unat (a :: u64) < 18446744073709551616"
  using unsigned_less [of a, where ?'a = nat] by simp

lemma unat_of_nat_u64 [word_nat_simps]:
  "n < 18446744073709551616 \<Longrightarrow> unat (of_nat n :: u64) = n"
  by (simp add: unat_of_nat)

lemma of_nat_less_u64:
  fixes n :: size_t
  assumes "i < unat n"
  shows "of_nat i < n"
  using assms order.strict_trans [OF assms unat_u64_bound]
  by (simp add: word_less_nat_alt unat_of_nat)

section \<open>Byte memory\<close>

definition memcpy :: "addr \<Rightarrow> addr \<Rightarrow> size_t \<Rightarrow> memory \<Rightarrow> memory" where
  "memcpy dest src n m = (\<lambda>a. if a - dest < n then m (src + (a - dest)) else m a)"

text \<open>Both copies read the old memory; they differ only in that \<^verbatim>\<open>memcpy\<close> may not be called on
  overlapping ranges.\<close>

definition memmove :: "addr \<Rightarrow> addr \<Rightarrow> size_t \<Rightarrow> memory \<Rightarrow> memory" where
  "memmove dest src n m = (\<lambda>a. if a - dest < n then m (src + (a - dest)) else m a)"

definition read_bytes :: "memory \<Rightarrow> addr \<Rightarrow> nat \<Rightarrow> u8 list" where
  "read_bytes m a n = map (\<lambda>i. m (a + of_nat i)) [0..<n]"

definition write_bytes :: "addr \<Rightarrow> u8 list \<Rightarrow> memory \<Rightarrow> memory" where
  "write_bytes d bs m = (\<lambda>a. if unat (a - d) < length bs then bs ! unat (a - d) else m a)"

text \<open>\<open>in_range a b n\<close>: the address \<open>a\<close> is one of the \<open>n\<close> bytes that start at \<open>b\<close>.\<close>

definition in_range :: "addr \<Rightarrow> addr \<Rightarrow> size_t \<Rightarrow> bool" where
  "in_range a b n \<longleftrightarrow> a - b < n"

definition ranges_disjoint :: "addr \<Rightarrow> size_t \<Rightarrow> addr \<Rightarrow> size_t \<Rightarrow> bool" where
  "ranges_disjoint a n b k \<longleftrightarrow> (\<forall>x. \<not> (in_range x a n \<and> in_range x b k))"

lemma length_read_bytes [simp]: "length (read_bytes m a n) = n"
  by (simp add: read_bytes_def)

lemma nth_read_bytes [simp]: "i < n \<Longrightarrow> read_bytes m a n ! i = m (a + of_nat i)"
  by (simp add: read_bytes_def)

lemma read_bytes_cong:
  assumes "\<And>i. i < n \<Longrightarrow> m (a + of_nat i) = m' (b + of_nat i)"
  shows "read_bytes m a n = read_bytes m' b n"
  by (rule nth_equalityI) (simp_all add: assms)

lemma memcpy_outside [mem_simps]: "\<not> in_range a d n \<Longrightarrow> memcpy d s n m a = m a"
  by (simp add: memcpy_def in_range_def)

lemma in_range_offset: "i < unat n \<Longrightarrow> in_range (a + of_nat i) a n"
  by (simp add: in_range_def of_nat_less_u64)

lemma read_memcpy [mem_simps]: "read_bytes (memcpy d s n m) d (unat n) = read_bytes m s (unat n)"
  by (rule read_bytes_cong) (simp add: memcpy_def of_nat_less_u64)

lemma memcpy_frame:
  assumes "ranges_disjoint a k d n"
  shows "read_bytes (memcpy d s n m) a (unat k) = read_bytes m a (unat k)"
proof (rule read_bytes_cong)
  fix i assume "i < unat k"
  then have "in_range (a + of_nat i) a k" by (rule in_range_offset)
  with assms have "\<not> in_range (a + of_nat i) d n" by (auto simp: ranges_disjoint_def)
  then show "memcpy d s n m (a + of_nat i) = m (a + of_nat i)" by (rule memcpy_outside)
qed

lemma memmove_eq_memcpy: "memmove d s n m = memcpy d s n m"
  by (simp add: memmove_def memcpy_def)

lemma read_write_bytes [mem_simps]:
  assumes "length bs < 2 ^ 64"
  shows "read_bytes (write_bytes d bs m) d (length bs) = bs"
  by (rule nth_equalityI) (use assms in \<open>auto simp: write_bytes_def unat_of_nat\<close>)

text \<open>A sub-range \<open>[b + off, b + off + k)\<close> of \<open>[b, b + n)\<close>, when the sum does not wrap.\<close>

lemma in_sub_range:
  assumes "unat off + unat k \<le> unat n" and "in_range a (b + off) k"
  shows "in_range a b n"
proof -
  have "unat (a - (b + off)) < unat k"
    using assms(2) by (simp add: in_range_def word_less_nat_alt)
  then have lt: "unat (a - (b + off)) + unat off < unat n"
    using assms(1) by simp
  have "unat (a - (b + off) + off) = unat (a - (b + off)) + unat off"
    by (rule unat_add_no_wrap) (use lt order.strict_trans [OF lt unat_u64_bound] in simp)
  moreover have "a - (b + off) + off = a - b" by simp
  ultimately have "unat (a - b) < unat n" using lt by simp
  then show ?thesis by (simp add: in_range_def word_less_nat_alt)
qed

section \<open>Fixed-width integers as bytes\<close>

fun nat_to_le :: "nat \<Rightarrow> nat \<Rightarrow> u8 list" where
  "nat_to_le 0 n = []"
| "nat_to_le (Suc k) n = of_nat (n mod 256) # nat_to_le k (n div 256)"

fun le_to_nat :: "u8 list \<Rightarrow> nat" where
  "le_to_nat [] = 0"
| "le_to_nat (b # bs) = unat b + 256 * le_to_nat bs"

definition le_bytes :: "nat \<Rightarrow> 'a::len word \<Rightarrow> u8 list" where
  "le_bytes k w = nat_to_le k (unat w)"

definition le_word :: "u8 list \<Rightarrow> 'a::len word" where
  "le_word bs = of_nat (le_to_nat bs)"

definition be_bytes :: "nat \<Rightarrow> 'a::len word \<Rightarrow> u8 list" where
  "be_bytes k w = rev (le_bytes k w)"

definition be_word :: "u8 list \<Rightarrow> 'a::len word" where
  "be_word bs = le_word (rev bs)"

lemma length_nat_to_le [simp]: "length (nat_to_le k n) = k"
  by (induction k arbitrary: n) auto

lemma length_le_bytes [simp]: "length (le_bytes k w) = k"
  by (simp add: le_bytes_def)

lemma length_be_bytes [simp]: "length (be_bytes k w) = k"
  by (simp add: be_bytes_def)

lemma le_to_nat_inverse: "le_to_nat (nat_to_le k n) = n mod 256 ^ k"
proof (induction k arbitrary: n)
  case 0
  then show ?case by simp
next
  case (Suc k)
  have "n mod 256 ^ Suc k = n mod 256 + 256 * (n div 256 mod 256 ^ k)"
    by (simp add: mod_mult2_eq)
  with Suc show ?case by (simp add: unat_of_nat)
qed

lemma le_word_le_bytes:
  fixes w :: "'a::len word"
  assumes "LENGTH('a) \<le> 8 * k"
  shows "le_word (le_bytes k w) = w"
proof -
  have "unat w < 2 ^ LENGTH('a)" by (rule unsigned_less)
  also have "(2::nat) ^ LENGTH('a) \<le> 2 ^ (8 * k)" using assms by simp
  also have "(2::nat) ^ (8 * k) = 256 ^ k" by (simp add: power_mult)
  finally show ?thesis by (simp add: le_word_def le_bytes_def le_to_nat_inverse)
qed

lemma be_word_be_bytes:
  fixes w :: "'a::len word"
  assumes "LENGTH('a) \<le> 8 * k"
  shows "be_word (be_bytes k w) = w"
  using le_word_le_bytes [OF assms, of w] by (simp add: be_word_def be_bytes_def)

lemma le_word_u16 [simp]: "le_word (le_bytes 2 (w :: u16)) = w"
  by (rule le_word_le_bytes) simp

lemma le_word_u32 [simp]: "le_word (le_bytes 4 (w :: u32)) = w"
  by (rule le_word_le_bytes) simp

lemma le_word_u64 [simp]: "le_word (le_bytes 8 (w :: u64)) = w"
  by (rule le_word_le_bytes) simp

lemma be_word_u16 [simp]: "be_word (be_bytes 2 (w :: u16)) = w"
  by (rule be_word_be_bytes) simp

lemma be_word_u64 [simp]: "be_word (be_bytes 8 (w :: u64)) = w"
  by (rule be_word_be_bytes) simp

end
