(* ===== verification/Hmc_Types.thy ===== *)
theory Hmc_Types
  imports Hmc_Prelude
begin

text \<open>
  The enumerations and the build configuration every component uses: \<^verbatim>\<open>status_t\<close>
  (include/status.h) with its printer (src/utils/status.cpp), \<^verbatim>\<open>MemoryType\<close> (include/mem.h),
  \<^verbatim>\<open>ConnType\<close> (include/hmc.h) and \<^verbatim>\<open>EndpointType\<close>.  The preprocessor symbols that select the
  accelerator back ends are the fields of the record \<open>build\<close>, so that one definition covers both
  branches of each \<^verbatim>\<open>#ifdef\<close>.  Control flow that leaves a function other than by returning (a C++
  exception, \<^verbatim>\<open>exit\<close>) is a value of \<open>outcome\<close>.
\<close>

section \<open>Status codes\<close>

datatype status_t = SUCCESS | ERROR | UNSUPPORT | INVALID_CONFIG | TIMEOUT | NOT_FOUND

definition status_to_string :: "status_t \<Rightarrow> string" where
  "status_to_string status = (case status of
      SUCCESS \<Rightarrow> ''Succeeded''
    | ERROR \<Rightarrow> ''Error''
    | UNSUPPORT \<Rightarrow> ''Unsupported''
    | INVALID_CONFIG \<Rightarrow> ''Invalid Config''
    | NOT_FOUND \<Rightarrow> ''Not Found''
    | _ \<Rightarrow> ''Unknown Status'')"

text \<open>There are finitely many codes, so statements about all of them compute.\<close>

instantiation status_t :: enum
begin

definition enum_status_t :: "status_t list" where
  "enum_status_t = [SUCCESS, ERROR, UNSUPPORT, INVALID_CONFIG, TIMEOUT, NOT_FOUND]"

definition enum_all_status_t :: "(status_t \<Rightarrow> bool) \<Rightarrow> bool" where
  "enum_all_status_t P \<longleftrightarrow> list_all P enum_class.enum"

definition enum_ex_status_t :: "(status_t \<Rightarrow> bool) \<Rightarrow> bool" where
  "enum_ex_status_t P \<longleftrightarrow> list_ex P enum_class.enum"

instance
proof
  show univ: "(UNIV :: status_t set) = set enum_class.enum"
    by (auto simp: enum_status_t_def intro: status_t.exhaust)
  show "distinct (enum_class.enum :: status_t list)" by (simp add: enum_status_t_def)
  show "enum_class.enum_all P \<longleftrightarrow> Ball UNIV P" "enum_class.enum_ex P \<longleftrightarrow> Bex UNIV P" for P :: "status_t \<Rightarrow> bool"
    by (simp_all only: enum_all_status_t_def enum_ex_status_t_def univ Ball_set Bex_set)
qed

end

text \<open>The documented codes are told apart by their text; the one code without a text of its own is
  the one the printer forgets.\<close>

lemma status_to_string_inj: "inj status_to_string"
proof (rule injI)
  have "\<forall>s t. status_to_string s = status_to_string t \<longrightarrow> s = t" by code_simp
  then show "status_to_string s = status_to_string t \<Longrightarrow> s = t" for s t by blast
qed

lemma status_to_string_unknown_iff: "status_to_string s = ''Unknown Status'' \<longleftrightarrow> s = TIMEOUT"
proof -
  have "\<forall>s. status_to_string s = ''Unknown Status'' \<longleftrightarrow> s = TIMEOUT" by code_simp
  then show ?thesis by blast
qed

section \<open>Memory, connection and endpoint kinds\<close>

datatype MemoryType = DEFAULT | CPU | NVIDIA_GPU | AMD_GPU | CAMBRICON_MLU | MOORE_GPU

datatype ConnType = RDMA | UCX | P2P

datatype EndpointType = Client | Server

section \<open>Build configuration\<close>

record build =
  enable_cuda :: bool
  enable_cuda_dmabuf :: bool
  enable_rocm :: bool
  enable_neuware :: bool
  enable_musa :: bool
  cudart_version :: nat

definition cpu_build :: build where
  "cpu_build = \<lparr> enable_cuda = False, enable_cuda_dmabuf = False, enable_rocm = False,
     enable_neuware = False, enable_musa = False, cudart_version = 0 \<rparr>"

section \<open>Ways a call can end\<close>

datatype 'a outcome = Return 'a | Throw string | Exit int

end
