(* ===== verification/Hmc_Gpu.thy ===== *)
theory Hmc_Gpu
  imports Hmc_Types
begin

text \<open>
  The accelerator run times and the thin layer over them,
  src/resource_manager/gpu_interface.cpp and gpu_interface.h.  CUDA, HIP, Cambricon CNDrv, MUSA and
  the C allocator are third-party code: each is a record of functions over the machine state
  (\<open>machine\<close>: the unified address space \<open>ram\<close> and everything a driver keeps, \<open>hw\<close>), passed to the
  definitions that call it.  A function with an out parameter returns what it stored as an
  \<open>option\<close> (\<open>None\<close>: left untouched).
\<close>

section \<open>Machine state and the run times as parameters\<close>

record 'hw machine =
  ram :: memory
  hw :: 'hw

type_synonym ('hw, 'r) call = "'hw machine \<Rightarrow> 'r \<times> 'hw machine"

datatype cudaError_t =
  cudaSuccess | cudaErrorCudartUnloading | cudaErrorContextIsDestroyed | cudaErrorOther nat

datatype memcpyKind = HostToDevice | DeviceToHost | DeviceToDevice

record 'hw libc =
  op_new :: "size_t \<Rightarrow> ('hw, addr) call"
  op_delete :: "addr \<Rightarrow> 'hw machine \<Rightarrow> 'hw machine"
  posix_memalign :: "size_t \<Rightarrow> size_t \<Rightarrow> ('hw, int \<times> addr) call"
  c_free :: "addr \<Rightarrow> 'hw machine \<Rightarrow> 'hw machine"

record 'hw cuda_rt =
  cudaMalloc :: "size_t \<Rightarrow> ('hw, cudaError_t \<times> addr option) call"
  cudaFree :: "addr \<Rightarrow> ('hw, cudaError_t) call"
  cudaGetDevice :: "('hw, cudaError_t \<times> int option) call"
  cudaSetDevice :: "int \<Rightarrow> ('hw, cudaError_t) call"
  cudaPointerGetAttributes :: "addr \<Rightarrow> ('hw, cudaError_t \<times> bool \<times> int) call"
  cudaGetLastError :: "('hw, cudaError_t) call"
  cudaMemcpy :: "memcpyKind \<Rightarrow> addr \<Rightarrow> addr \<Rightarrow> size_t \<Rightarrow> ('hw, cudaError_t) call"
  cudaGetDeviceCount :: "('hw, cudaError_t \<times> int option) call"
  cudaMemGetInfo :: "('hw, cudaError_t \<times> (u64 \<times> u64) option) call"
  cudaDeviceGetPCIBusId :: "nat \<Rightarrow> int \<Rightarrow> ('hw, cudaError_t \<times> string) call"

record 'hw hip_rt =
  hipInit :: "('hw, int) call"
  hipMalloc :: "size_t \<Rightarrow> ('hw, int \<times> addr option) call"
  hipFree :: "addr \<Rightarrow> ('hw, int) call"
  hipGetDevice :: "('hw, int \<times> int option) call"
  hipSetDevice :: "int \<Rightarrow> ('hw, int) call"
  hipMemcpy :: "memcpyKind \<Rightarrow> addr \<Rightarrow> addr \<Rightarrow> size_t \<Rightarrow> ('hw, int) call"
  hipGetDeviceCount :: "('hw, int \<times> int option) call"
  hipMemGetInfo :: "('hw, int \<times> (u64 \<times> u64) option) call"
  hipDeviceGetPCIBusId :: "nat \<Rightarrow> int \<Rightarrow> ('hw, int \<times> string) call"

record 'hw cn_rt =
  cnInit :: "('hw, int) call"
  cnMalloc :: "size_t \<Rightarrow> ('hw, int \<times> addr option) call"
  cnMallocPeerAble :: "size_t \<Rightarrow> ('hw, int \<times> addr option) call"
  cnFree :: "addr \<Rightarrow> ('hw, int) call"
  cnMemcpy :: "addr \<Rightarrow> addr \<Rightarrow> size_t \<Rightarrow> ('hw, int) call"
  cnDeviceGet :: "int \<Rightarrow> ('hw, int \<times> int) call"
  cnCtxCreate :: "int \<Rightarrow> ('hw, int \<times> int) call"
  cnCtxSetCurrent :: "int \<Rightarrow> ('hw, int) call"
  cnCtxDestroy :: "int \<Rightarrow> ('hw, int) call"
  cnDeviceGetCount :: "('hw, int \<times> int option) call"
  cnMemGetInfo :: "('hw, int \<times> (u64 \<times> u64) option) call"
  cnDeviceGetPCIBusId :: "nat \<Rightarrow> int \<Rightarrow> ('hw, int \<times> string) call"

record 'hw musa_rt =
  musaFree :: "addr \<Rightarrow> ('hw, int) call"
  musaHostRegister :: "addr \<Rightarrow> size_t \<Rightarrow> ('hw, int) call"
  musaHostUnregister :: "addr \<Rightarrow> ('hw, int) call"
  musaHostGetDevicePointer :: "addr \<Rightarrow> ('hw, int \<times> addr) call"
  musaMemcpy :: "memcpyKind \<Rightarrow> addr \<Rightarrow> addr \<Rightarrow> size_t \<Rightarrow> ('hw, int) call"
  musaGetDevice :: "('hw, int \<times> int option) call"
  musaSetDevice :: "int \<Rightarrow> ('hw, int) call"
  musaGetDeviceCount :: "('hw, int \<times> int option) call"
  musaMemGetInfo :: "('hw, int \<times> (u64 \<times> u64) option) call"
  musaDeviceGetPCIBusId :: "nat \<Rightarrow> int \<Rightarrow> ('hw, int \<times> string) call"

record 'hw platform =
  cfg :: build
  lc :: "'hw libc"
  cu :: "'hw cuda_rt"
  hip :: "'hw hip_rt"
  cn :: "'hw cn_rt"
  mu :: "'hw musa_rt"

section \<open>gpu\_interface.cpp and gpu\_interface.h\<close>

definition ok_code :: "int \<Rightarrow> status_t" where
  "ok_code r = (if r \<noteq> 0 then ERROR else SUCCESS)"

definition ok_cuda :: "cudaError_t \<Rightarrow> status_t" where
  "ok_cuda e = (if e \<noteq> cudaSuccess then ERROR else SUCCESS)"

lemmas ok_defs = ok_code_def ok_cuda_def

definition gpuInit :: "'hw platform \<Rightarrow> ('hw, status_t) call" where
  "gpuInit p m =
    (if enable_cuda (cfg p) then apfst ok_cuda (cudaFree (cu p) 0 m)
     else if enable_rocm (cfg p) then apfst ok_code (hipInit (hip p) m)
     else if enable_neuware (cfg p) then apfst ok_code (cnInit (cn p) m)
     else if enable_musa (cfg p) then apfst ok_code (musaFree (mu p) 0 m)
     else (UNSUPPORT, m))"

text \<open>The template \<^verbatim>\<open>gpuGetDevice\<close>; the ordinal is used by the Cambricon branch only.  On failure
  \<^verbatim>\<open>*dev\<close> keeps its old value.\<close>

definition gpuGetDevice :: "'hw platform \<Rightarrow> int \<Rightarrow> ('hw, status_t \<times> int option) call" where
  "gpuGetDevice p mlu_ordinal m =
    (if enable_cuda (cfg p) then
       (case cudaGetDevice (cu p) m of ((err, d), m1) \<Rightarrow>
          if err \<noteq> cudaSuccess then ((ERROR, None), m1) else ((SUCCESS, d), m1))
     else if enable_rocm (cfg p) then
       (case hipGetDevice (hip p) m of ((res, d), m1) \<Rightarrow>
          if res \<noteq> 0 then ((ERROR, None), m1) else ((SUCCESS, d), m1))
     else if enable_neuware (cfg p) then
       (case cnDeviceGet (cn p) mlu_ordinal m of ((res, d), m1) \<Rightarrow>
          if res \<noteq> 0 then ((ERROR, None), m1) else ((SUCCESS, Some d), m1))
     else if enable_musa (cfg p) then
       (case musaGetDevice (mu p) m of ((res, d), m1) \<Rightarrow>
          if res \<noteq> 0 then ((ERROR, None), m1) else ((SUCCESS, d), m1))
     else ((UNSUPPORT, None), m))"

definition gpuSetCtx :: "'hw platform \<Rightarrow> int \<Rightarrow> ('hw, status_t) call" where
  "gpuSetCtx p ctx m =
    (if enable_cuda (cfg p) then (SUCCESS, m)
     else if enable_neuware (cfg p) then apfst ok_code (cnCtxSetCurrent (cn p) ctx m)
     else (UNSUPPORT, m))"

definition gpuCreateContext :: "'hw platform \<Rightarrow> int \<Rightarrow> ('hw, status_t \<times> int option) call" where
  "gpuCreateContext p dev m =
    (if enable_neuware (cfg p) then
       (case cnCtxCreate (cn p) dev m of ((res, c), m1) \<Rightarrow>
          if res \<noteq> 0 then ((ERROR, None), m1) else ((SUCCESS, Some c), m1))
     else ((UNSUPPORT, None), m))"

definition gpuFreeContext :: "'hw platform \<Rightarrow> int \<Rightarrow> ('hw, status_t) call" where
  "gpuFreeContext p ctx m =
    (if enable_cuda (cfg p) then (SUCCESS, m)
     else if enable_rocm (cfg p) then (UNSUPPORT, m)
     else if enable_neuware (cfg p) then apfst ok_code (cnCtxDestroy (cn p) ctx m)
     else if enable_musa (cfg p) then (SUCCESS, m)
     else (UNSUPPORT, m))"

definition gpuGetPcieBusId :: "'hw platform \<Rightarrow> int \<Rightarrow> ('hw, status_t \<times> string option) call" where
  "gpuGetPcieBusId p device_id m =
    (if enable_cuda (cfg p) then
       (case cudaDeviceGetPCIBusId (cu p) 16 device_id m of ((err, s), m1) \<Rightarrow>
          if err \<noteq> cudaSuccess then ((ERROR, None), m1) else ((SUCCESS, Some s), m1))
     else if enable_rocm (cfg p) then
       (case hipDeviceGetPCIBusId (hip p) 16 device_id m of ((res, s), m1) \<Rightarrow>
          if res \<noteq> 0 then ((ERROR, None), m1) else ((SUCCESS, Some s), m1))
     else if enable_neuware (cfg p) then
       (case gpuGetDevice p device_id m of ((st, d), m1) \<Rightarrow>
          if st \<noteq> SUCCESS then ((ERROR, None), m1)
          else (case cnDeviceGetPCIBusId (cn p) 16 (the d) m1 of ((_, s), m2) \<Rightarrow>
                  ((SUCCESS, Some s), m2)))
     else if enable_musa (cfg p) then
       (case musaDeviceGetPCIBusId (mu p) 16 device_id m of ((res, s), m1) \<Rightarrow>
          if res \<noteq> 0 then ((ERROR, None), m1) else ((SUCCESS, Some s), m1))
     else ((UNSUPPORT, None), m))"

definition gpuGetDeviceCount :: "'hw platform \<Rightarrow> ('hw, status_t \<times> int option) call" where
  "gpuGetDeviceCount p m =
    (if enable_cuda (cfg p) then apfst (apfst ok_cuda) (cudaGetDeviceCount (cu p) m)
     else if enable_rocm (cfg p) then apfst (apfst ok_code) (hipGetDeviceCount (hip p) m)
     else if enable_neuware (cfg p) then apfst (apfst ok_code) (cnDeviceGetCount (cn p) m)
     else if enable_musa (cfg p) then apfst (apfst ok_code) (musaGetDeviceCount (mu p) m)
     else ((UNSUPPORT, None), m))"

definition gpuGetDeviceMemory :: "'hw platform \<Rightarrow> ('hw, status_t \<times> (u64 \<times> u64) option) call" where
  "gpuGetDeviceMemory p m =
    (if enable_cuda (cfg p) then apfst (apfst ok_cuda) (cudaMemGetInfo (cu p) m)
     else if enable_rocm (cfg p) then apfst (apfst ok_code) (hipMemGetInfo (hip p) m)
     else if enable_neuware (cfg p) then apfst (apfst ok_code) (cnMemGetInfo (cn p) m)
     else if enable_musa (cfg p) then apfst (apfst ok_code) (musaMemGetInfo (mu p) m)
     else ((UNSUPPORT, None), m))"

text \<open>\<^verbatim>\<open>gpuSetDevice\<close> has no Cambricon branch.\<close>

definition gpuSetDevice :: "'hw platform \<Rightarrow> int \<Rightarrow> ('hw, status_t) call" where
  "gpuSetDevice p device_id m =
    (if enable_cuda (cfg p) then apfst ok_cuda (cudaSetDevice (cu p) device_id m)
     else if enable_rocm (cfg p) then apfst ok_code (hipSetDevice (hip p) device_id m)
     else if enable_musa (cfg p) then apfst ok_code (musaSetDevice (mu p) device_id m)
     else (UNSUPPORT, m))"

section \<open>Without an accelerator nothing is touched\<close>

definition no_accel :: "build \<Rightarrow> bool" where
  "no_accel b \<longleftrightarrow> \<not> enable_cuda b \<and> \<not> enable_rocm b \<and> \<not> enable_neuware b \<and> \<not> enable_musa b"

lemma gpu_unsupported:
  assumes "no_accel (cfg p)"
  shows "gpuInit p m = (UNSUPPORT, m)" "gpuSetDevice p d m = (UNSUPPORT, m)"
    "gpuGetDeviceCount p m = ((UNSUPPORT, None), m)" "gpuFreeContext p c m = (UNSUPPORT, m)"
  using assms
  by (simp_all add: no_accel_def gpuInit_def gpuSetDevice_def gpuGetDeviceCount_def
      gpuFreeContext_def)

lemma gpuInit_status: "fst (gpuInit p m) \<in> {SUCCESS, ERROR, UNSUPPORT}"
  by (auto simp: gpuInit_def ok_defs apfst_def map_prod_def split: prod.splits)

end
