(* ===== verification/Hmc_Memory.thy ===== *)
theory Hmc_Memory
  imports Hmc_Gpu
begin

text \<open>
  The memory back ends (src/memories/): \<^verbatim>\<open>HostMemory\<close>, \<^verbatim>\<open>CudaMemory\<close>, \<^verbatim>\<open>RocmMemory\<close>,
  \<^verbatim>\<open>NeuwareMemory\<close>, \<^verbatim>\<open>MusaMemory\<close>, and the wrapper \<^verbatim>\<open>Memory\<close> of hddt_memory.cpp that selects one
  and forwards to it.  A pointer is an \<open>addr\<close>, the null pointer is 0.  The object of a back end is
  the record \<open>MemoryBase\<close> (the Cambricon class adds \<^verbatim>\<open>mlu_addr\<close>, \<^verbatim>\<open>mlu_dev\<close>, \<^verbatim>\<open>mlu_ctx\<close>), its class
  the constructor of \<open>MemoryClass\<close>.  The locale \<open>device_copy\<close> is the contract of a copy operation;
  it is interpreted on the host back end, and the accelerator back ends are shown to meet it when
  their run time does what its documentation says.
\<close>

section \<open>Data\<close>

definition ACCEL_PAGE_SIZE :: size_t where
  "ACCEL_PAGE_SIZE = 64 * 1024"

record MemoryBase =
  mb_device_id :: int
  mb_mem_type :: MemoryType
  mlu_addr :: addr
  mlu_dev :: int
  mlu_ctx :: int

datatype MemoryClass =
    HostMemory MemoryBase | CudaMemory MemoryBase | RocmMemory MemoryBase
  | NeuwareMemory MemoryBase | MusaMemory MemoryBase

definition new_MemoryBase :: "int \<Rightarrow> MemoryType \<Rightarrow> MemoryBase" where
  "new_MemoryBase d t = \<lparr> mb_device_id = d, mb_mem_type = t, mlu_addr = 0, mlu_dev = 0, mlu_ctx = 0 \<rparr>"

definition memory_supported :: "build \<Rightarrow> MemoryType" where
  "memory_supported b =
    (if enable_cuda b then NVIDIA_GPU else if enable_rocm b then AMD_GPU
     else if enable_musa b then MOORE_GPU else CPU)"

definition memory_dmabuf_supported :: "build \<Rightarrow> bool" where
  "memory_dmabuf_supported b = enable_cuda_dmabuf b"

text \<open>The rounding every accelerator back end applies to a peerable allocation.\<close>

definition page_round :: "size_t \<Rightarrow> size_t" where
  "page_round sz = (sz + ACCEL_PAGE_SIZE - 1) AND NOT (ACCEL_PAGE_SIZE - 1)"

section \<open>HostMemory\<close>

definition HostMemory_init :: "('hw, status_t) call" where
  "HostMemory_init m = (SUCCESS, m)"

definition HostMemory_free :: "('hw, status_t) call" where
  "HostMemory_free m = (SUCCESS, m)"

definition HostMemory_allocateBuffer ::
  "'hw platform \<Rightarrow> size_t \<Rightarrow> ('hw, status_t \<times> addr option) call" where
  "HostMemory_allocateBuffer p sz m =
    (case op_new (lc p) sz m of (buffer, m1) \<Rightarrow>
       if buffer = 0 then ((ERROR, None), m1) else ((SUCCESS, Some buffer), m1))"

definition HostMemory_allocatePeerableBuffer ::
  "'hw platform \<Rightarrow> size_t \<Rightarrow> ('hw, status_t \<times> addr option) call" where
  "HostMemory_allocatePeerableBuffer p sz m = HostMemory_allocateBuffer p sz m"

definition HostMemory_freeBuffer :: "'hw platform \<Rightarrow> addr \<Rightarrow> ('hw, status_t) call" where
  "HostMemory_freeBuffer p a m =
    (if a = 0 then (ERROR, m) else (SUCCESS, op_delete (lc p) a m))"

definition HostMemory_copyHostToDevice :: "addr \<Rightarrow> addr \<Rightarrow> size_t \<Rightarrow> ('hw, status_t) call" where
  "HostMemory_copyHostToDevice dest src sz m =
    (if dest = 0 \<or> src = 0 then (ERROR, m)
     else (SUCCESS, m\<lparr>ram := memcpy dest src sz (ram m)\<rparr>))"

definition HostMemory_copyDeviceToHost :: "addr \<Rightarrow> addr \<Rightarrow> size_t \<Rightarrow> ('hw, status_t) call" where
  "HostMemory_copyDeviceToHost dest src sz m =
    (if dest = 0 \<or> src = 0 then (ERROR, m)
     else (SUCCESS, m\<lparr>ram := memcpy dest src sz (ram m)\<rparr>))"

definition HostMemory_copyDeviceToDevice :: "addr \<Rightarrow> addr \<Rightarrow> size_t \<Rightarrow> ('hw, status_t) call" where
  "HostMemory_copyDeviceToDevice dest src sz m =
    (if dest = 0 \<or> src = 0 then (ERROR, m)
     else (SUCCESS, m\<lparr>ram := memcpy dest src sz (ram m)\<rparr>))"

section \<open>CudaMemory\<close>

definition CudaMemory_init :: "'hw platform \<Rightarrow> ('hw, status_t) call" where
  "CudaMemory_init p m = (if enable_cuda (cfg p) then gpuInit p m else (UNSUPPORT, m))"

definition CudaMemory_free :: "'hw platform \<Rightarrow> ('hw, status_t) call" where
  "CudaMemory_free p m = (if enable_cuda (cfg p) then (SUCCESS, m) else (UNSUPPORT, m))"

definition CudaMemory_allocateBuffer ::
  "'hw platform \<Rightarrow> MemoryBase \<Rightarrow> size_t \<Rightarrow> ('hw, status_t \<times> addr option) call" where
  "CudaMemory_allocateBuffer p this sz m =
    (if \<not> enable_cuda (cfg p) then ((UNSUPPORT, None), m)
     else if mb_mem_type this \<noteq> NVIDIA_GPU then ((UNSUPPORT, None), m)
     else (case cudaMalloc (cu p) sz m of ((ret, a), m1) \<Rightarrow>
             if ret \<noteq> cudaSuccess then ((ERROR, a), m1) else ((SUCCESS, a), m1)))"

definition CudaMemory_allocatePeerableBuffer ::
  "'hw platform \<Rightarrow> MemoryBase \<Rightarrow> size_t \<Rightarrow> ('hw, status_t \<times> addr option) call" where
  "CudaMemory_allocatePeerableBuffer p this sz m =
    (if \<not> enable_cuda (cfg p) then ((UNSUPPORT, None), m)
     else CudaMemory_allocateBuffer p this (page_round sz) m)"

definition is_exit_stage_cuda_error :: "cudaError_t \<Rightarrow> bool" where
  "is_exit_stage_cuda_error e \<longleftrightarrow> e = cudaErrorCudartUnloading \<or> e = cudaErrorContextIsDestroyed"

text \<open>\<^verbatim>\<open>freeBuffer\<close> switches to the device that owns the pointer (run time 10.0 and later), frees, and
  switches back.\<close>

definition CudaMemory_freeBuffer :: "'hw platform \<Rightarrow> addr \<Rightarrow> ('hw, status_t) call" where
  "CudaMemory_freeBuffer p a m =
    (if \<not> enable_cuda (cfg p) then (UNSUPPORT, m)
     else if a = 0 then (SUCCESS, m)
     else
       let ((_, d), m1) = cudaGetDevice (cu p) m;
           prev_dev = (case d of None \<Rightarrow> - 1 | Some i \<Rightarrow> i);
           m2 = (if 10000 \<le> cudart_version (cfg p) then
                   let ((aerr, is_device, dev), m') = cudaPointerGetAttributes (cu p) a m1
                   in if aerr = cudaSuccess
                      then (if is_device then snd (cudaSetDevice (cu p) dev m') else m')
                      else snd (cudaGetLastError (cu p) m')
                 else m1);
           (ret, m3) = cudaFree (cu p) a m2;
           m4 = (if 0 \<le> prev_dev then snd (cudaSetDevice (cu p) prev_dev m3) else m3)
       in if ret = cudaSuccess then (SUCCESS, m4)
          else if is_exit_stage_cuda_error ret then (SUCCESS, m4)
          else (ERROR, m4))"

text \<open>The three CUDA copies differ only in the direction they pass to \<^verbatim>\<open>cudaMemcpy\<close>.\<close>

definition CudaMemory_copy ::
  "memcpyKind \<Rightarrow> 'hw platform \<Rightarrow> addr \<Rightarrow> addr \<Rightarrow> size_t \<Rightarrow> ('hw, status_t) call" where
  "CudaMemory_copy k p dest src sz m =
    (if \<not> enable_cuda (cfg p) then (UNSUPPORT, m)
     else if dest = 0 \<or> src = 0 then (ERROR, m)
     else (case cudaMemcpy (cu p) k dest src sz m of (ret, m1) \<Rightarrow>
             if ret \<noteq> cudaSuccess
             then (if is_exit_stage_cuda_error ret then (SUCCESS, m1) else (ERROR, m1))
             else (SUCCESS, m1)))"

definition CudaMemory_copyHostToDevice where
  "CudaMemory_copyHostToDevice = CudaMemory_copy HostToDevice"
definition CudaMemory_copyDeviceToHost where
  "CudaMemory_copyDeviceToHost = CudaMemory_copy DeviceToHost"
definition CudaMemory_copyDeviceToDevice where
  "CudaMemory_copyDeviceToDevice = CudaMemory_copy DeviceToDevice"

section \<open>RocmMemory\<close>

definition RocmMemory_init :: "'hw platform \<Rightarrow> MemoryBase \<Rightarrow> ('hw, status_t) call" where
  "RocmMemory_init p this m =
    (if \<not> enable_rocm (cfg p) then (UNSUPPORT, m)
     else (case hipSetDevice (hip p) (mb_device_id this) m of (err, m1) \<Rightarrow>
             if err \<noteq> 0 then (ERROR, m1) else gpuInit p m1))"

definition RocmMemory_free :: "'hw platform \<Rightarrow> ('hw, status_t) call" where
  "RocmMemory_free p m = (if enable_rocm (cfg p) then (SUCCESS, m) else (UNSUPPORT, m))"

definition RocmMemory_allocateBuffer ::
  "'hw platform \<Rightarrow> MemoryBase \<Rightarrow> size_t \<Rightarrow> ('hw, status_t \<times> addr option) call" where
  "RocmMemory_allocateBuffer p this sz m =
    (if \<not> enable_rocm (cfg p) then ((UNSUPPORT, None), m)
     else if mb_mem_type this \<noteq> AMD_GPU then ((UNSUPPORT, None), m)
     else (case hipMalloc (hip p) sz m of ((ret, a), m1) \<Rightarrow>
             if ret \<noteq> 0 then ((ERROR, a), m1) else ((SUCCESS, a), m1)))"

definition RocmMemory_allocatePeerableBuffer ::
  "'hw platform \<Rightarrow> MemoryBase \<Rightarrow> size_t \<Rightarrow> ('hw, status_t \<times> addr option) call" where
  "RocmMemory_allocatePeerableBuffer p this sz m =
    (if \<not> enable_rocm (cfg p) then ((UNSUPPORT, None), m)
     else RocmMemory_allocateBuffer p this (page_round sz) m)"

definition RocmMemory_freeBuffer :: "'hw platform \<Rightarrow> addr \<Rightarrow> ('hw, status_t) call" where
  "RocmMemory_freeBuffer p a m =
    (if \<not> enable_rocm (cfg p) then (UNSUPPORT, m) else apfst ok_code (hipFree (hip p) a m))"

definition RocmMemory_copy ::
  "memcpyKind \<Rightarrow> 'hw platform \<Rightarrow> addr \<Rightarrow> addr \<Rightarrow> size_t \<Rightarrow> ('hw, status_t) call" where
  "RocmMemory_copy k p dest src sz m =
    (if \<not> enable_rocm (cfg p) then (UNSUPPORT, m)
     else if dest = 0 \<or> src = 0 then (ERROR, m)
     else apfst ok_code (hipMemcpy (hip p) k dest src sz m))"

definition RocmMemory_copyHostToDevice where
  "RocmMemory_copyHostToDevice = RocmMemory_copy HostToDevice"
definition RocmMemory_copyDeviceToHost where
  "RocmMemory_copyDeviceToHost = RocmMemory_copy DeviceToHost"
definition RocmMemory_copyDeviceToDevice where
  "RocmMemory_copyDeviceToDevice = RocmMemory_copy DeviceToDevice"

section \<open>NeuwareMemory\<close>

definition NeuwareMemory_init ::
  "'hw platform \<Rightarrow> MemoryBase \<Rightarrow> ('hw, status_t \<times> MemoryBase) call" where
  "NeuwareMemory_init p this m =
    (if \<not> enable_neuware (cfg p) then ((UNSUPPORT, this), m)
     else case gpuInit p m of (sret, m1) \<Rightarrow>
       if sret \<noteq> SUCCESS then ((sret, this), m1)
       else case gpuGetDevice p (mb_device_id this) m1 of ((sret, d), m2) \<Rightarrow>
         if sret \<noteq> SUCCESS then ((sret, this), m2)
         else
           let this1 = this\<lparr>mlu_dev := (case d of None \<Rightarrow> mlu_dev this | Some x \<Rightarrow> x)\<rparr>
           in case gpuCreateContext p (mlu_dev this1) m2 of ((sret, c), m3) \<Rightarrow>
                if sret \<noteq> SUCCESS then ((sret, this1), m3)
                else ((sret, this1\<lparr>mlu_ctx := (case c of None \<Rightarrow> mlu_ctx this1 | Some x \<Rightarrow> x)\<rparr>), m3))"

definition NeuwareMemory_free :: "'hw platform \<Rightarrow> MemoryBase \<Rightarrow> ('hw, status_t) call" where
  "NeuwareMemory_free p this m =
    (if \<not> enable_neuware (cfg p) then (UNSUPPORT, m) else gpuFreeContext p (mlu_ctx this) m)"

definition store_mlu :: "MemoryBase \<Rightarrow> addr option \<Rightarrow> MemoryBase" where
  "store_mlu this a = (case a of None \<Rightarrow> this | Some x \<Rightarrow> this\<lparr>mlu_addr := x\<rparr>)"

definition NeuwareMemory_allocateBuffer ::
  "'hw platform \<Rightarrow> MemoryBase \<Rightarrow> size_t \<Rightarrow> ('hw, status_t \<times> addr option \<times> MemoryBase) call" where
  "NeuwareMemory_allocateBuffer p this sz m =
    (if \<not> enable_neuware (cfg p) then ((UNSUPPORT, None, this), m)
     else if mb_mem_type this \<noteq> CAMBRICON_MLU then ((UNSUPPORT, None, this), m)
     else (case cnMalloc (cn p) sz m of ((ret, a), m1) \<Rightarrow>
             let this1 = store_mlu this a
             in if ret \<noteq> 0 then ((ERROR, None, this1), m1)
                else ((SUCCESS, Some (mlu_addr this1), this1), m1)))"

definition NeuwareMemory_allocatePeerableBuffer ::
  "'hw platform \<Rightarrow> MemoryBase \<Rightarrow> size_t \<Rightarrow> ('hw, status_t \<times> addr option \<times> MemoryBase) call" where
  "NeuwareMemory_allocatePeerableBuffer p this sz m =
    (if \<not> enable_neuware (cfg p) then ((UNSUPPORT, None, this), m)
     else
       let buf_size = page_round sz
       in if mb_mem_type this \<noteq> CAMBRICON_MLU then ((UNSUPPORT, None, this), m)
          else case cnMallocPeerAble (cn p) buf_size m of ((ret, a), m1) \<Rightarrow>
            let this1 = store_mlu this a
            in if ret = 0 then ((SUCCESS, Some (mlu_addr this1), this1), m1)
               else case cnMalloc (cn p) buf_size m1 of ((ret2, a2), m2) \<Rightarrow>
                 let this2 = store_mlu this1 a2
                 in if ret2 \<noteq> 0 then ((ERROR, None, this2), m2)
                    else ((SUCCESS, Some (mlu_addr this2), this2), m2))"

definition NeuwareMemory_freeBuffer :: "'hw platform \<Rightarrow> addr \<Rightarrow> ('hw, status_t) call" where
  "NeuwareMemory_freeBuffer p a m =
    (if \<not> enable_neuware (cfg p) then (UNSUPPORT, m) else apfst ok_code (cnFree (cn p) a m))"

text \<open>The three Cambricon copies are the same code: \<^verbatim>\<open>cnMemcpy\<close> takes no direction.\<close>

definition NeuwareMemory_copy ::
  "'hw platform \<Rightarrow> addr \<Rightarrow> addr \<Rightarrow> size_t \<Rightarrow> ('hw, status_t) call" where
  "NeuwareMemory_copy p dest src sz m =
    (if \<not> enable_neuware (cfg p) then (UNSUPPORT, m)
     else if dest = 0 \<or> src = 0 then (ERROR, m)
     else apfst ok_code (cnMemcpy (cn p) dest src sz m))"

definition NeuwareMemory_copyHostToDevice where
  "NeuwareMemory_copyHostToDevice = NeuwareMemory_copy"
definition NeuwareMemory_copyDeviceToHost where
  "NeuwareMemory_copyDeviceToHost = NeuwareMemory_copy"
definition NeuwareMemory_copyDeviceToDevice where
  "NeuwareMemory_copyDeviceToDevice = NeuwareMemory_copy"

section \<open>MusaMemory\<close>

definition MusaMemory_init :: "'hw platform \<Rightarrow> ('hw, status_t) call" where
  "MusaMemory_init p m = (if enable_musa (cfg p) then gpuInit p m else (UNSUPPORT, m))"

definition MusaMemory_free :: "'hw platform \<Rightarrow> ('hw, status_t) call" where
  "MusaMemory_free p m = (if enable_musa (cfg p) then (SUCCESS, m) else (UNSUPPORT, m))"

text \<open>A pinned host buffer: aligned allocation, registration, then the device pointer (only
  logged).  Neither error path after the allocation gives the host buffer back.\<close>

definition MusaMemory_allocateBuffer ::
  "'hw platform \<Rightarrow> MemoryBase \<Rightarrow> size_t \<Rightarrow> ('hw, status_t \<times> addr option) call" where
  "MusaMemory_allocateBuffer p this sz m =
    (if \<not> enable_musa (cfg p) then ((UNSUPPORT, None), m)
     else if mb_mem_type this \<noteq> MOORE_GPU then ((UNSUPPORT, None), m)
     else case posix_memalign (lc p) 128 sz m of ((rc, host_ptr), m1) \<Rightarrow>
       if rc \<noteq> 0 \<or> host_ptr = 0 then ((ERROR, None), m1)
       else case musaHostRegister (mu p) host_ptr sz m1 of (mret, m2) \<Rightarrow>
         if mret \<noteq> 0 then ((ERROR, None), m2)
         else case musaHostGetDevicePointer (mu p) host_ptr m2 of ((mret2, _), m3) \<Rightarrow>
           if mret2 \<noteq> 0 then ((ERROR, None), snd (musaHostUnregister (mu p) host_ptr m3))
           else ((SUCCESS, Some host_ptr), m3))"

definition MusaMemory_allocatePeerableBuffer ::
  "'hw platform \<Rightarrow> MemoryBase \<Rightarrow> size_t \<Rightarrow> ('hw, status_t \<times> addr option) call" where
  "MusaMemory_allocatePeerableBuffer p this sz m =
    (if \<not> enable_musa (cfg p) then ((UNSUPPORT, None), m)
     else MusaMemory_allocateBuffer p this (page_round sz) m)"

definition MusaMemory_freeBuffer :: "'hw platform \<Rightarrow> addr \<Rightarrow> ('hw, status_t) call" where
  "MusaMemory_freeBuffer p a m =
    (if \<not> enable_musa (cfg p) then (UNSUPPORT, m)
     else case musaHostUnregister (mu p) a m of (ret, m1) \<Rightarrow>
       if ret \<noteq> 0 then (ERROR, m1) else (SUCCESS, c_free (lc p) a m1))"

definition MusaMemory_copy ::
  "memcpyKind \<Rightarrow> 'hw platform \<Rightarrow> addr \<Rightarrow> addr \<Rightarrow> size_t \<Rightarrow> ('hw, status_t) call" where
  "MusaMemory_copy k p dest src sz m =
    (if \<not> enable_musa (cfg p) then (UNSUPPORT, m)
     else if dest = 0 \<or> src = 0 then (ERROR, m)
     else apfst ok_code (musaMemcpy (mu p) k dest src sz m))"

definition MusaMemory_copyHostToDevice where
  "MusaMemory_copyHostToDevice = MusaMemory_copy HostToDevice"
definition MusaMemory_copyDeviceToHost where
  "MusaMemory_copyDeviceToHost = MusaMemory_copy DeviceToHost"
definition MusaMemory_copyDeviceToDevice where
  "MusaMemory_copyDeviceToDevice = MusaMemory_copy DeviceToDevice"

section \<open>The wrapper Memory (hddt\_memory.cpp)\<close>

record Memory =
  hmcDeviceId :: int
  hmcMemoryType :: MemoryType
  memoryClass :: "MemoryClass option"
  initStatus :: status_t

text \<open>Virtual dispatch on \<^verbatim>\<open>memoryClass\<close>.\<close>

fun MemoryBase_init :: "'hw platform \<Rightarrow> MemoryClass \<Rightarrow> ('hw, status_t \<times> MemoryClass) call" where
  "MemoryBase_init p (HostMemory b) m = apfst (\<lambda>s. (s, HostMemory b)) (HostMemory_init m)"
| "MemoryBase_init p (CudaMemory b) m = apfst (\<lambda>s. (s, CudaMemory b)) (CudaMemory_init p m)"
| "MemoryBase_init p (RocmMemory b) m = apfst (\<lambda>s. (s, RocmMemory b)) (RocmMemory_init p b m)"
| "MemoryBase_init p (NeuwareMemory b) m =
     apfst (\<lambda>(s, b'). (s, NeuwareMemory b')) (NeuwareMemory_init p b m)"
| "MemoryBase_init p (MusaMemory b) m = apfst (\<lambda>s. (s, MusaMemory b)) (MusaMemory_init p m)"

fun MemoryBase_free :: "'hw platform \<Rightarrow> MemoryClass \<Rightarrow> ('hw, status_t) call" where
  "MemoryBase_free p (HostMemory b) m = HostMemory_free m"
| "MemoryBase_free p (CudaMemory b) m = CudaMemory_free p m"
| "MemoryBase_free p (RocmMemory b) m = RocmMemory_free p m"
| "MemoryBase_free p (NeuwareMemory b) m = NeuwareMemory_free p b m"
| "MemoryBase_free p (MusaMemory b) m = MusaMemory_free p m"

fun MemoryBase_allocateBuffer ::
  "'hw platform \<Rightarrow> MemoryClass \<Rightarrow> size_t \<Rightarrow> ('hw, status_t \<times> addr option \<times> MemoryClass) call" where
  "MemoryBase_allocateBuffer p (HostMemory b) n m =
     apfst (\<lambda>(s, a). (s, a, HostMemory b)) (HostMemory_allocateBuffer p n m)"
| "MemoryBase_allocateBuffer p (CudaMemory b) n m =
     apfst (\<lambda>(s, a). (s, a, CudaMemory b)) (CudaMemory_allocateBuffer p b n m)"
| "MemoryBase_allocateBuffer p (RocmMemory b) n m =
     apfst (\<lambda>(s, a). (s, a, RocmMemory b)) (RocmMemory_allocateBuffer p b n m)"
| "MemoryBase_allocateBuffer p (NeuwareMemory b) n m =
     apfst (\<lambda>(s, a, b'). (s, a, NeuwareMemory b')) (NeuwareMemory_allocateBuffer p b n m)"
| "MemoryBase_allocateBuffer p (MusaMemory b) n m =
     apfst (\<lambda>(s, a). (s, a, MusaMemory b)) (MusaMemory_allocateBuffer p b n m)"

fun MemoryBase_allocatePeerableBuffer ::
  "'hw platform \<Rightarrow> MemoryClass \<Rightarrow> size_t \<Rightarrow> ('hw, status_t \<times> addr option \<times> MemoryClass) call" where
  "MemoryBase_allocatePeerableBuffer p (HostMemory b) n m =
     apfst (\<lambda>(s, a). (s, a, HostMemory b)) (HostMemory_allocatePeerableBuffer p n m)"
| "MemoryBase_allocatePeerableBuffer p (CudaMemory b) n m =
     apfst (\<lambda>(s, a). (s, a, CudaMemory b)) (CudaMemory_allocatePeerableBuffer p b n m)"
| "MemoryBase_allocatePeerableBuffer p (RocmMemory b) n m =
     apfst (\<lambda>(s, a). (s, a, RocmMemory b)) (RocmMemory_allocatePeerableBuffer p b n m)"
| "MemoryBase_allocatePeerableBuffer p (NeuwareMemory b) n m =
     apfst (\<lambda>(s, a, b'). (s, a, NeuwareMemory b')) (NeuwareMemory_allocatePeerableBuffer p b n m)"
| "MemoryBase_allocatePeerableBuffer p (MusaMemory b) n m =
     apfst (\<lambda>(s, a). (s, a, MusaMemory b)) (MusaMemory_allocatePeerableBuffer p b n m)"

fun MemoryBase_freeBuffer :: "'hw platform \<Rightarrow> MemoryClass \<Rightarrow> addr \<Rightarrow> ('hw, status_t) call" where
  "MemoryBase_freeBuffer p (HostMemory b) a m = HostMemory_freeBuffer p a m"
| "MemoryBase_freeBuffer p (CudaMemory b) a m = CudaMemory_freeBuffer p a m"
| "MemoryBase_freeBuffer p (RocmMemory b) a m = RocmMemory_freeBuffer p a m"
| "MemoryBase_freeBuffer p (NeuwareMemory b) a m = NeuwareMemory_freeBuffer p a m"
| "MemoryBase_freeBuffer p (MusaMemory b) a m = MusaMemory_freeBuffer p a m"

fun MemoryBase_copyHostToDevice ::
  "'hw platform \<Rightarrow> MemoryClass \<Rightarrow> addr \<Rightarrow> addr \<Rightarrow> size_t \<Rightarrow> ('hw, status_t) call" where
  "MemoryBase_copyHostToDevice p (HostMemory b) = HostMemory_copyHostToDevice"
| "MemoryBase_copyHostToDevice p (CudaMemory b) = CudaMemory_copyHostToDevice p"
| "MemoryBase_copyHostToDevice p (RocmMemory b) = RocmMemory_copyHostToDevice p"
| "MemoryBase_copyHostToDevice p (NeuwareMemory b) = NeuwareMemory_copyHostToDevice p"
| "MemoryBase_copyHostToDevice p (MusaMemory b) = MusaMemory_copyHostToDevice p"

fun MemoryBase_copyDeviceToHost ::
  "'hw platform \<Rightarrow> MemoryClass \<Rightarrow> addr \<Rightarrow> addr \<Rightarrow> size_t \<Rightarrow> ('hw, status_t) call" where
  "MemoryBase_copyDeviceToHost p (HostMemory b) = HostMemory_copyDeviceToHost"
| "MemoryBase_copyDeviceToHost p (CudaMemory b) = CudaMemory_copyDeviceToHost p"
| "MemoryBase_copyDeviceToHost p (RocmMemory b) = RocmMemory_copyDeviceToHost p"
| "MemoryBase_copyDeviceToHost p (NeuwareMemory b) = NeuwareMemory_copyDeviceToHost p"
| "MemoryBase_copyDeviceToHost p (MusaMemory b) = MusaMemory_copyDeviceToHost p"

fun MemoryBase_copyDeviceToDevice ::
  "'hw platform \<Rightarrow> MemoryClass \<Rightarrow> addr \<Rightarrow> addr \<Rightarrow> size_t \<Rightarrow> ('hw, status_t) call" where
  "MemoryBase_copyDeviceToDevice p (HostMemory b) = HostMemory_copyDeviceToDevice"
| "MemoryBase_copyDeviceToDevice p (CudaMemory b) = CudaMemory_copyDeviceToDevice p"
| "MemoryBase_copyDeviceToDevice p (RocmMemory b) = RocmMemory_copyDeviceToDevice p"
| "MemoryBase_copyDeviceToDevice p (NeuwareMemory b) = NeuwareMemory_copyDeviceToDevice p"
| "MemoryBase_copyDeviceToDevice p (MusaMemory b) = MusaMemory_copyDeviceToDevice p"

text \<open>\<^verbatim>\<open>createMemoryClass\<close> runs the constructor of the class (mem_type.h), which calls \<^verbatim>\<open>init\<close> and
  exits the process when it fails.\<close>

definition construct :: "'hw platform \<Rightarrow> MemoryClass \<Rightarrow> ('hw, MemoryClass outcome) call" where
  "construct p c m =
    (case MemoryBase_init p c m of ((sret, c'), m1) \<Rightarrow>
       if sret \<noteq> SUCCESS then (Exit 1, m1) else (Return c', m1))"

definition createMemoryClass ::
  "'hw platform \<Rightarrow> int \<Rightarrow> MemoryType \<Rightarrow> MemoryType \<Rightarrow> ('hw, MemoryClass option outcome) call" where
  "createMemoryClass p dev hmcType t m =
    (let b = new_MemoryBase dev hmcType;
         mk = (\<lambda>c. case construct p c m of
                  (Return c', m1) \<Rightarrow> (Return (Some c'), m1)
                | (Throw e, m1) \<Rightarrow> (Throw e, m1)
                | (Exit i, m1) \<Rightarrow> (Exit i, m1))
     in case t of
          CPU \<Rightarrow> mk (HostMemory b)
        | NVIDIA_GPU \<Rightarrow> mk (CudaMemory b)
        | AMD_GPU \<Rightarrow> mk (RocmMemory b)
        | CAMBRICON_MLU \<Rightarrow> mk (NeuwareMemory b)
        | MOORE_GPU \<Rightarrow> mk (MusaMemory b)
        | DEFAULT \<Rightarrow> (Return None, m))"

text \<open>The type \<^verbatim>\<open>DEFAULT\<close> stands for: each enabled back end overrides the one before.\<close>

definition default_memory_type :: "build \<Rightarrow> MemoryType" where
  "default_memory_type b =
    (let t = CPU;
         t = (if enable_cuda b then NVIDIA_GPU else t);
         t = (if enable_rocm b then AMD_GPU else t);
         t = (if enable_neuware b then CAMBRICON_MLU else t);
         t = (if enable_musa b then MOORE_GPU else t)
     in t)"

definition setDeviceIdAndMemoryType ::
  "'hw platform \<Rightarrow> int \<Rightarrow> MemoryType \<Rightarrow> ('hw, (status_t \<times> Memory) outcome) call" where
  "setDeviceIdAndMemoryType p device_id t m =
    (let b = cfg p;
         finish = (\<lambda>hmcType.
           case createMemoryClass p device_id hmcType hmcType m of
             (Throw e, m1) \<Rightarrow> (Throw e, m1)
           | (Exit i, m1) \<Rightarrow> (Exit i, m1)
           | (Return None, m1) \<Rightarrow>
               (Return (INVALID_CONFIG, \<lparr> hmcDeviceId = device_id, hmcMemoryType = hmcType,
                          memoryClass = None, initStatus = INVALID_CONFIG \<rparr>), m1)
           | (Return (Some c), m1) \<Rightarrow>
               (case MemoryBase_init p c m1 of ((init_ret, c'), m2) \<Rightarrow>
                  let st = (if init_ret \<noteq> SUCCESS then init_ret else SUCCESS)
                  in (Return (st, \<lparr> hmcDeviceId = device_id, hmcMemoryType = hmcType,
                                memoryClass = Some c', initStatus = st \<rparr>), m2)))
     in if t = DEFAULT then finish (default_memory_type b)
        else if t = NVIDIA_GPU \<and> \<not> enable_cuda b then (Throw ''NVIDIA GPU is not supported'', m)
        else if t = AMD_GPU \<and> \<not> enable_rocm b then (Throw ''AMD GPU is not supported'', m)
        else if t = CAMBRICON_MLU \<and> \<not> enable_neuware b then (Throw ''Cambricon MLU is not supported'', m)
        else if t = MOORE_GPU \<and> \<not> enable_musa b then (Throw ''Moore GPU is not supported'', m)
        else finish t)"

text \<open>The forwarders.  \<^verbatim>\<open>memoryClass\<close> is set whenever the constructor has returned (lemma
  \<open>setDevice_class_set\<close> below), so the pointer they follow is never null.\<close>

definition Memory_class :: "Memory \<Rightarrow> MemoryClass" where
  "Memory_class mo = the (memoryClass mo)"

definition Memory_init :: "'hw platform \<Rightarrow> Memory \<Rightarrow> ('hw, status_t \<times> Memory) call" where
  "Memory_init p mo m =
    (case MemoryBase_init p (Memory_class mo) m of ((s, c), m1) \<Rightarrow>
       ((s, mo\<lparr>memoryClass := Some c\<rparr>), m1))"

definition Memory_free :: "'hw platform \<Rightarrow> Memory \<Rightarrow> ('hw, status_t) call" where
  "Memory_free p mo = MemoryBase_free p (Memory_class mo)"

definition Memory_allocateBuffer ::
  "'hw platform \<Rightarrow> Memory \<Rightarrow> size_t \<Rightarrow> ('hw, status_t \<times> addr option \<times> Memory) call" where
  "Memory_allocateBuffer p mo sz m =
    (case MemoryBase_allocateBuffer p (Memory_class mo) sz m of ((s, a, c), m1) \<Rightarrow>
       ((s, a, mo\<lparr>memoryClass := Some c\<rparr>), m1))"

definition Memory_allocatePeerableBuffer ::
  "'hw platform \<Rightarrow> Memory \<Rightarrow> size_t \<Rightarrow> ('hw, status_t \<times> addr option \<times> Memory) call" where
  "Memory_allocatePeerableBuffer p mo sz m =
    (case MemoryBase_allocatePeerableBuffer p (Memory_class mo) sz m of ((s, a, c), m1) \<Rightarrow>
       ((s, a, mo\<lparr>memoryClass := Some c\<rparr>), m1))"

definition Memory_freeBuffer :: "'hw platform \<Rightarrow> Memory \<Rightarrow> addr \<Rightarrow> ('hw, status_t) call" where
  "Memory_freeBuffer p mo = MemoryBase_freeBuffer p (Memory_class mo)"

definition Memory_copyHostToDevice ::
  "'hw platform \<Rightarrow> Memory \<Rightarrow> addr \<Rightarrow> addr \<Rightarrow> size_t \<Rightarrow> ('hw, status_t) call" where
  "Memory_copyHostToDevice p mo = MemoryBase_copyHostToDevice p (Memory_class mo)"

definition Memory_copyDeviceToHost ::
  "'hw platform \<Rightarrow> Memory \<Rightarrow> addr \<Rightarrow> addr \<Rightarrow> size_t \<Rightarrow> ('hw, status_t) call" where
  "Memory_copyDeviceToHost p mo = MemoryBase_copyDeviceToHost p (Memory_class mo)"

definition Memory_copyDeviceToDevice ::
  "'hw platform \<Rightarrow> Memory \<Rightarrow> addr \<Rightarrow> addr \<Rightarrow> size_t \<Rightarrow> ('hw, status_t) call" where
  "Memory_copyDeviceToDevice p mo = MemoryBase_copyDeviceToDevice p (Memory_class mo)"

definition Memory_getMemoryType :: "Memory \<Rightarrow> MemoryType" where
  "Memory_getMemoryType mo = hmcMemoryType mo"

definition Memory_getInitStatus :: "Memory \<Rightarrow> status_t" where
  "Memory_getInitStatus mo = initStatus mo"

definition Memory_getDeviceId :: "Memory \<Rightarrow> int" where
  "Memory_getDeviceId mo = hmcDeviceId mo"

section \<open>Page rounding\<close>

lemma and_not_mask_div:
  fixes x :: size_t
  shows "unat (x AND NOT (ACCEL_PAGE_SIZE - 1)) = unat x div 65536 * 65536"
proof -
  have m: "ACCEL_PAGE_SIZE - 1 = mask 16"
    by (simp add: ACCEL_PAGE_SIZE_def mask_eq_exp_minus_1)
  have "x AND NOT (mask 16) = push_bit 16 (drop_bit 16 x)"
    by (rule bit_eqI) (auto simp: bit_simps)
  then have "unat (x AND NOT (ACCEL_PAGE_SIZE - 1)) = unat (push_bit 16 (drop_bit 16 x))"
    by (simp add: m)
  also have "\<dots> = take_bit 64 (push_bit 16 (unat (drop_bit 16 x)))"
    by (simp add: unsigned_push_bit_eq)
  also have "unat (drop_bit 16 x) = unat x div 65536"
    by (simp add: drop_bit_eq_div unat_div)
  also have "take_bit 64 (push_bit 16 (unat x div 65536)) = unat x div 65536 * 65536"
  proof -
    have "unat x div 65536 * 65536 \<le> unat x" by simp
    also have "unat x < 2 ^ 64" by simp
    finally show ?thesis by (simp add: push_bit_eq_mult take_bit_nat_eq_self)
  qed
  finally show ?thesis .
qed

lemma page_round_exact:
  assumes "unat n \<le> 2 ^ 64 - 65536"
  shows "unat (page_round n) = (unat n + 65535) div 65536 * 65536"
proof -
  have "n + ACCEL_PAGE_SIZE - 1 = n + 65535" by (simp add: ACCEL_PAGE_SIZE_def)
  moreover have "unat (n + 65535) = unat n + 65535"
    using assms by (subst unat_add_no_wrap) simp_all
  ultimately show ?thesis by (metis page_round_def and_not_mask_div)
qed

lemma page_round_wraps:
  assumes "2 ^ 64 - 65536 < unat n"
  shows "page_round n = 0"
proof -
  have b: "unat n < 18446744073709551616" by simp
  have a: "18446744073709486080 < unat n" using assms by simp
  have "unat (n + 65535) = (unat n + 65535) mod 18446744073709551616"
    by (simp add: unat_word_ariths)
  also have "\<dots> = unat n + 65535 - 18446744073709551616"
    using a b by (subst le_mod_geq) (linarith, rule mod_less, linarith)
  finally have "unat (n + 65535) < 65536" using b by linarith
  then have "unat (page_round n) = 0"
    by (simp add: page_round_def and_not_mask_div) (simp add: ACCEL_PAGE_SIZE_def add.commute)
  then show ?thesis by (simp add: unat_eq_0)
qed

section \<open>The copy contract\<close>

locale device_copy =
  fixes cp :: "addr \<Rightarrow> addr \<Rightarrow> size_t \<Rightarrow> 'hw machine \<Rightarrow> status_t \<times> 'hw machine"
  assumes null_args: "dest = 0 \<or> src = 0 \<Longrightarrow> cp dest src n m = (ERROR, m)"
    and copied: "dest \<noteq> 0 \<Longrightarrow> src \<noteq> 0 \<Longrightarrow>
      cp dest src n m = (SUCCESS, m\<lparr>ram := memcpy dest src n (ram m)\<rparr>)"
begin

lemma success_iff: "fst (cp dest src n m) = SUCCESS \<longleftrightarrow> dest \<noteq> 0 \<and> src \<noteq> 0"
  using null_args copied by (cases "dest = 0 \<or> src = 0") auto

lemma read_back:
  assumes "dest \<noteq> 0" "src \<noteq> 0"
  shows "read_bytes (ram (snd (cp dest src n m))) dest (unat n) = read_bytes (ram m) src (unat n)"
  using assms by (simp add: copied read_memcpy)

lemma hw_kept: "hw (snd (cp dest src n m)) = hw m"
  using null_args copied by (cases "dest = 0 \<or> src = 0") auto

lemma frame:
  assumes "\<not> in_range a dest n"
  shows "ram (snd (cp dest src n m)) a = ram m a"
  using assms null_args copied by (cases "dest = 0 \<or> src = 0") (auto simp: memcpy_outside)

text \<open>Two copies through a third area hand the bytes on unchanged.\<close>

lemma relay:
  assumes "mid \<noteq> 0" "src \<noteq> 0" "dest \<noteq> 0"
  shows "read_bytes (ram (snd (cp dest mid n (snd (cp mid src n m))))) dest (unat n)
    = read_bytes (ram m) src (unat n)"
  using read_back [of dest mid n "snd (cp mid src n m)"] read_back [of mid src n m] assms by simp

end

interpretation host_h2d: device_copy HostMemory_copyHostToDevice
  by unfold_locales (simp_all add: HostMemory_copyHostToDevice_def)

interpretation host_d2h: device_copy HostMemory_copyDeviceToHost
  by unfold_locales (simp_all add: HostMemory_copyDeviceToHost_def)

interpretation host_d2d: device_copy HostMemory_copyDeviceToDevice
  by unfold_locales (simp_all add: HostMemory_copyDeviceToDevice_def)

text \<open>The accelerator copies.  What the run times document: a copy that reports success has
  moved the bytes.\<close>

definition copies_on :: "'e \<Rightarrow> (addr \<Rightarrow> addr \<Rightarrow> size_t \<Rightarrow> ('hw, 'e) call) \<Rightarrow> bool" where
  "copies_on ok f \<longleftrightarrow>
    (\<forall>d s n m. fst (f d s n m) = ok \<longrightarrow> ram (snd (f d s n m)) = memcpy d s n (ram m))"

definition conforming_copies :: "'hw platform \<Rightarrow> bool" where
  "conforming_copies p \<longleftrightarrow>
    (\<forall>k. copies_on cudaSuccess (cudaMemcpy (cu p) k) \<and> copies_on 0 (hipMemcpy (hip p) k)
       \<and> copies_on 0 (musaMemcpy (mu p) k)) \<and> copies_on 0 (cnMemcpy (cn p))"

fun is_cuda :: "MemoryClass \<Rightarrow> bool" where
  "is_cuda (CudaMemory b) = True"
| "is_cuda _ = False"

definition cuda_unloading ::
  "'hw platform \<Rightarrow> memcpyKind \<Rightarrow> addr \<Rightarrow> addr \<Rightarrow> size_t \<Rightarrow> 'hw machine \<Rightarrow> bool" where
  "cuda_unloading p k dest src n m \<longleftrightarrow>
     is_exit_stage_cuda_error (fst (cudaMemcpy (cu p) k dest src n m))"

lemmas copy_defs = CudaMemory_copyHostToDevice_def CudaMemory_copyDeviceToHost_def
  CudaMemory_copyDeviceToDevice_def RocmMemory_copyHostToDevice_def
  RocmMemory_copyDeviceToHost_def RocmMemory_copyDeviceToDevice_def
  NeuwareMemory_copyHostToDevice_def NeuwareMemory_copyDeviceToHost_def
  NeuwareMemory_copyDeviceToDevice_def MusaMemory_copyHostToDevice_def
  MusaMemory_copyDeviceToHost_def MusaMemory_copyDeviceToDevice_def

lemma cuda_copy_success:
  assumes "conforming_copies p" "CudaMemory_copy k p dest src n m = (SUCCESS, m')"
    "\<not> cuda_unloading p k dest src n m"
  shows "dest \<noteq> 0 \<and> src \<noteq> 0 \<and> ram m' = memcpy dest src n (ram m)"
  using assms
  by (auto simp: CudaMemory_copy_def cuda_unloading_def conforming_copies_def copies_on_def
      split: if_splits prod.splits) (metis fst_conv snd_conv)

lemma code_copy_success:
  assumes "copies_on 0 f" "apfst ok_code (f dest src n m) = (SUCCESS, m')"
  shows "ram m' = memcpy dest src n (ram m)"
proof -
  from assms(2) have "f dest src n m = (0, m')"
    by (cases "f dest src n m") (auto simp: ok_code_def split: if_splits)
  with assms(1) show ?thesis by (metis copies_on_def fst_conv snd_conv)
qed

lemma rocm_copy_success:
  assumes "conforming_copies p" "RocmMemory_copy k p dest src n m = (SUCCESS, m')"
  shows "dest \<noteq> 0 \<and> src \<noteq> 0 \<and> ram m' = memcpy dest src n (ram m)"
  using assms code_copy_success [of "hipMemcpy (hip p) k" dest src n m m']
  by (auto simp: RocmMemory_copy_def conforming_copies_def split: if_splits)

lemma neuware_copy_success:
  assumes "conforming_copies p" "NeuwareMemory_copy p dest src n m = (SUCCESS, m')"
  shows "dest \<noteq> 0 \<and> src \<noteq> 0 \<and> ram m' = memcpy dest src n (ram m)"
  using assms code_copy_success [of "cnMemcpy (cn p)" dest src n m m']
  by (auto simp: NeuwareMemory_copy_def conforming_copies_def split: if_splits)

lemma musa_copy_success:
  assumes "conforming_copies p" "MusaMemory_copy k p dest src n m = (SUCCESS, m')"
  shows "dest \<noteq> 0 \<and> src \<noteq> 0 \<and> ram m' = memcpy dest src n (ram m)"
  using assms code_copy_success [of "musaMemcpy (mu p) k" dest src n m m']
  by (auto simp: MusaMemory_copy_def conforming_copies_def split: if_splits)

lemmas copy_success = cuda_copy_success rocm_copy_success neuware_copy_success musa_copy_success

lemma MemoryBase_h2d_success:
  assumes "conforming_copies p" "MemoryBase_copyHostToDevice p c dest src n m = (SUCCESS, m')"
    "is_cuda c \<Longrightarrow> \<not> cuda_unloading p HostToDevice dest src n m"
  shows "dest \<noteq> 0 \<and> src \<noteq> 0 \<and> ram m' = memcpy dest src n (ram m)"
  using assms by (cases c)
    (auto simp: copy_defs HostMemory_copyHostToDevice_def split: if_splits dest: copy_success)

lemma MemoryBase_d2h_success:
  assumes "conforming_copies p" "MemoryBase_copyDeviceToHost p c dest src n m = (SUCCESS, m')"
    "is_cuda c \<Longrightarrow> \<not> cuda_unloading p DeviceToHost dest src n m"
  shows "dest \<noteq> 0 \<and> src \<noteq> 0 \<and> ram m' = memcpy dest src n (ram m)"
  using assms by (cases c)
    (auto simp: copy_defs HostMemory_copyDeviceToHost_def split: if_splits dest: copy_success)

lemma MemoryBase_d2d_success:
  assumes "conforming_copies p" "MemoryBase_copyDeviceToDevice p c dest src n m = (SUCCESS, m')"
    "is_cuda c \<Longrightarrow> \<not> cuda_unloading p DeviceToDevice dest src n m"
  shows "dest \<noteq> 0 \<and> src \<noteq> 0 \<and> ram m' = memcpy dest src n (ram m)"
  using assms by (cases c)
    (auto simp: copy_defs HostMemory_copyDeviceToDevice_def split: if_splits dest: copy_success)

section \<open>Selection of the back end\<close>

fun class_type :: "MemoryClass \<Rightarrow> MemoryType" where
  "class_type (HostMemory b) = CPU"
| "class_type (CudaMemory b) = NVIDIA_GPU"
| "class_type (RocmMemory b) = AMD_GPU"
| "class_type (NeuwareMemory b) = CAMBRICON_MLU"
| "class_type (MusaMemory b) = MOORE_GPU"

fun class_base :: "MemoryClass \<Rightarrow> MemoryBase" where
  "class_base (HostMemory b) = b"
| "class_base (CudaMemory b) = b"
| "class_base (RocmMemory b) = b"
| "class_base (NeuwareMemory b) = b"
| "class_base (MusaMemory b) = b"

text \<open>Well-formed wrapper: a back end is present, its class is the one of the recorded type, and
  the object carries that type and the device id.\<close>

definition memory_wf :: "Memory \<Rightarrow> bool" where
  "memory_wf mo \<longleftrightarrow>
    (case memoryClass mo of None \<Rightarrow> False
     | Some c \<Rightarrow> class_type c = hmcMemoryType mo \<and> mb_mem_type (class_base c) = hmcMemoryType mo
               \<and> mb_device_id (class_base c) = hmcDeviceId mo)"

lemma NeuwareMemory_init_keeps:
  "mb_mem_type (snd (fst (NeuwareMemory_init p b m))) = mb_mem_type b
   \<and> mb_device_id (snd (fst (NeuwareMemory_init p b m))) = mb_device_id b"
  by (auto simp: NeuwareMemory_init_def Let_def split: prod.splits)

lemma init_keeps_class:
  assumes "MemoryBase_init p c m = ((s, c'), m')"
  shows "class_type c' = class_type c" "mb_mem_type (class_base c') = mb_mem_type (class_base c)"
    "mb_device_id (class_base c') = mb_device_id (class_base c)"
  using assms NeuwareMemory_init_keeps [of p "class_base c" m]
  by (cases c; auto simp: apfst_def map_prod_def split: prod.splits)+

lemma store_mlu_keeps [simp]:
  "mb_mem_type (store_mlu b a) = mb_mem_type b" "mb_device_id (store_mlu b a) = mb_device_id b"
  by (simp_all add: store_mlu_def split: option.splits)

lemma Neuware_alloc_keeps:
  assumes "NeuwareMemory_allocatePeerableBuffer p b n m = ((s, a, b'), m')"
  shows "mb_mem_type b' = mb_mem_type b" "mb_device_id b' = mb_device_id b"
  using assms
  by (auto simp: NeuwareMemory_allocatePeerableBuffer_def Let_def split: if_splits prod.splits)

lemma alloc_keeps_class:
  assumes "MemoryBase_allocatePeerableBuffer p c n m = ((s, a, c'), m')"
  shows "class_type c' = class_type c" "mb_mem_type (class_base c') = mb_mem_type (class_base c)"
    "mb_device_id (class_base c') = mb_device_id (class_base c)"
  using assms
  by (cases c; auto simp: apfst_def map_prod_def dest: Neuware_alloc_keeps split: prod.splits)+

lemma Memory_alloc_wf:
  assumes "memory_wf mo" "Memory_allocatePeerableBuffer p mo n m = ((s, a, mo'), m')"
  shows "memory_wf mo'"
  using assms
  by (auto simp: memory_wf_def Memory_allocatePeerableBuffer_def Memory_class_def alloc_keeps_class
      split: option.splits prod.splits)

lemma new_MemoryBase_sel [simp]:
  "mb_mem_type (new_MemoryBase d t) = t" "mb_device_id (new_MemoryBase d t) = d"
  by (simp_all add: new_MemoryBase_def)

lemma default_memory_type_not_DEFAULT [simp]: "default_memory_type b \<noteq> DEFAULT"
  by (simp add: default_memory_type_def Let_def)

definition type_supported :: "build \<Rightarrow> MemoryType \<Rightarrow> bool" where
  "type_supported b t \<longleftrightarrow> (case t of NVIDIA_GPU \<Rightarrow> enable_cuda b | AMD_GPU \<Rightarrow> enable_rocm b
     | CAMBRICON_MLU \<Rightarrow> enable_neuware b | MOORE_GPU \<Rightarrow> enable_musa b | _ \<Rightarrow> True)"

definition resolve_type :: "build \<Rightarrow> MemoryType \<Rightarrow> MemoryType" where
  "resolve_type b t = (if t = DEFAULT then default_memory_type b else t)"

definition class_for :: "MemoryBase \<Rightarrow> MemoryType \<Rightarrow> MemoryClass" where
  "class_for b t = (case t of NVIDIA_GPU \<Rightarrow> CudaMemory b | AMD_GPU \<Rightarrow> RocmMemory b
     | CAMBRICON_MLU \<Rightarrow> NeuwareMemory b | MOORE_GPU \<Rightarrow> MusaMemory b | _ \<Rightarrow> HostMemory b)"

lemma class_for_sel:
  "t \<noteq> DEFAULT \<Longrightarrow> class_type (class_for b t) = t" "class_base (class_for b t) = b"
  by (cases t; simp add: class_for_def)+

lemma createMemoryClass_eq:
  assumes "t \<noteq> DEFAULT"
  shows "createMemoryClass p d ht t m =
    (case construct p (class_for (new_MemoryBase d ht) t) m of
       (Return c', m1) \<Rightarrow> (Return (Some c'), m1)
     | (Throw e, m1) \<Rightarrow> (Throw e, m1)
     | (Exit i, m1) \<Rightarrow> (Exit i, m1))"
  using assms by (cases t) (simp_all add: createMemoryClass_def class_for_def Let_def)

lemma createMemoryClass_sound:
  assumes "createMemoryClass p d t t m = (Return c, m')" "t \<noteq> DEFAULT"
  obtains cl where "c = Some cl" "class_type cl = t" "mb_mem_type (class_base cl) = t"
    "mb_device_id (class_base cl) = d"
proof -
  let ?c0 = "class_for (new_MemoryBase d t) t"
  obtain s cl m1 where i: "MemoryBase_init p ?c0 m = ((s, cl), m1)" by (metis prod.exhaust)
  with assms have "c = Some cl"
    by (auto simp: createMemoryClass_eq construct_def split: if_splits)
  with i show ?thesis
    using that init_keeps_class [OF i] assms(2) by (simp add: class_for_sel)
qed

lemma setDevice_return:
  assumes "setDeviceIdAndMemoryType p d t m = (Return (s, mo), m')"
  shows "memory_wf mo \<and> hmcMemoryType mo = resolve_type (cfg p) t \<and> hmcDeviceId mo = d
     \<and> initStatus mo = s \<and> type_supported (cfg p) t"
proof -
  let ?t = "resolve_type (cfg p) t"
  have sup: "type_supported (cfg p) t"
    using assms by (auto simp: setDeviceIdAndMemoryType_def type_supported_def Let_def
        split: if_splits MemoryType.splits)
  obtain c m1 where cr: "createMemoryClass p d ?t ?t m = (Return c, m1)"
    using assms
    by (auto simp: setDeviceIdAndMemoryType_def resolve_type_def Let_def
        split: if_splits prod.splits outcome.splits)
  have "?t \<noteq> DEFAULT" by (simp add: resolve_type_def)
  with cr obtain cl where cl: "c = Some cl" "class_type cl = ?t" "mb_mem_type (class_base cl) = ?t"
    "mb_device_id (class_base cl) = d" by (rule createMemoryClass_sound)
  from assms cr cl(1) obtain c' where
    mo: "mo = \<lparr>hmcDeviceId = d, hmcMemoryType = ?t, memoryClass = Some c', initStatus = s\<rparr>"
    and c': "\<exists>s' m2. MemoryBase_init p cl m1 = ((s', c'), m2)"
    by (auto simp: setDeviceIdAndMemoryType_def resolve_type_def Let_def
        split: if_splits prod.splits)
  from c' cl show ?thesis
    by (auto simp: memory_wf_def mo sup dest: init_keeps_class)
qed

end
