(* ===== verification/Hmc_ConnBuffer.thy ===== *)
theory Hmc_ConnBuffer
  imports Hmc_Memory
begin

text \<open>
  The registered communication buffer, class \<^verbatim>\<open>ConnBuffer\<close> (include/hmc.h and
  src/network/conn_buffer.cpp): a block obtained from \<^verbatim>\<open>Memory::allocatePeerableBuffer\<close> with
  bounds-checked copies in and out.  The check \<^verbatim>\<open>bias + size > buffer_size\<close> is an addition on
  \<^verbatim>\<open>size_t\<close> and is modelled on 64-bit words; \<open>range_ok_iff\<close> says exactly when it lets a range
  through.  The same check guards every one-sided operation of the RDMA endpoint.
\<close>

section \<open>State and operations\<close>

record ConnBuffer =
  ptr :: addr
  buffer_size :: size_t
  mem_ops :: "Memory option"
  cb_mem_type :: MemoryType
  cb_device_id :: int

text \<open>\<open>range_rejected off n len\<close> is the expression \<^verbatim>\<open>off + n > len\<close> on \<^verbatim>\<open>size_t\<close>.\<close>

definition range_rejected :: "size_t \<Rightarrow> size_t \<Rightarrow> size_t \<Rightarrow> bool" where
  "range_rejected off n len \<longleftrightarrow> off + n > len"

definition the_ops :: "ConnBuffer \<Rightarrow> Memory" where
  "the_ops b = the (mem_ops b)"

text \<open>The constructor ignores the status of the allocation: \<^verbatim>\<open>ptr\<close> stays null (its member
  initialiser) when nothing was stored.\<close>

definition new_ConnBuffer ::
  "'hw platform \<Rightarrow> int \<Rightarrow> size_t \<Rightarrow> MemoryType \<Rightarrow> ('hw, ConnBuffer outcome) call" where
  "new_ConnBuffer p device_id n t m =
    (case setDeviceIdAndMemoryType p device_id t m of
       (Throw e, m1) \<Rightarrow> (Throw e, m1)
     | (Exit i, m1) \<Rightarrow> (Exit i, m1)
     | (Return (_, mo), m1) \<Rightarrow>
         (case Memory_allocatePeerableBuffer p mo n m1 of ((_, a, mo'), m2) \<Rightarrow>
            (Return \<lparr> ptr = (case a of None \<Rightarrow> 0 | Some x \<Rightarrow> x), buffer_size = n,
                      mem_ops = Some mo', cb_mem_type = t, cb_device_id = device_id \<rparr>, m2)))"

definition delete_ConnBuffer :: "'hw platform \<Rightarrow> ConnBuffer \<Rightarrow> ('hw, ConnBuffer) call" where
  "delete_ConnBuffer p b m =
    (case mem_ops b of
       None \<Rightarrow> (b\<lparr>ptr := 0\<rparr>, m)
     | Some mo \<Rightarrow>
         (case Memory_freeBuffer p mo (ptr b) m of (_, m1) \<Rightarrow>
          case Memory_free p mo m1 of (_, m2) \<Rightarrow>
            (b\<lparr>mem_ops := None, ptr := 0\<rparr>, m2)))"

definition writeFromCpu ::
  "'hw platform \<Rightarrow> ConnBuffer \<Rightarrow> addr \<Rightarrow> size_t \<Rightarrow> size_t \<Rightarrow> ('hw, status_t) call" where
  "writeFromCpu p b src n bias m =
    (if range_rejected bias n (buffer_size b) then (ERROR, m)
     else Memory_copyHostToDevice p (the_ops b) (ptr b + bias) src n m)"

definition readToCpu ::
  "'hw platform \<Rightarrow> ConnBuffer \<Rightarrow> addr \<Rightarrow> size_t \<Rightarrow> size_t \<Rightarrow> ('hw, status_t) call" where
  "readToCpu p b dest n bias m =
    (if range_rejected bias n (buffer_size b) then (ERROR, m)
     else if Memory_getMemoryType (the_ops b) = CPU
     then (SUCCESS, m\<lparr>ram := memcpy dest (ptr b + bias) n (ram m)\<rparr>)
     else Memory_copyDeviceToHost p (the_ops b) dest (ptr b + bias) n m)"

definition writeFromGpu ::
  "'hw platform \<Rightarrow> ConnBuffer \<Rightarrow> addr \<Rightarrow> size_t \<Rightarrow> size_t \<Rightarrow> ('hw, status_t) call" where
  "writeFromGpu p b src n bias m =
    (if range_rejected bias n (buffer_size b) then (ERROR, m)
     else if Memory_getMemoryType (the_ops b) = CPU then (ERROR, m)
     else Memory_copyDeviceToDevice p (the_ops b) (ptr b + bias) src n m)"

definition readToGpu ::
  "'hw platform \<Rightarrow> ConnBuffer \<Rightarrow> addr \<Rightarrow> size_t \<Rightarrow> size_t \<Rightarrow> ('hw, status_t) call" where
  "readToGpu p b dest n bias m =
    (if range_rejected bias n (buffer_size b) then (ERROR, m)
     else if Memory_getMemoryType (the_ops b) = CPU then (ERROR, m)
     else Memory_copyDeviceToDevice p (the_ops b) dest (ptr b + bias) n m)"

definition copyWithin ::
  "'hw platform \<Rightarrow> ConnBuffer \<Rightarrow> size_t \<Rightarrow> size_t \<Rightarrow> size_t \<Rightarrow> ('hw, status_t) call" where
  "copyWithin p b dst_bias src_bias n m =
    (if range_rejected dst_bias n (buffer_size b) \<or> range_rejected src_bias n (buffer_size b)
     then (ERROR, m)
     else if n = 0 \<or> dst_bias = src_bias then (SUCCESS, m)
     else if Memory_getMemoryType (the_ops b) = CPU
     then (SUCCESS, m\<lparr>ram := memmove (ptr b + dst_bias) (ptr b + src_bias) n (ram m)\<rparr>)
     else Memory_copyDeviceToDevice p (the_ops b) (ptr b + dst_bias) (ptr b + src_bias) n m)"

section \<open>The range check\<close>

text \<open>What the check means to say: the range lies in the buffer as unbounded numbers.\<close>

definition range_fits :: "size_t \<Rightarrow> size_t \<Rightarrow> size_t \<Rightarrow> bool" where
  "range_fits off n len \<longleftrightarrow> unat off + unat n \<le> unat len"

definition range_wraps :: "size_t \<Rightarrow> size_t \<Rightarrow> bool" where
  "range_wraps off n \<longleftrightarrow> 2 ^ 64 \<le> unat off + unat n"

lemma range_sum_wrapped:
  fixes off n :: size_t
  assumes "range_wraps off n"
  shows "unat (off + n) = unat off + unat n - 18446744073709551616"
proof -
  have b: "unat off < 18446744073709551616" "unat n < 18446744073709551616" by simp_all
  have w: "18446744073709551616 \<le> unat off + unat n" using assms by (simp add: range_wraps_def)
  have "unat (off + n) = (unat off + unat n) mod 18446744073709551616"
    by (simp add: unat_word_ariths)
  also have "\<dots> = unat off + unat n - 18446744073709551616"
    using b w by (subst le_mod_geq) (assumption, rule mod_less, linarith)
  finally show ?thesis .
qed

lemma range_rejected_exact:
  assumes "\<not> range_wraps off n"
  shows "\<not> range_rejected off n len \<longleftrightarrow> range_fits off n len"
proof -
  have "unat (off + n) = unat off + unat n"
    using assms by (subst unat_add_no_wrap) (simp_all add: range_wraps_def)
  then show ?thesis by (simp add: range_rejected_def range_fits_def word_less_nat_alt not_less)
qed

lemma fits_not_wraps: "range_fits off n len \<Longrightarrow> \<not> range_wraps off n"
proof -
  assume f: "range_fits off n len"
  have "unat len < 18446744073709551616" by simp
  with f have "unat off + unat n < 18446744073709551616"
    unfolding range_fits_def by (rule order.strict_trans1)
  then show ?thesis by (simp add: range_wraps_def)
qed

lemma fits_accepted: "range_fits off n len \<Longrightarrow> \<not> range_rejected off n len"
  using fits_not_wraps range_rejected_exact by blast

lemma accepted_iff:
  "\<not> range_rejected off n len \<longleftrightarrow>
     range_fits off n len \<or> (range_wraps off n \<and> unat off + unat n - 2 ^ 64 \<le> unat len)"
proof (cases "range_wraps off n")
  case True
  then have "\<not> range_fits off n len" using fits_not_wraps by blast
  moreover have "\<not> range_rejected off n len \<longleftrightarrow> unat off + unat n - 18446744073709551616 \<le> unat len"
    using range_sum_wrapped [OF True] by (simp add: range_rejected_def word_less_nat_alt not_less)
  ultimately show ?thesis using True by simp
next
  case False
  then show ?thesis using range_rejected_exact by blast
qed

text \<open>Addresses of a range that fits are addresses of the buffer.\<close>

lemma fits_in_buffer:
  assumes "range_fits off n (buffer_size b)" "in_range a (ptr b + off) n"
  shows "in_range a (ptr b) (buffer_size b)"
  using in_sub_range assms unfolding range_fits_def by blast

lemmas conn_buffer_defs = writeFromCpu_def readToCpu_def writeFromGpu_def readToGpu_def
  copyWithin_def

section \<open>A buffer on a well-formed Memory\<close>

definition conn_buffer_wf :: "ConnBuffer \<Rightarrow> bool" where
  "conn_buffer_wf b \<longleftrightarrow> (case mem_ops b of None \<Rightarrow> False | Some mo \<Rightarrow> memory_wf mo)"

lemma new_ConnBuffer_wf:
  assumes "new_ConnBuffer p d n t m = (Return b, m')"
  shows "conn_buffer_wf b \<and> buffer_size b = n \<and> cb_device_id b = d
    \<and> hmcMemoryType (the_ops b) = resolve_type (cfg p) t"
proof -
  obtain s mo m1 where 1: "setDeviceIdAndMemoryType p d t m = (Return (s, mo), m1)"
    using assms by (auto simp: new_ConnBuffer_def split: prod.splits outcome.splits)
  obtain s2 a mo' m2 where 2: "Memory_allocatePeerableBuffer p mo n m1 = ((s2, a, mo'), m2)"
    by (metis prod.exhaust)
  have "hmcMemoryType mo' = hmcMemoryType mo"
    using 2 by (auto simp: Memory_allocatePeerableBuffer_def split: prod.splits)
  with 1 2 assms setDevice_return [OF 1] Memory_alloc_wf [OF _ 2] show ?thesis
    by (auto simp: new_ConnBuffer_def conn_buffer_wf_def the_ops_def)
qed

lemma host_class:
  assumes "conn_buffer_wf b" "hmcMemoryType (the_ops b) = CPU"
  obtains base where "Memory_class (the_ops b) = HostMemory base"
proof -
  have "class_type (Memory_class (the_ops b)) = CPU"
    using assms by (auto simp: conn_buffer_wf_def memory_wf_def the_ops_def Memory_class_def
        split: option.splits)
  then show ?thesis using that by (cases "Memory_class (the_ops b)") auto
qed

section \<open>Properties\<close>

definition copy_reliable ::
  "'hw platform \<Rightarrow> ConnBuffer \<Rightarrow> memcpyKind \<Rightarrow> addr \<Rightarrow> addr \<Rightarrow> size_t \<Rightarrow> 'hw machine \<Rightarrow> bool" where
  "copy_reliable p b k dest src n m \<longleftrightarrow>
     is_cuda (Memory_class (the_ops b)) \<longrightarrow> \<not> cuda_unloading p k dest src n m"

lemma writeFromCpu_success:
  assumes "conforming_copies p" "writeFromCpu p b src n bias m = (SUCCESS, m1)"
    "copy_reliable p b HostToDevice (ptr b + bias) src n m"
  shows "ram m1 = memcpy (ptr b + bias) src n (ram m)"
  using assms MemoryBase_h2d_success [of p "Memory_class (the_ops b)" "ptr b + bias" src n m m1]
  by (auto simp: writeFromCpu_def Memory_copyHostToDevice_def copy_reliable_def split: if_splits)

lemma readToCpu_success:
  assumes "conforming_copies p" "readToCpu p b dest n bias m = (SUCCESS, m1)"
    "copy_reliable p b DeviceToHost dest (ptr b + bias) n m"
  shows "ram m1 = memcpy dest (ptr b + bias) n (ram m)"
  using assms MemoryBase_d2h_success [of p "Memory_class (the_ops b)" dest "ptr b + bias" n m m1]
  by (auto simp: readToCpu_def Memory_copyDeviceToHost_def copy_reliable_def split: if_splits)

lemma copyWithin_success:
  assumes "conforming_copies p" "copyWithin p b db sb n m = (SUCCESS, m1)"
    "copy_reliable p b DeviceToDevice (ptr b + db) (ptr b + sb) n m"
  shows "ram m1 = memcpy (ptr b + db) (ptr b + sb) n (ram m)"
proof (cases "n = 0 \<or> db = sb")
  case True
  then have "ram m1 = ram m" using assms(2) by (auto simp: copyWithin_def split: if_splits)
  moreover have "memcpy (ptr b + db) (ptr b + sb) n (ram m) = ram m"
    using True by (auto simp: memcpy_def)
  ultimately show ?thesis by simp
next
  case False
  then show ?thesis
    using assms
      MemoryBase_d2d_success [of p "Memory_class (the_ops b)" "ptr b + db" "ptr b + sb" n m m1]
    by (auto simp: copyWithin_def Memory_copyDeviceToDevice_def copy_reliable_def memmove_eq_memcpy
        split: if_splits)
qed

text \<open>C7: bytes written into a connection buffer come back unchanged.  On every back end whose run
  time copies what it reports as copied, a successful \<^verbatim>\<open>writeFromCpu\<close> followed by a successful
  \<^verbatim>\<open>readToCpu\<close> of the same range delivers the source bytes, and when the range fits, the write
  has changed no address outside the buffer.\<close>

theorem conn_buffer_round_trip:
  assumes "conforming_copies p"
    and "writeFromCpu p b src n bias m = (SUCCESS, m1)"
    and "copy_reliable p b HostToDevice (ptr b + bias) src n m"
    and "readToCpu p b dest n bias m1 = (SUCCESS, m2)"
    and "copy_reliable p b DeviceToHost dest (ptr b + bias) n m1"
  shows "read_bytes (ram m2) dest (unat n) = read_bytes (ram m) src (unat n)
    \<and> (range_fits bias n (buffer_size b) \<longrightarrow>
         (\<forall>a. \<not> in_range a (ptr b) (buffer_size b) \<longrightarrow> ram m1 a = ram m a))"
proof -
  note w = writeFromCpu_success [OF assms(1-3)]
  note r = readToCpu_success [OF assms(1,4,5)]
  have "read_bytes (ram m2) dest (unat n) = read_bytes (ram m) src (unat n)"
    by (simp add: r read_memcpy w)
  moreover have "ram m1 a = ram m a"
    if "range_fits bias n (buffer_size b)" "\<not> in_range a (ptr b) (buffer_size b)" for a
    unfolding w using that fits_in_buffer [of bias n b a] by (intro memcpy_outside) blast
  ultimately show ?thesis by blast
qed

text \<open>C13: the range check of every operation of the buffer, exactly.  On a host buffer,
  \<^verbatim>\<open>writeFromCpu\<close> succeeds for the ranges that lie in the buffer, and also for those whose sum
  wraps past 2 to the 64 to a value within the buffer size; every other range is refused with the
  memory untouched.\<close>

theorem writeFromCpu_accepts_iff:
  assumes "conn_buffer_wf b" "hmcMemoryType (the_ops b) = CPU" "src \<noteq> 0" "ptr b + bias \<noteq> 0"
  shows "(fst (writeFromCpu p b src n bias m) = SUCCESS \<longleftrightarrow>
      range_fits bias n (buffer_size b)
      \<or> (range_wraps bias n \<and> unat bias + unat n - 2 ^ 64 \<le> unat (buffer_size b)))
    \<and> (fst (writeFromCpu p b src n bias m) \<noteq> SUCCESS \<longrightarrow> writeFromCpu p b src n bias m = (ERROR, m))"
proof -
  obtain base where c: "Memory_class (the_ops b) = HostMemory base"
    using assms(1,2) by (rule host_class)
  have "fst (writeFromCpu p b src n bias m) = SUCCESS \<longleftrightarrow> \<not> range_rejected bias n (buffer_size b)"
    using assms(3,4) by (simp add: writeFromCpu_def Memory_copyHostToDevice_def c host_h2d.success_iff)
  moreover have "fst (writeFromCpu p b src n bias m) \<noteq> SUCCESS \<longrightarrow>
      writeFromCpu p b src n bias m = (ERROR, m)"
    using assms(3,4) by (simp add: writeFromCpu_def Memory_copyHostToDevice_def c host_h2d.copied)
  ultimately show ?thesis by (simp only: accepted_iff)
qed


section \<open>Witnesses\<close>

text \<open>A host build whose allocator serves one fixed block; no accelerator is present, so the copy
  entries of the run times are those of an absent device.\<close>

definition demo_libc :: "unit libc" where
  "demo_libc = \<lparr> op_new = (\<lambda>n m. (4096, m)), op_delete = (\<lambda>a m. m),
     posix_memalign = (\<lambda>al n m. ((0, 4096), m)), c_free = (\<lambda>a m. m) \<rparr>"

definition demo_cuda :: "unit cuda_rt" where
  "demo_cuda = \<lparr> cudaMalloc = (\<lambda>n m. ((cudaErrorOther 100, None), m)),
     cudaFree = (\<lambda>a m. (cudaErrorOther 100, m)),
     cudaGetDevice = (\<lambda>m. ((cudaErrorOther 100, None), m)),
     cudaSetDevice = (\<lambda>d m. (cudaErrorOther 100, m)),
     cudaPointerGetAttributes = (\<lambda>a m. ((cudaErrorOther 100, False, 0), m)),
     cudaGetLastError = (\<lambda>m. (cudaErrorOther 100, m)),
     cudaMemcpy = (\<lambda>k d s n m. (cudaErrorOther 100, m)),
     cudaGetDeviceCount = (\<lambda>m. ((cudaErrorOther 100, None), m)),
     cudaMemGetInfo = (\<lambda>m. ((cudaErrorOther 100, None), m)),
     cudaDeviceGetPCIBusId = (\<lambda>n d m. ((cudaErrorOther 100, []), m)) \<rparr>"

definition demo_hip :: "unit hip_rt" where
  "demo_hip = \<lparr> hipInit = (\<lambda>m. (100, m)), hipMalloc = (\<lambda>n m. ((100, None), m)),
     hipFree = (\<lambda>a m. (100, m)), hipGetDevice = (\<lambda>m. ((100, None), m)),
     hipSetDevice = (\<lambda>d m. (100, m)), hipMemcpy = (\<lambda>k d s n m. (100, m)),
     hipGetDeviceCount = (\<lambda>m. ((100, None), m)), hipMemGetInfo = (\<lambda>m. ((100, None), m)),
     hipDeviceGetPCIBusId = (\<lambda>n d m. ((100, []), m)) \<rparr>"

definition demo_cn :: "unit cn_rt" where
  "demo_cn = \<lparr> cnInit = (\<lambda>m. (100, m)), cnMalloc = (\<lambda>n m. ((100, None), m)),
     cnMallocPeerAble = (\<lambda>n m. ((100, None), m)), cnFree = (\<lambda>a m. (100, m)),
     cnMemcpy = (\<lambda>d s n m. (100, m)), cnDeviceGet = (\<lambda>i m. ((100, 0), m)),
     cnCtxCreate = (\<lambda>d m. ((100, 0), m)), cnCtxSetCurrent = (\<lambda>c m. (100, m)),
     cnCtxDestroy = (\<lambda>c m. (100, m)), cnDeviceGetCount = (\<lambda>m. ((100, None), m)),
     cnMemGetInfo = (\<lambda>m. ((100, None), m)), cnDeviceGetPCIBusId = (\<lambda>n d m. ((100, []), m)) \<rparr>"

definition demo_musa :: "unit musa_rt" where
  "demo_musa = \<lparr> musaFree = (\<lambda>a m. (100, m)), musaHostRegister = (\<lambda>a n m. (100, m)),
     musaHostUnregister = (\<lambda>a m. (100, m)), musaHostGetDevicePointer = (\<lambda>a m. ((100, 0), m)),
     musaMemcpy = (\<lambda>k d s n m. (100, m)), musaGetDevice = (\<lambda>m. ((100, None), m)),
     musaSetDevice = (\<lambda>d m. (100, m)), musaGetDeviceCount = (\<lambda>m. ((100, None), m)),
     musaMemGetInfo = (\<lambda>m. ((100, None), m)), musaDeviceGetPCIBusId = (\<lambda>n d m. ((100, []), m)) \<rparr>"

definition demo_platform :: "unit platform" where
  "demo_platform = \<lparr> cfg = cpu_build, lc = demo_libc, cu = demo_cuda, hip = demo_hip, cn = demo_cn,
     mu = demo_musa \<rparr>"

definition demo_machine :: "unit machine" where
  "demo_machine = \<lparr> ram = (\<lambda>a. ucast a), hw = () \<rparr>"

definition demo_buffer :: ConnBuffer where
  "demo_buffer = \<lparr> ptr = 4096, buffer_size = 64,
     mem_ops = Some \<lparr> hmcDeviceId = 0, hmcMemoryType = CPU,
       memoryClass = Some (HostMemory (new_MemoryBase 0 CPU)), initStatus = SUCCESS \<rparr>,
     cb_mem_type = CPU, cb_device_id = 0 \<rparr>"

lemmas demo_defs = demo_platform_def demo_machine_def demo_buffer_def demo_libc_def cpu_build_def

lemma demo_conforming: "conforming_copies demo_platform"
  by (simp add: conforming_copies_def copies_on_def demo_platform_def demo_cuda_def demo_hip_def
      demo_cn_def demo_musa_def)

text \<open>The constructor produces exactly this buffer.\<close>

lemma demo_buffer_constructed:
  "new_ConnBuffer demo_platform 0 64 CPU demo_machine = (Return demo_buffer, demo_machine)"
  by (simp add: new_ConnBuffer_def setDeviceIdAndMemoryType_def createMemoryClass_def construct_def
      HostMemory_init_def Memory_allocatePeerableBuffer_def Memory_class_def
      HostMemory_allocatePeerableBuffer_def HostMemory_allocateBuffer_def demo_defs Let_def)

lemma demo_reliable: "copy_reliable demo_platform demo_buffer k d s n m"
  by (simp add: copy_reliable_def demo_buffer_def the_ops_def Memory_class_def)

lemma demo_wf: "conn_buffer_wf demo_buffer"
  by (simp add: conn_buffer_wf_def memory_wf_def demo_buffer_def)

theorem conn_buffer_round_trip_witness:
  "\<exists>m1 m2. writeFromCpu demo_platform demo_buffer 256 16 8 demo_machine = (SUCCESS, m1)
     \<and> readToCpu demo_platform demo_buffer 512 16 8 m1 = (SUCCESS, m2)
     \<and> read_bytes (ram m2) 512 16 = read_bytes (ram demo_machine) 256 16"
proof -
  obtain m1 where 1: "writeFromCpu demo_platform demo_buffer 256 16 8 demo_machine = (SUCCESS, m1)"
    by (simp add: writeFromCpu_def range_rejected_def Memory_copyHostToDevice_def the_ops_def
        Memory_class_def demo_buffer_def host_h2d.copied)
  obtain m2 where 2: "readToCpu demo_platform demo_buffer 512 16 8 m1 = (SUCCESS, m2)"
    by (simp add: readToCpu_def range_rejected_def Memory_getMemoryType_def the_ops_def
        demo_buffer_def)
  show ?thesis
    using conn_buffer_round_trip [OF demo_conforming 1 demo_reliable 2 demo_reliable] 1 2 by auto
qed

theorem writeFromCpu_accepts_iff_witness:
  "conn_buffer_wf demo_buffer \<and> range_wraps (- 8) 16
   \<and> fst (writeFromCpu demo_platform demo_buffer 256 16 (- 8) demo_machine) = SUCCESS
   \<and> \<not> range_fits (- 8) 16 (buffer_size demo_buffer)"
proof -
  have w: "range_wraps (- 8) 16" "unat (- 8 :: size_t) + unat (16 :: size_t) - 2 ^ 64 = 8"
    by (simp_all add: range_wraps_def)
  have "\<not> range_fits (- 8) 16 (buffer_size demo_buffer)" using fits_not_wraps w(1) by blast
  moreover have "fst (writeFromCpu demo_platform demo_buffer 256 16 (- 8) demo_machine) = SUCCESS"
    using writeFromCpu_accepts_iff [OF demo_wf, of 256 "- 8" demo_platform 16 demo_machine] w
    by (simp add: demo_buffer_def the_ops_def)
  ultimately show ?thesis using demo_wf w by blast
qed


end
