(* ===== verification/Hmc_Env.thy ===== *)
theory Hmc_Env
  imports Hmc_Prelude
begin

text \<open>
  Reading numbers from the environment: \<^verbatim>\<open>envU32OrDefault\<close> and \<^verbatim>\<open>mtuFromIntOrDefault\<close> of
  src/network/rdma_endpoint.cpp and the looser \<^verbatim>\<open>get_env_u32_or_default\<close> of the benchmark client.
  \<^verbatim>\<open>strtoul\<close> in base 10 and \<^verbatim>\<open>std::to_string\<close> are modelled on strings; the environment is a function
  from names to values.
\<close>

section \<open>Decimal text of the C and C++ libraries\<close>

definition isspace :: "char \<Rightarrow> bool" where
  "isspace c \<longleftrightarrow> (of_char c :: nat) = 32 \<or> 9 \<le> (of_char c :: nat) \<and> (of_char c :: nat) \<le> 13"

definition isdigit :: "char \<Rightarrow> bool" where
  "isdigit c \<longleftrightarrow> 48 \<le> (of_char c :: nat) \<and> (of_char c :: nat) \<le> 57"

definition digit_char :: "nat \<Rightarrow> char" where
  "digit_char d = char_of (48 + d)"

fun dec_value :: "nat \<Rightarrow> string \<Rightarrow> nat" where
  "dec_value acc [] = acc"
| "dec_value acc (c # cs) = dec_value (10 * acc + (of_char c - 48)) cs"

fun to_string :: "nat \<Rightarrow> string" where
  "to_string n = (if n < 10 then [digit_char n] else to_string (n div 10) @ [digit_char (n mod 10)])"

declare to_string.simps [simp del]

text \<open>\<open>strtoul10 v\<close> is \<^verbatim>\<open>strtoul(v, &end, 10)\<close>: the value, what is left at \<^verbatim>\<open>end\<close> (\<open>None\<close>: no digit
  was found and \<^verbatim>\<open>end == v\<close>), and whether \<^verbatim>\<open>errno\<close> was set.  A minus sign negates the value as an
  unsigned number.\<close>

definition strtoul10 :: "string \<Rightarrow> u64 \<times> string option \<times> bool" where
  "strtoul10 v =
    (let s = dropWhile isspace v;
         neg = (s \<noteq> [] \<and> hd s = CHR ''-'');
         s = (if s \<noteq> [] \<and> (hd s = CHR ''-'' \<or> hd s = CHR ''+'') then tl s else s);
         ds = takeWhile isdigit s;
         n = dec_value 0 ds
     in if ds = [] then (0, None, False)
        else if 2 ^ 64 \<le> n then (- 1, Some (dropWhile isdigit s), True)
        else (if neg then - of_nat n else of_nat n, Some (dropWhile isdigit s), False))"

section \<open>The readers\<close>

type_synonym environ = "string \<Rightarrow> string option"

definition envU32OrDefault :: "environ \<Rightarrow> string \<Rightarrow> u32 \<Rightarrow> u32" where
  "envU32OrDefault env name defv =
    (case env name of
       None \<Rightarrow> defv
     | Some v \<Rightarrow>
         if v = [] then defv
         else case strtoul10 v of (out, rest, err) \<Rightarrow>
           if err \<or> rest = None \<or> rest \<noteq> Some [] then defv
           else if out > 4294967295 then defv
           else ucast out)"

text \<open>The reader of the two benchmark programs checks neither the range nor what follows the digits.\<close>

definition get_env_u32_or_default :: "environ \<Rightarrow> string \<Rightarrow> u32 \<Rightarrow> u32" where
  "get_env_u32_or_default env var_name defv =
    (case env var_name of
       None \<Rightarrow> defv
     | Some v \<Rightarrow> (case strtoul10 v of (x, rest, err) \<Rightarrow> if rest = None then defv else ucast x))"

definition get_env_or_default :: "environ \<Rightarrow> string \<Rightarrow> string \<Rightarrow> string" where
  "get_env_or_default env var_name default_val = (case env var_name of None \<Rightarrow> default_val | Some v \<Rightarrow> v)"

datatype ibv_mtu = IBV_MTU_256 | IBV_MTU_512 | IBV_MTU_1024 | IBV_MTU_2048 | IBV_MTU_4096

definition mtuFromIntOrDefault :: "u32 \<Rightarrow> ibv_mtu \<Rightarrow> ibv_mtu" where
  "mtuFromIntOrDefault mtu defv =
    (if mtu = 256 then IBV_MTU_256
     else if mtu = 512 then IBV_MTU_512
     else if mtu = 1024 then IBV_MTU_1024
     else if mtu = 2048 then IBV_MTU_2048
     else if mtu = 4096 then IBV_MTU_4096
     else defv)"

section \<open>Round trip\<close>

lemma isdigit_digit_char [simp]: "d < 10 \<Longrightarrow> isdigit (digit_char d)"
  by (simp add: isdigit_def digit_char_def)

lemma value_digit_char [simp]: "d < 10 \<Longrightarrow> of_char (digit_char d) - (48 :: nat) = d"
  by (simp add: digit_char_def)

lemma dec_value_append: "dec_value acc (xs @ ys) = dec_value (dec_value acc xs) ys"
  by (induction xs arbitrary: acc) auto

lemma to_string_digits: "\<forall>c \<in> set (to_string n). isdigit c"
proof (induction n rule: to_string.induct)
  case (1 n)
  then show ?case by (subst to_string.simps) auto
qed

lemma to_string_nonempty [simp]: "to_string n \<noteq> []"
  by (subst to_string.simps) simp

lemma dec_value_to_string: "dec_value 0 (to_string n) = n"
proof (induction n rule: to_string.induct)
  case (1 n)
  then show ?case by (subst to_string.simps) (auto simp: dec_value_append)
qed

lemma to_string_inj: "to_string m = to_string n \<longleftrightarrow> m = n"
  by (metis dec_value_to_string)

lemma isdigit_not_sign: "isdigit c \<Longrightarrow> \<not> isspace c \<and> c \<noteq> CHR ''-'' \<and> c \<noteq> CHR ''+''"
  by (auto simp: isdigit_def isspace_def)

lemma strtoul10_to_string:
  "strtoul10 (to_string n) =
     (if n < 2 ^ 64 then (of_nat n, Some [], False) else (- 1, Some [], True))"
proof -
  obtain c cs where s: "to_string n = c # cs" by (metis list.exhaust to_string_nonempty)
  have dig: "\<forall>x \<in> set (c # cs). isdigit x" using to_string_digits [of n] by (simp only: s)
  then have "isdigit c" by simp
  then have c: "\<not> isspace c" "c \<noteq> CHR ''-''" "c \<noteq> CHR ''+''" using isdigit_not_sign by blast+
  have "takeWhile isdigit (c # cs) = c # cs" "dropWhile isdigit (c # cs) = []"
    using dig by (simp_all only: takeWhile_eq_all_conv dropWhile_eq_Nil_conv)
  moreover have "dec_value 0 (c # cs) = n" using dec_value_to_string [of n] by (simp only: s)
  ultimately show ?thesis using c by (simp add: strtoul10_def s Let_def)
qed

text \<open>A 32-bit setting written in decimal is read back as that number, and an unset or empty
  variable gives the default.\<close>

theorem env_round_trip:
  fixes n :: u32
  shows "envU32OrDefault (\<lambda>x. if x = name then Some (to_string (unat n)) else None) name defv = n
    \<and> envU32OrDefault (\<lambda>x. None) name defv = defv
    \<and> envU32OrDefault (\<lambda>x. Some []) name defv = defv"
proof -
  have b: "unat n < 4294967296" using unsigned_less [of n, where ?'a = nat] by simp
  have "strtoul10 (to_string (unat n)) = (of_nat (unat n), Some [], False)"
    using b by (simp add: strtoul10_to_string)
  moreover have "\<not> (4294967295 :: u64) < of_nat (unat n)"
    using b by (simp add: word_less_nat_alt unsigned_ucast_eq take_bit_nat_eq_self)
  moreover have "ucast (ucast n :: u64) = n" by (rule bit_word_eqI) (simp add: bit_simps)
  ultimately show ?thesis by (simp add: envU32OrDefault_def)
qed

text \<open>A value outside the 32-bit range never reaches the program: whenever the text is a
  decimal number of at least 2 to the 32, the default is used.\<close>

theorem env_overflow_default:
  assumes "2 ^ 32 \<le> n"
  shows "envU32OrDefault (\<lambda>x. Some (to_string n)) name defv = defv"
proof -
  have "(4294967295 :: u64) < of_nat n" if "n < 2 ^ 64"
    using that assms by (simp add: word_less_nat_alt unat_of_nat)
  then show ?thesis by (auto simp: envU32OrDefault_def strtoul10_to_string)
qed

theorem env_overflow_default_witness:
  "envU32OrDefault (\<lambda>x. Some (to_string (2 ^ 32))) ''HMC_RDMA_MAX_WR'' 128 = 128"
  by (rule env_overflow_default) simp

end
