(* ===== verification/Hmc_RdmaEndpoint.thy ===== *)
theory Hmc_RdmaEndpoint
  imports Hmc_ConnBuffer Hmc_Env
begin

text \<open>
  The RDMA endpoint: its state (class \<^verbatim>\<open>RDMAEndpoint\<close>, src/network/net_rdma.h) and the operations of
  src/network/rdma_endpoint.cpp that post work requests and wait for completions.  libibverbs and
  the monotonic clock are the parameter \<open>verbs\<close>: functions over a world state of an arbitrary type
  \<open>'w\<close>.  The polling loops are \<^verbatim>\<open>partial_function (option)\<close>: \<open>None\<close> is a loop that never returns.
  The mutexes protect the completed set between threads; a call is modelled as it runs by itself.
\<close>

section \<open>Wire and verbs data\<close>

definition MAX_QPS :: nat where
  "MAX_QPS = 16"

record rdma_buffer_attr =
  ra_address :: u64
  ra_length :: u32
  ra_key :: u32
  ra_uhm_state_address :: u64
  ra_uhm_state_key :: u32
  ra_qp_nums :: u32
  ra_qp_num_list :: "u32 list"
  ra_gid :: "u8 list"
  ra_sgid_index :: u8

record ibv_mr =
  mr_handle :: nat
  lkey :: u32

datatype ibv_opcode = IBV_WR_SEND | IBV_WR_RDMA_WRITE | IBV_WR_RDMA_READ

text \<open>A send work request with its single scatter-gather entry.\<close>

record ibv_send_wr =
  wr_id :: u64
  opcode :: ibv_opcode
  sge_addr :: u64
  sge_length :: u32
  sge_lkey :: u32
  signaled_flag :: bool
  remote_addr :: u64
  rkey :: u32

record ibv_recv_wr =
  rwr_id :: u64
  rsge_addr :: u64
  rsge_length :: u32
  rsge_lkey :: u32

record ibv_wc =
  wc_wr_id :: u64
  wc_status :: int

type_synonym qp = nat

text \<open>The calls into libibverbs (a negative result of \<^verbatim>\<open>ibv_poll_cq\<close> is \<open>None\<close>) and
  \<^verbatim>\<open>steady_clock::now\<close> in nanoseconds.\<close>

record 'w verbs =
  ibv_post_send :: "qp option \<Rightarrow> ibv_send_wr \<Rightarrow> 'w \<Rightarrow> int \<times> 'w"
  ibv_post_recv :: "qp option \<Rightarrow> ibv_recv_wr \<Rightarrow> 'w \<Rightarrow> int \<times> 'w"
  ibv_poll_cq :: "nat \<Rightarrow> nat \<Rightarrow> 'w \<Rightarrow> ibv_wc list option \<times> 'w"
  steady_now :: "'w \<Rightarrow> int \<times> 'w"

record RDMAEndpoint =
  num_qps :: size_t
  ep_buffer :: ConnBuffer
  ep_role :: EndpointType
  connStatus :: status_t
  qps :: "qp option list"
  cq :: "nat option"
  buffer_mr :: "ibv_mr option"
  remote_metadata_attr :: rdma_buffer_attr
  local_metadata_attr :: rdma_buffer_attr
  cq_capacity :: u16
  max_sge :: u16
  max_wr :: u16
  conn_id :: u64
  next_wr_id :: u64
  next_qp_idx :: u32
  completed_wr_ids :: "u64 set"

section \<open>Construction and QP selection\<close>

text \<open>The two limits read from the environment, clamped into 16 to 65535.\<close>

definition clamp_u16 :: "u32 \<Rightarrow> u16" where
  "clamp_u16 x = ucast (max 16 (min x 65535) :: u32)"

definition empty_attr :: rdma_buffer_attr where
  "empty_attr = \<lparr> ra_address = 0, ra_length = 0, ra_key = 0, ra_uhm_state_address = 0,
     ra_uhm_state_key = 0, ra_qp_nums = 0, ra_qp_num_list = replicate MAX_QPS 0,
     ra_gid = replicate 16 0, ra_sgid_index = 0 \<rparr>"

definition new_RDMAEndpoint :: "environ \<Rightarrow> ConnBuffer \<Rightarrow> size_t \<Rightarrow> EndpointType \<Rightarrow> RDMAEndpoint" where
  "new_RDMAEndpoint env b nq r =
    (let env_cq = envU32OrDefault env ''HMC_RDMA_CQ_CAPACITY'' 256;
         env_wr = envU32OrDefault env ''HMC_RDMA_MAX_WR'' 128
     in \<lparr> num_qps = nq, ep_buffer = b, ep_role = r, connStatus = ERROR, qps = [], cq = None,
          buffer_mr = None, remote_metadata_attr = empty_attr, local_metadata_attr = empty_attr,
          cq_capacity = clamp_u16 env_cq, max_sge = 4, max_wr = clamp_u16 env_wr, conn_id = 0,
          next_wr_id = 1, next_qp_idx = 0, completed_wr_ids = {} \<rparr>)"

definition getQP :: "RDMAEndpoint \<Rightarrow> size_t \<Rightarrow> qp option" where
  "getQP e idx =
    (if num_qps e = 0 \<or> qps e = [] then None
     else if num_qps e = 1 then qps e ! 0
     else qps e ! unat (idx mod num_qps e))"

section \<open>Posting work requests\<close>

text \<open>\<^verbatim>\<open>sge.length\<close> is a 32-bit field: the length is truncated.\<close>

definition postSend ::
  "'w verbs \<Rightarrow> RDMAEndpoint \<Rightarrow> addr \<Rightarrow> size_t \<Rightarrow> ibv_mr \<Rightarrow> u64 \<Rightarrow> bool \<Rightarrow> size_t \<Rightarrow> 'w \<Rightarrow> status_t \<times> 'w" where
  "postSend v e a len mr wid sig qp_idx w =
    (case ibv_post_send v (getQP e qp_idx)
        \<lparr> wr_id = wid, opcode = IBV_WR_SEND, sge_addr = a, sge_length = ucast len,
          sge_lkey = lkey mr, signaled_flag = sig, remote_addr = 0, rkey = 0 \<rparr> w of
       (rc, w1) \<Rightarrow> (if rc \<noteq> 0 then ERROR else SUCCESS, w1))"

definition postRecv ::
  "'w verbs \<Rightarrow> RDMAEndpoint \<Rightarrow> addr \<Rightarrow> size_t \<Rightarrow> ibv_mr \<Rightarrow> u64 \<Rightarrow> size_t \<Rightarrow> 'w \<Rightarrow> status_t \<times> 'w" where
  "postRecv v e a len mr wid qp_idx w =
    (case ibv_post_recv v (getQP e qp_idx)
        \<lparr> rwr_id = wid, rsge_addr = a, rsge_length = ucast len, rsge_lkey = lkey mr \<rparr> w of
       (rc, w1) \<Rightarrow> (if rc \<noteq> 0 then ERROR else SUCCESS, w1))"

definition write_wr :: "addr \<Rightarrow> addr \<Rightarrow> size_t \<Rightarrow> ibv_mr \<Rightarrow> u32 \<Rightarrow> u64 \<Rightarrow> bool \<Rightarrow> ibv_send_wr" where
  "write_wr local_addr raddr len mr rk wid sig =
     \<lparr> wr_id = wid, opcode = IBV_WR_RDMA_WRITE, sge_addr = local_addr, sge_length = ucast len,
       sge_lkey = lkey mr, signaled_flag = sig, remote_addr = raddr, rkey = rk \<rparr>"

definition postWrite ::
  "'w verbs \<Rightarrow> RDMAEndpoint \<Rightarrow> addr \<Rightarrow> addr \<Rightarrow> size_t \<Rightarrow> ibv_mr \<Rightarrow> u32 \<Rightarrow> u64 \<Rightarrow> bool \<Rightarrow> size_t
     \<Rightarrow> 'w \<Rightarrow> status_t \<times> 'w" where
  "postWrite v e local_addr raddr len mr rk wid sig qp_idx w =
    (case ibv_post_send v (getQP e qp_idx) (write_wr local_addr raddr len mr rk wid sig) w of
       (rc, w1) \<Rightarrow> (if rc \<noteq> 0 then ERROR else SUCCESS, w1))"

definition read_wr :: "addr \<Rightarrow> addr \<Rightarrow> size_t \<Rightarrow> ibv_mr \<Rightarrow> u32 \<Rightarrow> u64 \<Rightarrow> bool \<Rightarrow> ibv_send_wr" where
  "read_wr local_addr raddr len mr rk wid sig =
     \<lparr> wr_id = wid, opcode = IBV_WR_RDMA_READ, sge_addr = local_addr, sge_length = ucast len,
       sge_lkey = lkey mr, signaled_flag = sig, remote_addr = raddr, rkey = rk \<rparr>"

definition postRead ::
  "'w verbs \<Rightarrow> RDMAEndpoint \<Rightarrow> addr \<Rightarrow> addr \<Rightarrow> size_t \<Rightarrow> ibv_mr \<Rightarrow> u32 \<Rightarrow> u64 \<Rightarrow> bool \<Rightarrow> size_t
     \<Rightarrow> 'w \<Rightarrow> status_t \<times> 'w" where
  "postRead v e local_addr raddr len mr rk wid sig qp_idx w =
    (case ibv_post_send v (getQP e qp_idx) (read_wr local_addr raddr len mr rk wid sig) w of
       (rc, w1) \<Rightarrow> (if rc \<noteq> 0 then ERROR else SUCCESS, w1))"

section \<open>Non-blocking reads and writes\<close>

text \<open>The identifier handed to the caller: the counter shifted left by 8, with the QP index below.\<close>

definition encode_wr_id :: "u64 \<Rightarrow> size_t \<Rightarrow> u64" where
  "encode_wr_id counter qp_idx = push_bit 8 counter OR qp_idx"

text \<open>\<^verbatim>\<open>next_qp_idx_.fetch_add(1) % num_qps_\<close>: the counter is a \<^verbatim>\<open>uint32_t\<close>, the modulus a \<^verbatim>\<open>size_t\<close>.\<close>

definition pick_qp :: "RDMAEndpoint \<Rightarrow> size_t \<times> RDMAEndpoint" where
  "pick_qp e = (if num_qps e > 1
     then (ucast (next_qp_idx e) mod num_qps e, e\<lparr>next_qp_idx := next_qp_idx e + 1\<rparr>)
     else (0, e))"

text \<open>\<open>out\<close> says whether the caller's \<^verbatim>\<open>wr_id\<close> pointer is non-null; the result carries what is stored
  through it: 0, or the identifier when the request was posted signaled.\<close>

definition writeDataNBInternal ::
  "'w verbs \<Rightarrow> RDMAEndpoint \<Rightarrow> size_t \<Rightarrow> size_t \<Rightarrow> size_t \<Rightarrow> bool \<Rightarrow> bool \<Rightarrow> 'w
     \<Rightarrow> (status_t \<times> u64) \<times> RDMAEndpoint \<times> 'w" where
  "writeDataNBInternal v e local_off remote_off n out sig w =
    (if \<not> out then ((ERROR, 0), e, w)
     else if range_rejected local_off n (buffer_size (ep_buffer e)) then ((ERROR, 0), e, w)
     else if range_rejected remote_off n (ucast (ra_length (remote_metadata_attr e))) then ((ERROR, 0), e, w)
     else
       let localAddr = ptr (ep_buffer e) + local_off;
           remoteAddr = ra_address (remote_metadata_attr e) + remote_off;
           (qp_idx, e1) = pick_qp e;
           wid = encode_wr_id (next_wr_id e1) qp_idx;
           e2 = e1\<lparr>next_wr_id := next_wr_id e1 + 1\<rparr>;
           (st, w1) = postWrite v e2 localAddr remoteAddr n (the (buffer_mr e))
                        (ra_key (remote_metadata_attr e)) wid sig qp_idx w
       in if st \<noteq> SUCCESS then ((st, 0), e2, w1)
          else ((SUCCESS, if sig then wid else 0), e2, w1))"

definition readDataNBInternal ::
  "'w verbs \<Rightarrow> RDMAEndpoint \<Rightarrow> size_t \<Rightarrow> size_t \<Rightarrow> size_t \<Rightarrow> bool \<Rightarrow> bool \<Rightarrow> 'w
     \<Rightarrow> (status_t \<times> u64) \<times> RDMAEndpoint \<times> 'w" where
  "readDataNBInternal v e local_off remote_off n out sig w =
    (if \<not> out then ((ERROR, 0), e, w)
     else if range_rejected local_off n (buffer_size (ep_buffer e)) then ((ERROR, 0), e, w)
     else if range_rejected remote_off n (ucast (ra_length (remote_metadata_attr e))) then ((ERROR, 0), e, w)
     else
       let localAddr = ptr (ep_buffer e) + local_off;
           remoteAddr = ra_address (remote_metadata_attr e) + remote_off;
           (qp_idx, e1) = pick_qp e;
           wid = encode_wr_id (next_wr_id e1) qp_idx;
           e2 = e1\<lparr>next_wr_id := next_wr_id e1 + 1\<rparr>;
           (st, w1) = postRead v e2 localAddr remoteAddr n (the (buffer_mr e))
                        (ra_key (remote_metadata_attr e)) wid sig qp_idx w
       in if st \<noteq> SUCCESS then ((st, 0), e2, w1)
          else ((SUCCESS, if sig then wid else 0), e2, w1))"

definition writeDataNB where
  "writeDataNB v e local_off remote_off n out w =
     writeDataNBInternal v e local_off remote_off n out True w"

definition readDataNB where
  "readDataNB v e local_off remote_off n out w =
     readDataNBInternal v e local_off remote_off n out True w"

section \<open>Waiting for completions\<close>

text \<open>One polled batch, as \<^verbatim>\<open>waitWrId\<close> walks it: it returns at the first failed entry and at the
  target, and records every identifier before that.\<close>

primrec scan_wcs :: "u64 \<Rightarrow> ibv_wc list \<Rightarrow> u64 set \<Rightarrow> status_t option \<times> u64 set" where
  "scan_wcs target [] done = (None, done)"
| "scan_wcs target (wc # wcs) done =
    (if wc_status wc \<noteq> 0 then (Some ERROR, done)
     else if wc_wr_id wc = target then (Some SUCCESS, done)
     else scan_wcs target wcs (insert (wc_wr_id wc) done))"

partial_function (option) waitWrId_loop ::
  "'w verbs \<Rightarrow> u64 \<Rightarrow> RDMAEndpoint \<Rightarrow> 'w \<Rightarrow> (status_t \<times> RDMAEndpoint \<times> 'w) option" where
  "waitWrId_loop v target e w =
    (case ibv_poll_cq v (the (cq e)) (unat (cq_capacity e)) w of
       (None, w1) \<Rightarrow> Some (ERROR, e, w1)
     | (Some wcs, w1) \<Rightarrow>
         (case scan_wcs target wcs (completed_wr_ids e) of
            (Some st, done) \<Rightarrow> Some (st, e\<lparr>completed_wr_ids := done\<rparr>, w1)
          | (None, done) \<Rightarrow> waitWrId_loop v target (e\<lparr>completed_wr_ids := done\<rparr>) w1))"

definition waitWrId ::
  "'w verbs \<Rightarrow> u64 \<Rightarrow> RDMAEndpoint \<Rightarrow> 'w \<Rightarrow> (status_t \<times> RDMAEndpoint \<times> 'w) option" where
  "waitWrId v target e w =
    (if cq e = None then Some (ERROR, e, w)
     else if target \<in> completed_wr_ids e
     then Some (SUCCESS, e\<lparr>completed_wr_ids := completed_wr_ids e - {target}\<rparr>, w)
     else waitWrId_loop v target e w)"

text \<open>One batch as \<^verbatim>\<open>waitWrIdMulti\<close> walks it: the flag of a failed entry, what is still pending,
  the completed set, and whether anything pending completed.\<close>

primrec scan_multi ::
  "ibv_wc list \<Rightarrow> u64 set \<Rightarrow> u64 set \<Rightarrow> bool \<Rightarrow> bool \<times> u64 set \<times> u64 set \<times> bool" where
  "scan_multi [] pending done progress = (False, pending, done, progress)"
| "scan_multi (wc # wcs) pending done progress =
    (if wc_status wc \<noteq> 0 then (True, pending, done, progress)
     else if wc_wr_id wc \<in> pending
     then scan_multi wcs (pending - {wc_wr_id wc}) done True
     else scan_multi wcs pending (insert (wc_wr_id wc) done) progress)"

partial_function (option) waitMulti_loop ::
  "'w verbs \<Rightarrow> int \<Rightarrow> int \<Rightarrow> u64 set \<Rightarrow> RDMAEndpoint \<Rightarrow> 'w \<Rightarrow> (status_t \<times> RDMAEndpoint \<times> 'w) option" where
  "waitMulti_loop v timeout start_ts pending e w =
    (if pending = {} then Some (SUCCESS, e, w)
     else case ibv_poll_cq v (the (cq e)) (unat (cq_capacity e)) w of
       (None, w1) \<Rightarrow> Some (ERROR, e, w1)
     | (Some wcs, w1) \<Rightarrow>
         (case scan_multi wcs pending (completed_wr_ids e) False of
            (failed, pending', done, made_progress) \<Rightarrow>
              if failed then Some (ERROR, e\<lparr>completed_wr_ids := done\<rparr>, w1)
              else if made_progress
              then waitMulti_loop v timeout start_ts pending' (e\<lparr>completed_wr_ids := done\<rparr>) (snd (steady_now v w1))
              else (case steady_now v w1 of (now, w2) \<Rightarrow>
                     if now - start_ts > timeout then Some (TIMEOUT, e\<lparr>completed_wr_ids := done\<rparr>, w2)
                     else waitMulti_loop v timeout start_ts pending' (e\<lparr>completed_wr_ids := done\<rparr>) w2)))"

definition waitWrIdMulti ::
  "'w verbs \<Rightarrow> int \<Rightarrow> u64 list \<Rightarrow> RDMAEndpoint \<Rightarrow> 'w \<Rightarrow> (status_t \<times> RDMAEndpoint \<times> 'w) option" where
  "waitWrIdMulti v timeout targets e w =
    (if cq e = None then Some (ERROR, e, w)
     else if targets = [] then Some (SUCCESS, e, w)
     else
       let pending = set targets - completed_wr_ids e;
           e1 = e\<lparr>completed_wr_ids := completed_wr_ids e - set targets\<rparr>
       in if pending = {} then Some (SUCCESS, e1, w)
          else case steady_now v w of (start_ts, w1) \<Rightarrow>
            waitMulti_loop v timeout start_ts pending e1 w1)"

declare waitWrId_loop.simps [code]
declare waitMulti_loop.simps [code]

definition default_timeout :: int where
  "default_timeout = 5000000000"

section \<open>Blocking reads and writes\<close>

definition writeData ::
  "'w verbs \<Rightarrow> RDMAEndpoint \<Rightarrow> size_t \<Rightarrow> size_t \<Rightarrow> size_t \<Rightarrow> 'w \<Rightarrow> (status_t \<times> RDMAEndpoint \<times> 'w) option" where
  "writeData v e local_off remote_off n w =
    (if range_rejected local_off n (buffer_size (ep_buffer e)) then Some (ERROR, e, w)
     else if range_rejected remote_off n (ucast (ra_length (remote_metadata_attr e))) then Some (ERROR, e, w)
     else case writeDataNB v e local_off remote_off n True w of ((st, wid), e1, w1) \<Rightarrow>
       if st \<noteq> SUCCESS then Some (ERROR, e1, w1)
       else case waitWrId v wid e1 w1 of
         None \<Rightarrow> None
       | Some (st2, e2, w2) \<Rightarrow> Some (if st2 \<noteq> SUCCESS then ERROR else SUCCESS, e2, w2))"

definition readData ::
  "'w verbs \<Rightarrow> RDMAEndpoint \<Rightarrow> size_t \<Rightarrow> size_t \<Rightarrow> size_t \<Rightarrow> 'w \<Rightarrow> (status_t \<times> RDMAEndpoint \<times> 'w) option" where
  "readData v e local_off remote_off n w =
    (if range_rejected local_off n (buffer_size (ep_buffer e)) then Some (ERROR, e, w)
     else if range_rejected remote_off n (ucast (ra_length (remote_metadata_attr e))) then Some (ERROR, e, w)
     else case readDataNB v e local_off remote_off n True w of ((st, wid), e1, w1) \<Rightarrow>
       if st \<noteq> SUCCESS then Some (ERROR, e1, w1)
       else case waitWrId v wid e1 w1 of
         None \<Rightarrow> None
       | Some (st2, e2, w2) \<Rightarrow> Some (if st2 \<noteq> SUCCESS then ERROR else SUCCESS, e2, w2))"

end
