(* ===== verification/Hmc_Nic.thy ===== *)
theory Hmc_Nic
  imports Hmc_RdmaEndpoint
begin

text \<open>
  What the endpoint relies on of libibverbs, as locales, and a reference adapter that has these
  laws.  \<open>cq_history\<close>: an observer \<open>H\<close> of the identifiers a completion queue has handed out.
  \<open>timed_cq\<close> adds that the monotonic clock advances.  \<open>post_log\<close>: an observer \<open>L\<close> of the accepted
  send requests.  \<open>nic_verbs\<close> is a reliable-connection adapter: requests posted to one queue pair
  are executed in posting order, the memory is read when a request is executed (not when it is
  posted), a signaled request produces one completion, and a schedule chosen by an adversary says
  which queue pairs make progress during each poll; when the schedule is used up, the oldest request
  is executed.  Protection keys are not checked.
\<close>

section \<open>Laws of the completion queue, the clock and the send queues\<close>

locale cq_history =
  fixes v :: "'w verbs" and H :: "'w \<Rightarrow> u64 list"
  assumes poll_some: "ibv_poll_cq v c n w = (Some wcs, w1) \<Longrightarrow> H w1 = H w @ map wc_wr_id wcs"
    and poll_none: "ibv_poll_cq v c n w = (None, w1) \<Longrightarrow> H w1 = H w"
    and clock_keeps: "H (snd (steady_now v w)) = H w"

locale timed_cq = cq_history +
  fixes T :: "'w \<Rightarrow> int"
  assumes poll_time: "T w \<le> T (snd (ibv_poll_cq v c n w))"
    and clock_time: "steady_now v w = (t, w1) \<Longrightarrow> t = T w1 \<and> T w < T w1"

locale post_log =
  fixes v :: "'w verbs" and L :: "'w \<Rightarrow> (qp option \<times> ibv_send_wr) list"
  assumes post_ok: "ibv_post_send v q wr w = (0, w1) \<Longrightarrow> L w1 = L w @ [(q, wr)]"
    and post_fail: "ibv_post_send v q wr w = (rc, w1) \<Longrightarrow> rc \<noteq> 0 \<Longrightarrow> L w1 = L w"
    and poll_keeps: "L (snd (ibv_poll_cq v c n w)) = L w"
    and now_keeps: "L (snd (steady_now v w)) = L w"

text \<open>Both observers at once: posting hands out no completion.\<close>

locale verbs_log = cq_history v H + post_log v L
  for v :: "'w verbs" and H :: "'w \<Rightarrow> u64 list" and L :: "'w \<Rightarrow> (qp option \<times> ibv_send_wr) list" +
  assumes post_no_completion: "H (snd (ibv_post_send v q wr w)) = H w"

section \<open>The reference adapter\<close>

record nic =
  lmem :: memory
  rmem :: memory
  sq :: "(qp \<times> ibv_send_wr) list"
  cqes :: "ibv_wc list"
  sched :: "qp list list"
  clock :: int
  posted :: "(qp option \<times> ibv_send_wr) list"
  delivered :: "u64 list"
  performed :: "(qp option \<times> ibv_send_wr) list"

text \<open>A DMA transfer between two memories.\<close>

definition dma_copy :: "memory \<Rightarrow> addr \<Rightarrow> memory \<Rightarrow> addr \<Rightarrow> size_t \<Rightarrow> memory" where
  "dma_copy from s to d n = (\<lambda>a. if a - d < n then from (s + (a - d)) else to a)"

definition nic_effect :: "ibv_send_wr \<Rightarrow> nic \<Rightarrow> nic" where
  "nic_effect wr n =
    (case opcode wr of
       IBV_WR_RDMA_WRITE \<Rightarrow>
         n\<lparr>rmem := dma_copy (lmem n) (sge_addr wr) (rmem n) (remote_addr wr) (ucast (sge_length wr))\<rparr>
     | IBV_WR_RDMA_READ \<Rightarrow>
         n\<lparr>lmem := dma_copy (rmem n) (remote_addr wr) (lmem n) (sge_addr wr) (ucast (sge_length wr))\<rparr>
     | IBV_WR_SEND \<Rightarrow> n)"

definition nic_complete :: "ibv_send_wr \<Rightarrow> nic \<Rightarrow> nic" where
  "nic_complete wr n =
    (if signaled_flag wr then n\<lparr>cqes := cqes n @ [\<lparr> wc_wr_id = wr_id wr, wc_status = 0 \<rparr>]\<rparr> else n)"

definition nic_exec :: "qp \<Rightarrow> nic \<Rightarrow> nic" where
  "nic_exec q n =
    (case find (\<lambda>(q', wr). q' = q) (sq n) of
       None \<Rightarrow> n
     | Some (q', wr) \<Rightarrow> nic_complete wr (nic_effect wr
         (n\<lparr>sq := remove1 (q', wr) (sq n), performed := performed n @ [(Some q', wr)]\<rparr>)))"

definition nic_post :: "qp option \<Rightarrow> ibv_send_wr \<Rightarrow> nic \<Rightarrow> int \<times> nic" where
  "nic_post q wr n =
    (case q of None \<Rightarrow> (22, n)
     | Some q' \<Rightarrow> (0, n\<lparr>sq := sq n @ [(q', wr)], posted := posted n @ [(q, wr)]\<rparr>))"

definition nic_progress :: "nic \<Rightarrow> nic" where
  "nic_progress n =
    (case sched n of
       [] \<Rightarrow> (case sq n of [] \<Rightarrow> n | (q, wr) # _ \<Rightarrow> nic_exec q n)
     | qs # rest \<Rightarrow> fold nic_exec qs (n\<lparr>sched := rest\<rparr>))"

definition nic_poll :: "nat \<Rightarrow> nat \<Rightarrow> nic \<Rightarrow> ibv_wc list option \<times> nic" where
  "nic_poll c cap n =
    (let n1 = nic_progress n; batch = take cap (cqes n1)
     in (Some batch, n1\<lparr>cqes := drop cap (cqes n1), delivered := delivered n1 @ map wc_wr_id batch\<rparr>))"

definition nic_now :: "nic \<Rightarrow> int \<times> nic" where
  "nic_now n = (clock n + 1, n\<lparr>clock := clock n + 1\<rparr>)"

definition nic_verbs :: "nic verbs" where
  "nic_verbs = \<lparr> ibv_post_send = nic_post, ibv_post_recv = (\<lambda>q wr n. (0, n)),
     ibv_poll_cq = nic_poll, steady_now = nic_now \<rparr>"

lemmas nic_defs = nic_post_def nic_poll_def nic_now_def nic_progress_def nic_exec_def nic_effect_def
  nic_complete_def

section \<open>The adapter has the laws\<close>

lemma nic_exec_keeps [simp]:
  "posted (nic_exec q n) = posted n" "delivered (nic_exec q n) = delivered n"
  "clock (nic_exec q n) = clock n"
  by (auto simp: nic_exec_def nic_effect_def nic_complete_def split: option.splits ibv_opcode.splits)

lemma fold_exec_keeps [simp]:
  "posted (fold nic_exec qs n) = posted n" "delivered (fold nic_exec qs n) = delivered n"
  "clock (fold nic_exec qs n) = clock n"
  by (induction qs arbitrary: n) simp_all

lemma nic_progress_keeps [simp]:
  "posted (nic_progress n) = posted n" "delivered (nic_progress n) = delivered n"
  "clock (nic_progress n) = clock n"
  by (auto simp: nic_progress_def split: list.splits)

interpretation nic: timed_cq nic_verbs delivered clock
  by unfold_locales (auto simp: nic_verbs_def nic_poll_def nic_now_def Let_def)

interpretation nic_log: post_log nic_verbs posted
  by unfold_locales
    (auto simp: nic_verbs_def nic_poll_def nic_now_def nic_post_def Let_def split: option.splits)

interpretation nic_both: verbs_log nic_verbs delivered posted
  by unfold_locales (auto simp: nic_verbs_def nic_post_def split: option.splits)

end
