(* ===== verification/Hmc_RdmaWait.thy ===== *)
theory Hmc_RdmaWait
  imports Hmc_Nic
begin

text \<open>
  Completions: what \<^verbatim>\<open>waitWrId\<close> and \<^verbatim>\<open>waitWrIdMulti\<close> (src/network/rdma_endpoint.cpp) do with the
  entries they poll.  \<^verbatim>\<open>waitWrIdMulti\<close> conserves completions and returns within its timeout;
  \<^verbatim>\<open>waitWrId\<close> forgets the entries that follow its target in the polled batch.
\<close>

section \<open>One batch\<close>

abbreviation ids :: "ibv_wc list \<Rightarrow> u64 set" where
  "ids wcs \<equiv> set (map wc_wr_id wcs)"

lemma scan_wcs_None:
  assumes "scan_wcs t wcs d = (None, d')"
  shows "d' = d \<union> ids wcs \<and> t \<notin> ids wcs"
  using assms by (induction wcs arbitrary: d) (auto split: if_splits)

lemma scan_wcs_SUCCESS:
  assumes "scan_wcs t wcs d = (Some SUCCESS, d')"
  shows "\<exists>pre post. map wc_wr_id wcs = pre @ t # post \<and> t \<notin> set pre \<and> d' = d \<union> set pre"
  using assms
proof (induction wcs arbitrary: d)
  case Nil
  then show ?case by simp
next
  case (Cons wc wcs)
  show ?case
  proof (cases "wc_wr_id wc = t")
    case True
    then have "map wc_wr_id (wc # wcs) = [] @ t # map wc_wr_id wcs" "d' = d"
      using Cons.prems by (simp_all split: if_splits)
    then show ?thesis by (metis empty_iff list.set(1) sup_bot_right)
  next
    case False
    then have "scan_wcs t wcs (insert (wc_wr_id wc) d) = (Some SUCCESS, d')"
      using Cons.prems by (simp split: if_splits)
    from Cons.IH [OF this] obtain pre post where p: "map wc_wr_id wcs = pre @ t # post" "t \<notin> set pre"
      "d' = insert (wc_wr_id wc) d \<union> set pre" by blast
    then have "map wc_wr_id (wc # wcs) = (wc_wr_id wc # pre) @ t # post"
      "t \<notin> set (wc_wr_id wc # pre)" "d' = d \<union> set (wc_wr_id wc # pre)"
      using False by auto
    then show ?thesis by blast
  qed
qed

lemma scan_multi_ok:
  assumes "scan_multi wcs p d pr = (False, p', d', pr')"
  shows "p' = p - ids wcs \<and> d \<union> (ids wcs - p) \<subseteq> d' \<and> d' \<subseteq> d \<union> ids wcs"
  using assms
proof (induction wcs arbitrary: p d pr)
  case Nil
  then show ?case by simp
next
  case (Cons wc wcs)
  show ?case
  proof (cases "wc_wr_id wc \<in> p")
    case True
    then show ?thesis using Cons.prems Cons.IH [of "p - {wc_wr_id wc}" d True]
      by (auto split: if_splits)
  next
    case False
    then show ?thesis using Cons.prems Cons.IH [of p "insert (wc_wr_id wc) d" pr]
      by (auto split: if_splits)
  qed
qed

lemma scan_multi_progress:
  assumes "scan_multi wcs p d pr = (f, p', d', pr')"
  shows "p' \<subseteq> p \<and> (pr' \<longrightarrow> pr \<or> p' \<noteq> p) \<and> (\<not> pr' \<longrightarrow> \<not> pr \<and> p' = p)"
  using assms
proof (induction wcs arbitrary: p d pr)
  case Nil
  then show ?case by simp
next
  case (Cons wc wcs)
  show ?case
  proof (cases "wc_status wc \<noteq> 0 \<or> wc_wr_id wc \<notin> p")
    case True
    then show ?thesis using Cons.prems Cons.IH [of p "insert (wc_wr_id wc) d" pr]
      by (auto split: if_splits)
  next
    case False
    then show ?thesis using Cons.prems Cons.IH [of "p - {wc_wr_id wc}" d True]
      by (auto split: if_splits)
  qed
qed

section \<open>The loops as step relations\<close>

text \<open>A loop returns a result exactly when finitely many rounds lead to it; the proofs below are
  inductions over the rounds.\<close>

inductive wait_run ::
  "'w verbs \<Rightarrow> u64 \<Rightarrow> RDMAEndpoint \<Rightarrow> 'w \<Rightarrow> status_t \<times> RDMAEndpoint \<times> 'w \<Rightarrow> bool" for v t where
  poll_error: "ibv_poll_cq v (the (cq e)) (unat (cq_capacity e)) w = (None, w1) \<Longrightarrow>
     wait_run v t e w (ERROR, e, w1)"
| stop: "ibv_poll_cq v (the (cq e)) (unat (cq_capacity e)) w = (Some wcs, w1) \<Longrightarrow>
     scan_wcs t wcs (completed_wr_ids e) = (Some st, d) \<Longrightarrow>
     wait_run v t e w (st, e\<lparr>completed_wr_ids := d\<rparr>, w1)"
| again: "ibv_poll_cq v (the (cq e)) (unat (cq_capacity e)) w = (Some wcs, w1) \<Longrightarrow>
     scan_wcs t wcs (completed_wr_ids e) = (None, d) \<Longrightarrow>
     wait_run v t (e\<lparr>completed_wr_ids := d\<rparr>) w1 r \<Longrightarrow>
     wait_run v t e w r"

lemma waitWrId_loop_run: "waitWrId_loop v t e w = Some r \<longleftrightarrow> wait_run v t e w r"
proof
  assume "waitWrId_loop v t e w = Some r"
  then show "wait_run v t e w r"
    by (rule waitWrId_loop.raw_induct [where P = wait_run, rotated])
      (auto intro: wait_run.intros split: prod.splits option.splits)
next
  assume "wait_run v t e w r"
  then show "waitWrId_loop v t e w = Some r"
    by induction (subst waitWrId_loop.simps, simp)+
qed

inductive multi_run ::
  "'w verbs \<Rightarrow> int \<Rightarrow> int \<Rightarrow> u64 set \<Rightarrow> RDMAEndpoint \<Rightarrow> 'w \<Rightarrow> status_t \<times> RDMAEndpoint \<times> 'w \<Rightarrow> bool"
  for v to ts where
  finished: "multi_run v to ts {} e w (SUCCESS, e, w)"
| poll_failed: "p \<noteq> {} \<Longrightarrow>
     ibv_poll_cq v (the (cq e)) (unat (cq_capacity e)) w = (None, w1) \<Longrightarrow>
     multi_run v to ts p e w (ERROR, e, w1)"
| entry_failed: "p \<noteq> {} \<Longrightarrow>
     ibv_poll_cq v (the (cq e)) (unat (cq_capacity e)) w = (Some wcs, w1) \<Longrightarrow>
     scan_multi wcs p (completed_wr_ids e) False = (True, p', d, pr) \<Longrightarrow>
     multi_run v to ts p e w (ERROR, e\<lparr>completed_wr_ids := d\<rparr>, w1)"
| progress: "p \<noteq> {} \<Longrightarrow>
     ibv_poll_cq v (the (cq e)) (unat (cq_capacity e)) w = (Some wcs, w1) \<Longrightarrow>
     scan_multi wcs p (completed_wr_ids e) False = (False, p', d, True) \<Longrightarrow>
     multi_run v to ts p' (e\<lparr>completed_wr_ids := d\<rparr>) (snd (steady_now v w1)) r \<Longrightarrow>
     multi_run v to ts p e w r"
| timed_out: "p \<noteq> {} \<Longrightarrow>
     ibv_poll_cq v (the (cq e)) (unat (cq_capacity e)) w = (Some wcs, w1) \<Longrightarrow>
     scan_multi wcs p (completed_wr_ids e) False = (False, p', d, False) \<Longrightarrow>
     steady_now v w1 = (now, w2) \<Longrightarrow> now - ts > to \<Longrightarrow>
     multi_run v to ts p e w (TIMEOUT, e\<lparr>completed_wr_ids := d\<rparr>, w2)"
| idle: "p \<noteq> {} \<Longrightarrow>
     ibv_poll_cq v (the (cq e)) (unat (cq_capacity e)) w = (Some wcs, w1) \<Longrightarrow>
     scan_multi wcs p (completed_wr_ids e) False = (False, p', d, False) \<Longrightarrow>
     steady_now v w1 = (now, w2) \<Longrightarrow> \<not> now - ts > to \<Longrightarrow>
     multi_run v to ts p' (e\<lparr>completed_wr_ids := d\<rparr>) w2 r \<Longrightarrow>
     multi_run v to ts p e w r"

lemma waitMulti_loop_run: "waitMulti_loop v to ts p e w = Some r \<longleftrightarrow> multi_run v to ts p e w r"
proof
  assume "waitMulti_loop v to ts p e w = Some r"
  then show "multi_run v to ts p e w r"
    by (rule waitMulti_loop.raw_induct [where P = multi_run, rotated])
      (auto intro: multi_run.intros split: if_splits prod.splits option.splits)
next
  assume "multi_run v to ts p e w r"
  then show "waitMulti_loop v to ts p e w = Some r"
    by induction (subst waitMulti_loop.simps, simp)+
qed

section \<open>Accounting, for every completion queue with a history\<close>

context cq_history
begin

lemma wait_run_success:
  assumes "wait_run v t e w r" "r = (SUCCESS, e', w')"
  shows "\<exists>pre post. H w' = H w @ pre @ t # post \<and> t \<notin> set pre
    \<and> e' = e\<lparr>completed_wr_ids := completed_wr_ids e \<union> set pre\<rparr>"
  using assms
proof (induction rule: wait_run.induct)
  case (poll_error e w w1)
  then show ?case by simp
next
  case (stop e w wcs w1 st d)
  with scan_wcs_SUCCESS obtain pre post where
    "map wc_wr_id wcs = pre @ t # post" "t \<notin> set pre" "d = completed_wr_ids e \<union> set pre" by blast
  moreover from stop(1) have "H w1 = H w @ map wc_wr_id wcs" by (rule poll_some)
  ultimately show ?case using stop.prems by auto
next
  case (again e w wcs w1 d r)
  then obtain pre post where p: "H w' = H w1 @ pre @ t # post" "t \<notin> set pre"
    "e' = e\<lparr>completed_wr_ids := d \<union> set pre\<rparr>" by auto
  have d: "d = completed_wr_ids e \<union> ids wcs" "t \<notin> ids wcs"
    using scan_wcs_None [OF again(2)] by blast+
  have "H w' = H w @ (map wc_wr_id wcs @ pre) @ t # post"
    using p(1) poll_some [OF again(1)] by simp
  moreover have "t \<notin> set (map wc_wr_id wcs @ pre)" using d p(2) by auto
  moreover have "e' = e\<lparr>completed_wr_ids := completed_wr_ids e \<union> set (map wc_wr_id wcs @ pre)\<rparr>"
    by (simp add: p(3) d(1) Un_assoc)
  ultimately show ?case by blast
qed

definition accounted :: "u64 set \<Rightarrow> RDMAEndpoint \<Rightarrow> 'w \<Rightarrow> RDMAEndpoint \<Rightarrow> 'w \<Rightarrow> u64 list \<Rightarrow> bool" where
  "accounted p e w e' w' d \<longleftrightarrow> H w' = H w @ d
     \<and> completed_wr_ids e \<union> (set d - p) \<subseteq> completed_wr_ids e'
     \<and> completed_wr_ids e' \<subseteq> completed_wr_ids e \<union> set d
     \<and> e' = e\<lparr>completed_wr_ids := completed_wr_ids e'\<rparr>"

lemma accounted_step:
  assumes "ibv_poll_cq v c n w = (Some wcs, w1)" "H w2 = H w1"
    "scan_multi wcs p (completed_wr_ids e) False = (False, p', d, pr)"
    "accounted p' (e\<lparr>completed_wr_ids := d\<rparr>) w2 e' w' ds"
  shows "accounted p e w e' w' (map wc_wr_id wcs @ ds)"
  using scan_multi_ok [OF assms(3)] poll_some [OF assms(1)] assms(2,4)
  by (auto simp: accounted_def)

lemma multi_run_accounted:
  assumes "multi_run v to ts p e w r" "r = (st, e', w')" "st \<noteq> ERROR"
  shows "\<exists>d. accounted p e w e' w' d \<and> (st = SUCCESS \<longrightarrow> p \<subseteq> set d)"
  using assms
proof (induction rule: multi_run.induct)
  case (finished e w)
  then have "accounted {} e w e' w' []" by (simp add: accounted_def)
  then show ?case by blast
next
  case (progress p e w wcs w1 p' d r)
  then obtain ds where "accounted p' (e\<lparr>completed_wr_ids := d\<rparr>) (snd (steady_now v w1)) e' w' ds"
    "st = SUCCESS \<longrightarrow> p' \<subseteq> set ds" by blast
  with progress(2,3) scan_multi_ok [OF progress(3)] show ?case
    by (intro exI [of _ "map wc_wr_id wcs @ ds"])
      (auto intro: accounted_step [OF progress(2) clock_keeps progress(3)])
next
  case (timed_out p e w wcs w1 p' d now w2)
  then have "accounted p' (e\<lparr>completed_wr_ids := d\<rparr>) w2 e' w' []" by (auto simp: accounted_def)
  moreover have "H w2 = H w1" using clock_keeps [of w1] timed_out(4) by simp
  ultimately show ?case using accounted_step [OF timed_out(2) _ timed_out(3)] timed_out.prems by fastforce
next
  case (idle p e w wcs w1 p' d now w2 r)
  then obtain ds where "accounted p' (e\<lparr>completed_wr_ids := d\<rparr>) w2 e' w' ds"
    "st = SUCCESS \<longrightarrow> p' \<subseteq> set ds" by blast
  moreover have "H w2 = H w1" using clock_keeps [of w1] idle(4) by simp
  ultimately show ?case using accounted_step [OF idle(2) _ idle(3)] scan_multi_ok [OF idle(3)]
    by (intro exI [of _ "map wc_wr_id wcs @ ds"]) auto
qed simp_all

lemma multi_conserves:
  assumes "waitWrIdMulti v to ts e w = Some (st, e', w')" "st \<noteq> ERROR"
  shows "\<exists>d. H w' = H w @ d
     \<and> completed_wr_ids e' - set ts = (completed_wr_ids e \<union> set d) - set ts
     \<and> (st = SUCCESS \<longrightarrow> set ts \<subseteq> completed_wr_ids e \<union> set d)
     \<and> e' = e\<lparr>completed_wr_ids := completed_wr_ids e'\<rparr>"
proof (cases "cq e = None \<or> set ts \<subseteq> completed_wr_ids e")
  case True
  then show ?thesis using assms
    by (intro exI [of _ "[]"]) (auto simp: waitWrIdMulti_def Let_def split: if_splits)
next
  case False
  let ?e = "e\<lparr>completed_wr_ids := completed_wr_ids e - set ts\<rparr>"
  let ?p = "set ts - completed_wr_ids e"
  obtain t0 w1 where now: "steady_now v w = (t0, w1)" by fastforce
  from False assms(1) now have "multi_run v to t0 ?p ?e w1 (st, e', w')"
    by (auto simp: waitWrIdMulti_def Let_def waitMulti_loop_run split: if_splits)
  from multi_run_accounted [OF this refl assms(2)] obtain d where
    d: "accounted ?p ?e w1 e' w' d" "st = SUCCESS \<longrightarrow> ?p \<subseteq> set d" by blast
  moreover have "H w1 = H w" using clock_keeps [of w] now by simp
  ultimately show ?thesis by (intro exI [of _ d]) (auto simp: accounted_def)
qed

end

context post_log
begin

lemma multi_run_log:
  assumes "multi_run v to ts p e w r"
  shows "L (snd (snd r)) = L w"
  using assms
proof (induction rule: multi_run.induct)
  case (poll_failed p e w w1)
  then show ?case using poll_keeps [of _ _ w] by (metis snd_conv)
next
  case (entry_failed p e w wcs w1 p' d pr)
  then show ?case using poll_keeps [of _ _ w] by (metis snd_conv)
next
  case (progress p e w wcs w1 p' d r)
  then show ?case using poll_keeps [of _ _ w] now_keeps [of w1] by (metis snd_conv)
next
  case (timed_out p e w wcs w1 p' d now w2)
  then show ?case using poll_keeps [of _ _ w] now_keeps [of w1] by (metis snd_conv)
next
  case (idle p e w wcs w1 p' d now w2 r)
  then show ?case using poll_keeps [of _ _ w] now_keeps [of w1] by (metis snd_conv)
qed simp

lemma multi_log:
  assumes "waitWrIdMulti v to ts e w = Some (st, e', w')"
  shows "L w' = L w"
proof -
  obtain t0 w1 where now: "steady_now v w = (t0, w1)" by fastforce
  then have "L w1 = L w" using now_keeps [of w] by simp
  then show ?thesis using assms now multi_run_log [of to t0 _ _ w1]
    by (fastforce simp: waitWrIdMulti_def Let_def waitMulti_loop_run split: if_splits)
qed

end

section \<open>Termination of the timed wait\<close>

context timed_cq
begin

lemma multi_run_total:
  assumes "finite p"
  shows "\<exists>r. multi_run v to ts p e w r"
  using assms
proof (induction "card p + nat (ts + to - T w + 1)" arbitrary: p e w rule: less_induct)
  case less
  show ?case
  proof (cases "p = {}")
    case True
    then show ?thesis by (auto intro: multi_run.finished)
  next
    case False
    obtain pr w1 where poll: "ibv_poll_cq v (the (cq e)) (unat (cq_capacity e)) w = (pr, w1)"
      by fastforce
    have t1: "T w \<le> T w1" using poll_time [of w] poll by (metis snd_conv)
    obtain now w2 where now: "steady_now v w1 = (now, w2)" by fastforce
    then have t2: "now = T w2" "T w1 < T w2" using clock_time by blast+
    show ?thesis
    proof (cases pr)
      case None
      with poll have "multi_run v to ts p e w (ERROR, e, w1)"
        by (intro multi_run.poll_failed [OF False]) simp
      then show ?thesis by (rule exI)
    next
      case (Some wcs)
      obtain f p' d pg where sc: "scan_multi wcs p (completed_wr_ids e) False = (f, p', d, pg)"
        by (metis prod_cases4)
      note sp = scan_multi_progress [OF sc]
      show ?thesis
      proof (cases "f \<or> \<not> pg \<and> to < now - ts")
        case True
        then show ?thesis
          using False poll Some sc now multi_run.entry_failed multi_run.timed_out by metis
      next
        case go: False
        have fin: "finite p'" using less.prems sp finite_subset by blast
        have "card p' + nat (ts + to - T w2 + 1) < card p + nat (ts + to - T w + 1)"
        proof (cases pg)
          case True
          then have "card p' < card p" using sp less.prems by (meson psubset_card_mono psubsetI)
          then show ?thesis using t1 t2 by linarith
        next
          case False
          then show ?thesis using sp go t1 t2 by auto
        qed
        from less.hyps [OF this fin] obtain r where
          r: "multi_run v to ts p' (e\<lparr>completed_wr_ids := d\<rparr>) w2 r" by blast
        have "multi_run v to ts p e w r"
        proof (cases pg)
          case True
          then show ?thesis using go sc r now poll Some
            by (intro multi_run.progress [OF False]) auto
        next
          case nopg: False
          then show ?thesis using go sc r now poll Some
            by (intro multi_run.idle [OF False]) auto
        qed
        then show ?thesis by (rule exI)
      qed
    qed
  qed
qed

lemma multi_returns: "\<exists>r. waitWrIdMulti v to ts e w = Some r"
proof -
  obtain t0 w1 where now: "steady_now v w = (t0, w1)" by fastforce
  have "\<exists>r. waitMulti_loop v to t0 (set ts - completed_wr_ids e)
      (e\<lparr>completed_wr_ids := completed_wr_ids e - set ts\<rparr>) w1 = Some r"
    using multi_run_total waitMulti_loop_run by (metis finite_Diff finite_set)
  then show ?thesis by (auto simp: waitWrIdMulti_def Let_def now)
qed

end

section \<open>A queue that stays empty\<close>

definition quiet :: "'w verbs \<Rightarrow> ('w \<Rightarrow> bool) \<Rightarrow> bool" where
  "quiet v Q \<longleftrightarrow> (\<forall>c n w. Q w \<longrightarrow> (\<exists>w1. ibv_poll_cq v c n w = (Some [], w1) \<and> Q w1))"

lemma quiet_no_run:
  assumes "wait_run v t e w r" "quiet v Q" "Q w"
  shows False
  using assms
proof (induction rule: wait_run.induct)
  case (again e w wcs w1 d r)
  then have "wcs = []" "Q w1" by (metis Pair_inject option.inject quiet_def)+
  with again show ?case by blast
next
  case (poll_error e w w1)
  then show ?case unfolding quiet_def by (metis Pair_inject option.distinct(1))
next
  case (stop e w wcs w1 st d)
  then have "wcs = []" by (metis Pair_inject option.inject quiet_def)
  with stop(2) show ?case by simp
qed

lemma quiet_waits_forever:
  assumes "quiet v Q" "Q w"
  shows "waitWrId_loop v t e w = None"
proof (rule ccontr)
  assume "waitWrId_loop v t e w \<noteq> None"
  then obtain r where "waitWrId_loop v t e w = Some r" by auto
  then have "wait_run v t e w r" by (simp only: waitWrId_loop_run)
  then show False using assms by (rule quiet_no_run)
qed

section \<open>Properties\<close>

text \<open>C5: \<^verbatim>\<open>waitWrIdMulti\<close> conserves completions.  Whatever the queue hands out during a call that does
  not end in an error is accounted for: identifiers that were not waited for are in the completed
  set afterwards, none appears from nowhere, and on success every requested identifier has
  completed (before the call, or during it).\<close>

theorem wait_multi_conserves:
  assumes "cq_history v H"
    and "waitWrIdMulti v timeout targets e w = Some (st, e', w')" and "st \<noteq> ERROR"
  shows "\<exists>d. H w' = H w @ d
     \<and> completed_wr_ids e' - set targets = (completed_wr_ids e \<union> set d) - set targets
     \<and> (st = SUCCESS \<longrightarrow> set targets \<subseteq> completed_wr_ids e \<union> set d)
     \<and> e' = e\<lparr>completed_wr_ids := completed_wr_ids e'\<rparr>"
  using cq_history.multi_conserves [OF assms] .

text \<open>C8: \<^verbatim>\<open>waitWrIdMulti\<close> always returns: with a clock that advances, the loop ends whatever the
  adapter does, by completion, by an error or by the timeout.\<close>

theorem wait_multi_returns:
  assumes "timed_cq v H T"
  shows "\<exists>st e' w'. waitWrIdMulti v timeout targets e w = Some (st, e', w')"
  using timed_cq.multi_returns [OF assms] by (metis prod_cases3)

text \<open>C12: what \<^verbatim>\<open>waitWrId\<close> records.  When it succeeds without having found the target already
  recorded, the target was polled, every identifier polled before it is in the completed set, and
  those polled after it in the same batch are in no set: they are lost.\<close>

theorem wait_accounting:
  assumes "cq_history v H" and "waitWrId v target e w = Some (SUCCESS, e', w')"
    and "target \<notin> completed_wr_ids e"
  shows "\<exists>before lost. H w' = H w @ before @ target # lost \<and> target \<notin> set before
     \<and> e' = e\<lparr>completed_wr_ids := completed_wr_ids e \<union> set before\<rparr>"
proof -
  have "wait_run v target e w (SUCCESS, e', w')"
    using assms(2,3) by (auto simp: waitWrId_def waitWrId_loop_run split: if_splits)
  from cq_history.wait_run_success [OF assms(1) this refl] show ?thesis .
qed

text \<open>The consequence of the lost entries.  Two requests complete in one batch and nothing else
  is outstanding; waiting for the first succeeds, and waiting for the second then never returns,
  although it has completed.\<close>

theorem wait_second_hangs:
  assumes "ibv_poll_cq v (the (cq e)) (unat (cq_capacity e)) w = (Some [c1, c2], w1)"
    and "wc_status c1 = 0" "wc_status c2 = 0" "wc_wr_id c1 \<noteq> wc_wr_id c2"
    and "quiet v Q" "Q w1" "cq e \<noteq> None" "completed_wr_ids e = {}"
  shows "waitWrId v (wc_wr_id c1) e w = Some (SUCCESS, e, w1)
    \<and> waitWrId v (wc_wr_id c2) e w1 = None"
proof
  have "waitWrId_loop v (wc_wr_id c1) e w = Some (SUCCESS, e\<lparr>completed_wr_ids := {}\<rparr>, w1)"
    using assms by (subst waitWrId_loop.simps) simp
  moreover have "e\<lparr>completed_wr_ids := {}\<rparr> = e" using assms(8) by simp
  ultimately show "waitWrId v (wc_wr_id c1) e w = Some (SUCCESS, e, w1)"
    using assms by (simp add: waitWrId_def)
  show "waitWrId v (wc_wr_id c2) e w1 = None"
    using assms by (simp add: waitWrId_def quiet_waits_forever)
qed

section \<open>Witnesses on the reference adapter\<close>

definition demo_endpoint :: RDMAEndpoint where
  "demo_endpoint = (new_RDMAEndpoint (\<lambda>_. None) demo_buffer 1 Client)
     \<lparr> qps := [Some 7], cq := Some 1, buffer_mr := Some \<lparr> mr_handle = 0, lkey = 5 \<rparr>,
       remote_metadata_attr := empty_attr\<lparr> ra_address := 8192, ra_length := 64, ra_key := 9 \<rparr> \<rparr>"

definition demo_nic :: nic where
  "demo_nic = \<lparr> lmem = (\<lambda>a. ucast a), rmem = (\<lambda>_. 0), sq = [], cqes = [], sched = [], clock = 0,
     posted = [], delivered = [], performed = [] \<rparr>"

text \<open>Two completions are waiting in the queue of the adapter.\<close>

definition two_done :: nic where
  "two_done = demo_nic\<lparr> cqes := [\<lparr> wc_wr_id = 256, wc_status = 0 \<rparr>, \<lparr> wc_wr_id = 512, wc_status = 0 \<rparr>] \<rparr>"

definition drained :: "nic \<Rightarrow> bool" where
  "drained n \<longleftrightarrow> sq n = [] \<and> cqes n = [] \<and> sched n = []"

lemma quiet_drained: "quiet nic_verbs drained"
  by (auto simp: quiet_def drained_def nic_verbs_def nic_poll_def nic_progress_def Let_def)

lemma demo_endpoint_sel [simp]:
  "cq demo_endpoint = Some 1" "cq_capacity demo_endpoint = 256" "completed_wr_ids demo_endpoint = {}"
  by (simp_all add: demo_endpoint_def new_RDMAEndpoint_def envU32OrDefault_def clamp_u16_def Let_def)

lemma two_done_poll:
  "ibv_poll_cq nic_verbs c 256 two_done =
     (Some [\<lparr> wc_wr_id = 256, wc_status = 0 \<rparr>, \<lparr> wc_wr_id = 512, wc_status = 0 \<rparr>],
      two_done\<lparr> cqes := [], delivered := [256, 512] \<rparr>)"
  by (simp add: nic_verbs_def nic_poll_def nic_progress_def two_done_def demo_nic_def)

theorem wait_second_hangs_witness:
  "waitWrId nic_verbs 256 demo_endpoint two_done
     = Some (SUCCESS, demo_endpoint, two_done\<lparr> cqes := [], delivered := [256, 512] \<rparr>)
   \<and> waitWrId nic_verbs 512 demo_endpoint (two_done\<lparr> cqes := [], delivered := [256, 512] \<rparr>) = None"
  using wait_second_hangs [of nic_verbs demo_endpoint two_done
      "\<lparr> wc_wr_id = 256, wc_status = 0 \<rparr>" "\<lparr> wc_wr_id = 512, wc_status = 0 \<rparr>"
      "two_done\<lparr> cqes := [], delivered := [256, 512] \<rparr>" drained] quiet_drained two_done_poll [of 1]
  by (simp add: drained_def two_done_def demo_nic_def)

theorem wait_accounting_witness:
  "\<exists>e' w' before lost. waitWrId nic_verbs 256 demo_endpoint two_done = Some (SUCCESS, e', w')
     \<and> delivered w' = delivered two_done @ before @ 256 # lost
     \<and> e' = demo_endpoint\<lparr>completed_wr_ids := set before\<rparr>"
proof -
  have r: "waitWrId nic_verbs 256 demo_endpoint two_done
      = Some (SUCCESS, demo_endpoint\<lparr>completed_wr_ids := {}\<rparr>, two_done\<lparr> cqes := [], delivered := [256, 512] \<rparr>)"
    by (simp add: waitWrId_def, subst waitWrId_loop.simps) (simp add: two_done_poll)
  from wait_accounting [OF nic.cq_history_axioms r] r show ?thesis by fastforce
qed

lemma two_done_multi:
  "waitWrIdMulti nic_verbs default_timeout [256, 512] demo_endpoint two_done
     = Some (SUCCESS, demo_endpoint\<lparr>completed_wr_ids := {}\<rparr>,
         two_done\<lparr> cqes := [], delivered := [256, 512], clock := 2 \<rparr>)"
  by (simp add: waitWrIdMulti_def Let_def)
    (simp add: waitMulti_loop.simps nic_verbs_def nic_now_def nic_poll_def nic_progress_def
      two_done_def demo_nic_def)

theorem wait_multi_conserves_witness:
  "\<exists>e' w' d. waitWrIdMulti nic_verbs default_timeout [256, 512] demo_endpoint two_done = Some (SUCCESS, e', w')
     \<and> delivered w' = delivered two_done @ d \<and> {256, 512} \<subseteq> set d"
proof -
  note r = two_done_multi
  obtain d where "delivered (two_done\<lparr> cqes := [], delivered := [256, 512], clock := 2 \<rparr>) = delivered two_done @ d"
    "set [256, 512] \<subseteq> completed_wr_ids demo_endpoint \<union> set d"
    using wait_multi_conserves [OF nic.cq_history_axioms r] by (metis status_t.distinct(1))
  moreover have "completed_wr_ids demo_endpoint = {}" by simp
  ultimately show ?thesis using r by (intro exI conjI) (assumption+, simp only: list.set Un_empty_left)
qed

theorem wait_multi_returns_witness:
  "\<exists>st e' w'. waitWrIdMulti nic_verbs 0 [3] demo_endpoint demo_nic = Some (st, e', w')"
  by (rule wait_multi_returns [OF nic.timed_cq_axioms])

end
