(* ===== verification/Hmc_Pipeline.thy ===== *)
theory Hmc_Pipeline
  imports Hmc_RdmaWait
begin

text \<open>
  Bulk transfers: \<^verbatim>\<open>writeDataPipeline\<close> and \<^verbatim>\<open>readDataPipeline\<close> (src/network/rdma_endpoint.cpp).  A
  transfer is cut into chunks that are posted without waiting; every \<^verbatim>\<open>signal_interval\<close>-th request and
  the last one ask for a completion, and the loop waits when \<^verbatim>\<open>max_inflight\<close> requests have been
  posted.  The theorems say that the accepted requests tile the range exactly, that the loop
  returns, and what a successful return tells about the completion of the individual chunks.
\<close>

section \<open>The transfer loop\<close>

record pipe =
  pl_local :: size_t
  pl_remote :: size_t
  pl_size :: size_t
  pl_chunk :: size_t
  pl_inflight :: size_t
  pl_signal :: size_t

type_synonym 'w poster =
  "RDMAEndpoint \<Rightarrow> size_t \<Rightarrow> size_t \<Rightarrow> size_t \<Rightarrow> bool \<Rightarrow> 'w \<Rightarrow> (status_t \<times> u64) \<times> RDMAEndpoint \<times> 'w"

text \<open>The defaults: a zero argument means the environment, a zero there the built-in value.\<close>

definition pipeline_chunk :: "environ \<Rightarrow> size_t \<Rightarrow> size_t" where
  "pipeline_chunk env chunk_size =
    (let c = (if chunk_size = 0
              then ucast (envU32OrDefault env ''HMC_RDMA_PIPELINE_CHUNK'' (4 * 1024 * 1024))
              else chunk_size)
     in if c = 0 then 4 * 1024 * 1024 else c)"

definition pipeline_inflight :: "environ \<Rightarrow> RDMAEndpoint \<Rightarrow> size_t \<Rightarrow> size_t" where
  "pipeline_inflight env e max_inflight =
    (let k = (if max_inflight = 0
              then ucast (envU32OrDefault env ''HMC_RDMA_PIPELINE_INFLIGHT''
                     (max 32 (ucast (max_wr e) div 2)))
              else max_inflight)
     in if k = 0 then 32 else k)"

definition pipeline_signal :: "environ \<Rightarrow> size_t \<Rightarrow> size_t" where
  "pipeline_signal env max_inflight =
    min (ucast (max 1 (envU32OrDefault env ''HMC_RDMA_PIPELINE_SIGNAL_INTERVAL'' 16))) max_inflight"

text \<open>The body of both functions; \<open>post\<close> is \<^verbatim>\<open>writeDataNBInternal\<close> in one and \<^verbatim>\<open>readDataNBInternal\<close> in
  the other.\<close>

partial_function (option) pipeline_loop ::
  "'w poster \<Rightarrow> 'w verbs \<Rightarrow> pipe \<Rightarrow> size_t \<Rightarrow> size_t \<Rightarrow> size_t \<Rightarrow> u64 list \<Rightarrow> RDMAEndpoint \<Rightarrow> 'w
     \<Rightarrow> (status_t \<times> RDMAEndpoint \<times> 'w) option" where
  "pipeline_loop post v P offset inflight_posts since_last_signal pending e w =
    (if \<not> offset < pl_size P then Some (SUCCESS, e, w)
     else
       let cur = min (pl_chunk P) (pl_size P - offset);
           is_last = (offset + cur \<ge> pl_size P);
           sig = (pl_signal P \<le> 1 \<or> is_last \<or> since_last_signal + 1 \<ge> pl_signal P)
       in case post e (pl_local P + offset) (pl_remote P + offset) cur sig w of ((st, wid), e1, w1) \<Rightarrow>
         if st \<noteq> SUCCESS then Some (ERROR, e1, w1)
         else
           let pending1 = (if sig \<and> wid \<noteq> 0 then pending @ [wid] else pending);
               since1 = (if sig \<and> wid \<noteq> 0 then 0 else since_last_signal + 1);
               posts1 = inflight_posts + 1
           in if posts1 \<ge> pl_inflight P \<or> is_last
              then (if pending1 = [] then pipeline_loop post v P (offset + cur) 0 since1 [] e1 w1
                    else Option.bind (waitWrIdMulti v default_timeout pending1 e1 w1) (\<lambda>(st2, e2, w2).
                      if st2 \<noteq> SUCCESS then Some (ERROR, e2, w2)
                      else pipeline_loop post v P (offset + cur) 0 since1 [] e2 w2))
              else pipeline_loop post v P (offset + cur) posts1 since1 pending1 e1 w1)"

declare pipeline_loop.simps [code]

definition pipe_of ::
  "environ \<Rightarrow> RDMAEndpoint \<Rightarrow> size_t \<Rightarrow> size_t \<Rightarrow> size_t \<Rightarrow> size_t \<Rightarrow> size_t \<Rightarrow> pipe" where
  "pipe_of env e local_off remote_off n chunk_size max_inflight =
    (let k = pipeline_inflight env e max_inflight
     in \<lparr> pl_local = local_off, pl_remote = remote_off, pl_size = n,
          pl_chunk = pipeline_chunk env chunk_size, pl_inflight = k,
          pl_signal = pipeline_signal env k \<rparr>)"

definition writeDataPipeline ::
  "'w verbs \<Rightarrow> environ \<Rightarrow> RDMAEndpoint \<Rightarrow> size_t \<Rightarrow> size_t \<Rightarrow> size_t \<Rightarrow> size_t \<Rightarrow> size_t \<Rightarrow> 'w
     \<Rightarrow> (status_t \<times> RDMAEndpoint \<times> 'w) option" where
  "writeDataPipeline v env e local_off remote_off n chunk_size max_inflight w =
    (if range_rejected local_off n (buffer_size (ep_buffer e)) then Some (ERROR, e, w)
     else if range_rejected remote_off n (ucast (ra_length (remote_metadata_attr e))) then Some (ERROR, e, w)
     else pipeline_loop (\<lambda>e lo ro k sig w. writeDataNBInternal v e lo ro k True sig w) v
            (pipe_of env e local_off remote_off n chunk_size max_inflight) 0 0 0 [] e w)"

definition readDataPipeline ::
  "'w verbs \<Rightarrow> environ \<Rightarrow> RDMAEndpoint \<Rightarrow> size_t \<Rightarrow> size_t \<Rightarrow> size_t \<Rightarrow> size_t \<Rightarrow> size_t \<Rightarrow> 'w
     \<Rightarrow> (status_t \<times> RDMAEndpoint \<times> 'w) option" where
  "readDataPipeline v env e local_off remote_off n chunk_size max_inflight w =
    (if range_rejected local_off n (buffer_size (ep_buffer e)) then Some (ERROR, e, w)
     else if range_rejected remote_off n (ucast (ra_length (remote_metadata_attr e))) then Some (ERROR, e, w)
     else pipeline_loop (\<lambda>e lo ro k sig w. readDataNBInternal v e lo ro k True sig w) v
            (pipe_of env e local_off remote_off n chunk_size max_inflight) 0 0 0 [] e w)"

section \<open>Identifiers\<close>

lemma unat_encode:
  assumes "counter < 2 ^ 56" "qp_idx < 256"
  shows "unat (encode_wr_id counter qp_idx) = unat counter * 256 + unat qp_idx"
proof -
  have c: "unat counter < 72057594037927936" and q: "unat qp_idx < 256"
    using assms by (simp_all add: word_less_nat_alt)
  have "push_bit 8 counter AND qp_idx = 0"
  proof (rule bit_eqI)
    fix n
    have "\<not> bit qp_idx n" if "8 \<le> n"
    proof -
      have "qp_idx = take_bit 8 qp_idx"
        using q by (simp add: take_bit_eq_mod word_eq_iff_unsigned [where ?'a = nat]
            unsigned_take_bit_eq) (simp add: unat_mod)
      then show ?thesis using that by (metis bit_take_bit_iff not_less)
    qed
    then show "bit (push_bit 8 counter AND qp_idx) n = bit (0 :: u64) n"
      by (auto simp: bit_simps)
  qed
  then have "encode_wr_id counter qp_idx = push_bit 8 counter + qp_idx"
    by (simp add: encode_wr_id_def disjunctive_add_eq_or)
  moreover have "unat (push_bit 8 counter) = unat counter * 256"
    using c by (simp add: push_bit_eq_mult unat_word_ariths)
  ultimately show ?thesis using c q by (simp add: unat_add_no_wrap)
qed

lemma encode_nonzero:
  assumes "counter \<noteq> 0" "counter < 2 ^ 56"
  shows "encode_wr_id counter qp_idx \<noteq> 0"
proof
  assume z: "encode_wr_id counter qp_idx = 0"
  have "push_bit 8 counter = 0"
    using z by (simp add: encode_wr_id_def or_eq_0_iff)
  moreover have "unat (push_bit 8 counter) = unat counter * 256"
    using assms by (simp add: push_bit_eq_mult unat_word_ariths word_less_nat_alt)
  ultimately show False using assms(1) by (simp add: unat_eq_0)
qed

lemma radix_inject:
  fixes a b c d :: nat
  assumes "b < 256" "d < 256"
  shows "a * 256 + b = c * 256 + d \<longleftrightarrow> a = c \<and> b = d"
proof
  assume eq: "a * 256 + b = c * 256 + d"
  have "(a * 256 + b) div 256 = a" "(c * 256 + d) div 256 = c"
    "(a * 256 + b) mod 256 = b" "(c * 256 + d) mod 256 = d" using assms by simp_all
  with eq show "a = c \<and> b = d" by simp
qed simp

text \<open>The identifiers of non-blocking requests.  As long as fewer than 2 to the 56 requests were
  posted and there are at most 256 queue pairs, the identifier determines the request counter and
  the queue pair, and it is never 0, the value that means ``not signaled''.\<close>

theorem wr_id_decodes:
  assumes "counter < 2 ^ 56" "qp_idx < 256" "counter' < 2 ^ 56" "qp_idx' < 256"
  shows "(encode_wr_id counter qp_idx = encode_wr_id counter' qp_idx' \<longleftrightarrow> counter = counter' \<and> qp_idx = qp_idx')
    \<and> (counter \<noteq> 0 \<longrightarrow> encode_wr_id counter qp_idx \<noteq> 0)"
proof -
  have "unat qp_idx < 256" "unat qp_idx' < 256" using assms by (simp_all add: word_less_nat_alt)
  then have "unat counter * 256 + unat qp_idx = unat counter' * 256 + unat qp_idx'
      \<longleftrightarrow> unat counter = unat counter' \<and> unat qp_idx = unat qp_idx'" using radix_inject by blast
  then show ?thesis using assms encode_nonzero unat_encode by (metis word_unat_eq_iff)
qed

theorem wr_id_decodes_witness:
  "encode_wr_id 3 1 \<noteq> encode_wr_id 3 0 \<and> encode_wr_id 3 1 \<noteq> 0"
  using wr_id_decodes [of 3 1 3 0] by simp

section \<open>Cutting a range into chunks\<close>

text \<open>The reference cut: offsets and lengths of the chunks of \<open>n\<close> bytes from offset \<open>off\<close>.\<close>

function chunk_list :: "nat \<Rightarrow> nat \<Rightarrow> nat \<Rightarrow> (nat \<times> nat) list" where
  "chunk_list off n c =
    (if n = 0 \<or> c = 0 then [] else (off, min c n) # chunk_list (off + min c n) (n - min c n) c)"
  by pat_completeness auto
termination by (relation "measure (\<lambda>(off, n, c). n)") auto

declare chunk_list.simps [simp del]

lemma chunk_list_covers:
  assumes "0 < c"
  shows "concat (map (\<lambda>(o', l). [o'..<o' + l]) (chunk_list off n c)) = [off..<off + n]"
  using assms
proof (induction off n c rule: chunk_list.induct)
  case (1 off n c)
  show ?case
  proof (cases "n = 0 \<or> c = 0")
    case True
    then show ?thesis using 1(2) by (auto simp: chunk_list.simps)
  next
    case False
    then have "[off..<off + n] = [off..<off + min c n] @ [off + min c n..<off + min c n + (n - min c n)]"
      by (metis le_add1 le_add_diff_inverse min.cobounded2 upt_add_eq_append add.assoc)
    then show ?thesis using 1 False by (subst chunk_list.simps) simp
  qed
qed

lemma chunk_list_step:
  "0 < n \<Longrightarrow> 0 < c \<Longrightarrow>
     chunk_list off n c = (off, min c n) # chunk_list (off + min c n) (n - min c n) c"
  by (subst chunk_list.simps) simp

lemma chunk_list_done [simp]: "chunk_list off 0 c = []"
  by (simp add: chunk_list.simps)

text \<open>The same step on machine words: nothing wraps while the offset is below the size.\<close>

lemma chunk_step:
  fixes off n c :: size_t
  assumes "off < n" "c \<noteq> 0"
  shows "unat (min c (n - off)) = min (unat c) (unat (n - off))"
    and "unat (off + min c (n - off)) = unat off + unat (min c (n - off))"
    and "0 < unat (min c (n - off))" and "off + min c (n - off) \<le> n"
    and "unat (n - (off + min c (n - off))) = unat (n - off) - unat (min c (n - off))"
    and "0 < unat (n - off)"
proof -
  let ?m = "min c (n - off)"
  have s: "unat (n - off) = unat n - unat off" using assms by (simp add: unat_sub_le)
  have o: "unat off < unat n" using assms by (simp add: word_less_nat_alt)
  show m: "unat ?m = min (unat c) (unat (n - off))"
    by (simp add: min_def word_le_nat_alt)
  have le: "unat off + unat ?m \<le> unat n" using m s o by simp
  show a: "unat (off + ?m) = unat off + unat ?m"
    by (rule unat_add_no_wrap) (use le order.strict_trans1 [OF le unat_u64_bound] in simp)
  have "unat c \<noteq> 0" using assms by (simp add: unat_eq_0)
  then show "0 < unat ?m" using m s o by simp
  show l: "off + ?m \<le> n" using a le by (simp add: word_le_nat_alt)
  show "unat (n - (off + ?m)) = unat (n - off) - unat ?m"
    using l a s by (simp add: unat_sub_le)
  show "0 < unat (n - off)" using s o by simp
qed

section \<open>What one post does\<close>

text \<open>Offsets, relative to the two range starts, and length of a posted request.\<close>

definition span :: "RDMAEndpoint \<Rightarrow> pipe \<Rightarrow> qp option \<times> ibv_send_wr \<Rightarrow> nat \<times> nat \<times> nat" where
  "span e P x =
    (unat (sge_addr (snd x) - (ptr (ep_buffer e) + pl_local P)),
     unat (remote_addr (snd x) - (ra_address (remote_metadata_attr e) + pl_remote P)),
     unat (sge_length (snd x)))"

definition signaled_ids :: "(qp option \<times> ibv_send_wr) list \<Rightarrow> u64 set" where
  "signaled_ids xs = {wr_id wr | q wr. (q, wr) \<in> set xs \<and> signaled_flag wr}"

lemma signaled_ids_simps [simp]:
  "signaled_ids [] = {}"
  "signaled_ids (x # xs) = (if signaled_flag (snd x) then {wr_id (snd x)} else {}) \<union> signaled_ids xs"
  by (cases x; auto simp: signaled_ids_def)+

locale pipeline_poster = verbs_log v H L
  for v :: "'w verbs" and H :: "'w \<Rightarrow> u64 list" and L :: "'w \<Rightarrow> (qp option \<times> ibv_send_wr) list" +
  fixes post :: "'w poster" and opc :: ibv_opcode
  assumes post_success: "post e lo ro n sig w = ((SUCCESS, wid), e1, w1) \<Longrightarrow>
    \<exists>q wr. L w1 = L w @ [(q, wr)] \<and> H w1 = H w
      \<and> e1 = e\<lparr>next_qp_idx := next_qp_idx e1, next_wr_id := next_wr_id e + 1\<rparr>
      \<and> opcode wr = opc \<and> sge_addr wr = ptr (ep_buffer e) + lo
      \<and> remote_addr wr = ra_address (remote_metadata_attr e) + ro
      \<and> sge_length wr = ucast n \<and> signaled_flag wr = sig \<and> (sig \<longrightarrow> wid = wr_id wr)
      \<and> (sig \<longrightarrow> next_wr_id e \<noteq> 0 \<longrightarrow> next_wr_id e < 2 ^ 56 \<longrightarrow> wid \<noteq> 0)"

lemma pick_qp_keeps:
  assumes "pick_qp e = (i, e1)"
  obtains k where "e1 = e\<lparr>next_qp_idx := k\<rparr>"
proof (cases "1 < num_qps e")
  case True
  then show ?thesis using assms that by (auto simp: pick_qp_def)
next
  case False
  then have "e1 = e\<lparr>next_qp_idx := next_qp_idx e\<rparr>" using assms by (simp add: pick_qp_def)
  then show ?thesis by (rule that)
qed

text \<open>The common part of the two non-blocking operations, over the request they build.\<close>

definition nb_post where
  "nb_post v mk e lo ro n sig w =
    (let (i, e1) = pick_qp e;
         wid = encode_wr_id (next_wr_id e1) i;
         e2 = e1\<lparr>next_wr_id := next_wr_id e1 + 1\<rparr>;
         (rc, w1) = ibv_post_send v (getQP e2 i)
           (mk (ptr (ep_buffer e) + lo) (ra_address (remote_metadata_attr e) + ro) n
              (the (buffer_mr e)) (ra_key (remote_metadata_attr e)) wid sig) w
     in if rc \<noteq> 0 then ((ERROR, 0), e2, w1)
        else ((SUCCESS, if sig then wid else 0), e2, w1))"

lemma NB_nb_post:
  "writeDataNBInternal v e lo ro n True sig w =
    (if range_rejected lo n (buffer_size (ep_buffer e))
        \<or> range_rejected ro n (ucast (ra_length (remote_metadata_attr e)))
     then ((ERROR, 0), e, w) else nb_post v write_wr e lo ro n sig w)"
  "readDataNBInternal v e lo ro n True sig w =
    (if range_rejected lo n (buffer_size (ep_buffer e))
        \<or> range_rejected ro n (ucast (ra_length (remote_metadata_attr e)))
     then ((ERROR, 0), e, w) else nb_post v read_wr e lo ro n sig w)"
  by (auto simp: writeDataNBInternal_def readDataNBInternal_def nb_post_def postWrite_def
      postRead_def Let_def split: prod.splits)

lemma nb_post_success:
  assumes "verbs_log v H L" "nb_post v mk e lo ro n sig w = ((SUCCESS, wid), e1, w1)"
  shows "\<exists>q i k. L w1 = L w @ [(q, mk (ptr (ep_buffer e) + lo)
        (ra_address (remote_metadata_attr e) + ro) n (the (buffer_mr e))
        (ra_key (remote_metadata_attr e)) (encode_wr_id (next_wr_id e) i) sig)]
      \<and> H w1 = H w \<and> wid = (if sig then encode_wr_id (next_wr_id e) i else 0)
      \<and> e1 = e\<lparr>next_qp_idx := k, next_wr_id := next_wr_id e + 1\<rparr>"
proof -
  obtain i e0 where pq: "pick_qp e = (i, e0)" by fastforce
  then obtain k where e0: "e0 = e\<lparr>next_qp_idx := k\<rparr>" by (rule pick_qp_keeps)
  let ?e2 = "e\<lparr>next_qp_idx := k, next_wr_id := next_wr_id e + 1\<rparr>"
  let ?wr = "mk (ptr (ep_buffer e) + lo) (ra_address (remote_metadata_attr e) + ro) n
      (the (buffer_mr e)) (ra_key (remote_metadata_attr e)) (encode_wr_id (next_wr_id e) i) sig"
  obtain rc w2 where ps: "ibv_post_send v (getQP ?e2 i) ?wr w = (rc, w2)" by fastforce
  have r: "rc = 0" "e1 = ?e2" "w1 = w2" "wid = (if sig then encode_wr_id (next_wr_id e) i else 0)"
    using assms(2) pq ps e0 by (auto simp: nb_post_def Let_def split: if_splits)
  have "L w1 = L w @ [(getQP ?e2 i, ?wr)]"
    using post_log.post_ok [of v L] assms(1) ps r by (simp add: verbs_log_def)
  moreover have "H w1 = H w"
    using verbs_log.post_no_completion [OF assms(1), of "getQP ?e2 i" ?wr w] ps r by simp
  ultimately show ?thesis using r by blast
qed

lemma nb_post_is_poster:
  assumes "verbs_log v H L"
    and "\<And>e lo ro n sig w. post e lo ro n sig w = ((ERROR, 0), e, w)
           \<or> post e lo ro n sig w = nb_post v mk e lo ro n sig w"
    and "\<And>a b n mr k i s. opcode (mk a b n mr k i s) = opc \<and> sge_addr (mk a b n mr k i s) = a
           \<and> remote_addr (mk a b n mr k i s) = b \<and> sge_length (mk a b n mr k i s) = ucast n
           \<and> signaled_flag (mk a b n mr k i s) = s \<and> wr_id (mk a b n mr k i s) = i"
  shows "pipeline_poster v H L post opc"
proof (intro pipeline_poster.intro pipeline_poster_axioms.intro assms)
  fix e lo ro n sig w wid e1 w1
  assume a: "post e lo ro n sig w = ((SUCCESS, wid), e1, w1)"
  then have "nb_post v mk e lo ro n sig w = ((SUCCESS, wid), e1, w1)"
    using assms(2) [of e lo ro n sig w] by auto
  from nb_post_success [OF assms(1) this] show "\<exists>q wr. L w1 = L w @ [(q, wr)] \<and> H w1 = H w
      \<and> e1 = e\<lparr>next_qp_idx := next_qp_idx e1, next_wr_id := next_wr_id e + 1\<rparr>
      \<and> opcode wr = opc \<and> sge_addr wr = ptr (ep_buffer e) + lo
      \<and> remote_addr wr = ra_address (remote_metadata_attr e) + ro
      \<and> sge_length wr = ucast n \<and> signaled_flag wr = sig \<and> (sig \<longrightarrow> wid = wr_id wr)
      \<and> (sig \<longrightarrow> next_wr_id e \<noteq> 0 \<longrightarrow> next_wr_id e < 2 ^ 56 \<longrightarrow> wid \<noteq> 0)"
    using assms(3) encode_nonzero [of "next_wr_id e"] by fastforce
qed

abbreviation write_poster :: "'w verbs \<Rightarrow> 'w poster" where
  "write_poster v \<equiv> (\<lambda>e lo ro k sig w. writeDataNBInternal v e lo ro k True sig w)"

abbreviation read_poster :: "'w verbs \<Rightarrow> 'w poster" where
  "read_poster v \<equiv> (\<lambda>e lo ro k sig w. readDataNBInternal v e lo ro k True sig w)"

lemma write_is_poster:
  "verbs_log v H L \<Longrightarrow> pipeline_poster v H L (write_poster v) IBV_WR_RDMA_WRITE"
  by (rule nb_post_is_poster [where mk = write_wr]) (auto simp: NB_nb_post write_wr_def)

lemma read_is_poster:
  "verbs_log v H L \<Longrightarrow> pipeline_poster v H L (read_poster v) IBV_WR_RDMA_READ"
  by (rule nb_post_is_poster [where mk = read_wr]) (auto simp: NB_nb_post read_wr_def)

interpretation nic_write: pipeline_poster nic_verbs delivered posted "write_poster nic_verbs" IBV_WR_RDMA_WRITE
  by (rule write_is_poster) (rule nic_both.verbs_log_axioms)

interpretation nic_read: pipeline_poster nic_verbs delivered posted "read_poster nic_verbs" IBV_WR_RDMA_READ
  by (rule read_is_poster) (rule nic_both.verbs_log_axioms)

section \<open>One round of the loop\<close>

text \<open>A loop that ends in success has either nothing left to send, or posted one chunk, possibly
  waited for the pending identifiers, and ended in success from there.\<close>

lemma pipeline_round:
  assumes "pipeline_loop post v P off k since pend e w = Some (SUCCESS, e', w')" "off < pl_size P"
  defines "cur \<equiv> min (pl_chunk P) (pl_size P - off)"
  obtains sig wid e1 w1 e2 w2 k2 since2 pend1 pend2 where
    "post e (pl_local P + off) (pl_remote P + off) cur sig w = ((SUCCESS, wid), e1, w1)"
    "off + cur \<ge> pl_size P \<longrightarrow> sig" "pl_signal P \<le> 1 \<longrightarrow> sig"
    "pend1 = (if sig \<and> wid \<noteq> 0 then pend @ [wid] else pend)"
    "pipeline_loop post v P (off + cur) k2 since2 pend2 e2 w2 = Some (SUCCESS, e', w')"
    "(off + cur < pl_size P \<and> pend2 = pend1 \<and> e2 = e1 \<and> w2 = w1)
     \<or> (pend1 = [] \<and> pend2 = [] \<and> e2 = e1 \<and> w2 = w1)
     \<or> (pend2 = [] \<and> waitWrIdMulti v default_timeout pend1 e1 w1 = Some (SUCCESS, e2, w2))"
proof -
  let ?last = "pl_size P \<le> off + cur"
  define sig where "sig \<longleftrightarrow> pl_signal P \<le> 1 \<or> ?last \<or> pl_signal P \<le> since + 1"
  obtain st wid e1 w1 where p: "post e (pl_local P + off) (pl_remote P + off) cur sig w = ((st, wid), e1, w1)"
    by (metis prod.exhaust)
  define pend1 where "pend1 = (if sig \<and> wid \<noteq> 0 then pend @ [wid] else pend)"
  define since1 where "since1 = (if sig \<and> wid \<noteq> 0 then 0 else since + 1)"
  have st: "st = SUCCESS"
    and r: "(if pl_inflight P \<le> k + 1 \<or> ?last
       then (if pend1 = [] then pipeline_loop post v P (off + cur) 0 since1 [] e1 w1
             else Option.bind (waitWrIdMulti v default_timeout pend1 e1 w1) (\<lambda>(st2, e2, w2).
                      if st2 \<noteq> SUCCESS then Some (ERROR, e2, w2)
                      else pipeline_loop post v P (off + cur) 0 since1 [] e2 w2))
       else pipeline_loop post v P (off + cur) (k + 1) since1 pend1 e1 w1) = Some (SUCCESS, e', w')"
    using assms(1,2) p unfolding cur_def sig_def pend1_def since1_def
    by (auto simp: Let_def pipeline_loop.simps [of post v P off] split: if_splits)
  note g = that [OF p [unfolded st] _ _ pend1_def]
  have s: "off + cur \<ge> pl_size P \<longrightarrow> sig" "pl_signal P \<le> 1 \<longrightarrow> sig" by (simp_all add: sig_def)
  show ?thesis
  proof (cases "pl_inflight P \<le> k + 1 \<or> ?last")
    case False
    then show ?thesis using r s by (intro g) auto
  next
    case True
    show ?thesis
    proof (cases "pend1 = []")
      case e: True
      then show ?thesis using True r s by (intro g) auto
    next
      case False
      with True r obtain e2 w2 where "waitWrIdMulti v default_timeout pend1 e1 w1 = Some (SUCCESS, e2, w2)"
        "pipeline_loop post v P (off + cur) 0 since1 [] e2 w2 = Some (SUCCESS, e', w')"
        by (auto simp: bind_eq_Some_conv split: if_splits)
      then show ?thesis using s by (intro g) auto
    qed
  qed
qed

section \<open>A successful transfer\<close>

definition same_target :: "RDMAEndpoint \<Rightarrow> RDMAEndpoint \<Rightarrow> bool" where
  "same_target e e2 \<longleftrightarrow> ep_buffer e2 = ep_buffer e \<and> remote_metadata_attr e2 = remote_metadata_attr e"

lemma same_target_span: "same_target e e2 \<Longrightarrow> span e2 P = span e P"
  by (rule ext) (simp add: span_def same_target_def)

context pipeline_poster
begin

lemma round_effect:
  assumes "post e lo ro n sig w = ((SUCCESS, wid), e1, w1)"
    and "(pend2 = pend1 \<and> e2 = e1 \<and> w2 = w1) \<or> (pend1 = [] \<and> pend2 = [] \<and> e2 = e1 \<and> w2 = w1)
     \<or> (pend2 = [] \<and> waitWrIdMulti v default_timeout pend1 e1 w1 = Some (SUCCESS, e2, w2))"
  shows "\<exists>q wr d. L w2 = L w @ [(q, wr)] \<and> H w2 = H w @ d \<and> opcode wr = opc
      \<and> sge_addr wr = ptr (ep_buffer e) + lo
      \<and> remote_addr wr = ra_address (remote_metadata_attr e) + ro \<and> sge_length wr = ucast n
      \<and> signaled_flag wr = sig \<and> (sig \<longrightarrow> wid = wr_id wr)
      \<and> (sig \<longrightarrow> next_wr_id e \<noteq> 0 \<longrightarrow> next_wr_id e < 2 ^ 56 \<longrightarrow> wid \<noteq> 0)
      \<and> same_target e e2 \<and> next_wr_id e2 = next_wr_id e + 1
      \<and> completed_wr_ids e2 \<subseteq> completed_wr_ids e \<union> set d
      \<and> set pend1 \<subseteq> set pend2 \<union> completed_wr_ids e \<union> set d"
proof -
  from post_success [OF assms(1)] obtain q wr where
    w: "L w1 = L w @ [(q, wr)]" "H w1 = H w" "opcode wr = opc" "sge_addr wr = ptr (ep_buffer e) + lo"
      "remote_addr wr = ra_address (remote_metadata_attr e) + ro" "sge_length wr = ucast n"
      "signaled_flag wr = sig" "sig \<longrightarrow> wid = wr_id wr"
      "sig \<longrightarrow> next_wr_id e \<noteq> 0 \<longrightarrow> next_wr_id e < 2 ^ 56 \<longrightarrow> wid \<noteq> 0"
    and e1: "e1 = e\<lparr>next_qp_idx := next_qp_idx e1, next_wr_id := next_wr_id e + 1\<rparr>" by blast
  have st: "same_target e e1" "next_wr_id e1 = next_wr_id e + 1" "completed_wr_ids e1 = completed_wr_ids e"
    by (subst e1, simp add: same_target_def)+
  have "\<exists>d. L w2 = L w1 \<and> H w2 = H w1 @ d \<and> same_target e e2 \<and> next_wr_id e2 = next_wr_id e + 1
      \<and> completed_wr_ids e2 \<subseteq> completed_wr_ids e \<union> set d
      \<and> set pend1 \<subseteq> set pend2 \<union> completed_wr_ids e \<union> set d"
  proof (cases "waitWrIdMulti v default_timeout pend1 e1 w1 = Some (SUCCESS, e2, w2) \<and> pend2 = []")
    case True
    then obtain d where d: "H w2 = H w1 @ d"
      "completed_wr_ids e2 - set pend1 = (completed_wr_ids e1 \<union> set d) - set pend1"
      "set pend1 \<subseteq> completed_wr_ids e1 \<union> set d"
      "e2 = e1\<lparr>completed_wr_ids := completed_wr_ids e2\<rparr>"
      using multi_conserves by blast
    have "same_target e e2" "next_wr_id e2 = next_wr_id e + 1"
      using st by (subst d(4), simp add: same_target_def)+
    then show ?thesis using d st multi_log True by (intro exI [of _ d]) auto
  next
    case False
    then show ?thesis using assms(2) st by (intro exI [of _ "[]"]) auto
  qed
  then obtain d where "L w2 = L w1" "H w2 = H w1 @ d" "same_target e e2"
    "next_wr_id e2 = next_wr_id e + 1" "completed_wr_ids e2 \<subseteq> completed_wr_ids e \<union> set d"
    "set pend1 \<subseteq> set pend2 \<union> completed_wr_ids e \<union> set d" by blast
  with w show ?thesis by (intro exI [of _ q] exI [of _ wr] exI [of _ d]) simp
qed

definition transferred where
  "transferred P off pend e w w' log d \<longleftrightarrow>
     L w' = L w @ log \<and> H w' = H w @ d
     \<and> map (span e P) log = map (\<lambda>(o', l). (o', o', l))
         (chunk_list (unat off) (unat (pl_size P - off)) (unat (pl_chunk P)))
     \<and> (\<forall>x \<in> set log. opcode (snd x) = opc)
     \<and> signaled_ids log \<union> (if off < pl_size P then set pend else {}) \<subseteq> completed_wr_ids e \<union> set d
     \<and> (off < pl_size P \<longrightarrow> log \<noteq> [] \<and> signaled_flag (snd (last log)))"

lemma transferred_cons:
  assumes "off < pl_size P" "pl_chunk P \<noteq> 0" "unat (pl_size P) < 2 ^ 32"
  defines "cur \<equiv> min (pl_chunk P) (pl_size P - off)"
  assumes "L w2 = L w @ [(q, wr)]" "H w2 = H w @ d1" "opcode wr = opc"
    "sge_addr wr = ptr (ep_buffer e) + (pl_local P + off)"
    "remote_addr wr = ra_address (remote_metadata_attr e) + (pl_remote P + off)"
    "sge_length wr = ucast cur" "signaled_flag wr = sig" "sig \<longrightarrow> wid = wr_id wr \<and> wid \<noteq> 0"
    "pl_size P \<le> off + cur \<longrightarrow> sig" "same_target e e2"
    "completed_wr_ids e2 \<subseteq> completed_wr_ids e \<union> set d1"
    "pend1 = (if sig \<and> wid \<noteq> 0 then pend @ [wid] else pend)"
    "set pend1 \<subseteq> set pend2 \<union> completed_wr_ids e \<union> set d1"
    "off + cur < pl_size P \<or> pend2 = []"
    "transferred P (off + cur) pend2 e2 w2 w' log d"
  shows "transferred P off pend e w w' ((q, wr) # log) (d1 @ d)"
proof -
  note c = chunk_step [OF assms(1,2), folded cur_def]
  have lt: "unat cur < 4294967296"
    using c(1) assms(3) by (simp add: unat_sub_le [OF less_imp_le [OF assms(1)]])
  have "x + (y + off) - (x + y) = off" for x y :: size_t by simp
  moreover have "unat (ucast cur :: u32) = unat cur"
    using lt by (simp add: unsigned_ucast_eq take_bit_nat_eq_self)
  ultimately have "span e P (q, wr) = (unat off, unat off, unat cur)"
    using assms(8-10) by (simp only: span_def snd_conv)
  moreover have "map (span e P) log = map (\<lambda>(o', l). (o', o', l))
      (chunk_list (unat off + unat cur) (unat (pl_size P - off) - unat cur) (unat (pl_chunk P)))"
    using assms(19) c same_target_span [OF assms(14)] by (simp add: transferred_def)
  moreover have "0 < unat (pl_chunk P)" using assms(2) by (simp add: unat_gt_0)
  ultimately have sp: "map (span e P) ((q, wr) # log) = map (\<lambda>(o', l). (o', o', l))
      (chunk_list (unat off) (unat (pl_size P - off)) (unat (pl_chunk P)))"
    using c(1,6) by (simp add: chunk_list_step)
  have ids: "signaled_ids log \<union> set pend2 \<subseteq> completed_wr_ids e2 \<union> set d"
    using assms(18,19) by (auto simp: transferred_def split: if_splits)
  have "signaled_ids ((q, wr) # log) \<union> set pend \<subseteq> completed_wr_ids e \<union> set (d1 @ d)"
    using ids assms(11,12,15,16,17) by (auto split: if_splits)
  moreover have "signaled_flag (snd (last ((q, wr) # log)))"
  proof (cases "off + cur < pl_size P")
    case True
    then show ?thesis using assms(19) by (auto simp: transferred_def)
  next
    case False
    then have "pl_size P - (off + cur) = 0" using c(4) by simp
    then have "log = []" using assms(19) by (simp add: transferred_def)
    then show ?thesis using False assms(11,13) by simp
  qed
  ultimately show ?thesis using sp assms(5-7,19) by (auto simp: transferred_def)
qed

lemma loop_success:
  assumes "pipeline_loop post v P off k since pend e w = Some (SUCCESS, e', w')"
    "off \<le> pl_size P" "pl_chunk P \<noteq> 0" "unat (pl_size P) < 2 ^ 32" "next_wr_id e \<noteq> 0"
    "unat (next_wr_id e) + unat (pl_size P - off) < 2 ^ 56"
  shows "\<exists>log d. transferred P off pend e w w' log d"
  using assms(1,2,5,6)
proof (induction "unat (pl_size P - off)" arbitrary: off k since pend e w rule: less_induct)
  case less
  show ?case
  proof (cases "off < pl_size P")
    case False
    then have "pl_size P - off = 0" using less.prems(2) by simp
    moreover have "pipeline_loop post v P off k since pend e w = Some (SUCCESS, e, w)"
      using False by (subst pipeline_loop.simps) simp
    ultimately have "pl_size P - off = 0" "w' = w" using less.prems(1) by simp_all
    with False have "transferred P off pend e w w' [] []" by (simp add: transferred_def)
    then show ?thesis by blast
  next
    case True
    note c = chunk_step [OF True assms(3)]
    obtain sig wid e1 w1 e2 w2 k2 since2 pend1 pend2 where
      p: "post e (pl_local P + off) (pl_remote P + off) (min (pl_chunk P) (pl_size P - off)) sig w
            = ((SUCCESS, wid), e1, w1)"
      and r: "off + min (pl_chunk P) (pl_size P - off) \<ge> pl_size P \<longrightarrow> sig"
        "pend1 = (if sig \<and> wid \<noteq> 0 then pend @ [wid] else pend)"
        "pipeline_loop post v P (off + min (pl_chunk P) (pl_size P - off)) k2 since2 pend2 e2 w2
           = Some (SUCCESS, e', w')"
      and x: "(off + min (pl_chunk P) (pl_size P - off) < pl_size P \<and> pend2 = pend1 \<and> e2 = e1 \<and> w2 = w1)
        \<or> (pend1 = [] \<and> pend2 = [] \<and> e2 = e1 \<and> w2 = w1)
        \<or> (pend2 = [] \<and> waitWrIdMulti v default_timeout pend1 e1 w1 = Some (SUCCESS, e2, w2))"
      by (rule pipeline_round [OF less.prems(1) True])
    have "next_wr_id e < 2 ^ 56" using less.prems(4) by (simp add: word_less_nat_alt)
    moreover from x have x': "(pend2 = pend1 \<and> e2 = e1 \<and> w2 = w1)
        \<or> (pend1 = [] \<and> pend2 = [] \<and> e2 = e1 \<and> w2 = w1)
        \<or> (pend2 = [] \<and> waitWrIdMulti v default_timeout pend1 e1 w1 = Some (SUCCESS, e2, w2))" by blast
    ultimately obtain q wr d1 where f: "L w2 = L w @ [(q, wr)]" "H w2 = H w @ d1" "opcode wr = opc"
      "sge_addr wr = ptr (ep_buffer e) + (pl_local P + off)"
      "remote_addr wr = ra_address (remote_metadata_attr e) + (pl_remote P + off)"
      "sge_length wr = ucast (min (pl_chunk P) (pl_size P - off))" "signaled_flag wr = sig"
      "sig \<longrightarrow> wid = wr_id wr \<and> wid \<noteq> 0" "same_target e e2" "next_wr_id e2 = next_wr_id e + 1"
      "completed_wr_ids e2 \<subseteq> completed_wr_ids e \<union> set d1"
      "set pend1 \<subseteq> set pend2 \<union> completed_wr_ids e \<union> set d1"
      using round_effect [OF p x'] less.prems(3) by metis
    have n: "unat (next_wr_id e2) = unat (next_wr_id e) + 1"
      using less.prems(4) f(10) by (simp add: unat_add_no_wrap)
    then have "next_wr_id e2 \<noteq> 0" by (metis add_is_0 unat_0 zero_neq_one)
    then obtain log d where
      "transferred P (off + min (pl_chunk P) (pl_size P - off)) pend2 e2 w2 w' log d"
      using less.hyps [OF _ r(3)] c n less.prems(4) by fastforce
    with f r x have "transferred P off pend e w w' ((q, wr) # log) (d1 @ d)"
      by (intro transferred_cons [OF True assms(3,4) f(1-8) r(1) f(9,11) r(2) f(12)]) auto
    then show ?thesis by blast
  qed
qed

end

lemma pipe_of_sel [simp]:
  "pl_size (pipe_of env e lo ro n c k) = n" "pl_local (pipe_of env e lo ro n c k) = lo"
  "pl_remote (pipe_of env e lo ro n c k) = ro"
  "pl_chunk (pipe_of env e lo ro n c k) = pipeline_chunk env c"
  by (simp_all add: pipe_of_def Let_def)

lemma pipeline_chunk_pos [simp]: "pipeline_chunk env c \<noteq> 0"
  by (simp add: pipeline_chunk_def Let_def)

lemma remote_fit_small:
  fixes len :: u32
  assumes "range_fits ro n (ucast len)"
  shows "unat n < 2 ^ 32"
proof -
  have b: "unat len < 4294967296" using unsigned_less [of len, where ?'a = nat] by simp
  then have "unat (ucast len :: size_t) = unat len"
    by (simp add: unsigned_ucast_eq take_bit_nat_eq_self)
  then show ?thesis using b assms by (simp add: range_fits_def)
qed

lemma write_pipeline_transferred:
  assumes "verbs_log v H L" "writeDataPipeline v env e lo ro n c k w = Some (SUCCESS, e', w')"
    "range_fits ro n (ucast (ra_length (remote_metadata_attr e)))" "next_wr_id e \<noteq> 0"
    "unat (next_wr_id e) + unat n < 2 ^ 56"
  shows "\<exists>log d. pipeline_poster.transferred H L IBV_WR_RDMA_WRITE
    (pipe_of env e lo ro n c k) 0 [] e w w' log d"
  using assms remote_fit_small [OF assms(3)]
  by (intro pipeline_poster.loop_success [OF write_is_poster [OF assms(1)], where k = 0 and since = 0 and e' = e'])
    (auto simp: writeDataPipeline_def split: if_splits)

lemma read_pipeline_transferred:
  assumes "verbs_log v H L" "readDataPipeline v env e lo ro n c k w = Some (SUCCESS, e', w')"
    "range_fits ro n (ucast (ra_length (remote_metadata_attr e)))" "next_wr_id e \<noteq> 0"
    "unat (next_wr_id e) + unat n < 2 ^ 56"
  shows "\<exists>log d. pipeline_poster.transferred H L IBV_WR_RDMA_READ
    (pipe_of env e lo ro n c k) 0 [] e w w' log d"
  using assms remote_fit_small [OF assms(3)]
  by (intro pipeline_poster.loop_success [OF read_is_poster [OF assms(1)], where k = 0 and since = 0 and e' = e'])
    (auto simp: readDataPipeline_def split: if_splits)

lemmas transferred_defs = pipeline_poster.transferred_def [OF write_is_poster]
  pipeline_poster.transferred_def [OF read_is_poster]

section \<open>Termination\<close>

lemma pipeline_loop_returns:
  assumes "timed_cq v H T" "pl_chunk P \<noteq> 0" "off \<le> pl_size P"
  shows "\<exists>r. pipeline_loop post v P off k since pend e w = Some r"
  using assms(3)
proof (induction "unat (pl_size P - off)" arbitrary: off k since pend e w rule: less_induct)
  case less
  show ?case
  proof (cases "off < pl_size P")
    case False
    then show ?thesis by (subst pipeline_loop.simps) simp
  next
    case True
    let ?cur = "min (pl_chunk P) (pl_size P - off)"
    note c = chunk_step [OF True assms(2)]
    have IH: "\<exists>r. pipeline_loop post v P (off + ?cur) k' s' p' e' w' = Some r" for k' s' p' e' w'
      using less.hyps [of "off + ?cur"] c by simp
    have W: "\<exists>r. waitWrIdMulti v default_timeout p' e' w' = Some r" for p' e' w'
      using timed_cq.multi_returns [OF assms(1)] by blast
    have B: "\<exists>r. Option.bind (waitWrIdMulti v default_timeout p' e' w') (\<lambda>(st2, e2, w2).
        if st2 \<noteq> SUCCESS then Some (ERROR, e2, w2)
        else pipeline_loop post v P (off + ?cur) 0 s' [] e2 w2) = Some r" for p' s' e' w'
    proof -
      obtain st2 e2 w2 where "waitWrIdMulti v default_timeout p' e' w' = Some (st2, e2, w2)"
        using W by (metis prod_cases3)
      then show ?thesis using IH by (cases "st2 = SUCCESS") simp_all
    qed
    obtain st wid e1 w1 where p: "post e (pl_local P + off) (pl_remote P + off) ?cur
        (pl_signal P \<le> 1 \<or> pl_size P \<le> off + ?cur \<or> pl_signal P \<le> since + 1) w = ((st, wid), e1, w1)"
      by (metis prod.exhaust)
    show ?thesis
      using IH B by (subst pipeline_loop.simps) (simp only: True p Let_def not_not if_True if_False
        prod.case split: if_split, blast)
  qed
qed

section \<open>Properties\<close>

text \<open>C4: a pipelined write that reports success has posted exactly the requested range: the accepted
  requests, in order, are RDMA writes whose local and remote offsets and lengths are those of the
  reference cut, and the reference cut lists every byte offset of the range exactly once, in
  order.\<close>

theorem write_pipeline_tiles:
  assumes "verbs_log v H L" and "writeDataPipeline v env e lo ro n c k w = Some (SUCCESS, e', w')"
    and "range_fits ro n (ucast (ra_length (remote_metadata_attr e)))"
    and "next_wr_id e \<noteq> 0" and "unat (next_wr_id e) + unat n < 2 ^ 56"
  shows "\<exists>log. L w' = L w @ log
     \<and> map (span e (pipe_of env e lo ro n c k)) log
         = map (\<lambda>(o', l). (o', o', l)) (chunk_list 0 (unat n) (unat (pipeline_chunk env c)))
     \<and> (\<forall>x \<in> set log. opcode (snd x) = IBV_WR_RDMA_WRITE)
     \<and> concat (map (\<lambda>(o', l). [o'..<o' + l]) (chunk_list 0 (unat n) (unat (pipeline_chunk env c))))
         = [0..<unat n]"
proof -
  have "0 < unat (pipeline_chunk env c)" by (simp add: unat_gt_0)
  from chunk_list_covers [OF this, of 0 "unat n"] write_pipeline_transferred [OF assms]
  show ?thesis by (auto simp: transferred_defs [OF assms(1)])
qed

text \<open>The same for a pipelined read.\<close>

theorem read_pipeline_tiles:
  assumes "verbs_log v H L" and "readDataPipeline v env e lo ro n c k w = Some (SUCCESS, e', w')"
    and "range_fits ro n (ucast (ra_length (remote_metadata_attr e)))"
    and "next_wr_id e \<noteq> 0" and "unat (next_wr_id e) + unat n < 2 ^ 56"
  shows "\<exists>log. L w' = L w @ log
     \<and> map (span e (pipe_of env e lo ro n c k)) log
         = map (\<lambda>(o', l). (o', o', l)) (chunk_list 0 (unat n) (unat (pipeline_chunk env c)))
     \<and> (\<forall>x \<in> set log. opcode (snd x) = IBV_WR_RDMA_READ)
     \<and> concat (map (\<lambda>(o', l). [o'..<o' + l]) (chunk_list 0 (unat n) (unat (pipeline_chunk env c))))
         = [0..<unat n]"
proof -
  have "0 < unat (pipeline_chunk env c)" by (simp add: unat_gt_0)
  from chunk_list_covers [OF this, of 0 "unat n"] read_pipeline_transferred [OF assms]
  show ?thesis by (auto simp: transferred_defs [OF assms(1)])
qed

text \<open>C6: what a successful pipelined write has waited for: every request that was posted signaled has
  been reported complete, and for a non-empty range the last request is one of them.\<close>

theorem write_pipeline_completes:
  assumes "verbs_log v H L" and "writeDataPipeline v env e lo ro n c k w = Some (SUCCESS, e', w')"
    and "range_fits ro n (ucast (ra_length (remote_metadata_attr e)))"
    and "next_wr_id e \<noteq> 0" and "unat (next_wr_id e) + unat n < 2 ^ 56" and "n \<noteq> 0"
  shows "\<exists>log d. L w' = L w @ log \<and> H w' = H w @ d
     \<and> (\<forall>(q, wr) \<in> set log. signaled_flag wr \<longrightarrow> wr_id wr \<in> completed_wr_ids e \<union> set d)
     \<and> log \<noteq> [] \<and> signaled_flag (snd (last log))
     \<and> wr_id (snd (last log)) \<in> completed_wr_ids e \<union> set d"
proof -
  obtain log d where t: "L w' = L w @ log" "H w' = H w @ d"
    "signaled_ids log \<subseteq> completed_wr_ids e \<union> set d" "log \<noteq> []" "signaled_flag (snd (last log))"
    using write_pipeline_transferred [OF assms(1-5)] assms(6)
    by (auto simp: transferred_defs [OF assms(1)] word_gt_0)
  have s: "\<forall>(q, wr) \<in> set log. signaled_flag wr \<longrightarrow> wr_id wr \<in> completed_wr_ids e \<union> set d"
    using t(3) by (auto simp: signaled_ids_def)
  then have "wr_id (snd (last log)) \<in> completed_wr_ids e \<union> set d"
    using t(4,5) last_in_set [of log] by (cases "last log") fastforce
  with t s show ?thesis by blast
qed

text \<open>C9: a pipelined write always returns, on any adapter, as long as the clock advances.\<close>

theorem write_pipeline_returns:
  assumes "timed_cq v H T"
  shows "\<exists>st e' w'. writeDataPipeline v env e lo ro n c k w = Some (st, e', w')"
proof -
  have "\<exists>r. pipeline_loop (write_poster v) v (pipe_of env e lo ro n c k) 0 0 0 [] e w = Some r"
    by (rule pipeline_loop_returns [OF assms]) simp_all
  then show ?thesis by (auto simp: writeDataPipeline_def)
qed

text \<open>An endpoint with two queue pairs, and an adapter that advances the second one first.\<close>

definition two_qp_endpoint :: RDMAEndpoint where
  "two_qp_endpoint = demo_endpoint\<lparr> num_qps := 2, qps := [Some 7, Some 8] \<rparr>"

definition lazy_nic :: nic where
  "lazy_nic = demo_nic\<lparr> sched := [[8]] \<rparr>"

lemma lazy_run:
  "case writeDataPipeline nic_verbs (\<lambda>_. None) two_qp_endpoint 0 0 8 4 64 lazy_nic of
     None \<Rightarrow> False
   | Some (st, e', w') \<Rightarrow> st = SUCCESS \<and> length (sq w') = 1
       \<and> read_bytes (rmem w') 8192 8 = [0, 0, 0, 0, 4, 5, 6, 7]
       \<and> read_bytes (lmem w') 4096 8 = [0, 1, 2, 3, 4, 5, 6, 7]"
  by code_simp

text \<open>With more than one queue pair, success does not mean that every chunk has arrived.  Two
  chunks go to two queue pairs and only the second is signaled; an adapter that advances the second
  queue pair first makes \<^verbatim>\<open>writeDataPipeline\<close> return success while the first chunk is still queued
  and the remote bytes are unwritten.\<close>

theorem pipeline_multi_qp_gap:
  "\<exists>e' w'. writeDataPipeline nic_verbs (\<lambda>_. None) two_qp_endpoint 0 0 8 4 64 lazy_nic
       = Some (SUCCESS, e', w')
     \<and> length (sq w') = 1
     \<and> read_bytes (rmem w') 8192 8 = [0, 0, 0, 0, 4, 5, 6, 7]
     \<and> read_bytes (lmem w') 4096 8 = [0, 1, 2, 3, 4, 5, 6, 7]"
  using lazy_run by (auto split: option.splits prod.splits)

section \<open>Witnesses\<close>

lemma demo_write_ok:
  "case writeDataPipeline nic_verbs (\<lambda>_. None) demo_endpoint 0 0 8 4 64 demo_nic of
     None \<Rightarrow> False | Some (st, e', w') \<Rightarrow> st = SUCCESS"
  by code_simp

lemma demo_read_ok:
  "case readDataPipeline nic_verbs (\<lambda>_. None) demo_endpoint 0 0 8 4 64 demo_nic of
     None \<Rightarrow> False | Some (st, e', w') \<Rightarrow> st = SUCCESS"
  by code_simp

lemma demo_fits:
  "range_fits 0 8 (ucast (ra_length (remote_metadata_attr demo_endpoint)))"
  "next_wr_id demo_endpoint \<noteq> 0" "unat (next_wr_id demo_endpoint) + unat (8 :: size_t) < 2 ^ 56"
  by (simp_all add: range_fits_def demo_endpoint_def new_RDMAEndpoint_def empty_attr_def Let_def)

theorem write_pipeline_tiles_witness:
  "\<exists>e' w' log. writeDataPipeline nic_verbs (\<lambda>_. None) demo_endpoint 0 0 8 4 64 demo_nic = Some (SUCCESS, e', w')
     \<and> posted w' = posted demo_nic @ log"
proof -
  obtain e' w' where r: "writeDataPipeline nic_verbs (\<lambda>_. None) demo_endpoint 0 0 8 4 64 demo_nic
      = Some (SUCCESS, e', w')"
    using demo_write_ok by (auto split: option.splits prod.splits)
  from write_pipeline_tiles [OF nic_both.verbs_log_axioms r demo_fits] r show ?thesis by blast
qed

theorem read_pipeline_tiles_witness:
  "\<exists>e' w' log. readDataPipeline nic_verbs (\<lambda>_. None) demo_endpoint 0 0 8 4 64 demo_nic = Some (SUCCESS, e', w')
     \<and> posted w' = posted demo_nic @ log"
proof -
  obtain e' w' where r: "readDataPipeline nic_verbs (\<lambda>_. None) demo_endpoint 0 0 8 4 64 demo_nic
      = Some (SUCCESS, e', w')"
    using demo_read_ok by (auto split: option.splits prod.splits)
  from read_pipeline_tiles [OF nic_both.verbs_log_axioms r demo_fits] r show ?thesis by blast
qed

theorem write_pipeline_completes_witness:
  "\<exists>e' w' log d. writeDataPipeline nic_verbs (\<lambda>_. None) demo_endpoint 0 0 8 4 64 demo_nic = Some (SUCCESS, e', w')
     \<and> posted w' = posted demo_nic @ log \<and> delivered w' = delivered demo_nic @ d
     \<and> wr_id (snd (last log)) \<in> set d"
proof -
  obtain e' w' where r: "writeDataPipeline nic_verbs (\<lambda>_. None) demo_endpoint 0 0 8 4 64 demo_nic
      = Some (SUCCESS, e', w')"
    using demo_write_ok by (auto split: option.splits prod.splits)
  from write_pipeline_completes [OF nic_both.verbs_log_axioms r demo_fits] r show ?thesis by auto
qed

theorem write_pipeline_returns_witness:
  "\<exists>st e' w'. writeDataPipeline nic_verbs (\<lambda>_. None) demo_endpoint 0 0 8 4 64 demo_nic = Some (st, e', w')"
  by (rule write_pipeline_returns [OF nic.timed_cq_axioms])

end
