(* ===== verification/Hmc_Uhm.thy ===== *)
theory Hmc_Uhm
  imports Hmc_Env Hmc_Types
begin

text \<open>
  The double-buffered message transfer \<^verbatim>\<open>uhm_send\<close> / \<^verbatim>\<open>uhm_recv\<close> of src/network/rdma_endpoint.cpp as
  a transition system of four kinds of actors: the sending process, the receiving process, and the
  two adapters, which execute posted RDMA writes.  A step of a process is the code between two
  points where the other side can be observed (a spin loop, a posted request, a wait); a step of an
  adapter takes the head of one send queue and copies the memory as it is at that moment, so a
  buffer that is refilled before its write was executed is sent with the new contents.  Requests
  posted to one queue pair are executed in order, requests on different queue pairs in any order.
  The buffers are byte functions; sizes and chunk counters are natural numbers, which is exact here:
  the code refuses messages of 4 GiB and more, so none of its 64-bit products or sums wraps.  Posting
  is assumed to succeed, and the host copies into and out of the buffer (whose status the code
  ignores) to copy.
\<close>

section \<open>Settings\<close>

record uhm_cfg =
  half :: nat
  chunk :: nat
  total :: nat
  nq :: nat
  signal_interval :: nat
  max_pending_signal :: nat

text \<open>The checks at the top of \<^verbatim>\<open>uhm_send\<close>: either an early return, or the settings of the transfer.\<close>

definition uhm_send_setup ::
  "environ \<Rightarrow> size_t \<Rightarrow> size_t \<Rightarrow> addr \<Rightarrow> size_t \<Rightarrow> status_t + uhm_cfg" where
  "uhm_send_setup env buf_size num_qps input_buffer send_flags =
    (if send_flags = 0 then Inl SUCCESS
     else if input_buffer = 0 then Inl ERROR
     else
       let half_buffer_size = buf_size div 2
       in if half_buffer_size = 0 then Inl ERROR
          else if send_flags > 4294967295 then Inl ERROR
          else
            let chunk_size = ucast (envU32OrDefault env ''HMC_UHM_CHUNK'' (ucast half_buffer_size)) :: size_t;
                chunk_size = max 1 (min chunk_size half_buffer_size)
            in Inr \<lparr> half = unat half_buffer_size, chunk = unat chunk_size, total = unat send_flags,
                 nq = max (unat num_qps) 1,
                 signal_interval = unat (max 1 (envU32OrDefault env ''HMC_UHM_SIGNAL_INTERVAL'' 16)),
                 max_pending_signal = unat (max 1 (envU32OrDefault env ''HMC_UHM_PENDING_SIGNAL'' 8)) \<rparr>)"

record recv_cfg =
  r_half :: nat
  r_capacity :: nat
  r_nq :: nat
  r_signal_interval :: nat
  r_max_pending :: nat

definition uhm_recv_setup ::
  "environ \<Rightarrow> size_t \<Rightarrow> size_t \<Rightarrow> addr \<Rightarrow> size_t \<Rightarrow> bool \<Rightarrow> status_t + recv_cfg" where
  "uhm_recv_setup env buf_size num_qps output_buffer capacity has_flags =
    (if output_buffer = 0 \<or> \<not> has_flags then Inl ERROR
     else if buf_size div 2 = 0 then Inl ERROR
     else Inr \<lparr> r_half = unat (buf_size div 2), r_capacity = unat capacity, r_nq = max (unat num_qps) 1,
            r_signal_interval = unat (max 1 (envU32OrDefault env ''HMC_UHM_SIGNAL_INTERVAL'' 16)),
            r_max_pending = unat (max 1 (envU32OrDefault env ''HMC_UHM_PENDING_SIGNAL'' 8)) \<rparr>)"

definition chunks_of :: "nat \<Rightarrow> nat \<Rightarrow> nat" where
  "chunks_of n c = (n + c - 1) div c"

definition num_send_chunks :: "uhm_cfg \<Rightarrow> nat" where
  "num_send_chunks c = chunks_of (total c) (chunk c)"

section \<open>State\<close>

datatype UHMBufferStateType = UHM_BUFFER_CAN_WRITE | UHM_BUFFER_CAN_READ | UHM_BUFFER_FINISHED

record UHMBufferState =
  u_state :: "nat \<Rightarrow> UHMBufferStateType"
  u_length :: nat
  u_chunk_bytes :: nat

text \<open>The three kinds of writes: the whole state record, \<open>n\<close> data bytes at an offset of the buffer,
  and one flag.\<close>

datatype uhm_wr = WState | WData nat nat | WFlag nat

text \<open>The send queues of one side: posted and not yet executed requests in posting order, each with
  its queue pair, identifier and signal flag.\<close>

type_synonym send_queue = "(nat \<times> uhm_wr \<times> nat \<times> bool) list"
type_synonym bytes = "nat \<Rightarrow> u8"

datatype sender_pc =
  SStart | SFill | SWaitState | SSpin | SFlag | SNext | SPend | SFinal | SDone | SFailed

record sender =
  s_pc :: sender_pc
  s_k :: nat
  s_since :: nat
  s_pending :: "nat list"
  s_next_id :: nat
  s_state_id :: nat
  s_u :: UHMBufferState
  s_buf :: bytes
  s_queue :: send_queue
  s_completed :: "nat set"

datatype receiver_pc =
  RStart | RPoll | RAccept | RSpin | RGrant | RPend | RFinal | RDone | RFailed

record receiver =
  r_pc :: receiver_pc
  r_tmp :: UHMBufferState
  r_flags :: nat
  r_chunk :: nat
  r_num :: nat
  r_k :: nat
  r_acc :: nat
  r_size :: nat
  r_since :: nat
  r_pending :: "nat list"
  r_next_id :: nat
  r_u :: UHMBufferState
  r_buf :: bytes
  r_out :: bytes
  r_queue :: send_queue
  r_completed :: "nat set"

record sys =
  snd_side :: sender
  rcv_side :: receiver

definition copy_bytes :: "bytes \<Rightarrow> nat \<Rightarrow> bytes \<Rightarrow> nat \<Rightarrow> nat \<Rightarrow> bytes" where
  "copy_bytes src so dst d n = (\<lambda>i. if d \<le> i \<and> i < d + n then src (so + (i - d)) else dst i)"

text \<open>The next request of queue pair \<open>q\<close>.\<close>

definition next_of :: "nat \<Rightarrow> send_queue \<Rightarrow> (nat \<times> uhm_wr \<times> nat \<times> bool) option" where
  "next_of q xs = find (\<lambda>x. fst x = q) xs"

section \<open>The sender\<close>

definition sender_step :: "uhm_cfg \<Rightarrow> bytes \<Rightarrow> sender \<Rightarrow> sender option" where
  "sender_step c msg s =
    (let k = s_k s; chunk_index = k mod 2; qp_idx = k mod nq c; wid = s_next_id s
     in case s_pc s of
       SStart \<Rightarrow>
         Some (s\<lparr> s_u := \<lparr> u_state = (\<lambda>_. UHM_BUFFER_CAN_WRITE), u_length = total c, u_chunk_bytes = chunk c \<rparr>,
                  s_queue := s_queue s @ [(0, WState, wid, True)],
                  s_state_id := wid, s_next_id := wid + 1, s_pc := SFill \<rparr>)
     | SFill \<Rightarrow>
         Some (s\<lparr> s_buf := copy_bytes msg 0 (s_buf s) 0 (min (chunk c) (total c)), s_pc := SWaitState \<rparr>)
     | SWaitState \<Rightarrow>
         if s_state_id s \<in> s_completed s
         then Some (s\<lparr> s_completed := s_completed s - {s_state_id s}, s_k := 0, s_since := 0,
                       s_pending := [], s_pc := SSpin \<rparr>)
         else None
     | SSpin \<Rightarrow>
         if k < num_send_chunks c
         then (if u_state (s_u s) chunk_index = UHM_BUFFER_CAN_WRITE
               then Some (s\<lparr> s_queue := s_queue s @ [(qp_idx,
                               WData (chunk_index * half c) (min (chunk c) (total c - k * chunk c)), wid, False)],
                             s_next_id := wid + 1, s_pc := SFlag \<rparr>)
               else None)
         else Some (s\<lparr> s_pc := SFinal \<rparr>)
     | SFlag \<Rightarrow>
         let is_last = (k + 1 \<ge> num_send_chunks c);
             signal_flag = (signal_interval c \<le> 1 \<or> is_last \<or> s_since s + 1 \<ge> signal_interval c)
         in Some (s\<lparr> s_u := (s_u s)\<lparr> u_state := (u_state (s_u s))(chunk_index := UHM_BUFFER_CAN_READ) \<rparr>,
                     s_queue := s_queue s @ [(qp_idx, WFlag chunk_index, wid, signal_flag)],
                     s_next_id := wid + 1,
                     s_pending := (if signal_flag then s_pending s @ [wid] else s_pending s),
                     s_since := (if signal_flag then 0 else s_since s + 1), s_pc := SNext \<rparr>)
     | SNext \<Rightarrow>
         Some (s\<lparr> s_buf := (if k + 1 < num_send_chunks c
                            then copy_bytes msg ((k + 1) * chunk c) (s_buf s) ((k + 1) mod 2 * half c)
                                   (min (chunk c) (total c - (k + 1) * chunk c))
                            else s_buf s), s_pc := SPend \<rparr>)
     | SPend \<Rightarrow>
         if length (s_pending s) \<ge> max_pending_signal c
         then (if set (s_pending s) \<subseteq> s_completed s
               then Some (s\<lparr> s_completed := s_completed s - set (s_pending s), s_pending := [],
                             s_k := k + 1, s_pc := SSpin \<rparr>)
               else None)
         else Some (s\<lparr> s_k := k + 1, s_pc := SSpin \<rparr>)
     | SFinal \<Rightarrow>
         if set (s_pending s) \<subseteq> s_completed s
         then Some (s\<lparr> s_completed := s_completed s - set (s_pending s), s_pc := SDone \<rparr>)
         else None
     | SDone \<Rightarrow> None
     | SFailed \<Rightarrow> None)"

text \<open>A wait that runs into the five-second timeout ends the call with an error.\<close>

definition sender_timeout :: "sender \<Rightarrow> sender option" where
  "sender_timeout s =
    (if s_pc s \<in> {SPend, SFinal} \<and> \<not> set (s_pending s) \<subseteq> s_completed s
     then Some (s\<lparr> s_pc := SFailed \<rparr>) else None)"

section \<open>The receiver\<close>

definition receiver_step :: "recv_cfg \<Rightarrow> receiver \<Rightarrow> receiver option" where
  "receiver_step c r =
    (let k = r_k r; chunk_index = k mod 2; qp_idx = k mod r_nq c; wid = r_next_id r
     in case r_pc r of
       RStart \<Rightarrow>
         Some (r\<lparr> r_u := \<lparr> u_state = (\<lambda>_. UHM_BUFFER_CAN_READ), u_length = 0, u_chunk_bytes = 0 \<rparr>,
                  r_k := 0, r_acc := 0, r_pc := RPoll \<rparr>)
     | RPoll \<Rightarrow>
         if u_state (r_u r) 0 = UHM_BUFFER_CAN_WRITE then Some (r\<lparr> r_tmp := r_u r, r_pc := RAccept \<rparr>)
         else None
     | RAccept \<Rightarrow>
         let flags = u_length (r_tmp r);
             cb = (if u_chunk_bytes (r_tmp r) = 0 then r_half c else u_chunk_bytes (r_tmp r));
             cb = max 1 (min cb (r_half c))
         in if flags = 0 then Some (r\<lparr> r_flags := flags, r_pc := RFailed \<rparr>)
            else Some (r\<lparr> r_flags := flags, r_chunk := cb, r_num := chunks_of flags cb,
                   r_u := (r_u r)\<lparr> u_state := (u_state (r_u r))(0 := UHM_BUFFER_CAN_WRITE, 1 := UHM_BUFFER_CAN_WRITE) \<rparr>,
                   r_since := 0, r_pending := [], r_pc := RSpin \<rparr>)
     | RSpin \<Rightarrow>
         if k < r_num r
         then (if u_state (r_u r) chunk_index = UHM_BUFFER_CAN_READ
               then let recv_size = (if k = r_num r - 1 then r_flags r - r_acc r else r_chunk r)
                    in if recv_size = 0 \<or> recv_size > r_capacity c \<or> r_acc r + recv_size > r_capacity c
                       then Some (r\<lparr> r_size := recv_size, r_pc := RFailed \<rparr>)
                       else Some (r\<lparr> r_size := recv_size,
                              r_out := copy_bytes (r_buf r) (chunk_index * r_half c) (r_out r) (r_acc r) recv_size,
                              r_pc := RGrant \<rparr>)
               else None)
         else Some (r\<lparr> r_pc := RFinal \<rparr>)
     | RGrant \<Rightarrow>
         let is_last = (k + 1 \<ge> r_num r);
             signal_flag = (r_signal_interval c \<le> 1 \<or> is_last \<or> r_since r + 1 \<ge> r_signal_interval c)
         in Some (r\<lparr> r_u := (r_u r)\<lparr> u_state := (u_state (r_u r))(chunk_index := UHM_BUFFER_CAN_WRITE) \<rparr>,
                     r_queue := r_queue r @ [(qp_idx, WFlag chunk_index, wid, signal_flag)],
                     r_next_id := wid + 1,
                     r_pending := (if signal_flag then r_pending r @ [wid] else r_pending r),
                     r_since := (if signal_flag then 0 else r_since r + 1), r_pc := RPend \<rparr>)
     | RPend \<Rightarrow>
         if length (r_pending r) \<ge> r_max_pending c
         then (if set (r_pending r) \<subseteq> r_completed r
               then Some (r\<lparr> r_completed := r_completed r - set (r_pending r), r_pending := [],
                             r_acc := r_acc r + r_size r, r_k := k + 1, r_pc := RSpin \<rparr>)
               else None)
         else Some (r\<lparr> r_acc := r_acc r + r_size r, r_k := k + 1, r_pc := RSpin \<rparr>)
     | RFinal \<Rightarrow>
         if set (r_pending r) \<subseteq> r_completed r
         then Some (r\<lparr> r_completed := r_completed r - set (r_pending r), r_pc := RDone \<rparr>)
         else None
     | RDone \<Rightarrow> None
     | RFailed \<Rightarrow> None)"

definition receiver_timeout :: "receiver \<Rightarrow> receiver option" where
  "receiver_timeout r =
    (if r_pc r \<in> {RPend, RFinal} \<and> \<not> set (r_pending r) \<subseteq> r_completed r
     then Some (r\<lparr> r_pc := RFailed \<rparr>) else None)"

section \<open>The adapters\<close>

definition sender_nic :: "nat \<Rightarrow> sys \<Rightarrow> sys option" where
  "sender_nic q x =
    (let s = snd_side x; r = rcv_side x
     in case next_of q (s_queue s) of
          None \<Rightarrow> None
        | Some (q', wr, wid, sig) \<Rightarrow>
            let s' = s\<lparr> s_queue := remove1 (q', wr, wid, sig) (s_queue s),
                        s_completed := (if sig then insert wid (s_completed s) else s_completed s) \<rparr>;
                r' = (case wr of
                        WState \<Rightarrow> r\<lparr> r_u := s_u s \<rparr>
                      | WData off n \<Rightarrow> r\<lparr> r_buf := copy_bytes (s_buf s) off (r_buf r) off n \<rparr>
                      | WFlag i \<Rightarrow> r\<lparr> r_u := (r_u r)\<lparr> u_state := (u_state (r_u r))(i := u_state (s_u s) i) \<rparr> \<rparr>)
            in Some (x\<lparr> snd_side := s', rcv_side := r' \<rparr>))"

definition receiver_nic :: "nat \<Rightarrow> sys \<Rightarrow> sys option" where
  "receiver_nic q x =
    (let s = snd_side x; r = rcv_side x
     in case next_of q (r_queue r) of
          None \<Rightarrow> None
        | Some (q', wr, wid, sig) \<Rightarrow>
            let r' = r\<lparr> r_queue := remove1 (q', wr, wid, sig) (r_queue r),
                        r_completed := (if sig then insert wid (r_completed r) else r_completed r) \<rparr>;
                s' = (case wr of
                        WFlag i \<Rightarrow> s\<lparr> s_u := (s_u s)\<lparr> u_state := (u_state (s_u s))(i := u_state (r_u r) i) \<rparr> \<rparr>
                      | _ \<Rightarrow> s)
            in Some (x\<lparr> snd_side := s', rcv_side := r' \<rparr>))"

section \<open>The system\<close>

datatype actor = Sender | Receiver | SenderNic nat | ReceiverNic nat | SenderTimeout | ReceiverTimeout

definition uhm_step :: "uhm_cfg \<Rightarrow> recv_cfg \<Rightarrow> bytes \<Rightarrow> actor \<Rightarrow> sys \<Rightarrow> sys option" where
  "uhm_step c rc msg a x =
    (case a of
       Sender \<Rightarrow> map_option (\<lambda>s. x\<lparr> snd_side := s \<rparr>) (sender_step c msg (snd_side x))
     | Receiver \<Rightarrow> map_option (\<lambda>r. x\<lparr> rcv_side := r \<rparr>) (receiver_step rc (rcv_side x))
     | SenderNic q \<Rightarrow> sender_nic q x
     | ReceiverNic q \<Rightarrow> receiver_nic q x
     | SenderTimeout \<Rightarrow> map_option (\<lambda>s. x\<lparr> snd_side := s \<rparr>) (sender_timeout (snd_side x))
     | ReceiverTimeout \<Rightarrow> map_option (\<lambda>r. x\<lparr> rcv_side := r \<rparr>) (receiver_timeout (rcv_side x)))"

fun uhm_run :: "uhm_cfg \<Rightarrow> recv_cfg \<Rightarrow> bytes \<Rightarrow> actor list \<Rightarrow> sys \<Rightarrow> sys option" where
  "uhm_run c rc msg [] x = Some x"
| "uhm_run c rc msg (a # as) x = Option.bind (uhm_step c rc msg a x) (uhm_run c rc msg as)"

text \<open>A step relation over the same function, for the invariants.\<close>

inductive uhm_reach :: "uhm_cfg \<Rightarrow> recv_cfg \<Rightarrow> bytes \<Rightarrow> sys \<Rightarrow> sys \<Rightarrow> bool"
  for c rc msg x0 where
  reach_init: "uhm_reach c rc msg x0 x0"
| reach_step: "uhm_reach c rc msg x0 x \<Longrightarrow> uhm_step c rc msg a x = Some y \<Longrightarrow> uhm_reach c rc msg x0 y"

definition sender_init :: "UHMBufferState \<Rightarrow> bytes \<Rightarrow> sender" where
  "sender_init u b = \<lparr> s_pc = SStart, s_k = 0, s_since = 0, s_pending = [], s_next_id = 1, s_state_id = 0,
     s_u = u, s_buf = b, s_queue = [], s_completed = {} \<rparr>"

definition receiver_init :: "UHMBufferState \<Rightarrow> bytes \<Rightarrow> bytes \<Rightarrow> receiver" where
  "receiver_init u b out = \<lparr> r_pc = RStart, r_tmp = u, r_flags = 0, r_chunk = 0, r_num = 0, r_k = 0,
     r_acc = 0, r_size = 0, r_since = 0, r_pending = [], r_next_id = 1, r_u = u, r_buf = b, r_out = out,
     r_queue = [], r_completed = {} \<rparr>"

text \<open>Both sides about to enter the call; whatever an earlier transfer left in the flags and buffers
  is arbitrary.\<close>

definition uhm_initial :: "sys \<Rightarrow> bool" where
  "uhm_initial x \<longleftrightarrow> (\<exists>u b u' b' out. x = \<lparr> snd_side = sender_init u b, rcv_side = receiver_init u' b' out \<rparr>)"

end
