(* ===== verification/Hmc_UhmSafety.thy ===== *)
theory Hmc_UhmSafety
  imports Hmc_Uhm
begin

text \<open>
  Correctness of the double-buffered transfer.  With the settings
  \<^verbatim>\<open>HMC_UHM_SIGNAL_INTERVAL=1\<close> and \<^verbatim>\<open>HMC_UHM_PENDING_SIGNAL=1\<close> the sender waits for each chunk before
  it refills the other half, and a receiver that returns has the message, whatever the interleaving
  and the number of queue pairs.  With the built-in settings it does not wait, and a concrete
  interleaving delivers a wrong message.  Two more runs show that the start of a transfer can
  deadlock.
\<close>

section \<open>Counting what has been posted, executed, copied and granted\<close>

definition csize :: "uhm_cfg \<Rightarrow> nat \<Rightarrow> nat" where
  "csize c j = min (chunk c) (total c - j * chunk c)"

text \<open>Half \<open>j mod 2\<close> of a buffer holds chunk \<open>j\<close> of the message.\<close>

definition holds :: "uhm_cfg \<Rightarrow> bytes \<Rightarrow> bytes \<Rightarrow> nat \<Rightarrow> bool" where
  "holds c msg buf j \<longleftrightarrow> (\<forall>i < csize c j. buf (j mod 2 * half c + i) = msg (j * chunk c + i))"

definition kinds :: "send_queue \<Rightarrow> uhm_wr set" where
  "kinds q = (\<lambda>x. fst (snd x)) ` set q"

definition posted_flags :: "sender \<Rightarrow> nat" where
  "posted_flags s = s_k s + (if s_pc s \<in> {SNext, SPend, SFailed} then 1 else 0)"

definition posted_data :: "sender \<Rightarrow> nat" where
  "posted_data s = s_k s + (if s_pc s \<in> {SFlag, SNext, SPend, SFailed} then 1 else 0)"

definition executed_flags :: "sender \<Rightarrow> nat" where
  "executed_flags s = posted_flags s - (if \<exists>h. WFlag h \<in> kinds (s_queue s) then 1 else 0)"

definition executed_data :: "sender \<Rightarrow> nat" where
  "executed_data s = posted_data s - (if \<exists>a n. WData a n \<in> kinds (s_queue s) then 1 else 0)"

definition granted :: "receiver \<Rightarrow> nat" where
  "granted r = r_k r + (if r_pc r = RPend then 1 else 0)"

definition copied_out :: "receiver \<Rightarrow> nat" where
  "copied_out r = r_k r + (if r_pc r \<in> {RGrant, RPend} then 1 else 0)"

definition accepted :: "receiver \<Rightarrow> bool" where
  "accepted r \<longleftrightarrow> r_pc r \<in> {RSpin, RGrant, RPend, RFinal, RDone}"

definition write_backs :: "receiver \<Rightarrow> nat \<Rightarrow> nat" where
  "write_backs r h = length (filter (\<lambda>x. fst (snd x) = WFlag h) (r_queue r))"

lemmas count_defs = posted_flags_def posted_data_def executed_flags_def executed_data_def
  granted_def copied_out_def kinds_def

section \<open>The invariant\<close>

text \<open>Shape of the sender: what can be queued and pending at each point of the loop when every flag
  is signaled and waited for.\<close>

definition data_wr :: "uhm_cfg \<Rightarrow> nat \<Rightarrow> uhm_wr" where
  "data_wr c k = WData (k mod 2 * half c) (csize c k)"

definition starting_ok :: "uhm_cfg \<Rightarrow> sender \<Rightarrow> bool" where
  "starting_ok c s \<longleftrightarrow> s_k s = 0 \<and> u_length (s_u s) = total c \<and> u_chunk_bytes (s_u s) = chunk c
     \<and> s_state_id s < s_next_id s
     \<and> (s_queue s = [] \<or> s_state_id s \<notin> s_completed s \<and> s_queue s = [(0, WState, s_state_id s, True)])"

definition flagged_ok :: "uhm_cfg \<Rightarrow> sender \<Rightarrow> bool" where
  "flagged_ok c s \<longleftrightarrow> s_k s < num_send_chunks c
     \<and> (\<exists>i < s_next_id s. s_pending s = [i]
         \<and> (s_queue s = []
            \<or> i \<notin> s_completed s
              \<and> (s_queue s = [(s_k s mod nq c, WFlag (s_k s mod 2), i, True)]
                 \<or> (\<exists>j. s_queue s = [(s_k s mod nq c, data_wr c (s_k s), j, False),
                                     (s_k s mod nq c, WFlag (s_k s mod 2), i, True)]))))"

definition sender_ok :: "uhm_cfg \<Rightarrow> sender \<Rightarrow> bool" where
  "sender_ok c s \<longleftrightarrow> (\<forall>i \<in> s_completed s. i < s_next_id s)
    \<and> (case s_pc s of
         SStart \<Rightarrow> s_k s = 0 \<and> s_queue s = []
       | SFill \<Rightarrow> starting_ok c s
       | SWaitState \<Rightarrow> starting_ok c s
       | SSpin \<Rightarrow> s_queue s = [] \<and> s_pending s = []
       | SFlag \<Rightarrow> s_k s < num_send_chunks c \<and> s_pending s = []
           \<and> (s_queue s = [] \<or> (\<exists>j. s_queue s = [(s_k s mod nq c, data_wr c (s_k s), j, False)]))
       | SNext \<Rightarrow> flagged_ok c s
       | SPend \<Rightarrow> flagged_ok c s
       | SFailed \<Rightarrow> flagged_ok c s
       | SFinal \<Rightarrow> s_queue s = [] \<and> s_pending s = []
       | SDone \<Rightarrow> s_queue s = [] \<and> s_pending s = [])"

text \<open>What the sender's buffer holds.\<close>

definition sender_buf_ok :: "uhm_cfg \<Rightarrow> bytes \<Rightarrow> sender \<Rightarrow> bool" where
  "sender_buf_ok c msg s \<longleftrightarrow>
    (s_pc s = SWaitState \<longrightarrow> holds c msg (s_buf s) 0)
    \<and> (s_pc s \<in> {SSpin, SFlag, SNext, SPend, SFailed} \<longrightarrow> s_k s < num_send_chunks c
         \<longrightarrow> holds c msg (s_buf s) (s_k s))
    \<and> (s_pc s = SPend \<longrightarrow> s_k s + 1 < num_send_chunks c \<longrightarrow> holds c msg (s_buf s) (s_k s + 1))"

definition state_write_pending :: "sender \<Rightarrow> bool" where
  "state_write_pending s \<longleftrightarrow> s_pc s = SStart \<or> (s_pc s \<in> {SFill, SWaitState} \<and> s_queue s \<noteq> [])"

text \<open>The receiver up to the acceptance of the message.\<close>

definition handshake_ok :: "uhm_cfg \<Rightarrow> sender \<Rightarrow> receiver \<Rightarrow> bool" where
  "handshake_ok c s r \<longleftrightarrow>
    (r_pc r \<in> {RStart, RPoll, RAccept} \<longrightarrow> r_k r = 0 \<and> r_queue r = [])
    \<and> (r_pc r \<in> {RPoll, RAccept} \<longrightarrow> r_acc r = 0 \<and>
        (u_length (r_u r) = 0 \<or> u_length (r_u r) = total c \<and> u_chunk_bytes (r_u r) = chunk c))
    \<and> (r_pc r = RAccept \<longrightarrow>
        u_length (r_tmp r) = 0 \<or> u_length (r_tmp r) = total c \<and> u_chunk_bytes (r_tmp r) = chunk c)
    \<and> (state_write_pending s \<longrightarrow> r_pc r = RStart \<or> r_pc r = RPoll \<and> u_length (r_u r) = 0
        \<or> r_pc r = RAccept \<and> u_length (r_tmp r) = 0)"

text \<open>Permission to write: the next chunk of a half may be written only when its predecessor in that
  half was granted, and at most one grant per half is on its way.\<close>

definition permission_ok :: "sender \<Rightarrow> receiver \<Rightarrow> bool" where
  "permission_ok s r \<longleftrightarrow>
    (\<forall>j. posted_flags s \<le> j \<longrightarrow> j \<le> posted_flags s + 1 \<longrightarrow>
      (u_state (s_u s) (j mod 2) = UHM_BUFFER_CAN_WRITE \<longrightarrow> j < granted r + 2)
      \<and> (write_backs r (j mod 2) = 0
         \<or> write_backs r (j mod 2) = 1 \<and> u_state (s_u s) (j mod 2) \<noteq> UHM_BUFFER_CAN_WRITE
           \<and> 2 \<le> j \<and> j < granted r + 2))
    \<and> (s_pc s = SFlag \<longrightarrow> u_state (s_u s) (s_k s mod 2) = UHM_BUFFER_CAN_WRITE)
    \<and> posted_data s \<le> granted r + 2
    \<and> (\<forall>x \<in> set (r_queue r). \<exists>h < 2. fst (snd x) = WFlag h)"

text \<open>Permission to read: a raised flag belongs to a chunk that has arrived.\<close>

definition readable_ok :: "sender \<Rightarrow> receiver \<Rightarrow> bool" where
  "readable_ok s r \<longleftrightarrow>
    (accepted r \<longrightarrow> (\<forall>h < 2. u_state (r_u r) h = UHM_BUFFER_CAN_READ \<longrightarrow>
       (\<exists>j. j mod 2 = h \<and> granted r \<le> j \<and> j < executed_flags s)))
    \<and> copied_out r \<le> executed_flags s"

definition receiver_buf_ok :: "uhm_cfg \<Rightarrow> bytes \<Rightarrow> sender \<Rightarrow> receiver \<Rightarrow> bool" where
  "receiver_buf_ok c msg s r \<longleftrightarrow>
    (\<forall>j. copied_out r \<le> j \<longrightarrow> j < executed_data s \<longrightarrow> holds c msg (r_buf r) j)"

definition output_ok :: "uhm_cfg \<Rightarrow> bytes \<Rightarrow> receiver \<Rightarrow> bool" where
  "output_ok c msg r \<longleftrightarrow>
    (accepted r \<longrightarrow> r_flags r = total c \<and> r_chunk r = chunk c \<and> r_num r = num_send_chunks c
       \<and> r_acc r = min (total c) (r_k r * chunk c)
       \<and> (\<forall>i < min (total c) (copied_out r * chunk c). r_out r i = msg i)
       \<and> (r_pc r \<in> {RGrant, RPend} \<longrightarrow> r_size r = csize c (r_k r) \<and> r_k r < num_send_chunks c)
       \<and> (r_pc r \<in> {RFinal, RDone} \<longrightarrow> num_send_chunks c \<le> r_k r))"

definition sides_ok :: "uhm_cfg \<Rightarrow> bytes \<Rightarrow> sender \<Rightarrow> receiver \<Rightarrow> bool" where
  "sides_ok c msg s r \<longleftrightarrow>
     sender_ok c s \<and> sender_buf_ok c msg s \<and> handshake_ok c s r \<and> permission_ok s r
     \<and> readable_ok s r \<and> receiver_buf_ok c msg s r \<and> output_ok c msg r"

definition uhm_inv :: "uhm_cfg \<Rightarrow> bytes \<Rightarrow> sys \<Rightarrow> bool" where
  "uhm_inv c msg x \<longleftrightarrow> r_pc (rcv_side x) = RFailed \<or> sides_ok c msg (snd_side x) (rcv_side x)"

text \<open>The settings under which the invariant is kept.\<close>

definition sync_settings :: "uhm_cfg \<Rightarrow> recv_cfg \<Rightarrow> bool" where
  "sync_settings c rc \<longleftrightarrow> signal_interval c = 1 \<and> max_pending_signal c = 1 \<and> 1 \<le> chunk c
     \<and> chunk c \<le> half c \<and> 1 \<le> total c \<and> r_half rc = half c"

section \<open>Arithmetic of chunks\<close>

lemma less_num_chunks:
  assumes "1 \<le> chunk c" "1 \<le> total c"
  shows "k < num_send_chunks c \<longleftrightarrow> k * chunk c < total c"
proof -
  have "k < (total c + chunk c - 1) div chunk c \<longleftrightarrow> (k + 1) * chunk c \<le> total c + chunk c - 1"
    using assms(1) by (metis One_nat_def Suc_eq_plus1 Suc_le_eq less_eq_div_iff_mult_less_eq)
  also have "\<dots> \<longleftrightarrow> k * chunk c < total c" using assms by auto
  finally show ?thesis by (simp add: num_send_chunks_def chunks_of_def)
qed

lemma csize_sum:
  assumes "k * chunk c < total c"
  shows "min (total c) (k * chunk c) + csize c k = min (total c) ((k + 1) * chunk c)"
  using assms by (auto simp: csize_def min_def)

lemma csize_le: "csize c k \<le> chunk c" by (simp add: csize_def)

lemma parity_step: "(k + 1) mod 2 \<noteq> k mod (2 :: nat)" by presburger

lemma copy_inside: "i < n \<Longrightarrow> copy_bytes src so dst d n (d + i) = src (so + i)"
  by (simp add: copy_bytes_def)

text \<open>Filling one half keeps the other.\<close>

lemma holds_other_half:
  assumes "holds c msg buf j" "j mod 2 \<noteq> k mod 2" "chunk c \<le> half c" "n \<le> chunk c"
  shows "holds c msg (copy_bytes src so buf (k mod 2 * half c) n) j"
  unfolding holds_def
proof (intro allI impI)
  fix i assume i: "i < csize c j"
  then have ih: "i < half c" using csize_le [of c j] assms(3) by linarith
  have "\<not> (k mod 2 * half c \<le> j mod 2 * half c + i \<and> j mod 2 * half c + i < k mod 2 * half c + n)"
  proof (cases "j mod 2 = 0")
    case True
    then have "k mod 2 = 1" using assms(2) by presburger
    then show ?thesis using True ih by simp
  next
    case False
    then have "k mod 2 = 0" "j mod 2 = 1" using assms(2) by presburger+
    then show ?thesis using assms(3,4) by simp
  qed
  then show "copy_bytes src so buf (k mod 2 * half c) n (j mod 2 * half c + i) = msg (j * chunk c + i)"
    using assms(1) i by (auto simp: copy_bytes_def holds_def)
qed

lemma holds_filled:
  "holds c msg (copy_bytes msg (j * chunk c) buf (j mod 2 * half c) (csize c j)) j"
  by (simp add: holds_def copy_inside)

lemma holds_transferred:
  "holds c msg sbuf j \<Longrightarrow> holds c msg (copy_bytes sbuf (j mod 2 * half c) rbuf (j mod 2 * half c) (csize c j)) j"
  by (simp add: holds_def copy_inside)

section \<open>Preservation by the sender\<close>

lemmas step_facts = sender_ok_def starting_ok_def flagged_ok_def sender_buf_ok_def handshake_ok_def
  permission_ok_def readable_ok_def receiver_buf_ok_def state_write_pending_def count_defs

text \<open>A step that keeps the counters keeps everything that relates the two sides.\<close>

lemma sender_step_frame:
  assumes "sides_ok c msg s r" "sender_ok c s'" "sender_buf_ok c msg s'"
    and "posted_flags s' = posted_flags s" "posted_data s' \<le> granted r + 2"
      "executed_flags s' = executed_flags s" "executed_data s' = executed_data s"
      "u_state (s_u s') = u_state (s_u s)"
      "s_pc s' = SFlag \<Longrightarrow> u_state (s_u s') (s_k s' mod 2) = UHM_BUFFER_CAN_WRITE"
      "state_write_pending s' \<Longrightarrow> state_write_pending s"
  shows "sides_ok c msg s' r"
  using assms by (auto simp: sides_ok_def handshake_ok_def permission_ok_def readable_ok_def
      receiver_buf_ok_def)

lemma sides_okD:
  assumes "sides_ok c msg s r"
  shows "sender_ok c s" "sender_buf_ok c msg s" "handshake_ok c s r" "permission_ok s r"
    "readable_ok s r" "receiver_buf_ok c msg s r" "output_ok c msg r"
  using assms by (simp_all add: sides_ok_def)

lemma executed_simps:
  "executed_flags s = posted_flags s - (if \<exists>h. WFlag h \<in> kinds (s_queue s) then 1 else 0)"
  "executed_data s = posted_data s - (if \<exists>a n. WData a n \<in> kinds (s_queue s) then 1 else 0)"
  by (simp_all add: executed_flags_def executed_data_def)

lemma kinds_simps [simp]:
  "kinds [] = {}" "kinds (x # q) = insert (fst (snd x)) (kinds q)" "kinds (p @ q) = kinds p \<union> kinds q"
  by (auto simp: kinds_def)

lemma sender_start:
  assumes "sides_ok c msg s r" "s_pc s = SStart" "sender_step c msg s = Some s'"
  shows "sides_ok c msg s' r"
proof -
  note d = sides_okD [OF assms(1)]
  have q: "s_k s = 0" "s_queue s = []" "\<forall>i \<in> s_completed s. i < s_next_id s"
    using d(1) assms(2) by (simp_all add: sender_ok_def)
  have s': "s' = s\<lparr> s_u := \<lparr> u_state = (\<lambda>_. UHM_BUFFER_CAN_WRITE), u_length = total c, u_chunk_bytes = chunk c \<rparr>,
      s_queue := [(0, WState, s_next_id s, True)], s_state_id := s_next_id s,
      s_next_id := s_next_id s + 1, s_pc := SFill \<rparr>"
    using assms(2,3) q by (simp add: sender_step_def Let_def)
  have hs: "r_pc r = RStart \<or> r_pc r = RPoll \<and> u_length (r_u r) = 0 \<or> r_pc r = RAccept \<and> u_length (r_tmp r) = 0"
    using d(3) assms(2) by (simp add: handshake_ok_def state_write_pending_def)
  have "sender_ok c s'" using q by (auto simp: s' sender_ok_def starting_ok_def)
  moreover have "sender_buf_ok c msg s'" by (simp add: s' sender_buf_ok_def)
  moreover have "handshake_ok c s' r" using d(3) hs by (simp add: handshake_ok_def)
  moreover have "permission_ok s' r"
  proof -
    have "write_backs r h = 0" for h
      using d(3) hs by (auto simp: handshake_ok_def write_backs_def)
    then show ?thesis using d(4) q by (auto simp: s' permission_ok_def posted_flags_def posted_data_def)
  qed
  moreover have "readable_ok s' r" "receiver_buf_ok c msg s' r"
    using d(5,6) q assms(2)
    by (simp_all add: s' readable_ok_def receiver_buf_ok_def executed_simps posted_flags_def posted_data_def)
  ultimately show ?thesis using d(7) by (simp add: sides_ok_def)
qed

lemma sender_fill:
  assumes "sides_ok c msg s r" "s_pc s = SFill" "sender_step c msg s = Some s'"
  shows "sides_ok c msg s' r"
proof -
  note d = sides_okD [OF assms(1)]
  have s': "s' = s\<lparr> s_buf := copy_bytes msg 0 (s_buf s) 0 (min (chunk c) (total c)), s_pc := SWaitState \<rparr>"
    using assms(2,3) by (simp add: sender_step_def Let_def)
  show ?thesis
  proof (rule sender_step_frame [OF assms(1)])
    show "sender_ok c s'" using d(1) assms(2) by (simp add: s' sender_ok_def starting_ok_def)
    show "sender_buf_ok c msg s'"
      using holds_filled [of c msg 0 "s_buf s"] by (simp add: s' sender_buf_ok_def csize_def)
    show "posted_data s' \<le> granted r + 2"
      using d(4) assms(2) by (simp add: s' permission_ok_def posted_data_def)
  qed (use assms(2) in \<open>simp_all add: s' executed_simps posted_flags_def posted_data_def state_write_pending_def\<close>)
qed

lemma sender_wait_state:
  assumes "sides_ok c msg s r" "s_pc s = SWaitState" "sender_step c msg s = Some s'"
  shows "sides_ok c msg s' r"
proof -
  note d = sides_okD [OF assms(1)]
  have q: "s_k s = 0" "s_queue s = []" "\<forall>i \<in> s_completed s. i < s_next_id s"
    using d(1) assms(2,3) by (auto simp: sender_ok_def starting_ok_def sender_step_def Let_def split: if_splits)
  have s': "s' = s\<lparr> s_completed := s_completed s - {s_state_id s}, s_k := 0, s_since := 0,
      s_pending := [], s_pc := SSpin \<rparr>"
    using assms(2,3) by (simp add: sender_step_def Let_def split: if_splits)
  show ?thesis
  proof (rule sender_step_frame [OF assms(1)])
    show "sender_ok c s'" using q by (simp add: s' sender_ok_def)
    show "sender_buf_ok c msg s'" using d(2) assms(2) by (simp add: s' sender_buf_ok_def)
    show "posted_data s' \<le> granted r + 2" by (simp add: s' posted_data_def)
  qed (use assms(2) q in \<open>simp_all add: s' executed_simps posted_flags_def posted_data_def state_write_pending_def\<close>)
qed

lemma sender_spin:
  assumes "sides_ok c msg s r" "s_pc s = SSpin" "sender_step c msg s = Some s'"
  shows "sides_ok c msg s' r"
proof (cases "s_k s < num_send_chunks c")
  case True
  note d = sides_okD [OF assms(1)]
  have q: "s_queue s = []" "s_pending s = []" "\<forall>i \<in> s_completed s. i < s_next_id s"
    using d(1) assms(2) by (simp_all add: sender_ok_def)
  have w: "u_state (s_u s) (s_k s mod 2) = UHM_BUFFER_CAN_WRITE"
    using assms(2,3) True by (simp add: sender_step_def Let_def split: if_splits)
  have s': "s' = s\<lparr> s_queue := [(s_k s mod nq c, data_wr c (s_k s), s_next_id s, False)],
      s_next_id := s_next_id s + 1, s_pc := SFlag \<rparr>"
    using assms(2,3) True w q by (simp add: sender_step_def Let_def data_wr_def csize_def)
  show ?thesis
  proof (rule sender_step_frame [OF assms(1)])
    show "sender_ok c s'" using q True by (auto simp: s' sender_ok_def)
    show "sender_buf_ok c msg s'" using d(2) assms(2) by (simp add: s' sender_buf_ok_def)
    have "s_k s < granted r + 2"
      using d(4) assms(2) w by (simp add: permission_ok_def posted_flags_def)
    then show "posted_data s' \<le> granted r + 2" by (simp add: s' posted_data_def)
  qed (use assms(2) q w in \<open>simp_all add: s' executed_simps posted_flags_def posted_data_def
      state_write_pending_def data_wr_def\<close>)
next
  case False
  note d = sides_okD [OF assms(1)]
  have s': "s' = s\<lparr> s_pc := SFinal \<rparr>"
    using assms(2,3) False by (simp add: sender_step_def Let_def)
  show ?thesis
  proof (rule sender_step_frame [OF assms(1)])
    show "sender_ok c s'" using d(1) assms(2) by (simp add: s' sender_ok_def)
    show "sender_buf_ok c msg s'" by (simp add: s' sender_buf_ok_def)
    show "posted_data s' \<le> granted r + 2"
      using d(4) assms(2) by (simp add: s' permission_ok_def posted_data_def)
  qed (use assms(2) in \<open>simp_all add: s' executed_simps posted_flags_def posted_data_def state_write_pending_def\<close>)
qed

lemma sender_flag:
  assumes "sides_ok c msg s r" "s_pc s = SFlag" "sender_step c msg s = Some s'" "sync_settings c rc"
  shows "sides_ok c msg s' r"
proof -
  note d = sides_okD [OF assms(1)]
  let ?k = "s_k s" and ?n = "s_next_id s"
  have q: "?k < num_send_chunks c" "s_pending s = []" "\<forall>i \<in> s_completed s. i < ?n"
    "s_queue s = [] \<or> (\<exists>j. s_queue s = [(?k mod nq c, data_wr c ?k, j, False)])"
    using d(1) assms(2) by (simp_all add: sender_ok_def)
  have w: "u_state (s_u s) (?k mod 2) = UHM_BUFFER_CAN_WRITE"
    using d(4) assms(2) by (simp add: permission_ok_def)
  have s': "s' = s\<lparr> s_u := (s_u s)\<lparr> u_state := (u_state (s_u s))(?k mod 2 := UHM_BUFFER_CAN_READ) \<rparr>,
      s_queue := s_queue s @ [(?k mod nq c, WFlag (?k mod 2), ?n, True)], s_next_id := ?n + 1,
      s_pending := [?n], s_since := 0, s_pc := SNext \<rparr>"
    using assms(2,3,4) q by (simp add: sender_step_def Let_def sync_settings_def)
  have cnt: "posted_flags s = ?k" "posted_flags s' = ?k + 1" "posted_data s = ?k + 1" "posted_data s' = ?k + 1"
    using assms(2) by (simp_all add: s' posted_flags_def posted_data_def)
  have ex: "executed_flags s' = executed_flags s" "executed_data s' = executed_data s"
    using q(4) cnt by (auto simp: s' executed_simps data_wr_def)
  have old: "(u_state (s_u s) (j mod 2) = UHM_BUFFER_CAN_WRITE \<longrightarrow> j < granted r + 2)
      \<and> (write_backs r (j mod 2) = 0 \<or> write_backs r (j mod 2) = 1
         \<and> u_state (s_u s) (j mod 2) \<noteq> UHM_BUFFER_CAN_WRITE \<and> 2 \<le> j \<and> j < granted r + 2)"
    if "?k \<le> j" "j \<le> ?k + 1" for j
    using d(4) that cnt(1) unfolding permission_ok_def by metis
  have wb: "write_backs r (?k mod 2) = 0" using old [of ?k] w by simp
  have "sender_ok c s'" using q by (auto simp: s' sender_ok_def flagged_ok_def)
  moreover have "sender_buf_ok c msg s'" using d(2) assms(2) by (simp add: s' sender_buf_ok_def)
  moreover have "handshake_ok c s' r"
    using d(3) assms(2) by (simp add: s' handshake_ok_def state_write_pending_def)
  moreover have "permission_ok s' r"
  proof -
    have "(u_state (s_u s') (j mod 2) = UHM_BUFFER_CAN_WRITE \<longrightarrow> j < granted r + 2)
      \<and> (write_backs r (j mod 2) = 0 \<or> write_backs r (j mod 2) = 1
         \<and> u_state (s_u s') (j mod 2) \<noteq> UHM_BUFFER_CAN_WRITE \<and> 2 \<le> j \<and> j < granted r + 2)"
      if j: "?k + 1 \<le> j" "j \<le> ?k + 2" for j
    proof (cases "j = ?k + 1")
      case True
      then have "j mod 2 \<noteq> ?k mod 2" using parity_step by metis
      then show ?thesis using old [of j] True by (simp add: s')
    next
      case False
      then have "j = ?k + 2" using j by linarith
      then have "j mod 2 = ?k mod 2" by simp
      then show ?thesis using wb by (simp add: s')
    qed
    then show ?thesis using d(4) cnt by (simp add: permission_ok_def) (simp add: s')
  qed
  moreover have "readable_ok s' r" "receiver_buf_ok c msg s' r"
    using d(5,6) ex by (simp_all add: readable_ok_def receiver_buf_ok_def)
  ultimately show ?thesis using d(7) by (simp add: sides_ok_def)
qed

lemma sender_next:
  assumes "sides_ok c msg s r" "s_pc s = SNext" "sender_step c msg s = Some s'" "sync_settings c rc"
  shows "sides_ok c msg s' r"
proof -
  note d = sides_okD [OF assms(1)]
  let ?k = "s_k s"
  let ?b = "if ?k + 1 < num_send_chunks c
    then copy_bytes msg ((?k + 1) * chunk c) (s_buf s) ((?k + 1) mod 2 * half c) (csize c (?k + 1))
    else s_buf s"
  have s': "s' = s\<lparr> s_buf := ?b, s_pc := SPend \<rparr>"
    using assms(2,3) by (simp add: sender_step_def Let_def csize_def cong: if_cong)
  show ?thesis
  proof (rule sender_step_frame [OF assms(1)])
    show "sender_ok c s'" using d(1) assms(2) by (simp add: s' sender_ok_def flagged_ok_def)
    have "holds c msg (s_buf s) ?k" if "?k < num_send_chunks c"
      using d(2) assms(2) that by (simp add: sender_buf_ok_def)
    then have "holds c msg ?b ?k" if "?k < num_send_chunks c"
      using that holds_other_half [of c msg "s_buf s" ?k "?k + 1" "csize c (?k + 1)"]
        parity_step [of ?k] csize_le assms(4) by (auto simp: sync_settings_def)
    moreover have "holds c msg ?b (?k + 1)" if "?k + 1 < num_send_chunks c"
      using holds_filled [of c msg "?k + 1" "s_buf s"] that by simp
    ultimately show "sender_buf_ok c msg s'" by (simp add: s' sender_buf_ok_def)
    show "posted_data s' \<le> granted r + 2"
      using d(4) assms(2) by (simp add: s' permission_ok_def posted_data_def)
  qed (use assms(2) in \<open>simp_all add: s' executed_simps posted_flags_def posted_data_def state_write_pending_def\<close>)
qed

lemma sender_pend:
  assumes "sides_ok c msg s r" "s_pc s = SPend" "sender_step c msg s = Some s'" "sync_settings c rc"
  shows "sides_ok c msg s' r"
proof -
  note d = sides_okD [OF assms(1)]
  obtain i where i: "s_pending s = [i]" "s_queue s = [] \<or> i \<notin> s_completed s"
    using d(1) assms(2) by (auto simp: sender_ok_def flagged_ok_def)
  have c: "i \<in> s_completed s"
    and s': "s' = s\<lparr> s_completed := s_completed s - {i}, s_pending := [], s_k := s_k s + 1, s_pc := SSpin \<rparr>"
    using assms(2,3,4) i by (auto simp: sender_step_def Let_def sync_settings_def split: if_splits)
  have q: "s_queue s = []" using i(2) c by blast
  show ?thesis
  proof (rule sender_step_frame [OF assms(1)])
    show "sender_ok c s'" using d(1) q by (simp add: s' sender_ok_def)
    show "sender_buf_ok c msg s'" using d(2) assms(2) by (simp add: s' sender_buf_ok_def)
    show "posted_data s' \<le> granted r + 2"
      using d(4) assms(2) by (simp add: s' permission_ok_def posted_data_def)
  qed (use assms(2) q in \<open>simp_all add: s' executed_simps posted_flags_def posted_data_def state_write_pending_def\<close>)
qed

lemma sender_final:
  assumes "sides_ok c msg s r" "s_pc s = SFinal" "sender_step c msg s = Some s'"
  shows "sides_ok c msg s' r"
proof -
  note d = sides_okD [OF assms(1)]
  have q: "s_queue s = []" "s_pending s = []" using d(1) assms(2) by (simp_all add: sender_ok_def)
  have s': "s' = s\<lparr> s_completed := s_completed s - set (s_pending s), s_pc := SDone \<rparr>"
    using assms(2,3) by (simp add: sender_step_def Let_def split: if_splits)
  show ?thesis
  proof (rule sender_step_frame [OF assms(1)])
    show "sender_ok c s'" using d(1) q by (simp add: s' sender_ok_def)
    show "sender_buf_ok c msg s'" by (simp add: s' sender_buf_ok_def)
    show "posted_data s' \<le> granted r + 2"
      using d(4) assms(2) by (simp add: s' permission_ok_def posted_data_def)
  qed (use assms(2) in \<open>simp_all add: s' executed_simps posted_flags_def posted_data_def state_write_pending_def\<close>)
qed

lemma sender_step_ok:
  assumes "sides_ok c msg s r" "sender_step c msg s = Some s'" "sync_settings c rc"
  shows "sides_ok c msg s' r"
proof (cases "s_pc s")
  case SStart
  then show ?thesis by (rule sender_start [OF assms(1) _ assms(2)])
next
  case SFill
  then show ?thesis by (rule sender_fill [OF assms(1) _ assms(2)])
next
  case SWaitState
  then show ?thesis by (rule sender_wait_state [OF assms(1) _ assms(2)])
next
  case SSpin
  then show ?thesis by (rule sender_spin [OF assms(1) _ assms(2)])
next
  case SFlag
  then show ?thesis by (rule sender_flag [OF assms(1) _ assms(2,3)])
next
  case SNext
  then show ?thesis by (rule sender_next [OF assms(1) _ assms(2,3)])
next
  case SPend
  then show ?thesis by (rule sender_pend [OF assms(1) _ assms(2,3)])
next
  case SFinal
  then show ?thesis by (rule sender_final [OF assms(1) _ assms(2)])
qed (use assms(2) in \<open>simp_all add: sender_step_def Let_def\<close>)

lemma sender_timeout_ok:
  assumes "sides_ok c msg s r" "sender_timeout s = Some s'"
  shows "sides_ok c msg s' r"
proof -
  note d = sides_okD [OF assms(1)]
  have pc: "s_pc s = SPend" and s': "s' = s\<lparr> s_pc := SFailed \<rparr>"
    using assms(2) d(1) by (auto simp: sender_timeout_def sender_ok_def split: if_splits)
  show ?thesis
  proof (rule sender_step_frame [OF assms(1)])
    show "sender_ok c s'" using d(1) pc by (simp add: s' sender_ok_def flagged_ok_def)
    show "sender_buf_ok c msg s'" using d(2) pc by (simp add: s' sender_buf_ok_def)
    show "posted_data s' \<le> granted r + 2"
      using d(4) pc by (simp add: s' permission_ok_def posted_data_def)
  qed (use pc in \<open>simp_all add: s' executed_simps posted_flags_def posted_data_def state_write_pending_def\<close>)
qed

section \<open>Preservation by the receiver\<close>

text \<open>A step of the receiver that leaves its queue, its buffer and the counters alone.\<close>

lemma receiver_step_frame:
  assumes "sides_ok c msg s r" "handshake_ok c s r'" "output_ok c msg r'"
    and "r_queue r' = r_queue r" "granted r' = granted r" "copied_out r' = copied_out r"
      "r_buf r' = r_buf r"
      "\<And>h. accepted r' \<Longrightarrow> h < 2 \<Longrightarrow> u_state (r_u r') h = UHM_BUFFER_CAN_READ \<Longrightarrow>
         accepted r \<and> u_state (r_u r) h = UHM_BUFFER_CAN_READ"
  shows "sides_ok c msg s r'"
  using assms by (auto simp: sides_ok_def permission_ok_def readable_ok_def receiver_buf_ok_def
      write_backs_def)

lemma receiver_start:
  assumes "sides_ok c msg s r" "r_pc r = RStart" "receiver_step rc r = Some r'"
  shows "sides_ok c msg s r'"
proof -
  note d = sides_okD [OF assms(1)]
  have r': "r' = r\<lparr> r_u := \<lparr> u_state = (\<lambda>_. UHM_BUFFER_CAN_READ), u_length = 0, u_chunk_bytes = 0 \<rparr>,
      r_k := 0, r_acc := 0, r_pc := RPoll \<rparr>"
    using assms(2,3) by (simp add: receiver_step_def Let_def)
  have k: "r_k r = 0" "r_queue r = []" using d(3) assms(2) by (simp_all add: handshake_ok_def)
  show ?thesis
  proof (rule receiver_step_frame [OF assms(1)])
    show "handshake_ok c s r'" using k by (simp add: r' handshake_ok_def)
    show "output_ok c msg r'" by (simp add: r' output_ok_def accepted_def)
  qed (use assms(2) k in \<open>simp_all add: r' granted_def copied_out_def accepted_def\<close>)
qed

lemma receiver_poll:
  assumes "sides_ok c msg s r" "r_pc r = RPoll" "receiver_step rc r = Some r'"
  shows "sides_ok c msg s r'"
proof -
  note d = sides_okD [OF assms(1)]
  have r': "r' = r\<lparr> r_tmp := r_u r, r_pc := RAccept \<rparr>"
    using assms(2,3) by (simp add: receiver_step_def Let_def split: if_splits)
  show ?thesis
  proof (rule receiver_step_frame [OF assms(1)])
    show "handshake_ok c s r'" using d(3) assms(2) by (simp add: r' handshake_ok_def)
    show "output_ok c msg r'" by (simp add: r' output_ok_def accepted_def)
  qed (use assms(2) in \<open>simp_all add: r' granted_def copied_out_def accepted_def\<close>)
qed

lemma receiver_accept:
  assumes "sides_ok c msg s r" "r_pc r = RAccept" "receiver_step rc r = Some r'" "sync_settings c rc"
  shows "r_pc r' = RFailed \<or> sides_ok c msg s r'"
proof (cases "u_length (r_tmp r) = 0")
  case True
  then show ?thesis using assms(2,3) by (auto simp: receiver_step_def Let_def)
next
  case False
  note d = sides_okD [OF assms(1)]
  have t: "u_length (r_tmp r) = total c" "u_chunk_bytes (r_tmp r) = chunk c" "r_k r = 0" "r_acc r = 0"
    "\<not> state_write_pending s"
    using d(3) assms(2) False by (auto simp: handshake_ok_def)
  have cb: "chunk c \<noteq> 0" "max 1 (min (chunk c) (r_half rc)) = chunk c"
    using assms(4) by (auto simp: sync_settings_def)
  have r': "r' = r\<lparr> r_flags := total c, r_chunk := chunk c, r_num := num_send_chunks c,
      r_u := (r_u r)\<lparr> u_state := (u_state (r_u r))(0 := UHM_BUFFER_CAN_WRITE, 1 := UHM_BUFFER_CAN_WRITE) \<rparr>,
      r_since := 0, r_pending := [], r_pc := RSpin \<rparr>"
    using assms(2,3) False t cb by (simp add: receiver_step_def Let_def num_send_chunks_def)
  have "sides_ok c msg s r'"
  proof (rule receiver_step_frame [OF assms(1)])
    show "handshake_ok c s r'" using t by (simp add: r' handshake_ok_def)
    show "output_ok c msg r'" using t by (simp add: r' output_ok_def accepted_def copied_out_def)
  qed (use assms(2) in \<open>auto simp: r' granted_def copied_out_def less_2_cases_iff\<close>)
  then show ?thesis ..
qed

lemma recv_size_eq:
  assumes "sync_settings c rc" "k < num_send_chunks c"
  shows "(if k = num_send_chunks c - 1 then total c - min (total c) (k * chunk c) else chunk c) = csize c k"
proof -
  have c: "1 \<le> chunk c" "1 \<le> total c" using assms(1) by (simp_all add: sync_settings_def)
  have k: "k * chunk c < total c" using assms(2) less_num_chunks [OF c] by blast
  show ?thesis
  proof (cases "k = num_send_chunks c - 1")
    case True
    then have "\<not> (k + 1) * chunk c < total c" using assms(2) less_num_chunks [OF c, of "k + 1"] by simp
    then show ?thesis using True k by (auto simp: csize_def min_def)
  next
    case False
    then have "k + 1 < num_send_chunks c" using assms(2) by simp
    then have "(k + 1) * chunk c < total c" using less_num_chunks [OF c] by blast
    then show ?thesis using False by (auto simp: csize_def min_def)
  qed
qed

lemma output_extended:
  assumes "sync_settings c rc" "k * chunk c < total c" "holds c msg buf k"
    "\<forall>i < min (total c) (k * chunk c). out i = msg i"
    "i < min (total c) ((k + 1) * chunk c)"
  shows "copy_bytes buf (k mod 2 * half c) out (min (total c) (k * chunk c)) (csize c k) i = msg i"
proof (cases "i < k * chunk c")
  case True
  then show ?thesis using assms(2,4) by (simp add: copy_bytes_def)
next
  case False
  then obtain j where j: "i = k * chunk c + j" by (metis le_Suc_ex not_less)
  have "j < csize c k" using assms(5) j by (auto simp: csize_def)
  then show ?thesis using assms(2,3) j by (simp add: copy_bytes_def holds_def)
qed

lemma receiver_spin:
  assumes "sides_ok c msg s r" "r_pc r = RSpin" "receiver_step rc r = Some r'" "sync_settings c rc"
  shows "r_pc r' = RFailed \<or> sides_ok c msg s r'"
proof (cases "r_k r < num_send_chunks c")
  case False
  note d = sides_okD [OF assms(1)]
  have o: "r_num r = num_send_chunks c" using d(7) assms(2) by (simp add: output_ok_def accepted_def)
  have r': "r' = r\<lparr> r_pc := RFinal \<rparr>"
    using assms(2,3) False o by (simp add: receiver_step_def Let_def)
  have "sides_ok c msg s r'"
  proof (rule receiver_step_frame [OF assms(1)])
    show "handshake_ok c s r'" using d(3) assms(2) by (simp add: r' handshake_ok_def)
    show "output_ok c msg r'"
      using d(7) assms(2) False by (simp add: r' output_ok_def accepted_def copied_out_def)
  qed (use assms(2) in \<open>simp_all add: r' granted_def copied_out_def accepted_def\<close>)
  then show ?thesis ..
next
  case True
  note d = sides_okD [OF assms(1)]
  let ?k = "r_k r"
  have o: "r_flags r = total c" "r_chunk r = chunk c" "r_num r = num_send_chunks c"
    "r_acc r = min (total c) (?k * chunk c)" "\<forall>i < min (total c) (?k * chunk c). r_out r i = msg i"
    using d(7) assms(2) by (simp_all add: output_ok_def accepted_def copied_out_def)
  have c1: "1 \<le> chunk c" "1 \<le> total c" "r_half rc = half c" using assms(4) by (simp_all add: sync_settings_def)
  have kt: "?k * chunk c < total c" using True less_num_chunks [OF c1(1,2)] by blast
  have rd: "u_state (r_u r) (?k mod 2) = UHM_BUFFER_CAN_READ"
    using assms(2,3) True o(3) by (simp add: receiver_step_def Let_def split: if_splits)
  have fx: "?k < executed_flags s"
  proof -
    have "?k mod 2 < 2" by simp
    then have "\<exists>j. j mod 2 = ?k mod 2 \<and> granted r \<le> j \<and> j < executed_flags s"
      using d(5) rd assms(2) unfolding readable_ok_def accepted_def by blast
    then show ?thesis using assms(2) by (auto simp: granted_def)
  qed
  have "executed_flags s \<le> executed_data s"
    using d(1) unfolding sender_ok_def
    by (cases "s_pc s") (auto simp: executed_simps posted_flags_def posted_data_def flagged_ok_def
        starting_ok_def data_wr_def)
  then have hold: "holds c msg (r_buf r) ?k"
    using d(6) fx assms(2) by (simp add: receiver_buf_ok_def copied_out_def)
  have sz: "(if ?k = r_num r - 1 then r_flags r - r_acc r else r_chunk r) = csize c ?k"
    using recv_size_eq [OF assms(4) True] by (simp only: o(1-4))
  let ?r = "r\<lparr> r_size := csize c ?k,
      r_out := copy_bytes (r_buf r) (?k mod 2 * half c) (r_out r) (r_acc r) (csize c ?k), r_pc := RGrant \<rparr>"
  have lt: "?k < r_num r" using True o(3) by simp
  have "receiver_step rc r =
      (if csize c ?k = 0 \<or> csize c ?k > r_capacity rc \<or> r_acc r + csize c ?k > r_capacity rc
       then Some (r\<lparr> r_size := csize c ?k, r_pc := RFailed \<rparr>) else Some ?r)"
    by (simp only: receiver_step_def Let_def assms(2) receiver_pc.case lt rd sz c1(3) if_True simp_thms)
  then have "r_pc r' = RFailed \<or> r' = ?r" using assms(3) by (auto split: if_splits)
  moreover have "sides_ok c msg s ?r"
  proof -
    have "output_ok c msg ?r"
      using o True output_extended [OF assms(4) kt hold o(5)]
      by (simp add: output_ok_def accepted_def copied_out_def)
    moreover have "handshake_ok c s ?r" using d(3) assms(2) by (simp add: handshake_ok_def)
    moreover have "permission_ok s ?r"
      using d(4) assms(2) by (simp add: permission_ok_def granted_def write_backs_def)
    moreover have "readable_ok s ?r"
      using d(5) fx assms(2) by (simp add: readable_ok_def granted_def copied_out_def accepted_def)
    moreover have "receiver_buf_ok c msg s ?r"
      using d(6) assms(2) by (simp add: receiver_buf_ok_def copied_out_def)
    ultimately show ?thesis using d(1,2) by (simp add: sides_ok_def)
  qed
  ultimately show ?thesis by blast
qed

lemma write_backs_snoc:
  assumes "r_queue r' = r_queue r @ [(q, WFlag g, i, sig)]"
  shows "write_backs r' h = write_backs r h + (if h = g then 1 else 0)"
  using assms by (simp add: write_backs_def)

lemma receiver_grant:
  assumes "sides_ok c msg s r" "r_pc r = RGrant" "receiver_step rc r = Some r'"
  shows "sides_ok c msg s r'"
proof -
  note d = sides_okD [OF assms(1)]
  let ?k = "r_k r"
  obtain sig where
    r': "r_u r' = (r_u r)\<lparr> u_state := (u_state (r_u r))(?k mod 2 := UHM_BUFFER_CAN_WRITE) \<rparr>"
    "r_queue r' = r_queue r @ [(?k mod r_nq rc, WFlag (?k mod 2), r_next_id r, sig)]" "r_pc r' = RPend"
    and same: "r_k r' = ?k" "r_acc r' = r_acc r" "r_size r' = r_size r" "r_flags r' = r_flags r"
    "r_chunk r' = r_chunk r" "r_num r' = r_num r" "r_out r' = r_out r" "r_buf r' = r_buf r"
    using assms(2,3) that by (auto simp: receiver_step_def Let_def)
  have cnt: "granted r = ?k" "granted r' = ?k + 1" "copied_out r = ?k + 1" "copied_out r' = ?k + 1"
    using assms(2) r'(3) same(1) by (simp_all add: granted_def copied_out_def)
  have fx: "?k < executed_flags s" using d(5) cnt by (simp add: readable_ok_def)
  have m: "?k < posted_flags s" "posted_flags s \<le> posted_data s" "posted_data s \<le> ?k + 2"
    using fx d(4) cnt by (auto simp: executed_simps posted_flags_def posted_data_def permission_ok_def
        split: if_splits)
  have old: "(u_state (s_u s) (j mod 2) = UHM_BUFFER_CAN_WRITE \<longrightarrow> j < ?k + 2)
      \<and> (write_backs r (j mod 2) = 0 \<or> write_backs r (j mod 2) = 1
         \<and> u_state (s_u s) (j mod 2) \<noteq> UHM_BUFFER_CAN_WRITE \<and> 2 \<le> j \<and> j < ?k + 2)"
    if "posted_flags s \<le> j" "j \<le> posted_flags s + 1" for j
    using d(4) that cnt(1) unfolding permission_ok_def by metis
  have perm: "(u_state (s_u s) (j mod 2) = UHM_BUFFER_CAN_WRITE \<longrightarrow> j < granted r' + 2)
      \<and> (write_backs r' (j mod 2) = 0 \<or> write_backs r' (j mod 2) = 1
         \<and> u_state (s_u s) (j mod 2) \<noteq> UHM_BUFFER_CAN_WRITE \<and> 2 \<le> j \<and> j < granted r' + 2)"
    if j: "posted_flags s \<le> j" "j \<le> posted_flags s + 1" for j
  proof (cases "j mod 2 = ?k mod 2")
    case True
    have "?k + 1 \<le> j" "j \<le> ?k + 3" using j m by linarith+
    then have "j = ?k + 2" using True parity_step by presburger
    then show ?thesis using old [OF j] True write_backs_snoc [OF r'(2), of "j mod 2"] cnt(2) by auto
  next
    case False
    then show ?thesis using old [OF j] write_backs_snoc [OF r'(2), of "j mod 2"] cnt(2) by auto
  qed
  have "\<forall>x \<in> set (r_queue r'). \<exists>h < 2. fst (snd x) = WFlag h"
    using d(4) r'(2) by (auto simp: permission_ok_def)
  moreover have "posted_data s \<le> granted r' + 2" using m(3) cnt(2) by simp
  ultimately have "permission_ok s r'"
    using perm d(4) unfolding permission_ok_def by blast
  moreover have "readable_ok s r'"
    unfolding readable_ok_def
  proof (intro conjI impI allI)
    fix h :: nat
    assume h: "h < 2" "u_state (r_u r') h = UHM_BUFFER_CAN_READ"
    then have n: "h \<noteq> ?k mod 2" "u_state (r_u r) h = UHM_BUFFER_CAN_READ"
      using r'(1) by (auto split: if_splits)
    moreover have "accepted r" using assms(2) by (simp add: accepted_def)
    ultimately obtain j where "j mod 2 = h" "?k \<le> j" "j < executed_flags s"
      using d(5) h(1) cnt(1) unfolding readable_ok_def by metis
    moreover then have "j \<noteq> ?k" using n(1) by blast
    ultimately show "\<exists>j. j mod 2 = h \<and> granted r' \<le> j \<and> j < executed_flags s"
      using cnt(2) by (intro exI [of _ j]) simp
  next
    show "copied_out r' \<le> executed_flags s" using d(5) cnt by (simp add: readable_ok_def)
  qed
  moreover have "handshake_ok c s r'"
    using d(3) assms(2) r'(3) by (simp add: handshake_ok_def)
  moreover have "output_ok c msg r'"
    using d(7) assms(2) r'(3) same cnt by (simp add: output_ok_def accepted_def)
  moreover have "receiver_buf_ok c msg s r'"
    using d(6) cnt same(8) by (simp add: receiver_buf_ok_def)
  ultimately show ?thesis using d(1,2) by (simp add: sides_ok_def)
qed

lemma receiver_pend:
  assumes "sides_ok c msg s r" "r_pc r = RPend" "receiver_step rc r = Some r'" "sync_settings c rc"
  shows "sides_ok c msg s r'"
proof -
  note d = sides_okD [OF assms(1)]
  have r': "r_pc r' = RSpin" "r_k r' = r_k r + 1" "r_acc r' = r_acc r + r_size r" "r_queue r' = r_queue r"
    "r_buf r' = r_buf r" "r_u r' = r_u r" "r_out r' = r_out r" "r_flags r' = r_flags r"
    "r_chunk r' = r_chunk r" "r_num r' = r_num r"
    using assms(2,3) by (auto simp: receiver_step_def Let_def split: if_splits)
  have c1: "1 \<le> chunk c" "1 \<le> total c" using assms(4) by (simp_all add: sync_settings_def)
  show ?thesis
  proof (rule receiver_step_frame [OF assms(1)])
    show "handshake_ok c s r'" using d(3) assms(2) r' by (simp add: handshake_ok_def)
    have "r_k r * chunk c < total c"
      using d(7) assms(2) less_num_chunks [OF c1] by (simp add: output_ok_def accepted_def)
    from csize_sum [OF this] show "output_ok c msg r'"
      using d(7) assms(2) r' by (simp add: output_ok_def accepted_def copied_out_def)
  qed (use assms(2) r' in \<open>simp_all add: granted_def copied_out_def accepted_def\<close>)
qed

lemma receiver_final:
  assumes "sides_ok c msg s r" "r_pc r = RFinal" "receiver_step rc r = Some r'"
  shows "sides_ok c msg s r'"
proof -
  note d = sides_okD [OF assms(1)]
  have r': "r' = r\<lparr> r_completed := r_completed r - set (r_pending r), r_pc := RDone \<rparr>"
    using assms(2,3) by (simp add: receiver_step_def Let_def split: if_splits)
  show ?thesis
  proof (rule receiver_step_frame [OF assms(1)])
    show "handshake_ok c s r'" using d(3) assms(2) by (simp add: r' handshake_ok_def)
    show "output_ok c msg r'"
      using d(7) assms(2) by (simp add: r' output_ok_def accepted_def copied_out_def)
  qed (use assms(2) in \<open>simp_all add: r' granted_def copied_out_def accepted_def\<close>)
qed

lemma receiver_step_ok:
  assumes "sides_ok c msg s r" "receiver_step rc r = Some r'" "sync_settings c rc"
  shows "r_pc r' = RFailed \<or> sides_ok c msg s r'"
proof (cases "r_pc r")
  case RStart
  then show ?thesis using receiver_start [OF assms(1) _ assms(2)] by simp
next
  case RPoll
  then show ?thesis using receiver_poll [OF assms(1) _ assms(2)] by simp
next
  case RAccept
  then show ?thesis by (rule receiver_accept [OF assms(1) _ assms(2,3)])
next
  case RSpin
  then show ?thesis by (rule receiver_spin [OF assms(1) _ assms(2,3)])
next
  case RGrant
  then show ?thesis using receiver_grant [OF assms(1) _ assms(2)] by simp
next
  case RPend
  then show ?thesis using receiver_pend [OF assms(1) _ assms(2,3)] by simp
next
  case RFinal
  then show ?thesis using receiver_final [OF assms(1) _ assms(2)] by simp
qed (use assms(2) in \<open>simp_all add: receiver_step_def Let_def\<close>)

section \<open>Preservation by the adapters\<close>

lemma next_of_simps:
  "next_of q [] = None" "next_of q (x # xs) = (if fst x = q then Some x else next_of q xs)"
  by (simp_all add: next_of_def)

text \<open>What the sender's adapter can execute, and what is left.\<close>

lemma sender_queue_cases:
  assumes "sender_ok c s" "next_of q (s_queue s) = Some x"
  obtains
    (state) "s_pc s \<in> {SFill, SWaitState}" "x = (0, WState, s_state_id s, True)" "s_queue s = [x]"
  | (data) j where "s_pc s = SFlag" "x = (s_k s mod nq c, data_wr c (s_k s), j, False)" "s_queue s = [x]"
  | (data_flag) j i where "s_pc s \<in> {SNext, SPend, SFailed}" "x = (s_k s mod nq c, data_wr c (s_k s), j, False)"
      "s_queue s = [x, (s_k s mod nq c, WFlag (s_k s mod 2), i, True)]" "s_pending s = [i]"
      "i < s_next_id s" "i \<notin> s_completed s"
  | (flag) i where "s_pc s \<in> {SNext, SPend, SFailed}" "x = (s_k s mod nq c, WFlag (s_k s mod 2), i, True)"
      "s_queue s = [x]" "s_pending s = [i]" "i < s_next_id s"
  using assms unfolding sender_ok_def
  by (cases "s_pc s")
    (auto simp: starting_ok_def flagged_ok_def next_of_simps split: if_splits)

lemma handshake_frame:
  assumes "handshake_ok c s r" "state_write_pending s' \<Longrightarrow> state_write_pending s"
    "r_pc r' = r_pc r" "r_k r' = r_k r" "r_queue r' = r_queue r" "r_acc r' = r_acc r" "r_tmp r' = r_tmp r"
    "u_length (r_u r') = u_length (r_u r)" "u_chunk_bytes (r_u r') = u_chunk_bytes (r_u r)"
  shows "handshake_ok c s' r'"
  using assms unfolding handshake_ok_def by metis

lemma state_executed:
  assumes "sides_ok c msg s r" "s_pc s \<in> {SFill, SWaitState}"
    "s_queue s = [(0, WState, s_state_id s, True)]"
  shows "sides_ok c msg (s\<lparr> s_queue := [], s_completed := insert (s_state_id s) (s_completed s) \<rparr>)
    (r\<lparr> r_u := s_u s \<rparr>)" (is "sides_ok c msg ?s ?r")
proof -
  note d = sides_okD [OF assms(1)]
  have st: "starting_ok c s" using d(1) assms(2) by (auto simp: sender_ok_def)
  have hs: "r_pc r = RStart \<or> r_pc r = RPoll \<and> u_length (r_u r) = 0 \<or> r_pc r = RAccept \<and> u_length (r_tmp r) = 0"
    using d(3) assms(2,3) by (auto simp: handshake_ok_def state_write_pending_def)
  then have na: "\<not> accepted r" "r_pc r \<noteq> RPend" "r_pc r \<noteq> RGrant" by (auto simp: accepted_def)
  have cnt: "posted_flags ?s = posted_flags s" "posted_data ?s = posted_data s"
    "executed_flags ?s = executed_flags s" "executed_data ?s = executed_data s"
    using assms(3) by (simp_all add: posted_flags_def posted_data_def executed_simps)
  have "sender_ok c ?s" using d(1) st assms(2) by (auto simp: sender_ok_def starting_ok_def)
  moreover have "sender_buf_ok c msg ?s" using d(2) by (simp add: sender_buf_ok_def)
  moreover have "handshake_ok c ?s ?r"
    using d(3) hs st assms(2) by (auto simp: handshake_ok_def state_write_pending_def starting_ok_def)
  moreover have "permission_ok ?s ?r"
    using d(4) cnt assms(2) by (simp add: permission_ok_def granted_def write_backs_def)
  moreover have "readable_ok ?s ?r" "receiver_buf_ok c msg ?s ?r"
    using d(5,6) cnt na by (simp_all add: readable_ok_def receiver_buf_ok_def accepted_def copied_out_def)
  moreover have "output_ok c msg ?r" using na by (simp add: output_ok_def accepted_def)
  ultimately show ?thesis by (simp add: sides_ok_def)
qed

lemma data_executed:
  assumes "sides_ok c msg s r" "s_pc s \<in> {SFlag, SNext, SPend, SFailed}"
    "s_queue s = (qp, data_wr c (s_k s), j, False) # rest" "sender_ok c (s\<lparr> s_queue := rest \<rparr>)"
    "\<forall>a n. WData a n \<notin> kinds rest" "sync_settings c rc"
  shows "sides_ok c msg (s\<lparr> s_queue := rest \<rparr>)
    (r\<lparr> r_buf := copy_bytes (s_buf s) (s_k s mod 2 * half c) (r_buf r) (s_k s mod 2 * half c) (csize c (s_k s)) \<rparr>)"
    (is "sides_ok c msg ?s ?r")
proof -
  note d = sides_okD [OF assms(1)]
  let ?k = "s_k s"
  have kn: "?k < num_send_chunks c" using d(1) assms(2) by (auto simp: sender_ok_def flagged_ok_def)
  have cnt: "posted_flags ?s = posted_flags s" "posted_data ?s = posted_data s"
    "executed_flags ?s = executed_flags s"
    using assms(3) by (simp_all add: posted_flags_def posted_data_def executed_simps data_wr_def)
  have ex: "executed_data s = ?k" "executed_data ?s = ?k + 1"
    using assms(2,3,5) by (auto simp: executed_simps posted_data_def data_wr_def)
  have sb: "holds c msg (s_buf s) ?k" using d(2) assms(2) kn by (auto simp: sender_buf_ok_def)
  have win: "?k + 1 \<le> copied_out r + 2"
  proof -
    have "?k + 1 \<le> granted r + 2" using d(4) assms(2) by (auto simp: permission_ok_def posted_data_def)
    then show ?thesis by (simp add: granted_def copied_out_def split: if_splits)
  qed
  have "receiver_buf_ok c msg ?s ?r"
    unfolding receiver_buf_ok_def
  proof (intro allI impI)
    fix i assume i: "copied_out ?r \<le> i" "i < executed_data ?s"
    show "holds c msg (r_buf ?r) i"
    proof (cases "i = ?k")
      case True
      then show ?thesis using holds_transferred [OF sb, of "r_buf r"] by simp
    next
      case False
      have c: "copied_out r \<le> i" using i(1) by (simp add: copied_out_def)
      then have "holds c msg (r_buf r) i" using d(6) i(2) ex False by (simp add: receiver_buf_ok_def)
      moreover have "i mod 2 \<noteq> ?k mod 2"
      proof -
        have "?k = i + 1" using win c i(2) ex False by linarith
        then show ?thesis using parity_step [of i] by simp
      qed
      ultimately show ?thesis
        using holds_other_half [of c msg "r_buf r" i ?k "csize c ?k"] csize_le assms(6)
        by (simp add: sync_settings_def)
    qed
  qed
  moreover have "sender_buf_ok c msg ?s" using d(2) by (simp add: sender_buf_ok_def)
  moreover have "handshake_ok c ?s ?r"
    by (rule handshake_frame [OF d(3)]) (use assms(2) in \<open>auto simp: state_write_pending_def\<close>)
  moreover have "permission_ok ?s ?r"
    using d(4) cnt by (simp add: permission_ok_def granted_def write_backs_def)
  moreover have "readable_ok ?s ?r"
    using d(5) cnt by (simp add: readable_ok_def accepted_def copied_out_def granted_def)
  moreover have "output_ok c msg ?r" using d(7) by (simp add: output_ok_def accepted_def copied_out_def)
  ultimately show ?thesis using assms(4) by (simp add: sides_ok_def)
qed

lemma flag_executed:
  assumes "sides_ok c msg s r" "s_pc s \<in> {SNext, SPend, SFailed}"
    "s_queue s = [(s_k s mod nq c, WFlag (s_k s mod 2), i, True)]" "s_pending s = [i]" "i < s_next_id s"
  shows "sides_ok c msg (s\<lparr> s_queue := [], s_completed := insert i (s_completed s) \<rparr>)
    (r\<lparr> r_u := (r_u r)\<lparr> u_state := (u_state (r_u r))(s_k s mod 2 := u_state (s_u s) (s_k s mod 2)) \<rparr> \<rparr>)"
    (is "sides_ok c msg ?s ?r")
proof -
  note d = sides_okD [OF assms(1)]
  let ?k = "s_k s"
  have cnt: "posted_flags ?s = posted_flags s" "posted_data ?s = posted_data s"
    "executed_data ?s = executed_data s" "executed_flags s = ?k" "executed_flags ?s = ?k + 1"
    using assms(2,3) by (auto simp: posted_flags_def posted_data_def executed_simps)
  have g: "granted r \<le> ?k" "copied_out r \<le> ?k"
    using d(5) cnt(4) by (auto simp: readable_ok_def granted_def copied_out_def split: if_splits)
  have "readable_ok ?s ?r"
    unfolding readable_ok_def
  proof (intro conjI impI allI)
    fix h :: nat
    assume a: "accepted ?r" "h < 2" "u_state (r_u ?r) h = UHM_BUFFER_CAN_READ"
    show "\<exists>j. j mod 2 = h \<and> granted ?r \<le> j \<and> j < executed_flags ?s"
    proof (cases "h = ?k mod 2")
      case True
      then show ?thesis using g(1) cnt(5) by (intro exI [of _ ?k]) (simp add: granted_def)
    next
      case False
      then have "accepted r" "u_state (r_u r) h = UHM_BUFFER_CAN_READ" using a by (simp_all add: accepted_def)
      then obtain j where "j mod 2 = h" "granted r \<le> j" "j < ?k"
        using d(5) a(2) cnt(4) unfolding readable_ok_def by metis
      then show ?thesis using cnt(5) by (intro exI [of _ j]) (simp add: granted_def)
    qed
  next
    show "copied_out ?r \<le> executed_flags ?s" using g(2) cnt(5) by (simp add: copied_out_def)
  qed
  moreover have "sender_ok c ?s"
    using d(1) assms(2,4,5) by (auto simp: sender_ok_def flagged_ok_def)
  moreover have "sender_buf_ok c msg ?s" using d(2) by (simp add: sender_buf_ok_def)
  moreover have "handshake_ok c ?s ?r"
    by (rule handshake_frame [OF d(3)]) (use assms(2) in \<open>auto simp: state_write_pending_def\<close>)
  moreover have "permission_ok ?s ?r"
    using d(4) cnt by (simp add: permission_ok_def granted_def write_backs_def)
  moreover have "receiver_buf_ok c msg ?s ?r"
    using d(6) cnt by (simp add: receiver_buf_ok_def copied_out_def)
  moreover have "output_ok c msg ?r" using d(7) by (simp add: output_ok_def accepted_def copied_out_def)
  ultimately show ?thesis by (simp add: sides_ok_def)
qed

lemma sender_nic_ok:
  assumes "sides_ok c msg (snd_side x) (rcv_side x)" "sender_nic q x = Some y" "sync_settings c rc"
  shows "sides_ok c msg (snd_side y) (rcv_side y)"
proof -
  let ?s = "snd_side x" and ?r = "rcv_side x"
  note d = sides_okD [OF assms(1)]
  obtain e where e: "next_of q (s_queue ?s) = Some e"
    using assms(2) by (auto simp: sender_nic_def Let_def split: option.splits)
  from d(1) e show ?thesis
  proof (cases rule: sender_queue_cases)
    case state
    then show ?thesis using state_executed [OF assms(1) state(1)] assms(2) e
      by (auto simp: sender_nic_def Let_def)
  next
    case (data j)
    have "sender_ok c (?s\<lparr> s_queue := [] \<rparr>)" using d(1) data(1) by (simp add: sender_ok_def)
    then show ?thesis using data_executed [OF assms(1) _ _ _ _ assms(3), of _ j "[]"] data assms(2) e
      by (auto simp: sender_nic_def Let_def data_wr_def)
  next
    case (data_flag j i)
    let ?f = "[(s_k ?s mod nq c, WFlag (s_k ?s mod 2), i, True)]"
    have "sender_ok c (?s\<lparr> s_queue := ?f \<rparr>)"
      using d(1) data_flag by (auto simp: sender_ok_def flagged_ok_def)
    then show ?thesis using data_executed [OF assms(1) _ _ _ _ assms(3), of _ j ?f] data_flag assms(2) e
      by (auto simp: sender_nic_def Let_def data_wr_def)
  next
    case (flag i)
    then show ?thesis using flag_executed [OF assms(1) flag(1) _ flag(4,5)] assms(2) e
      by (auto simp: sender_nic_def Let_def)
  qed
qed

lemma write_backs_remove:
  assumes "(q, WFlag g, i, sig) \<in> set (r_queue r)"
    "r_queue r' = remove1 (q, WFlag g, i, sig) (r_queue r)"
  shows "write_backs r h = write_backs r' h + (if h = g then 1 else 0)"
proof -
  have "length (filter P (remove1 x xs)) + (if P x then 1 else 0) = length (filter P xs)"
    if "x \<in> set xs" for P and x :: "nat \<times> uhm_wr \<times> nat \<times> bool" and xs
    using that by (induction xs) auto
  from this [OF assms(1), of "\<lambda>x. fst (snd x) = WFlag h"] show ?thesis
    using assms(2) by (cases "h = g") (simp_all add: write_backs_def)
qed

lemma grant_executed:
  assumes "sides_ok c msg s r" "(q, WFlag g, i, sig) \<in> set (r_queue r)"
    "r_queue r' = remove1 (q, WFlag g, i, sig) (r_queue r)" "r' = r\<lparr> r_queue := r_queue r', r_completed := D \<rparr>"
  shows "sides_ok c msg
    (s\<lparr> s_u := (s_u s)\<lparr> u_state := (u_state (s_u s))(g := u_state (r_u r) g) \<rparr> \<rparr>) r'"
    (is "sides_ok c msg ?s r'")
proof -
  note d = sides_okD [OF assms(1)]
  note wb = write_backs_remove [OF assms(2,3)]
  have sel: "r_k r' = r_k r" "r_pc r' = r_pc r" "r_u r' = r_u r" "r_buf r' = r_buf r" "r_out r' = r_out r"
    "r_acc r' = r_acc r" "r_size r' = r_size r" "r_flags r' = r_flags r" "r_num r' = r_num r"
    "r_chunk r' = r_chunk r" "r_tmp r' = r_tmp r"
    by (subst assms(4), simp)+
  have cnt: "granted r' = granted r" "copied_out r' = copied_out r" "accepted r' = accepted r"
    by (simp_all add: sel granted_def copied_out_def accepted_def)
  have scnt: "posted_flags ?s = posted_flags s" "posted_data ?s = posted_data s"
    "executed_flags ?s = executed_flags s" "executed_data ?s = executed_data s"
    by (simp_all add: posted_flags_def posted_data_def executed_simps)
  have old: "(u_state (s_u s) (j mod 2) = UHM_BUFFER_CAN_WRITE \<longrightarrow> j < granted r + 2)
      \<and> (write_backs r (j mod 2) = 0 \<or> write_backs r (j mod 2) = 1
         \<and> u_state (s_u s) (j mod 2) \<noteq> UHM_BUFFER_CAN_WRITE \<and> 2 \<le> j \<and> j < granted r + 2)"
    if "posted_flags s \<le> j" "j \<le> posted_flags s + 1" for j
    using d(4) that unfolding permission_ok_def by metis
  have perm: "(u_state (s_u ?s) (j mod 2) = UHM_BUFFER_CAN_WRITE \<longrightarrow> j < granted r' + 2)
      \<and> (write_backs r' (j mod 2) = 0 \<or> write_backs r' (j mod 2) = 1
         \<and> u_state (s_u ?s) (j mod 2) \<noteq> UHM_BUFFER_CAN_WRITE \<and> 2 \<le> j \<and> j < granted r' + 2)"
    if j: "posted_flags ?s \<le> j" "j \<le> posted_flags ?s + 1" for j
    using old [of j] j wb [of "j mod 2"] cnt(1) scnt(1) by (cases "j mod 2 = g") auto
  have flag: "u_state (s_u ?s) (s_k ?s mod 2) = UHM_BUFFER_CAN_WRITE" if "s_pc ?s = SFlag"
  proof -
    have w: "u_state (s_u s) (s_k s mod 2) = UHM_BUFFER_CAN_WRITE"
      using d(4) that by (simp add: permission_ok_def)
    have "posted_flags s = s_k s" using that by (simp add: posted_flags_def)
    then have "write_backs r (s_k s mod 2) = 0" using old [of "s_k s"] w by auto
    then have "s_k s mod 2 \<noteq> g" using wb [of "s_k s mod 2"] by (auto split: if_splits)
    then show ?thesis using w by simp
  qed
  have "set (r_queue r') \<subseteq> set (r_queue r)" by (simp add: assms(3) set_remove1_subset)
  then have "\<forall>x \<in> set (r_queue r'). \<exists>h < 2. fst (snd x) = WFlag h"
    using d(4) unfolding permission_ok_def by blast
  moreover have "posted_data ?s \<le> granted r' + 2" using d(4) cnt scnt by (simp add: permission_ok_def)
  ultimately have "permission_ok ?s r'" unfolding permission_ok_def using perm flag by blast
  moreover have "handshake_ok c ?s r'"
    using d(3) sel assms(3) by (auto simp: handshake_ok_def state_write_pending_def)
  moreover have "sender_ok c ?s" "sender_buf_ok c msg ?s"
    using d(1,2) by (auto simp: sender_ok_def sender_buf_ok_def starting_ok_def flagged_ok_def
        split: sender_pc.splits)
  moreover have "readable_ok ?s r'" "receiver_buf_ok c msg ?s r'" "output_ok c msg r'"
    using d(5-7) cnt scnt sel by (simp_all add: readable_ok_def receiver_buf_ok_def output_ok_def)
  ultimately show ?thesis by (simp add: sides_ok_def)
qed

lemma receiver_nic_ok:
  assumes "sides_ok c msg (snd_side x) (rcv_side x)" "receiver_nic q x = Some y"
  shows "sides_ok c msg (snd_side y) (rcv_side y)"
proof -
  let ?s = "snd_side x" and ?r = "rcv_side x"
  obtain q' wr i sig where e: "next_of q (r_queue ?r) = Some (q', wr, i, sig)"
    using assms(2) by (auto simp: receiver_nic_def Let_def split: option.splits)
  then have m: "(q', wr, i, sig) \<in> set (r_queue ?r)"
    unfolding next_of_def by (metis find_Some_iff nth_mem)
  moreover have "\<forall>x \<in> set (r_queue ?r). \<exists>h < 2. fst (snd x) = WFlag h"
    using sides_okD(4) [OF assms(1)] by (simp add: permission_ok_def)
  ultimately obtain g where g: "wr = WFlag g" by fastforce
  let ?D = "if sig then insert i (r_completed ?r) else r_completed ?r"
  let ?r' = "?r\<lparr> r_queue := remove1 (q', WFlag g, i, sig) (r_queue ?r), r_completed := ?D \<rparr>"
  have "sides_ok c msg
      (?s\<lparr> s_u := (s_u ?s)\<lparr> u_state := (u_state (s_u ?s))(g := u_state (r_u ?r) g) \<rparr> \<rparr>) ?r'"
    by (rule grant_executed [OF assms(1) m [unfolded g], where D = ?D]) simp_all
  moreover have "y = x\<lparr> snd_side := ?s\<lparr> s_u := (s_u ?s)\<lparr> u_state := (u_state (s_u ?s))(g := u_state (r_u ?r) g) \<rparr> \<rparr>,
      rcv_side := ?r' \<rparr>"
    using assms(2) e g by (simp add: receiver_nic_def Let_def)
  ultimately show ?thesis by simp
qed

section \<open>Every reachable state\<close>

lemma uhm_step_failed:
  assumes "r_pc (rcv_side x) = RFailed" "uhm_step c rc msg a x = Some y"
  shows "r_pc (rcv_side y) = RFailed"
proof (cases a)
  case (SenderNic q)
  then show ?thesis using assms
    by (auto simp: uhm_step_def sender_nic_def Let_def split: option.splits uhm_wr.splits)
next
  case (ReceiverNic q)
  then show ?thesis using assms
    by (auto simp: uhm_step_def receiver_nic_def Let_def split: option.splits)
qed (use assms in \<open>auto simp: uhm_step_def receiver_step_def receiver_timeout_def Let_def
      split: if_splits\<close>)

lemma uhm_step_inv:
  assumes "uhm_inv c msg x" "uhm_step c rc msg a x = Some y" "sync_settings c rc"
  shows "uhm_inv c msg y"
proof (cases "r_pc (rcv_side x) = RFailed")
  case True
  then show ?thesis using uhm_step_failed [OF _ assms(2)] by (simp add: uhm_inv_def)
next
  case False
  then have ok: "sides_ok c msg (snd_side x) (rcv_side x)" using assms(1) by (simp add: uhm_inv_def)
  show ?thesis
  proof (cases a)
    case Sender
    then show ?thesis using assms(2) sender_step_ok [OF ok _ assms(3)]
      by (auto simp: uhm_step_def uhm_inv_def)
  next
    case Receiver
    then show ?thesis using assms(2) receiver_step_ok [OF ok _ assms(3)]
      by (auto simp: uhm_step_def uhm_inv_def)
  next
    case (SenderNic q)
    then show ?thesis using assms(2) sender_nic_ok [OF ok _ assms(3)]
      by (auto simp: uhm_step_def uhm_inv_def)
  next
    case (ReceiverNic q)
    then show ?thesis using assms(2) receiver_nic_ok [OF ok]
      by (auto simp: uhm_step_def uhm_inv_def)
  next
    case SenderTimeout
    then show ?thesis using assms(2) sender_timeout_ok [OF ok]
      by (auto simp: uhm_step_def uhm_inv_def)
  next
    case ReceiverTimeout
    then show ?thesis using assms(2)
      by (auto simp: uhm_step_def uhm_inv_def receiver_timeout_def split: if_splits)
  qed
qed

lemma uhm_initial_inv:
  assumes "uhm_initial x"
  shows "uhm_inv c msg x"
proof -
  obtain u b u' b' out where x: "snd_side x = sender_init u b" "rcv_side x = receiver_init u' b' out"
    using assms by (auto simp: uhm_initial_def)
  have z: "posted_flags (snd_side x) = 0" "posted_data (snd_side x) = 0" "executed_flags (snd_side x) = 0"
    "executed_data (snd_side x) = 0" "granted (rcv_side x) = 0" "copied_out (rcv_side x) = 0"
    "\<not> accepted (rcv_side x)" "write_backs (rcv_side x) h = 0" for h
    by (simp_all add: x sender_init_def receiver_init_def count_defs accepted_def write_backs_def)
  have "sender_ok c (snd_side x)" "sender_buf_ok c msg (snd_side x)"
    by (simp_all add: x sender_init_def sender_ok_def sender_buf_ok_def)
  moreover have "handshake_ok c (snd_side x) (rcv_side x)"
    by (simp add: x receiver_init_def handshake_ok_def)
  moreover have "permission_ok (snd_side x) (rcv_side x)"
    using z by (simp add: permission_ok_def) (simp add: x sender_init_def receiver_init_def)
  ultimately show ?thesis
    using z by (simp add: uhm_inv_def sides_ok_def readable_ok_def receiver_buf_ok_def output_ok_def)
qed

lemma uhm_reach_inv:
  assumes "uhm_reach c rc msg x0 x" "uhm_initial x0" "sync_settings c rc"
  shows "uhm_inv c msg x"
  using assms(1)
proof induction
  case reach_init
  then show ?case using uhm_initial_inv [OF assms(2)] .
next
  case (reach_step x a y)
  then show ?case using uhm_step_inv assms(3) by blast
qed

lemma uhm_run_reach:
  assumes "uhm_run c rc msg as x = Some y" "uhm_reach c rc msg x0 x"
  shows "uhm_reach c rc msg x0 y"
  using assms
proof (induction as arbitrary: x)
  case Nil
  then show ?case by simp
next
  case (Cons a as)
  then obtain z where z: "uhm_step c rc msg a x = Some z" "uhm_run c rc msg as z = Some y"
    by (auto simp: bind_eq_Some_conv)
  from Cons.IH [OF z(2) reach_step [OF Cons.prems(2) z(1)]] show ?case .
qed

section \<open>Properties\<close>


section \<open>The built-in settings\<close>

text \<open>A two-byte buffer on both sides and nothing set in the environment.\<close>

definition idle_sys :: sys where
  "idle_sys = (let u = \<lparr> u_state = (\<lambda>_. UHM_BUFFER_CAN_WRITE), u_length = 0, u_chunk_bytes = 0 \<rparr>
     in \<lparr> snd_side = sender_init u (\<lambda>_. 0), rcv_side = receiver_init u (\<lambda>_. 0) (\<lambda>_. 0) \<rparr>)"

definition default_cfg :: "nat \<Rightarrow> uhm_cfg" where
  "default_cfg n = \<lparr> half = 1, chunk = 1, total = n, nq = 1, signal_interval = 16, max_pending_signal = 8 \<rparr>"

definition default_recv :: "nat \<Rightarrow> recv_cfg" where
  "default_recv n = \<lparr> r_half = 1, r_capacity = n, r_nq = 1, r_signal_interval = 16, r_max_pending = 8 \<rparr>"

definition demo_msg :: bytes where
  "demo_msg = (\<lambda>i. of_nat (i + 1))"

text \<open>The sender runs ahead: it posts the first two chunks and refills the first half with the third
  chunk before the adapter has executed anything.\<close>

definition early_refill :: "actor list" where
  "early_refill =
     [Receiver, Sender, Sender, SenderNic 0, Receiver, Receiver, Sender]
     @ [Sender, Sender, Sender, Sender, Sender, Sender, Sender, Sender]
     @ [SenderNic 0, SenderNic 0, SenderNic 0, SenderNic 0]
     @ [Receiver, Receiver, Receiver, Receiver, Receiver, Receiver, ReceiverNic 0, ReceiverNic 0]
     @ [Sender, Sender, Sender, Sender, SenderNic 0, SenderNic 0]
     @ [Receiver, Receiver, Receiver, ReceiverNic 0, Receiver, Receiver, Sender, Sender]"

lemma early_refill_run:
  "case uhm_run (default_cfg 3) (default_recv 3) demo_msg early_refill idle_sys of
     None \<Rightarrow> False
   | Some x \<Rightarrow> s_pc (snd_side x) = SDone \<and> r_pc (rcv_side x) = RDone
       \<and> map (r_out (rcv_side x)) [0..<3] = [3, 2, 3]"
  by code_simp

text \<open>C10: with the built-in settings a transfer can deliver a wrong message and report success on both
  sides.  A three-byte message 1, 2, 3 arrives as 3, 2, 3: the first half is refilled with the
  third chunk while the write of the first chunk is still queued.\<close>

theorem uhm_default_corrupts:
  "uhm_send_setup (\<lambda>_. None) 2 1 4096 3 = Inr (default_cfg 3)
   \<and> uhm_recv_setup (\<lambda>_. None) 2 1 4096 3 True = Inr (default_recv 3)
   \<and> uhm_initial idle_sys
   \<and> (\<exists>x. uhm_run (default_cfg 3) (default_recv 3) demo_msg early_refill idle_sys = Some x
        \<and> s_pc (snd_side x) = SDone \<and> r_pc (rcv_side x) = RDone
        \<and> map (r_out (rcv_side x)) [0..<3] = [3, 2, 3] \<and> map demo_msg [0..<3] = [1, 2, 3])"
proof -
  have "uhm_send_setup (\<lambda>_. None) 2 1 4096 3 = Inr (default_cfg 3)"
    by (simp add: uhm_send_setup_def envU32OrDefault_def default_cfg_def Let_def)
  moreover have "uhm_recv_setup (\<lambda>_. None) 2 1 4096 3 True = Inr (default_recv 3)"
    by (simp add: uhm_recv_setup_def envU32OrDefault_def default_recv_def Let_def)
  moreover have "uhm_initial idle_sys" by (auto simp: uhm_initial_def idle_sys_def Let_def)
  moreover have "map demo_msg [0..<3] = [1, 2, 3]" by code_simp
  ultimately show ?thesis using early_refill_run by (auto split: option.splits)
qed

text \<open>The receiver is waiting, but polls only after the first flag has arrived.\<close>

definition late_poll :: "actor list" where
  "late_poll = [Receiver, Sender, Sender, SenderNic 0, Sender, Sender, Sender, Sender, Sender,
     SenderNic 0, SenderNic 0, Sender, Sender]"

lemma late_poll_run:
  "case uhm_run (default_cfg 1) (default_recv 1) demo_msg late_poll idle_sys of
     None \<Rightarrow> False
   | Some x \<Rightarrow> s_pc (snd_side x) = SDone \<and> r_pc (rcv_side x) = RPoll
       \<and> u_state (r_u (rcv_side x)) 0 = UHM_BUFFER_CAN_READ
       \<and> s_queue (snd_side x) = [] \<and> r_queue (rcv_side x) = []"
  by code_simp

text \<open>C11: the start of a transfer can hang.  The receiver has entered its call before the sender
  starts; the sender transfers its single chunk and returns success; the receiver, which looks for
  the initial ``can write'' state only now, finds it overwritten by the ``can read'' flag of the
  first chunk, and no process or adapter can take a step any more.\<close>

theorem uhm_start_hangs:
  "\<exists>x. uhm_run (default_cfg 1) (default_recv 1) demo_msg late_poll idle_sys = Some x
     \<and> s_pc (snd_side x) = SDone \<and> r_pc (rcv_side x) = RPoll
     \<and> (\<forall>a. uhm_step (default_cfg 1) (default_recv 1) demo_msg a x = None)"
proof -
  obtain x where x: "uhm_run (default_cfg 1) (default_recv 1) demo_msg late_poll idle_sys = Some x"
    "s_pc (snd_side x) = SDone" "r_pc (rcv_side x) = RPoll"
    "u_state (r_u (rcv_side x)) 0 = UHM_BUFFER_CAN_READ" "s_queue (snd_side x) = []"
    "r_queue (rcv_side x) = []"
    using late_poll_run by (auto split: option.splits)
  have "uhm_step (default_cfg 1) (default_recv 1) demo_msg a x = None" for a
    using x(2-6) by (cases a) (simp_all add: uhm_step_def sender_step_def receiver_step_def
        sender_nic_def receiver_nic_def sender_timeout_def receiver_timeout_def next_of_simps Let_def)
  with x show ?thesis by blast
qed

section \<open>Witness\<close>

definition sync_cfg :: "nat \<Rightarrow> uhm_cfg" where
  "sync_cfg n = (default_cfg n)\<lparr> signal_interval := 1, max_pending_signal := 1 \<rparr>"

definition orderly :: "actor list" where
  "orderly =
     [Receiver, Sender, Sender, SenderNic 0, Receiver, Receiver, Sender]
     @ [Sender, Sender, Sender, SenderNic 0, SenderNic 0, Sender]
     @ [Sender, Sender, Sender, SenderNic 0, SenderNic 0, Sender]
     @ [Receiver, Receiver, Receiver, Receiver, Receiver, Receiver, ReceiverNic 0, ReceiverNic 0]
     @ [Receiver, Receiver]"

lemma orderly_run:
  "case uhm_run (sync_cfg 2) (default_recv 2) demo_msg orderly idle_sys of
     None \<Rightarrow> False | Some x \<Rightarrow> r_pc (rcv_side x) = RDone"
  by code_simp


end
