(* ===== verification/Hmc_ConnManager.thy ===== *)
theory Hmc_ConnManager
  imports Hmc_Pipeline
begin

text \<open>
  The connection manager, class \<^verbatim>\<open>ConnManager\<close> (src/network/net.h, src/network/conn_manager.cpp): the
  table of endpoints per transport and peer, the same-host endpoints per rank, and the servers.
  Endpoints are objects behind pointers, because \<^verbatim>\<open>Communicator\<close> keeps raw pointers to them: the
  record has a heap, and destroying an endpoint removes it from the heap.  Pointers are not reused.
  The virtual methods of \<^verbatim>\<open>Endpoint\<close>, \<^verbatim>\<open>Client\<close> and \<^verbatim>\<open>Server\<close> are the record \<open>Endpoint\<close>; \<open>rdma_class\<close>
  instantiates those of an endpoint with the RDMA endpoint of this development.
\<close>

section \<open>Virtual methods\<close>

type_synonym ('e, 'w) transfer = "'e \<Rightarrow> size_t \<Rightarrow> size_t \<Rightarrow> size_t \<Rightarrow> 'w \<Rightarrow> (status_t \<times> 'e \<times> 'w) option"
type_synonym ('e, 'w) transfer_nb = "'e \<Rightarrow> size_t \<Rightarrow> size_t \<Rightarrow> size_t \<Rightarrow> 'w \<Rightarrow> (status_t \<times> u64) \<times> 'e \<times> 'w"

text \<open>A method that may not return gives \<open>None\<close>.  \<open>as_rdma\<close> is the \<^verbatim>\<open>dynamic_cast\<close> to
  \<^verbatim>\<open>RDMAEndpoint\<close>, \<open>of_rdma\<close> the object seen again as an \<^verbatim>\<open>Endpoint\<close>.\<close>

record ('e, 'w) Endpoint =
  m_writeData :: "('e, 'w) transfer"
  m_readData :: "('e, 'w) transfer"
  m_writeDataNB :: "('e, 'w) transfer_nb"
  m_readDataNB :: "('e, 'w) transfer_nb"
  m_waitWrId :: "u64 \<Rightarrow> 'e \<Rightarrow> 'w \<Rightarrow> (status_t \<times> 'e \<times> 'w) option"
  m_waitWrIdMulti :: "int \<Rightarrow> u64 list \<Rightarrow> 'e \<Rightarrow> 'w \<Rightarrow> (status_t \<times> 'e \<times> 'w) option"
  m_uhm_send :: "addr \<Rightarrow> size_t \<Rightarrow> MemoryType \<Rightarrow> 'e \<Rightarrow> 'w \<Rightarrow> (status_t \<times> 'e \<times> 'w) option"
  m_uhm_recv :: "addr \<Rightarrow> size_t \<Rightarrow> MemoryType \<Rightarrow> addr \<Rightarrow> 'e \<Rightarrow> 'w \<Rightarrow> (status_t \<times> 'e \<times> 'w) option"
  m_destroy :: "'e \<Rightarrow> 'w \<Rightarrow> 'w"
  as_rdma :: "'e \<Rightarrow> RDMAEndpoint option"
  of_rdma :: "RDMAEndpoint \<Rightarrow> 'e"
  m_connect :: "ConnType \<Rightarrow> string \<Rightarrow> u16 \<Rightarrow> 'w \<Rightarrow> 'e option \<times> 'w"
  m_stopListen :: "ConnType \<Rightarrow> 'w \<Rightarrow> 'w"

text \<open>The result of a call through a pointer: it returns, it never returns, or the pointer is
  dangling.\<close>

datatype 'a run = Ret 'a | Diverge | Fault

text \<open>The class of the RDMA endpoint, over verbs \<open>v\<close>.  The UHM transfers are two-party protocols
  (theory \<open>Hmc_Uhm\<close>) and, with the destructor, connecting and listening, arguments here.\<close>

definition rdma_class ::
  "'w verbs \<Rightarrow> (addr \<Rightarrow> size_t \<Rightarrow> MemoryType \<Rightarrow> RDMAEndpoint \<Rightarrow> 'w \<Rightarrow> (status_t \<times> RDMAEndpoint \<times> 'w) option)
    \<Rightarrow> (addr \<Rightarrow> size_t \<Rightarrow> MemoryType \<Rightarrow> addr \<Rightarrow> RDMAEndpoint \<Rightarrow> 'w \<Rightarrow> (status_t \<times> RDMAEndpoint \<times> 'w) option)
    \<Rightarrow> (RDMAEndpoint \<Rightarrow> 'w \<Rightarrow> 'w) \<Rightarrow> (ConnType \<Rightarrow> string \<Rightarrow> u16 \<Rightarrow> 'w \<Rightarrow> RDMAEndpoint option \<times> 'w)
    \<Rightarrow> (ConnType \<Rightarrow> 'w \<Rightarrow> 'w) \<Rightarrow> (RDMAEndpoint, 'w) Endpoint" where
  "rdma_class v usend urecv destroy connect stopListen = \<lparr>
     m_writeData = writeData v, m_readData = readData v,
     m_writeDataNB = (\<lambda>e lo ro n w. writeDataNB v e lo ro n True w),
     m_readDataNB = (\<lambda>e lo ro n w. readDataNB v e lo ro n True w),
     m_waitWrId = waitWrId v, m_waitWrIdMulti = waitWrIdMulti v, m_uhm_send = usend, m_uhm_recv = urecv,
     m_destroy = destroy, as_rdma = Some, of_rdma = id, m_connect = connect, m_stopListen = stopListen \<rparr>"

section \<open>State\<close>

type_synonym ptr = nat

record PeerKey =
  pk_ip :: string
  pk_port :: u16

text \<open>An entry of a map holds a \<^verbatim>\<open>unique_ptr\<close>, which may be null.\<close>

record 'e ConnManager =
  rdma_endpoint_map :: "PeerKey \<rightharpoonup> ptr option"
  ucx_endpoint_map :: "PeerKey \<rightharpoonup> ptr option"
  p2p_endpoint_map :: "int \<rightharpoonup> ptr option"
  servers :: "ConnType set"
  server_threads :: "ConnType set"
  heap :: "ptr \<rightharpoonup> 'e"
  next_ptr :: ptr

definition new_ConnManager :: "'e ConnManager" where
  "new_ConnManager = \<lparr> rdma_endpoint_map = Map.empty, ucx_endpoint_map = Map.empty,
     p2p_endpoint_map = Map.empty, servers = {}, server_threads = {}, heap = Map.empty, next_ptr = 0 \<rparr>"

definition endpointMapFor :: "ConnType \<Rightarrow> 'e ConnManager \<Rightarrow> (PeerKey \<rightharpoonup> ptr option) option" where
  "endpointMapFor t cm = (case t of RDMA \<Rightarrow> Some (rdma_endpoint_map cm) | UCX \<Rightarrow> Some (ucx_endpoint_map cm)
     | P2P \<Rightarrow> None)"

definition set_map :: "ConnType \<Rightarrow> (PeerKey \<rightharpoonup> ptr option) \<Rightarrow> 'e ConnManager \<Rightarrow> 'e ConnManager" where
  "set_map t f cm = (case t of RDMA \<Rightarrow> cm\<lparr> rdma_endpoint_map := f \<rparr> | UCX \<Rightarrow> cm\<lparr> ucx_endpoint_map := f \<rparr>
     | P2P \<Rightarrow> cm)"

text \<open>\<^verbatim>\<open>unique_ptr::reset\<close>: the object is destroyed, unless the pointer is null.\<close>

definition reset_ptr :: "('e, 'w) Endpoint \<Rightarrow> ptr option \<Rightarrow> 'e ConnManager \<Rightarrow> 'w \<Rightarrow> 'e ConnManager \<times> 'w" where
  "reset_ptr C p cm w =
    (case p of None \<Rightarrow> (cm, w)
     | Some q \<Rightarrow> (case heap cm q of None \<Rightarrow> (cm, w)
         | Some e \<Rightarrow> (cm\<lparr> heap := (heap cm)(q := None) \<rparr>, m_destroy C e w)))"

definition alloc :: "'e \<Rightarrow> 'e ConnManager \<Rightarrow> ptr \<times> 'e ConnManager" where
  "alloc e cm = (next_ptr cm, cm\<lparr> heap := (heap cm)(next_ptr cm \<mapsto> e), next_ptr := Suc (next_ptr cm) \<rparr>)"

section \<open>Endpoint tables\<close>

definition addEndpoint ::
  "('e, 'w) Endpoint \<Rightarrow> string \<Rightarrow> u16 \<Rightarrow> 'e option \<Rightarrow> ConnType \<Rightarrow> 'e ConnManager \<Rightarrow> 'w \<Rightarrow> 'e ConnManager \<times> 'w" where
  "addEndpoint C ip port endpoint t cm w =
    (case endpoint of
       None \<Rightarrow> (cm, w)
     | Some e \<Rightarrow>
         (case endpointMapFor t cm of
            None \<Rightarrow> (cm, m_destroy C e w)
          | Some f \<Rightarrow>
              let key = \<lparr> pk_ip = ip, pk_port = port \<rparr>;
                  old = (case f key of None \<Rightarrow> None | Some entry \<Rightarrow> entry);
                  (p, cm1) = alloc e cm
              in reset_ptr C old (set_map t (f(key \<mapsto> Some p)) cm1) w))"

definition removeEndpoint ::
  "('e, 'w) Endpoint \<Rightarrow> string \<Rightarrow> u16 \<Rightarrow> ConnType \<Rightarrow> 'e ConnManager \<Rightarrow> 'w \<Rightarrow> 'e ConnManager \<times> 'w" where
  "removeEndpoint C ip port t cm w =
    (let key = \<lparr> pk_ip = ip, pk_port = port \<rparr>
     in case endpointMapFor t cm of
          None \<Rightarrow> (cm, w)
        | Some f \<Rightarrow>
            (case f key of
               None \<Rightarrow> (cm, w)
             | Some entry \<Rightarrow> reset_ptr C entry (set_map t (f(key := None)) cm) w))"

definition removeEndpointIfMatch ::
  "('e, 'w) Endpoint \<Rightarrow> string \<Rightarrow> u16 \<Rightarrow> ConnType \<Rightarrow> u64 \<Rightarrow> 'e ConnManager \<Rightarrow> 'w
     \<Rightarrow> status_t \<times> 'e ConnManager \<times> 'w" where
  "removeEndpointIfMatch C ip port t expected_conn_id cm w =
    (let key = \<lparr> pk_ip = ip, pk_port = port \<rparr>;
         f = rdma_endpoint_map cm;
         erased = cm\<lparr> rdma_endpoint_map := f(key := None) \<rparr>
     in if t = UCX then (SUCCESS, removeEndpoint C ip port t cm w)
        else if t \<noteq> RDMA then (INVALID_CONFIG, cm, w)
        else case f key of
          None \<Rightarrow> (SUCCESS, cm, w)
        | Some None \<Rightarrow> (SUCCESS, erased, w)
        | Some (Some p) \<Rightarrow>
            (case heap cm p of
               None \<Rightarrow> (SUCCESS, erased, w)
             | Some e \<Rightarrow>
                 (case as_rdma C e of
                    None \<Rightarrow> (SUCCESS, cm, w)
                  | Some r \<Rightarrow> if conn_id r \<noteq> expected_conn_id then (SUCCESS, cm, w)
                      else (SUCCESS, reset_ptr C (Some p) erased w))))"

definition addP2pEndpoint_cm ::
  "('e, 'w) Endpoint \<Rightarrow> int \<Rightarrow> 'e option \<Rightarrow> 'e ConnManager \<Rightarrow> 'w \<Rightarrow> 'e ConnManager \<times> 'w" where
  "addP2pEndpoint_cm C peer_rank endpoint cm w =
    (case endpoint of
       None \<Rightarrow> (cm, w)
     | Some e \<Rightarrow>
         let old = (case p2p_endpoint_map cm peer_rank of None \<Rightarrow> None | Some entry \<Rightarrow> entry);
             (p, cm1) = alloc e cm
         in reset_ptr C old (cm1\<lparr> p2p_endpoint_map := (p2p_endpoint_map cm1)(peer_rank \<mapsto> Some p) \<rparr>) w)"

definition removeP2pEndpoint ::
  "('e, 'w) Endpoint \<Rightarrow> int \<Rightarrow> 'e ConnManager \<Rightarrow> 'w \<Rightarrow> 'e ConnManager \<times> 'w" where
  "removeP2pEndpoint C peer_rank cm w =
    (case p2p_endpoint_map cm peer_rank of
       None \<Rightarrow> (cm, w)
     | Some entry \<Rightarrow>
         reset_ptr C entry (cm\<lparr> p2p_endpoint_map := (p2p_endpoint_map cm)(peer_rank := None) \<rparr>) w)"

definition initiateP2pConnection ::
  "('e, 'w) Endpoint \<Rightarrow> int \<Rightarrow> 'e option \<Rightarrow> 'e ConnManager \<Rightarrow> 'w \<Rightarrow> status_t \<times> 'e ConnManager \<times> 'w" where
  "initiateP2pConnection C peer_rank endpoint cm w =
    (if endpoint = None then (ERROR, cm, w) else (SUCCESS, addP2pEndpoint_cm C peer_rank endpoint cm w))"

section \<open>Calls through the table\<close>

text \<open>Run \<open>f\<close> on the object a pointer designates and store the object back.  The result of \<open>f\<close>
  is a status and an extra value, \<open>dflt\<close> on the paths that do not call it.\<close>

definition deref ::
  "ptr \<Rightarrow> ('e \<Rightarrow> 'w \<Rightarrow> ((status_t \<times> 'r) \<times> 'e \<times> 'w) option) \<Rightarrow> 'e ConnManager \<Rightarrow> 'w
     \<Rightarrow> ((status_t \<times> 'r) \<times> 'e ConnManager \<times> 'w) run" where
  "deref p f cm w =
    (case heap cm p of
       None \<Rightarrow> Fault
     | Some e \<Rightarrow>
         (case f e w of
            None \<Rightarrow> Diverge
          | Some (r, e1, w1) \<Rightarrow> Ret (r, cm\<lparr> heap := (heap cm)(p \<mapsto> e1) \<rparr>, w1)))"

definition withEndpoint ::
  "string \<Rightarrow> u16 \<Rightarrow> ConnType \<Rightarrow> 'r \<Rightarrow> (ptr \<Rightarrow> 'e \<Rightarrow> 'w \<Rightarrow> ((status_t \<times> 'r) \<times> 'e \<times> 'w) option) \<Rightarrow> 'e ConnManager
     \<Rightarrow> 'w \<Rightarrow> ((status_t \<times> 'r) \<times> 'e ConnManager \<times> 'w) run" where
  "withEndpoint ip port t dflt func cm w =
    (case endpointMapFor t cm of
       None \<Rightarrow> Ret ((INVALID_CONFIG, dflt), cm, w)
     | Some f \<Rightarrow>
         (case f \<lparr> pk_ip = ip, pk_port = port \<rparr> of
            None \<Rightarrow> Ret ((NOT_FOUND, dflt), cm, w)
          | Some None \<Rightarrow> Ret ((ERROR, dflt), cm, w)
          | Some (Some p) \<Rightarrow> deref p (func p) cm w))"

definition withP2pEndpoint ::
  "int \<Rightarrow> 'r \<Rightarrow> (ptr \<Rightarrow> 'e \<Rightarrow> 'w \<Rightarrow> ((status_t \<times> 'r) \<times> 'e \<times> 'w) option) \<Rightarrow> 'e ConnManager
     \<Rightarrow> 'w \<Rightarrow> ((status_t \<times> 'r) \<times> 'e ConnManager \<times> 'w) run" where
  "withP2pEndpoint peer_rank dflt func cm w =
    (case p2p_endpoint_map cm peer_rank of
       None \<Rightarrow> Ret ((NOT_FOUND, dflt), cm, w)
     | Some None \<Rightarrow> Ret ((ERROR, dflt), cm, w)
     | Some (Some p) \<Rightarrow> deref p (func p) cm w)"

section \<open>Servers and clients\<close>

definition createServer :: "ConnType \<Rightarrow> unit outcome" where
  "createServer t = (if t = RDMA \<or> t = UCX then Return () else Throw ''Unknown server type'')"

text \<open>The listening thread runs \<^verbatim>\<open>listen\<close> on its own; its result is not reported.\<close>

definition initiateServer :: "ConnType \<Rightarrow> 'e ConnManager \<Rightarrow> (status_t \<times> 'e ConnManager) outcome" where
  "initiateServer t cm =
    (if t \<in> servers cm then Return (SUCCESS, cm)
     else case createServer t of
       Return _ \<Rightarrow> Return (SUCCESS, cm\<lparr> servers := insert t (servers cm),
                                        server_threads := insert t (server_threads cm) \<rparr>)
     | Throw msg \<Rightarrow> Throw msg
     | Exit n \<Rightarrow> Exit n)"

text \<open>\<^verbatim>\<open>stopServer()\<close> stops the servers in the unspecified order of a hash table, \<open>order\<close>.  This is the
  behaviour with listeners whose \<^verbatim>\<open>stopListen\<close> returns; the one of \<^verbatim>\<open>RDMAServer\<close> exits the process
  (\<open>stopListen_exits\<close> in theory \<open>Hmc_RdmaConnect\<close>).\<close>

definition stopServer ::
  "('e, 'w) Endpoint \<Rightarrow> ConnType list \<Rightarrow> 'e ConnManager \<Rightarrow> 'w \<Rightarrow> status_t \<times> 'e ConnManager \<times> 'w" where
  "stopServer C order cm w =
    (SUCCESS, cm\<lparr> servers := {}, server_threads := {} \<rparr>, fold (m_stopListen C) order w)"

definition stopServerType ::
  "('e, 'w) Endpoint \<Rightarrow> ConnType \<Rightarrow> 'e ConnManager \<Rightarrow> 'w \<Rightarrow> status_t \<times> 'e ConnManager \<times> 'w" where
  "stopServerType C t cm w =
    (SUCCESS, cm\<lparr> servers := servers cm - {t}, server_threads := server_threads cm - {t} \<rparr>,
     if t \<in> servers cm then m_stopListen C t w else w)"

definition initiateConnectionAsClient ::
  "('e, 'w) Endpoint \<Rightarrow> string \<Rightarrow> u16 \<Rightarrow> ConnType \<Rightarrow> 'e ConnManager \<Rightarrow> 'w \<Rightarrow> status_t \<times> 'e ConnManager \<times> 'w" where
  "initiateConnectionAsClient C ip port t cm w =
    (if t = P2P then (INVALID_CONFIG, cm, w)
     else case m_connect C t ip port w of
       (None, w1) \<Rightarrow> (ERROR, cm, w1)
     | (Some e, w1) \<Rightarrow> (SUCCESS, addEndpoint C ip port (Some e) t cm w1))"

section \<open>Ownership of endpoints\<close>

text \<open>Every place that can own an endpoint.\<close>

datatype slot = RdmaSlot PeerKey | UcxSlot PeerKey | P2pSlot int

fun slot_ptr :: "'e ConnManager \<Rightarrow> slot \<Rightarrow> ptr option" where
  "slot_ptr cm (RdmaSlot k) = Option.bind (rdma_endpoint_map cm k) id"
| "slot_ptr cm (UcxSlot k) = Option.bind (ucx_endpoint_map cm k) id"
| "slot_ptr cm (P2pSlot r) = Option.bind (p2p_endpoint_map cm r) id"

definition drop_ptr :: "ptr option \<Rightarrow> (ptr \<rightharpoonup> 'e) \<Rightarrow> (ptr \<rightharpoonup> 'e)" where
  "drop_ptr p h = (case p of None \<Rightarrow> h | Some q \<Rightarrow> h(q := None))"

text \<open>The live objects are exactly those owned by a slot, each by one.\<close>

definition owner :: "(slot \<rightharpoonup> ptr) \<Rightarrow> (ptr \<rightharpoonup> 'e) \<Rightarrow> ptr \<Rightarrow> bool" where
  "owner f h n \<longleftrightarrow> (\<forall>p. h p \<noteq> None \<longleftrightarrow> (\<exists>s. f s = Some p))
     \<and> (\<forall>s t p. f s = Some p \<longrightarrow> f t = Some p \<longrightarrow> s = t) \<and> (\<forall>p. h p \<noteq> None \<longrightarrow> p < n)"

definition cm_wf :: "'e ConnManager \<Rightarrow> bool" where
  "cm_wf cm \<longleftrightarrow> owner (slot_ptr cm) (heap cm) (next_ptr cm)"

lemma owner_fresh: "owner f h n \<Longrightarrow> f s \<noteq> Some n"
  unfolding owner_def by (metis less_irrefl)

lemma owner_live: "owner f h n \<Longrightarrow> f s = Some p \<Longrightarrow> h p \<noteq> None"
  by (auto simp: owner_def)

lemma owner_remove:
  assumes "owner f h n"
  shows "owner (f(s := None)) (drop_ptr (f s) h) n"
proof (cases "f s")
  case None
  then have "f(s := None) = f" by auto
  then show ?thesis using assms None by (simp add: drop_ptr_def)
next
  case (Some p)
  have inj: "t = s" if "f t = Some p" for t using assms that Some by (auto simp: owner_def)
  have "(h(p := None)) q \<noteq> None \<longleftrightarrow> (\<exists>t. (f(s := None)) t = Some q)" for q
  proof (cases "q = p")
    case True
    then show ?thesis using inj by auto
  next
    case False
    have "(\<exists>t. (f(s := None)) t = Some q) \<longleftrightarrow> (\<exists>t. f t = Some q)"
      using Some False by (metis fun_upd_apply option.distinct(1) option.inject)
    then show ?thesis using False assms by (simp add: owner_def)
  qed
  moreover have "q < n" if "(h(p := None)) q \<noteq> None" for q
    using that assms by (auto simp: owner_def split: if_splits)
  moreover have "t = u" if "(f(s := None)) t = Some q" "(f(s := None)) u = Some q" for t u q
    using that assms by (auto simp: owner_def split: if_splits)
  ultimately show ?thesis by (auto simp: owner_def drop_ptr_def Some simp del: fun_upd_apply)
qed

lemma owner_insert:
  assumes "owner f h n" and "f s = None"
  shows "owner (f(s \<mapsto> n)) (h(n \<mapsto> e)) (Suc n)"
proof -
  have nf: "f t \<noteq> Some n" for t using assms(1) by (rule owner_fresh)
  have "(h(n \<mapsto> e)) q \<noteq> None \<longleftrightarrow> (\<exists>t. (f(s \<mapsto> n)) t = Some q)" for q
    using assms by (cases "q = n") (auto simp: owner_def, metis option.distinct(1))
  moreover have "t = u" if "(f(s \<mapsto> n)) t = Some q" "(f(s \<mapsto> n)) u = Some q" for t u q
    using that assms(1) nf by (auto simp: owner_def split: if_splits)
  moreover have "q < Suc n" if "(h(n \<mapsto> e)) q \<noteq> None" for q
    using that assms(1) by (auto simp: owner_def less_Suc_eq split: if_splits)
  ultimately show ?thesis by (auto simp: owner_def simp del: fun_upd_apply)
qed

lemma owner_replace:
  assumes "owner f h n"
  shows "owner (f(s \<mapsto> n)) (drop_ptr (f s) (h(n \<mapsto> e))) (Suc n)"
proof -
  have "f s \<noteq> Some n" using assms by (rule owner_fresh)
  then have "drop_ptr (f s) (h(n \<mapsto> e)) = (drop_ptr (f s) h)(n \<mapsto> e)"
    by (auto simp: drop_ptr_def fun_eq_iff split: option.splits)
  then show ?thesis using owner_insert [OF owner_remove [OF assms, of s], of s e] by simp
qed

lemma owner_store: "owner f h n \<Longrightarrow> h p \<noteq> None \<Longrightarrow> owner f (h(p \<mapsto> e)) n"
  by (auto simp: owner_def)

lemma slot_fun_eqI:
  assumes "\<And>k. f (RdmaSlot k) = g (RdmaSlot k)" and "\<And>k. f (UcxSlot k) = g (UcxSlot k)"
    and "\<And>r. f (P2pSlot r) = g (P2pSlot r)"
  shows "f = g"
proof
  fix s show "f s = g s" using assms by (cases s) auto
qed

lemma slot_ptr_heap [simp]:
  "slot_ptr (cm\<lparr> heap := h \<rparr>) = slot_ptr cm" "slot_ptr (cm\<lparr> heap := h, next_ptr := n \<rparr>) = slot_ptr cm"
  "slot_ptr (cm\<lparr> servers := S, server_threads := T \<rparr>) = slot_ptr cm"
  by (auto intro: slot_fun_eqI)

lemma slot_ptr_upd [simp]:
  "slot_ptr (cm\<lparr> rdma_endpoint_map := (rdma_endpoint_map cm)(k := v) \<rparr>)
    = (slot_ptr cm)(RdmaSlot k := Option.bind v id)"
  "slot_ptr (cm\<lparr> ucx_endpoint_map := (ucx_endpoint_map cm)(k := v) \<rparr>)
    = (slot_ptr cm)(UcxSlot k := Option.bind v id)"
  "slot_ptr (cm\<lparr> p2p_endpoint_map := (p2p_endpoint_map cm)(r := v) \<rparr>)
    = (slot_ptr cm)(P2pSlot r := Option.bind v id)"
  by (auto intro: slot_fun_eqI)

lemma cm_wf_new: "cm_wf (new_ConnManager :: 'e ConnManager)"
proof -
  have "slot_ptr (new_ConnManager :: 'e ConnManager) = (\<lambda>s. None)"
    by (auto intro: slot_fun_eqI simp: new_ConnManager_def)
  moreover have "heap (new_ConnManager :: 'e ConnManager) = Map.empty" by (simp add: new_ConnManager_def)
  ultimately show ?thesis by (simp add: cm_wf_def owner_def)
qed

lemma reset_ptr_fst:
  "fst (reset_ptr C p cm w) = cm\<lparr> heap := drop_ptr p (heap cm) \<rparr>"
proof -
  have "cm\<lparr> heap := (heap cm)(q := None) \<rparr> = cm" if "heap cm q = None" for q
    using that by (cases cm) auto
  then show ?thesis by (auto simp: reset_ptr_def drop_ptr_def split: option.splits)
qed

text \<open>The three ways the tables change.\<close>

lemma cm_wf_replace:
  assumes "cm_wf cm" and "slot_ptr cm' = (slot_ptr cm)(s \<mapsto> next_ptr cm)"
    and "heap cm' = drop_ptr (slot_ptr cm s) ((heap cm)(next_ptr cm \<mapsto> e))" and "next_ptr cm' = Suc (next_ptr cm)"
  shows "cm_wf cm'"
  using assms owner_replace by (simp add: cm_wf_def)

lemma cm_wf_remove:
  assumes "cm_wf cm" and "slot_ptr cm' = (slot_ptr cm)(s := None)"
    and "heap cm' = drop_ptr (slot_ptr cm s) (heap cm)" and "next_ptr cm' = next_ptr cm"
  shows "cm_wf cm'"
  using assms owner_remove by (simp add: cm_wf_def)

lemma cm_wf_store: "cm_wf cm \<Longrightarrow> heap cm p \<noteq> None \<Longrightarrow> cm_wf (cm\<lparr> heap := (heap cm)(p \<mapsto> e) \<rparr>)"
  by (simp add: cm_wf_def owner_store)

lemma bind_id: "(case x of None \<Rightarrow> None | Some y \<Rightarrow> y) = Option.bind x id"
  by (cases x) auto

lemma addEndpoint_wf:
  assumes "cm_wf cm"
  shows "cm_wf (fst (addEndpoint C ip port ep t cm w))"
proof (cases ep)
  case (Some e)
  let ?k = "\<lparr> pk_ip = ip, pk_port = port \<rparr>"
  show ?thesis
  proof (cases t)
    case RDMA
    then show ?thesis
      using Some by (intro cm_wf_replace [OF assms, of _ "RdmaSlot ?k" e])
        (auto simp: addEndpoint_def endpointMapFor_def alloc_def set_map_def reset_ptr_fst bind_id Let_def
          intro: slot_fun_eqI)
  next
    case UCX
    then show ?thesis
      using Some by (intro cm_wf_replace [OF assms, of _ "UcxSlot ?k" e])
        (auto simp: addEndpoint_def endpointMapFor_def alloc_def set_map_def reset_ptr_fst bind_id Let_def
          intro: slot_fun_eqI)
  next
    case P2P
    then show ?thesis using assms Some by (simp add: addEndpoint_def endpointMapFor_def)
  qed
qed (use assms in \<open>simp add: addEndpoint_def\<close>)

lemma removeEndpoint_wf:
  assumes "cm_wf cm"
  shows "cm_wf (fst (removeEndpoint C ip port t cm w))"
proof -
  let ?k = "\<lparr> pk_ip = ip, pk_port = port \<rparr>"
  show ?thesis
  proof (cases t)
    case RDMA
    show ?thesis
    proof (cases "rdma_endpoint_map cm ?k")
      case (Some entry)
      show ?thesis
        using RDMA Some by (intro cm_wf_remove [OF assms, of _ "RdmaSlot ?k"])
          (simp_all add: removeEndpoint_def endpointMapFor_def set_map_def reset_ptr_fst Let_def)
    qed (use assms RDMA in \<open>simp add: removeEndpoint_def endpointMapFor_def Let_def\<close>)
  next
    case UCX
    show ?thesis
    proof (cases "ucx_endpoint_map cm ?k")
      case (Some entry)
      show ?thesis
        using UCX Some by (intro cm_wf_remove [OF assms, of _ "UcxSlot ?k"])
          (simp_all add: removeEndpoint_def endpointMapFor_def set_map_def reset_ptr_fst Let_def)
    qed (use assms UCX in \<open>simp add: removeEndpoint_def endpointMapFor_def Let_def\<close>)
  qed (use assms in \<open>simp add: removeEndpoint_def endpointMapFor_def Let_def\<close>)
qed

lemma removeP2p_wf:
  assumes "cm_wf cm"
  shows "cm_wf (fst (removeP2pEndpoint C r cm w))"
proof (cases "p2p_endpoint_map cm r")
  case (Some entry)
  show ?thesis
    using Some by (intro cm_wf_remove [OF assms, of _ "P2pSlot r"])
      (simp_all add: removeP2pEndpoint_def reset_ptr_fst)
qed (use assms in \<open>simp add: removeP2pEndpoint_def\<close>)

lemma addP2p_wf:
  assumes "cm_wf cm"
  shows "cm_wf (fst (addP2pEndpoint_cm C r ep cm w))"
proof (cases ep)
  case (Some e)
  show ?thesis
    using Some by (intro cm_wf_replace [OF assms, of _ "P2pSlot r" e])
      (auto simp: addP2pEndpoint_cm_def alloc_def reset_ptr_fst bind_id Let_def
          intro: slot_fun_eqI)
qed (use assms in \<open>simp add: addP2pEndpoint_cm_def\<close>)

lemma removeIfMatch_wf:
  assumes "cm_wf cm"
  shows "cm_wf (fst (snd (removeEndpointIfMatch C ip port t i cm w)))"
proof -
  let ?k = "\<lparr> pk_ip = ip, pk_port = port \<rparr>"
  let ?erased = "cm\<lparr> rdma_endpoint_map := (rdma_endpoint_map cm)(?k := None) \<rparr>"
  have null: "cm_wf ?erased" if "slot_ptr cm (RdmaSlot ?k) = None"
    using that by (intro cm_wf_remove [OF assms, of _ "RdmaSlot ?k"]) (simp_all add: drop_ptr_def)
  have del: "cm_wf (fst (reset_ptr C (Some p) ?erased w))" if "rdma_endpoint_map cm ?k = Some (Some p)" for p
    using that by (intro cm_wf_remove [OF assms, of _ "RdmaSlot ?k"]) (simp_all add: reset_ptr_fst)
  have live: "heap cm p \<noteq> None" if "rdma_endpoint_map cm ?k = Some (Some p)" for p
    using that assms owner_live [of "slot_ptr cm" "heap cm" _ "RdmaSlot ?k" p] by (simp add: cm_wf_def)
  show ?thesis
    using assms removeEndpoint_wf [OF assms, of C ip port UCX w] null del live
    by (cases t; cases "rdma_endpoint_map cm ?k")
      (auto simp: removeEndpointIfMatch_def Let_def split: option.splits)
qed

lemma deref_wf: "cm_wf cm \<Longrightarrow> deref p f cm w = Ret (r, cm', w') \<Longrightarrow> cm_wf cm'"
  by (auto simp: deref_def intro: cm_wf_store split: option.splits)

lemma withEndpoint_wf: "cm_wf cm \<Longrightarrow> withEndpoint ip port t d f cm w = Ret (r, cm', w') \<Longrightarrow> cm_wf cm'"
  by (auto simp: withEndpoint_def dest: deref_wf split: option.splits)

lemma withP2pEndpoint_wf: "cm_wf cm \<Longrightarrow> withP2pEndpoint k d f cm w = Ret (r, cm', w') \<Longrightarrow> cm_wf cm'"
  by (auto simp: withP2pEndpoint_def dest: deref_wf split: option.splits)

lemma slot_no_fault: "cm_wf cm \<Longrightarrow> slot_ptr cm s = Some p \<Longrightarrow> deref p f cm w \<noteq> Fault"
  using owner_live by (fastforce simp: cm_wf_def deref_def split: option.splits)

lemma withEndpoint_no_fault:
  assumes "cm_wf cm"
  shows "withEndpoint ip port t d f cm w \<noteq> Fault"
proof -
  let ?k = "\<lparr> pk_ip = ip, pk_port = port \<rparr>"
  have nf: "deref p (f p) cm w \<noteq> Fault" if "slot_ptr cm s = Some p" for s p
    using that by (rule slot_no_fault [OF assms])
  show ?thesis
    using nf [of "RdmaSlot ?k"] nf [of "UcxSlot ?k"]
    by (cases t) (auto simp: withEndpoint_def endpointMapFor_def split: option.splits)
qed

lemma withP2pEndpoint_no_fault:
  assumes "cm_wf cm"
  shows "withP2pEndpoint k d f cm w \<noteq> Fault"
proof -
  have "deref p (f p) cm w \<noteq> Fault" if "slot_ptr cm (P2pSlot k) = Some p" for p
    using that by (rule slot_no_fault [OF assms])
  then show ?thesis by (auto simp: withP2pEndpoint_def split: option.splits)
qed

section \<open>Steps of the manager\<close>

inductive cm_step :: "('e, 'w) Endpoint \<Rightarrow> 'e ConnManager \<times> 'w \<Rightarrow> 'e ConnManager \<times> 'w \<Rightarrow> bool" for C where
  add: "cm_step C (cm, w) (addEndpoint C ip port ep t cm w)"
| remove: "cm_step C (cm, w) (removeEndpoint C ip port t cm w)"
| remove_match: "cm_step C (cm, w) (snd (removeEndpointIfMatch C ip port t i cm w))"
| add_p2p: "cm_step C (cm, w) (addP2pEndpoint_cm C r ep cm w)"
| remove_p2p: "cm_step C (cm, w) (removeP2pEndpoint C r cm w)"
| client: "cm_step C (cm, w) (snd (initiateConnectionAsClient C ip port t cm w))"
| use: "withEndpoint ip port t (d :: u64) f cm w = Ret (r, cm', w') \<Longrightarrow> cm_step C (cm, w) (cm', w')"
| use_p2p: "withP2pEndpoint k (d :: u64) f cm w = Ret (r, cm', w') \<Longrightarrow> cm_step C (cm, w) (cm', w')"
| serve: "initiateServer t cm = Return (st, cm') \<Longrightarrow> cm_step C (cm, w) (cm', w)"
| stop: "cm_step C (cm, w) (snd (stopServer C order cm w))"
| stop_type: "cm_step C (cm, w) (snd (stopServerType C t cm w))"

lemma cm_step_wf:
  assumes "cm_step C s s'" and "cm_wf (fst s)"
  shows "cm_wf (fst s')"
  using assms(1)
proof cases
  case (client cm w ip port t)
  then show ?thesis
    using assms(2) addEndpoint_wf [of cm]
    by (auto simp: initiateConnectionAsClient_def split: prod.splits option.splits)
next
  case (serve t cm st cm' w)
  then show ?thesis
    using assms(2) by (auto simp: initiateServer_def createServer_def cm_wf_def split: if_splits)
next
  case (stop cm w order)
  then show ?thesis using assms(2) by (simp add: stopServer_def cm_wf_def)
next
  case (stop_type cm w t)
  then show ?thesis using assms(2) by (simp add: stopServerType_def cm_wf_def)
qed (use assms(2) in \<open>auto simp: addEndpoint_wf removeEndpoint_wf removeIfMatch_wf addP2p_wf removeP2p_wf
      dest: withEndpoint_wf withP2pEndpoint_wf\<close>)

lemma cm_reachable_wf:
  assumes "(cm_step C)\<^sup>*\<^sup>* (new_ConnManager, w0) s"
  shows "cm_wf (fst s)"
  using assms by induction (auto simp: cm_wf_new intro: cm_step_wf)

section \<open>Properties of the connection table\<close>

text \<open>C20: In every state that additions, replacements, removals, stale-disconnect removals, client
  connections and calls can produce, the live endpoint objects are exactly those one slot of the
  tables owns, so that none leaks and none is destroyed twice, and no call through the tables ever
  reaches a destroyed endpoint.\<close>

theorem endpoint_table_sound:
  assumes "(cm_step C)\<^sup>*\<^sup>* (new_ConnManager, w0) (cm, w)"
  shows "dom (heap cm) = ran (slot_ptr cm) \<and> inj_on (slot_ptr cm) (dom (slot_ptr cm))
    \<and> withEndpoint ip port t d f cm w \<noteq> Fault \<and> withP2pEndpoint k d f cm w \<noteq> Fault"
proof -
  have wf: "cm_wf cm" using cm_reachable_wf [OF assms] by simp
  then have "dom (heap cm) = ran (slot_ptr cm)" by (auto simp: cm_wf_def owner_def ran_def)
  moreover have "inj_on (slot_ptr cm) (dom (slot_ptr cm))" using wf by (auto simp: cm_wf_def owner_def inj_on_def)
  ultimately show ?thesis using wf by (simp add: withEndpoint_no_fault withP2pEndpoint_no_fault)
qed

text \<open>A class over the reference adapter, whose client always connects.\<close>

definition demo_class :: "(RDMAEndpoint, nic) Endpoint" where
  "demo_class = rdma_class nic_verbs (\<lambda>a n t e w. Some (UNSUPPORT, e, w)) (\<lambda>a n t f e w. Some (UNSUPPORT, e, w))
     (\<lambda>e w. w) (\<lambda>t ip port w. (Some demo_endpoint, w)) (\<lambda>t w. w)"

definition demo_table :: "RDMAEndpoint ConnManager" where
  "demo_table = fst (addEndpoint demo_class ''h'' 5 (Some demo_endpoint) RDMA new_ConnManager demo_nic)"

theorem endpoint_table_sound_witness:
  "dom (heap demo_table) = ran (slot_ptr demo_table) \<and> heap demo_table 0 = Some demo_endpoint"
proof -
  let ?s = "addEndpoint demo_class ''h'' 5 (Some demo_endpoint) RDMA new_ConnManager demo_nic"
  have "cm_step demo_class (new_ConnManager, demo_nic) ?s" by (rule cm_step.add)
  then have r: "(cm_step demo_class)\<^sup>*\<^sup>* (new_ConnManager, demo_nic) (demo_table, snd ?s)"
    by (simp add: demo_table_def)
  have "dom (heap demo_table) = ran (slot_ptr demo_table)"
    by (rule conjunct1 [OF endpoint_table_sound [OF r, where d = "0 :: u64" and f = "\<lambda>p e w. None"]])
  moreover have "heap demo_table 0 = Some demo_endpoint"
    by (simp add: demo_table_def addEndpoint_def new_ConnManager_def endpointMapFor_def alloc_def set_map_def
        Let_def reset_ptr_def)
  ultimately show ?thesis by simp
qed




end
