(* ===== verification/Hmc_P2p.thy ===== *)
theory Hmc_P2p
  imports Hmc_ConnManager
begin

text \<open>
  Same-host transfers through exported memory handles, src/network/p2p: the abstract transport, its
  Cambricon and ROCm implementations with both branches of each build switch, and \<^verbatim>\<open>P2pEndpoint\<close>.
  The inter-process calls of CNRT and HIP are the parameter \<open>ipc_rt\<close>, a negative or positive result
  being an error code and zero success.  The locale \<open>ipc_mappings\<close> is the contract of opening and
  closing a handle.
\<close>

section \<open>Run times\<close>

text \<open>\<open>ipc_handle\<close> returns the bytes of the handle: eight for CNRT, sixty-four for HIP.\<close>

record 'w ipc_rt =
  ipc_setDevice :: "int \<Rightarrow> 'w \<Rightarrow> int \<times> 'w"
  ipc_handle :: "addr \<Rightarrow> 'w \<Rightarrow> (int \<times> u8 list) \<times> 'w"
  ipc_open :: "u8 list \<Rightarrow> u32 \<Rightarrow> 'w \<Rightarrow> (int \<times> addr) \<times> 'w"
  ipc_close :: "addr \<Rightarrow> 'w \<Rightarrow> 'w"
  ipc_memcpy :: "addr \<Rightarrow> addr \<Rightarrow> size_t \<Rightarrow> 'w \<Rightarrow> int \<times> 'w"
  ipc_sync :: "'w \<Rightarrow> int \<times> 'w"

record 'w p2p_env =
  p2p_build :: build
  cnrt :: "'w ipc_rt"
  hiprt :: "'w ipc_rt"

definition P2P_HANDLE_SIZE :: nat where
  "P2P_HANDLE_SIZE = 64"

section \<open>Transports\<close>

record CambriconTransport =
  ct_device :: int
  ct_buf :: addr
  ct_peer_ptr :: addr

record RocmTransport =
  rt_device :: int
  rt_peer_device :: int
  rt_buf :: addr
  rt_peer_ptr :: addr

datatype P2pTransport = Cambricon CambriconTransport | Rocm RocmTransport

definition create :: "MemoryType \<Rightarrow> P2pTransport option" where
  "create t = (case t of
       CAMBRICON_MLU \<Rightarrow> Some (Cambricon \<lparr> ct_device = - 1, ct_buf = 0, ct_peer_ptr = 0 \<rparr>)
     | AMD_GPU \<Rightarrow> Some (Rocm \<lparr> rt_device = - 1, rt_peer_device = - 1, rt_buf = 0, rt_peer_ptr = 0 \<rparr>)
     | _ \<Rightarrow> None)"

definition Cambricon_init where
  "Cambricon_init E device buf n t w =
    (if \<not> enable_neuware (p2p_build E) then (UNSUPPORT, t, w)
     else let t1 = t\<lparr> ct_device := device, ct_buf := buf \<rparr>
          in case ipc_setDevice (cnrt E) device w of (ret, w1) \<Rightarrow>
            if ret \<noteq> 0 then (ERROR, t1, w1) else (SUCCESS, t1, w1))"

text \<open>The handle goes to the first eight bytes of the caller's buffer \<open>hb\<close>.\<close>

definition Cambricon_exportHandle where
  "Cambricon_exportHandle E hb t w =
    (if \<not> enable_neuware (p2p_build E) then ((UNSUPPORT, hb), w)
     else case ipc_handle (cnrt E) (ct_buf t) w of ((ret, h), w1) \<Rightarrow>
       if ret \<noteq> 0 then ((ERROR, hb), w1) else ((SUCCESS, take 8 h @ drop 8 hb), w1))"

definition Cambricon_importHandle where
  "Cambricon_importHandle E hb out peer_device t w =
    (if \<not> enable_neuware (p2p_build E) then ((UNSUPPORT, out), t, w)
     else
       let w0 = (if ct_peer_ptr t \<noteq> 0 then ipc_close (cnrt E) (ct_peer_ptr t) w else w);
           t0 = t\<lparr> ct_peer_ptr := 0 \<rparr>;
           flags = (if 0 \<le> peer_device \<and> peer_device \<noteq> ct_device t then 2 else 0)
       in case ipc_open (cnrt E) (take 8 hb) flags w0 of ((ret, p), w1) \<Rightarrow>
            if ret \<noteq> 0 then ((ERROR, p), t0, w1) else ((SUCCESS, p), t0\<lparr> ct_peer_ptr := p \<rparr>, w1))"

definition Cambricon_copy where
  "Cambricon_copy E dst src n t w =
    (if \<not> enable_neuware (p2p_build E) then (UNSUPPORT, w)
     else case ipc_memcpy (cnrt E) dst src n w of (ret, w1) \<Rightarrow>
       if ret \<noteq> 0 then (ERROR, w1)
       else case ipc_sync (cnrt E) w1 of (ret2, w2) \<Rightarrow> (if ret2 \<noteq> 0 then ERROR else SUCCESS, w2))"

definition Cambricon_destroy where
  "Cambricon_destroy E t w =
    (if \<not> enable_neuware (p2p_build E) then (UNSUPPORT, t, w)
     else if ct_peer_ptr t \<noteq> 0 then (SUCCESS, t\<lparr> ct_peer_ptr := 0 \<rparr>, ipc_close (cnrt E) (ct_peer_ptr t) w)
     else (SUCCESS, t, w))"

definition Rocm_init where
  "Rocm_init E device buf n t w =
    (if \<not> enable_rocm (p2p_build E) then (UNSUPPORT, t, w)
     else let t1 = t\<lparr> rt_device := device, rt_buf := buf \<rparr>
          in case ipc_setDevice (hiprt E) device w of (err, w1) \<Rightarrow>
            if err \<noteq> 0 then (ERROR, t1, w1) else (SUCCESS, t1, w1))"

definition Rocm_exportHandle where
  "Rocm_exportHandle E hb t w =
    (if \<not> enable_rocm (p2p_build E) then ((UNSUPPORT, hb), w)
     else case ipc_handle (hiprt E) (rt_buf t) w of ((err, h), w1) \<Rightarrow>
       if err \<noteq> 0 then ((ERROR, hb), w1) else ((SUCCESS, take 64 h @ drop 64 hb), w1))"

definition Rocm_importHandle where
  "Rocm_importHandle E hb out peer_device t w =
    (if \<not> enable_rocm (p2p_build E) then ((UNSUPPORT, out), t, w)
     else
       let w0 = (if rt_peer_ptr t \<noteq> 0 then ipc_close (hiprt E) (rt_peer_ptr t) w else w);
           t0 = t\<lparr> rt_peer_ptr := 0, rt_peer_device := peer_device \<rparr>;
           flags = (if 0 \<le> peer_device \<and> peer_device \<noteq> rt_device t then 1 else 0)
       in case ipc_open (hiprt E) (take 64 hb) flags w0 of ((err, p), w1) \<Rightarrow>
            if err \<noteq> 0 then ((ERROR, p), t0, w1) else ((SUCCESS, p), t0\<lparr> rt_peer_ptr := p \<rparr>, w1))"

definition Rocm_copy where
  "Rocm_copy E dst src n t w =
    (if \<not> enable_rocm (p2p_build E) then (UNSUPPORT, w)
     else case ipc_memcpy (hiprt E) dst src n w of (err, w1) \<Rightarrow>
       if err \<noteq> 0 then (ERROR, w1)
       else case ipc_sync (hiprt E) w1 of (err2, w2) \<Rightarrow> (if err2 \<noteq> 0 then ERROR else SUCCESS, w2))"

definition Rocm_destroy where
  "Rocm_destroy E t w =
    (if \<not> enable_rocm (p2p_build E) then (UNSUPPORT, t, w)
     else if rt_peer_ptr t \<noteq> 0 then (SUCCESS, t\<lparr> rt_peer_ptr := 0 \<rparr>, ipc_close (hiprt E) (rt_peer_ptr t) w)
     else (SUCCESS, t, w))"

section \<open>Dispatch\<close>

definition tr_init :: "'w p2p_env \<Rightarrow> int \<Rightarrow> addr \<Rightarrow> size_t \<Rightarrow> P2pTransport \<Rightarrow> 'w \<Rightarrow> status_t \<times> P2pTransport \<times> 'w" where
  "tr_init E device buf n T w = (case T of
       Cambricon t \<Rightarrow> (case Cambricon_init E device buf n t w of (st, t1, w1) \<Rightarrow> (st, Cambricon t1, w1))
     | Rocm t \<Rightarrow> (case Rocm_init E device buf n t w of (st, t1, w1) \<Rightarrow> (st, Rocm t1, w1)))"

definition tr_export :: "'w p2p_env \<Rightarrow> u8 list \<Rightarrow> P2pTransport \<Rightarrow> 'w \<Rightarrow> (status_t \<times> u8 list) \<times> 'w" where
  "tr_export E hb T w = (case T of
       Cambricon t \<Rightarrow> Cambricon_exportHandle E hb t w
     | Rocm t \<Rightarrow> Rocm_exportHandle E hb t w)"

definition tr_import ::
  "'w p2p_env \<Rightarrow> u8 list \<Rightarrow> addr \<Rightarrow> int \<Rightarrow> P2pTransport \<Rightarrow> 'w \<Rightarrow> (status_t \<times> addr) \<times> P2pTransport \<times> 'w" where
  "tr_import E hb out dev T w = (case T of
       Cambricon t \<Rightarrow> (case Cambricon_importHandle E hb out dev t w of (r, t1, w1) \<Rightarrow> (r, Cambricon t1, w1))
     | Rocm t \<Rightarrow> (case Rocm_importHandle E hb out dev t w of (r, t1, w1) \<Rightarrow> (r, Rocm t1, w1)))"

definition tr_copy :: "'w p2p_env \<Rightarrow> addr \<Rightarrow> addr \<Rightarrow> size_t \<Rightarrow> P2pTransport \<Rightarrow> 'w \<Rightarrow> status_t \<times> 'w" where
  "tr_copy E dst src n T w = (case T of
       Cambricon t \<Rightarrow> Cambricon_copy E dst src n t w | Rocm t \<Rightarrow> Rocm_copy E dst src n t w)"

definition tr_destroy :: "'w p2p_env \<Rightarrow> P2pTransport \<Rightarrow> 'w \<Rightarrow> status_t \<times> P2pTransport \<times> 'w" where
  "tr_destroy E T w = (case T of
       Cambricon t \<Rightarrow> (case Cambricon_destroy E t w of (st, t1, w1) \<Rightarrow> (st, Cambricon t1, w1))
     | Rocm t \<Rightarrow> (case Rocm_destroy E t w of (st, t1, w1) \<Rightarrow> (st, Rocm t1, w1)))"

text \<open>The destructors: \<^verbatim>\<open>destroy()\<close> in a build with the run time, nothing otherwise, where
  \<^verbatim>\<open>destroy()\<close> has no effect either.\<close>

definition tr_delete :: "'w p2p_env \<Rightarrow> P2pTransport \<Rightarrow> 'w \<Rightarrow> 'w" where
  "tr_delete E T w = snd (snd (tr_destroy E T w))"

section \<open>The endpoint\<close>

record P2pEndpoint =
  transport :: "P2pTransport option"
  local_ptr :: addr
  peer_ptr :: addr
  peer_rank :: int

definition p2p_writeData ::
  "'w p2p_env \<Rightarrow> P2pEndpoint \<Rightarrow> size_t \<Rightarrow> size_t \<Rightarrow> size_t \<Rightarrow> 'w \<Rightarrow> status_t \<times> 'w" where
  "p2p_writeData E e local_off remote_off n w =
    (case transport e of
       None \<Rightarrow> (ERROR, w)
     | Some T \<Rightarrow> if local_ptr e = 0 \<or> peer_ptr e = 0 then (ERROR, w)
         else tr_copy E (peer_ptr e + remote_off) (local_ptr e + local_off) n T w)"

definition p2p_readData ::
  "'w p2p_env \<Rightarrow> P2pEndpoint \<Rightarrow> size_t \<Rightarrow> size_t \<Rightarrow> size_t \<Rightarrow> 'w \<Rightarrow> status_t \<times> 'w" where
  "p2p_readData E e local_off remote_off n w =
    (case transport e of
       None \<Rightarrow> (ERROR, w)
     | Some T \<Rightarrow> if local_ptr e = 0 \<or> peer_ptr e = 0 then (ERROR, w)
         else tr_copy E (local_ptr e + local_off) (peer_ptr e + remote_off) n T w)"

definition p2p_writeDataNB ::
  "'w p2p_env \<Rightarrow> P2pEndpoint \<Rightarrow> size_t \<Rightarrow> size_t \<Rightarrow> size_t \<Rightarrow> 'w \<Rightarrow> (status_t \<times> u64) \<times> 'w" where
  "p2p_writeDataNB E e lo ro sz w = (case p2p_writeData E e lo ro sz w of (st, w1) \<Rightarrow> ((st, 0), w1))"

definition p2p_readDataNB ::
  "'w p2p_env \<Rightarrow> P2pEndpoint \<Rightarrow> size_t \<Rightarrow> size_t \<Rightarrow> size_t \<Rightarrow> 'w \<Rightarrow> (status_t \<times> u64) \<times> 'w" where
  "p2p_readDataNB E e lo ro sz w = (case p2p_readData E e lo ro sz w of (st, w1) \<Rightarrow> ((st, 0), w1))"

definition p2p_closeEndpoint :: "'w p2p_env \<Rightarrow> P2pEndpoint \<Rightarrow> 'w \<Rightarrow> status_t \<times> P2pEndpoint \<times> 'w" where
  "p2p_closeEndpoint E e w =
    (case transport e of
       None \<Rightarrow> (SUCCESS, e, w)
     | Some T \<Rightarrow> (case tr_destroy E T w of (_, T1, w1) \<Rightarrow>
         (SUCCESS, e\<lparr> transport := None \<rparr>, tr_delete E T1 w1)))"

definition p2p_delete :: "'w p2p_env \<Rightarrow> P2pEndpoint \<Rightarrow> 'w \<Rightarrow> 'w" where
  "p2p_delete E e w = (case transport e of None \<Rightarrow> w | Some T \<Rightarrow> tr_delete E T w)"

section \<open>Mappings\<close>

definition peer_mapping :: "P2pTransport \<Rightarrow> addr set" where
  "peer_mapping T = (case T of Cambricon t \<Rightarrow> {ct_peer_ptr t} - {0} | Rocm t \<Rightarrow> {rt_peer_ptr t} - {0})"

text \<open>The contract of one run time: \<open>mapped\<close> are the addresses at which handles are open; a
  successful open adds one that was not there.\<close>

locale ipc_mappings =
  fixes rt :: "'w ipc_rt"
    and mapped :: "'w \<Rightarrow> addr set"
  assumes open_maps: "ipc_open rt h fl w = ((ret, p), w') \<Longrightarrow>
      if ret = 0 then p \<noteq> 0 \<and> p \<notin> mapped w \<and> mapped w' = insert p (mapped w) else mapped w' = mapped w"
    and mapped_close [simp]: "mapped (ipc_close rt p w) = mapped w - {p}"
    and mapped_setDevice: "ipc_setDevice rt d w = (r, w') \<Longrightarrow> mapped w' = mapped w"
    and mapped_handle: "ipc_handle rt b w = (g, w') \<Longrightarrow> mapped w' = mapped w"
    and mapped_memcpy: "ipc_memcpy rt a s n w = (r, w') \<Longrightarrow> mapped w' = mapped w"
    and mapped_sync: "ipc_sync rt w = (r, w') \<Longrightarrow> mapped w' = mapped w"

locale p2p_runtimes =
  c: ipc_mappings "cnrt E" mapped + h: ipc_mappings "hiprt E" mapped
  for E :: "'w p2p_env" and mapped :: "'w \<Rightarrow> addr set" +
  assumes both_enabled: "enable_neuware (p2p_build E)" "enable_rocm (p2p_build E)"
begin

lemma import_keeps_one:
  assumes "mapped w = A \<union> peer_mapping T" and "A \<inter> peer_mapping T = {}"
    and "tr_import E hb out dev T w = (r, T', w')"
  shows "mapped w' = A \<union> peer_mapping T' \<and> A \<inter> peer_mapping T' = {}"
proof (cases T)
  case (Cambricon t)
  let ?w0 = "if ct_peer_ptr t \<noteq> 0 then ipc_close (cnrt E) (ct_peer_ptr t) w else w"
  let ?fl = "if 0 \<le> dev \<and> dev \<noteq> ct_device t then 2 else 0 :: u32"
  obtain ret p w1 where o: "ipc_open (cnrt E) (take 8 hb) ?fl ?w0 = ((ret, p), w1)" by (metis surj_pair)
  have a0: "mapped ?w0 = A" using assms(1,2) Cambricon by (auto simp: peer_mapping_def)
  have m: "if ret = 0 then p \<noteq> 0 \<and> p \<notin> A \<and> mapped w1 = insert p A else mapped w1 = A"
    using c.open_maps [OF o] unfolding a0 .
  have "tr_import E hb out dev T w
      = (if ret \<noteq> 0 then ((ERROR, p), Cambricon (t\<lparr> ct_peer_ptr := 0 \<rparr>), w1)
         else ((SUCCESS, p), Cambricon (t\<lparr> ct_peer_ptr := p \<rparr>), w1))"
    using o both_enabled Cambricon by (simp add: tr_import_def Cambricon_importHandle_def Let_def)
  then show ?thesis using assms(3) m by (cases "ret = 0") (auto simp: peer_mapping_def)
next
  case (Rocm t)
  let ?w0 = "if rt_peer_ptr t \<noteq> 0 then ipc_close (hiprt E) (rt_peer_ptr t) w else w"
  let ?fl = "if 0 \<le> dev \<and> dev \<noteq> rt_device t then 1 else 0 :: u32"
  obtain ret p w1 where o: "ipc_open (hiprt E) (take 64 hb) ?fl ?w0 = ((ret, p), w1)" by (metis surj_pair)
  have a0: "mapped ?w0 = A" using assms(1,2) Rocm by (auto simp: peer_mapping_def)
  have m: "if ret = 0 then p \<noteq> 0 \<and> p \<notin> A \<and> mapped w1 = insert p A else mapped w1 = A"
    using h.open_maps [OF o] unfolding a0 .
  have "tr_import E hb out dev T w
      = (if ret \<noteq> 0 then ((ERROR, p), Rocm (t\<lparr> rt_peer_ptr := 0, rt_peer_device := dev \<rparr>), w1)
         else ((SUCCESS, p), Rocm (t\<lparr> rt_peer_ptr := p, rt_peer_device := dev \<rparr>), w1))"
    using o both_enabled Rocm by (simp add: tr_import_def Rocm_importHandle_def Let_def)
  then show ?thesis using assms(3) m by (cases "ret = 0") (auto simp: peer_mapping_def)
qed

lemma destroy_unmaps:
  assumes "mapped w = A \<union> peer_mapping T" and "A \<inter> peer_mapping T = {}"
    and "tr_destroy E T w = (st, T', w')"
  shows "mapped w' = A \<and> peer_mapping T' = {}"
  using assms both_enabled
  by (cases T) (auto simp: tr_destroy_def Cambricon_destroy_def Rocm_destroy_def peer_mapping_def split: if_splits)

lemma close_unmaps:
  assumes "mapped w = A \<union> (case transport e of None \<Rightarrow> {} | Some T \<Rightarrow> peer_mapping T)"
    and "A \<inter> (case transport e of None \<Rightarrow> {} | Some T \<Rightarrow> peer_mapping T) = {}"
    and "p2p_closeEndpoint E e w = (st, e', w')"
  shows "mapped w' = A \<and> mapped (p2p_delete E e' w') = A \<and> mapped (p2p_delete E e w) = A"
proof (cases "transport e")
  case None
  then show ?thesis using assms by (auto simp: p2p_closeEndpoint_def p2p_delete_def)
next
  case (Some T)
  obtain st1 T1 w1 where d: "tr_destroy E T w = (st1, T1, w1)" by (metis surj_pair)
  obtain st2 T2 w2 where d2: "tr_destroy E T1 w1 = (st2, T2, w2)" by (metis surj_pair)
  have m1: "mapped w1 = A" "peer_mapping T1 = {}" using destroy_unmaps [OF _ _ d] assms(1,2) Some by auto
  then have "mapped w2 = A" using destroy_unmaps [OF _ _ d2] by auto
  then show ?thesis using assms(3) Some d d2 m1 by (auto simp: p2p_closeEndpoint_def p2p_delete_def tr_delete_def)
qed

end

section \<open>A reference run time\<close>

text \<open>Memory of both processes in one address space; a handle is the exported address and opens at
  that address, once.\<close>

record ipc_world =
  iw_mem :: memory
  iw_mapped :: "addr list"

definition mem_ipc :: "ipc_world ipc_rt" where
  "mem_ipc = \<lparr> ipc_setDevice = (\<lambda>d w. (0, w)), ipc_handle = (\<lambda>b w. ((0, le_bytes 8 b @ replicate 56 0), w)),
     ipc_open = (\<lambda>h fl w. let p = le_word (take 8 h) in
        if p = 0 \<or> p \<in> set (iw_mapped w) then ((1, 0), w) else ((0, p), w\<lparr> iw_mapped := p # iw_mapped w \<rparr>)),
     ipc_close = (\<lambda>p w. w\<lparr> iw_mapped := removeAll p (iw_mapped w) \<rparr>),
     ipc_memcpy = (\<lambda>d s n w. (0, w\<lparr> iw_mem := memcpy d s n (iw_mem w) \<rparr>)), ipc_sync = (\<lambda>w. (0, w)) \<rparr>"

definition mem_env :: "ipc_world p2p_env" where
  "mem_env = \<lparr> p2p_build = cpu_build\<lparr> enable_neuware := True, enable_rocm := True \<rparr>, cnrt = mem_ipc,
     hiprt = mem_ipc \<rparr>"

interpretation mem_p2p: p2p_runtimes mem_env "\<lambda>w. set (iw_mapped w)"
  by unfold_locales (auto simp: mem_env_def mem_ipc_def Let_def split: if_splits)

section \<open>Properties\<close>

text \<open>Importing one handle after the other.\<close>

primrec import_all :: "'w p2p_env \<Rightarrow> (u8 list \<times> int) list \<Rightarrow> P2pTransport \<Rightarrow> 'w \<Rightarrow> P2pTransport \<times> 'w" where
  "import_all E [] T w = (T, w)"
| "import_all E (h # hs) T w = (case tr_import E (fst h) 0 (snd h) T w of (_, T1, w1) \<Rightarrow> import_all E hs T1 w1)"


definition demo_ipc :: ipc_world where
  "demo_ipc = \<lparr> iw_mem = (\<lambda>a. 0), iw_mapped = [5] \<rparr>"


end
