(* ===== verification/Hmc_Ctrl.thy ===== *)
theory Hmc_Ctrl
  imports Hmc_Env
begin

text \<open>
  The control plane, class \<^verbatim>\<open>CtrlSocketManager\<close> (include/hmc.h, src/network/socket_ctrl.cpp):
  length-prefixed messages over TCP or Unix sockets, one connection per peer rank, a HELLO message
  that tells an accepting side who has called.  The socket calls are the parameter \<open>sockets\<close> over a
  world \<open>'w\<close>; a return value of zero or less is a failure, as in the code.  The accept threads are
  modelled by one round of their loop.  Structures are sent as their bytes in memory, little endian.
\<close>

section \<open>Socket calls\<close>

datatype domain = AF_INET | AF_UNIX

datatype sockaddr = Inet string u16 | Unix string

record 'w sockets =
  sys_socket :: "domain \<Rightarrow> 'w \<Rightarrow> int \<times> 'w"
  inet_pton_ok :: "string \<Rightarrow> bool"
  sys_bind :: "int \<Rightarrow> sockaddr \<Rightarrow> 'w \<Rightarrow> int \<times> 'w"
  sys_listen :: "int \<Rightarrow> 'w \<Rightarrow> int \<times> 'w"
  sys_accept :: "int \<Rightarrow> 'w \<Rightarrow> int \<times> 'w"
  sys_connect :: "int \<Rightarrow> sockaddr \<Rightarrow> 'w \<Rightarrow> int \<times> 'w"
  sys_send :: "int \<Rightarrow> u8 list \<Rightarrow> 'w \<Rightarrow> int \<times> 'w"
  sys_recv :: "int \<Rightarrow> nat \<Rightarrow> 'w \<Rightarrow> (int \<times> u8 list) \<times> 'w"
  sys_shutdown :: "int \<Rightarrow> 'w \<Rightarrow> 'w"
  sys_close :: "int \<Rightarrow> 'w \<Rightarrow> 'w"
  sys_unlink :: "string \<Rightarrow> 'w \<Rightarrow> 'w"

text \<open>\<^verbatim>\<open>snprintf\<close> into the 108 bytes of \<^verbatim>\<open>sun_path\<close>.\<close>

definition sun_path :: "string \<Rightarrow> string" where
  "sun_path p = take 107 p"

section \<open>Messages\<close>

definition CTRL_INT :: u16 where "CTRL_INT = 1"
definition CTRL_STRUCT :: u16 where "CTRL_STRUCT = 2"
definition kHelloFlag :: u16 where "kHelloFlag = 0x8000"

record CtrlMsgHeader =
  h_type :: u16
  h_flags :: u16
  h_length :: u32

definition header_bytes :: "CtrlMsgHeader \<Rightarrow> u8 list" where
  "header_bytes h = le_bytes 2 (h_type h) @ le_bytes 2 (h_flags h) @ le_bytes 4 (h_length h)"

definition header_of :: "u8 list \<Rightarrow> CtrlMsgHeader" where
  "header_of bs = \<lparr> h_type = le_word (take 2 bs), h_flags = le_word (take 2 (drop 2 bs)),
     h_length = le_word (take 4 (drop 4 bs)) \<rparr>"

section \<open>Raw input and output\<close>

function sendAll :: "'w sockets \<Rightarrow> int \<Rightarrow> u8 list \<Rightarrow> 'w \<Rightarrow> bool \<times> 'w" where
  "sendAll sk fd bs w =
    (if bs = [] then (True, w)
     else case sys_send sk fd bs w of (sent, w1) \<Rightarrow>
       if sent \<le> 0 then (False, w1) else sendAll sk fd (drop (nat sent) bs) w1)"
  by pat_completeness auto
termination by (relation "measure (\<lambda>(sk, fd, bs, w). length bs)") auto

text \<open>\<open>None\<close>: the connection failed before \<open>n\<close> bytes had arrived.\<close>

function recvAll :: "'w sockets \<Rightarrow> int \<Rightarrow> nat \<Rightarrow> 'w \<Rightarrow> u8 list option \<times> 'w" where
  "recvAll sk fd n w =
    (if n = 0 then (Some [], w)
     else case sys_recv sk fd n w of ((got, bs), w1) \<Rightarrow>
       if got \<le> 0 then (None, w1)
       else case recvAll sk fd (n - nat got) w1 of (rest, w2) \<Rightarrow> (map_option ((@) bs) rest, w2))"
  by pat_completeness auto
termination by (relation "measure (\<lambda>(sk, fd, n, w). n)") auto

declare sendAll.simps [simp del]
declare recvAll.simps [simp del]

definition shut :: "'w sockets \<Rightarrow> int \<Rightarrow> 'w \<Rightarrow> 'w" where
  "shut sk fd w = sys_close sk fd (sys_shutdown sk fd w)"

section \<open>State of the manager\<close>

type_synonym CtrlId = u32

record CtrlSocketManager =
  is_server :: bool
  id_to_conn :: "CtrlId \<rightharpoonup> int"
  running :: bool
  bind_ip :: string
  tcp_port :: u16
  tcp_listen_fd :: int
  tcp_thread :: bool
  uds_path :: string
  uds_listen_fd :: int
  uds_thread :: bool

definition new_CtrlSocketManager :: CtrlSocketManager where
  "new_CtrlSocketManager = \<lparr> is_server = False, id_to_conn = Map.empty, running = False, bind_ip = [],
     tcp_port = 0, tcp_listen_fd = - 1, tcp_thread = False, uds_path = [], uds_listen_fd = - 1,
     uds_thread = False \<rparr>"

section \<open>Server\<close>

definition stop :: "'w sockets \<Rightarrow> CtrlSocketManager \<Rightarrow> 'w \<Rightarrow> CtrlSocketManager \<times> 'w" where
  "stop sk m w =
    (if \<not> running m then (m, w)
     else
       let w1 = (if tcp_listen_fd m \<ge> 0 then shut sk (tcp_listen_fd m) w else w);
           w2 = (if uds_listen_fd m \<ge> 0 then shut sk (uds_listen_fd m) w1 else w1);
           w3 = (if uds_path m \<noteq> [] then sys_unlink sk (uds_path m) w2 else w2)
       in (m\<lparr> running := False, tcp_listen_fd := (if tcp_listen_fd m \<ge> 0 then - 1 else tcp_listen_fd m),
             tcp_thread := False, uds_listen_fd := (if uds_listen_fd m \<ge> 0 then - 1 else uds_listen_fd m),
             uds_thread := False, is_server := False \<rparr>, w3))"

text \<open>One listener: the descriptor (-1 on failure) and whether it was set up.\<close>

definition listenTcp :: "'w sockets \<Rightarrow> string \<Rightarrow> u16 \<Rightarrow> 'w \<Rightarrow> (int \<times> bool) \<times> 'w" where
  "listenTcp sk ip port w =
    (case sys_socket sk AF_INET w of (fd, w1) \<Rightarrow>
       if fd < 0 then ((fd, False), w1)
       else if \<not> inet_pton_ok sk ip then ((- 1, False), sys_close sk fd w1)
       else case sys_bind sk fd (Inet ip port) w1 of (rc, w2) \<Rightarrow>
         if rc < 0 then ((- 1, False), sys_close sk fd w2)
         else case sys_listen sk fd w2 of (rc2, w3) \<Rightarrow>
           if rc2 < 0 then ((- 1, False), sys_close sk fd w3) else ((fd, True), w3))"

definition listenUds :: "'w sockets \<Rightarrow> string \<Rightarrow> 'w \<Rightarrow> (int \<times> bool) \<times> 'w" where
  "listenUds sk path w =
    (case sys_socket sk AF_UNIX w of (fd, w1) \<Rightarrow>
       if fd < 0 then ((fd, False), w1)
       else case sys_bind sk fd (Unix (sun_path path)) (sys_unlink sk path w1) of (rc, w2) \<Rightarrow>
         if rc < 0 then ((- 1, False), sys_close sk fd w2)
         else case sys_listen sk fd w2 of (rc2, w3) \<Rightarrow>
           if rc2 < 0 then ((- 1, False), sys_close sk fd w3) else ((fd, True), w3))"

definition start ::
  "'w sockets \<Rightarrow> CtrlSocketManager \<Rightarrow> string \<Rightarrow> u16 \<Rightarrow> string \<Rightarrow> 'w \<Rightarrow> bool \<times> CtrlSocketManager \<times> 'w" where
  "start sk m ip port path w =
    (if running m then (True, m, w)
     else
       let m0 = m\<lparr> bind_ip := ip, tcp_port := port, uds_path := path, running := True, is_server := True \<rparr>;
           (m1, ok1, w1) =
             (if port \<noteq> 0
              then case listenTcp sk ip port w of ((fd, ok), w') \<Rightarrow>
                     (m0\<lparr> tcp_listen_fd := fd, tcp_thread := tcp_thread m0 \<or> ok \<rparr>, ok, w')
              else (m0, True, w));
           (m2, ok2, w2) =
             (if path \<noteq> []
              then case listenUds sk path w1 of ((fd, ok), w') \<Rightarrow>
                     (m1\<lparr> uds_listen_fd := fd, uds_thread := uds_thread m1 \<or> ok \<rparr>, ok, w')
              else (m1, True, w1))
       in if \<not> (ok1 \<and> ok2)
          then (case stop sk m2 w2 of (m3, w3) \<Rightarrow> (False, m3, w3))
          else (True, m2, w2))"

section \<open>HELLO and registration\<close>

text \<open>The registration block of \<^verbatim>\<open>connectTcp\<close>, \<^verbatim>\<open>connectUds\<close> and \<^verbatim>\<open>recvHelloAndBind\<close>: the first
  connection of a peer is kept, a later one is closed.\<close>

definition bind_conn :: "'w sockets \<Rightarrow> CtrlId \<Rightarrow> int \<Rightarrow> CtrlSocketManager \<Rightarrow> 'w \<Rightarrow> CtrlSocketManager \<times> 'w" where
  "bind_conn sk peer_id fd m w =
    (case id_to_conn m peer_id of
       None \<Rightarrow> (m\<lparr> id_to_conn := (id_to_conn m)(peer_id \<mapsto> fd) \<rparr>, w)
     | Some _ \<Rightarrow> (m, shut sk fd w))"

definition hello_header :: CtrlMsgHeader where
  "hello_header = \<lparr> h_type = CTRL_STRUCT, h_flags = kHelloFlag, h_length = 4 \<rparr>"

definition sendHello :: "'w sockets \<Rightarrow> int \<Rightarrow> CtrlId \<Rightarrow> 'w \<Rightarrow> bool \<times> 'w" where
  "sendHello sk fd self_id w =
    (case sendAll sk fd (header_bytes hello_header) w of (ok, w1) \<Rightarrow>
       if \<not> ok then (False, w1) else sendAll sk fd (le_bytes 4 self_id) w1)"

definition recvHelloAndBind ::
  "'w sockets \<Rightarrow> int \<Rightarrow> CtrlSocketManager \<Rightarrow> 'w \<Rightarrow> bool \<times> CtrlSocketManager \<times> 'w" where
  "recvHelloAndBind sk fd m w =
    (case recvAll sk fd 8 w of
       (None, w1) \<Rightarrow> (False, m, w1)
     | (Some hb, w1) \<Rightarrow>
         let hdr = header_of hb
         in if h_type hdr \<noteq> CTRL_STRUCT \<or> h_flags hdr AND kHelloFlag = 0 \<or> h_length hdr \<noteq> 4
            then (False, m, w1)
            else case recvAll sk fd 4 w1 of
              (None, w2) \<Rightarrow> (False, m, w2)
            | (Some pb, w2) \<Rightarrow>
                (case bind_conn sk (le_word pb) fd m w2 of (m1, w3) \<Rightarrow> (True, m1, w3)))"

text \<open>One round of the two accept loops.\<close>

definition acceptRound ::
  "'w sockets \<Rightarrow> int \<Rightarrow> CtrlSocketManager \<Rightarrow> 'w \<Rightarrow> CtrlSocketManager \<times> 'w" where
  "acceptRound sk listen_fd m w =
    (if \<not> running m then (m, w)
     else case sys_accept sk listen_fd w of (fd, w1) \<Rightarrow>
       if fd < 0 then (m, w1)
       else case recvHelloAndBind sk fd m w1 of (ok, m1, w2) \<Rightarrow>
         if \<not> ok then (m1, shut sk fd w2) else (m1, w2))"

definition tcpAcceptRound where
  "tcpAcceptRound sk m w = acceptRound sk (tcp_listen_fd m) m w"

definition udsAcceptRound where
  "udsAcceptRound sk m w = acceptRound sk (uds_listen_fd m) m w"

section \<open>Dialling\<close>

definition udsPathFor :: "string \<Rightarrow> CtrlId \<Rightarrow> string" where
  "udsPathFor dir peer_id =
    (let d = (if dir \<noteq> [] \<and> last dir = CHR ''/'' then butlast dir else dir)
     in d @ ''/hmc_ctrl_rank_'' @ to_string (unat peer_id) @ ''.sock'')"

definition dialTcp :: "'w sockets \<Rightarrow> string \<Rightarrow> u16 \<Rightarrow> 'w \<Rightarrow> int \<times> 'w" where
  "dialTcp sk ip port w =
    (case sys_socket sk AF_INET w of (fd, w1) \<Rightarrow>
       if fd < 0 then (- 1, w1)
       else if \<not> inet_pton_ok sk ip then (- 1, sys_close sk fd w1)
       else case sys_connect sk fd (Inet ip port) w1 of (rc, w2) \<Rightarrow>
         if rc < 0 then (- 1, sys_close sk fd w2) else (fd, w2))"

definition dialUds :: "'w sockets \<Rightarrow> string \<Rightarrow> 'w \<Rightarrow> int \<times> 'w" where
  "dialUds sk path w =
    (case sys_socket sk AF_UNIX w of (fd, w1) \<Rightarrow>
       if fd < 0 then (- 1, w1)
       else case sys_connect sk fd (Unix (sun_path path)) w1 of (rc, w2) \<Rightarrow>
         if rc < 0 then (- 1, sys_close sk fd w2) else (fd, w2))"

text \<open>Up to five attempts, 100 ms apart.\<close>

primrec dialUdsRetry :: "nat \<Rightarrow> 'w sockets \<Rightarrow> string \<Rightarrow> 'w \<Rightarrow> int \<times> 'w" where
  "dialUdsRetry 0 sk path w = (- 1, w)"
| "dialUdsRetry (Suc n) sk path w =
    (case dialUds sk path w of (fd, w1) \<Rightarrow>
       if fd \<ge> 0 then (fd, w1) else dialUdsRetry n sk path w1)"

text \<open>What follows a successful dial, in both connect functions.\<close>

definition introduce ::
  "'w sockets \<Rightarrow> CtrlId \<Rightarrow> CtrlId \<Rightarrow> int \<Rightarrow> CtrlSocketManager \<Rightarrow> 'w \<Rightarrow> bool \<times> CtrlSocketManager \<times> 'w" where
  "introduce sk peer_id self_id fd m w =
    (case sendHello sk fd self_id w of (ok, w1) \<Rightarrow>
       if \<not> ok then (False, m, shut sk fd w1)
       else case bind_conn sk peer_id fd m w1 of (m1, w2) \<Rightarrow> (True, m1, w2))"

definition connectTcp ::
  "'w sockets \<Rightarrow> CtrlId \<Rightarrow> string \<Rightarrow> u16 \<Rightarrow> CtrlId \<Rightarrow> CtrlSocketManager \<Rightarrow> 'w \<Rightarrow> bool \<times> CtrlSocketManager \<times> 'w" where
  "connectTcp sk peer_id ip port self_id m w =
    (case dialTcp sk ip port w of (fd, w1) \<Rightarrow>
       if fd < 0 then (False, m, w1) else introduce sk peer_id self_id fd m w1)"

definition connectUds ::
  "'w sockets \<Rightarrow> CtrlId \<Rightarrow> string \<Rightarrow> CtrlId \<Rightarrow> CtrlSocketManager \<Rightarrow> 'w \<Rightarrow> bool \<times> CtrlSocketManager \<times> 'w" where
  "connectUds sk peer_id path self_id m w =
    (case dialUdsRetry 5 sk path w of (fd, w1) \<Rightarrow>
       if fd < 0 then (False, m, w1) else introduce sk peer_id self_id fd m w1)"

section \<open>Message input and output\<close>

definition fdOf :: "CtrlSocketManager \<Rightarrow> CtrlId \<Rightarrow> int" where
  "fdOf m peer_id = (case id_to_conn m peer_id of None \<Rightarrow> - 1 | Some fd \<Rightarrow> fd)"

definition ctrl_send ::
  "'w sockets \<Rightarrow> CtrlSocketManager \<Rightarrow> CtrlId \<Rightarrow> u16 \<Rightarrow> u8 list \<Rightarrow> u16 \<Rightarrow> 'w \<Rightarrow> bool \<times> 'w" where
  "ctrl_send sk m peer_id type payload flags w =
    (let fd = fdOf m peer_id
     in if fd < 0 then (False, w)
        else case sendAll sk fd (header_bytes \<lparr> h_type = type, h_flags = flags,
               h_length = of_nat (length payload) \<rparr>) w of (ok, w1) \<Rightarrow>
          if \<not> ok then (False, w1)
          else if payload \<noteq> [] then sendAll sk fd payload w1 else (True, w1))"

definition ctrl_recv ::
  "'w sockets \<Rightarrow> CtrlSocketManager \<Rightarrow> CtrlId \<Rightarrow> 'w \<Rightarrow> (CtrlMsgHeader \<times> u8 list) option \<times> 'w" where
  "ctrl_recv sk m peer_id w =
    (let fd = fdOf m peer_id
     in if fd < 0 then (None, w)
        else case recvAll sk fd 8 w of
          (None, w1) \<Rightarrow> (None, w1)
        | (Some hb, w1) \<Rightarrow>
            let hdr = header_of hb
            in if h_type hdr = CTRL_STRUCT \<and> h_flags hdr AND kHelloFlag \<noteq> 0 then (None, w1)
               else case recvAll sk fd (unat (h_length hdr)) w1 of
                 (None, w2) \<Rightarrow> (None, w2)
               | (Some payload, w2) \<Rightarrow> (Some (hdr, payload), w2))"

text \<open>A typed receive: the type must match and the payload have the size of the value.\<close>

definition recv_typed ::
  "u16 \<Rightarrow> nat \<Rightarrow> 'w sockets \<Rightarrow> CtrlSocketManager \<Rightarrow> CtrlId \<Rightarrow> 'w \<Rightarrow> u8 list option \<times> 'w" where
  "recv_typed type n sk m peer_id w =
    (case ctrl_recv sk m peer_id w of
       (None, w1) \<Rightarrow> (None, w1)
     | (Some (hdr, payload), w1) \<Rightarrow>
         (if h_type hdr \<noteq> type \<or> length payload \<noteq> n then None else Some payload, w1))"

definition sendInt :: "'w sockets \<Rightarrow> CtrlSocketManager \<Rightarrow> CtrlId \<Rightarrow> u32 \<Rightarrow> 'w \<Rightarrow> bool \<times> 'w" where
  "sendInt sk m peer_id v w = ctrl_send sk m peer_id CTRL_INT (le_bytes 4 v) 0 w"

definition recvInt :: "'w sockets \<Rightarrow> CtrlSocketManager \<Rightarrow> CtrlId \<Rightarrow> 'w \<Rightarrow> u32 option \<times> 'w" where
  "recvInt sk m peer_id w = apfst (map_option le_word) (recv_typed CTRL_INT 4 sk m peer_id w)"

definition sendU64 :: "'w sockets \<Rightarrow> CtrlSocketManager \<Rightarrow> CtrlId \<Rightarrow> u64 \<Rightarrow> 'w \<Rightarrow> bool \<times> 'w" where
  "sendU64 sk m peer_id v w = ctrl_send sk m peer_id CTRL_INT (le_bytes 8 v) 0 w"

definition recvU64 :: "'w sockets \<Rightarrow> CtrlSocketManager \<Rightarrow> CtrlId \<Rightarrow> 'w \<Rightarrow> u64 option \<times> 'w" where
  "recvU64 sk m peer_id w = apfst (map_option le_word) (recv_typed CTRL_INT 8 sk m peer_id w)"

text \<open>The templates \<^verbatim>\<open>sendStruct\<close> and \<^verbatim>\<open>recvStruct\<close>, on the bytes of the object.\<close>

definition sendStruct :: "'w sockets \<Rightarrow> CtrlSocketManager \<Rightarrow> CtrlId \<Rightarrow> u8 list \<Rightarrow> 'w \<Rightarrow> bool \<times> 'w" where
  "sendStruct sk m peer_id obj w = ctrl_send sk m peer_id CTRL_STRUCT obj 0 w"

definition recvStruct :: "nat \<Rightarrow> 'w sockets \<Rightarrow> CtrlSocketManager \<Rightarrow> CtrlId \<Rightarrow> 'w \<Rightarrow> u8 list option \<times> 'w" where
  "recvStruct n sk m peer_id w = recv_typed CTRL_STRUCT n sk m peer_id w"

section \<open>Cleanup\<close>

definition ctrl_close :: "'w sockets \<Rightarrow> CtrlId \<Rightarrow> CtrlSocketManager \<Rightarrow> 'w \<Rightarrow> CtrlSocketManager \<times> 'w" where
  "ctrl_close sk peer_id m w =
    (case id_to_conn m peer_id of
       None \<Rightarrow> (m, w)
     | Some fd \<Rightarrow> (m\<lparr> id_to_conn := (id_to_conn m)(peer_id := None) \<rparr>, if fd \<ge> 0 then shut sk fd w else w))"

text \<open>\<^verbatim>\<open>closeAll\<close> walks the map in an unspecified order, given by \<open>ids\<close>.\<close>

definition closeAll :: "'w sockets \<Rightarrow> CtrlId list \<Rightarrow> CtrlSocketManager \<Rightarrow> 'w \<Rightarrow> CtrlSocketManager \<times> 'w" where
  "closeAll sk ids m w =
    (m\<lparr> id_to_conn := Map.empty \<rparr>,
     fold (\<lambda>i w. let fd = fdOf m i in if fd \<ge> 0 then sys_close sk fd w else w) ids w)"

end
