(* ===== verification/Hmc_CtrlStream.thy ===== *)
theory Hmc_CtrlStream
  imports Hmc_Ctrl
begin

text \<open>
  Message framing of the control plane.  The locale \<open>byte_stream\<close> is the contract of one direction
  of a connected stream socket: a call of \<^verbatim>\<open>send\<close> takes some non-empty prefix of what it is given,
  a call of \<^verbatim>\<open>recv\<close> returns some non-empty prefix of what has arrived, so that neither respects the
  boundaries of messages.  Over it \<open>sendAll\<close> and \<open>recvAll\<close> are exact, and \<open>ctrl_send\<close> and
  \<open>ctrl_recv\<close> implement a first-in first-out queue of messages.  The contract is interpreted on a
  small network of two processes, \<open>net_sockets\<close>, whose segment size is a parameter.
\<close>

section \<open>Contract of a connected stream\<close>

locale stream_out =
  fixes sks :: "'w sockets"
    and x :: int
    and buf :: "'w \<Rightarrow> u8 list"
    and live :: "'w \<Rightarrow> bool"
  assumes send_prefix: "live w \<Longrightarrow> bs \<noteq> [] \<Longrightarrow>
      \<exists>k w'. sys_send sks x bs w = (int k, w') \<and> 0 < k \<and> k \<le> length bs
        \<and> buf w' = buf w @ take k bs \<and> live w'"
begin

lemma sendAll_exact:
  assumes "live w"
  shows "\<exists>w'. sendAll sks x bs w = (True, w') \<and> buf w' = buf w @ bs \<and> live w'"
  using assms
proof (induction "length bs" arbitrary: bs w rule: less_induct)
  case less
  show ?case
  proof (cases "bs = []")
    case True
    then show ?thesis using less.prems by (simp add: sendAll.simps [of _ _ "[]"])
  next
    case False
    obtain k w1 where s: "sys_send sks x bs w = (int k, w1)" "0 < k" "k \<le> length bs"
        "buf w1 = buf w @ take k bs" "live w1"
      using send_prefix [OF less.prems False] by blast
    have "length (drop k bs) < length bs" using s(2) False by simp
    from less.hyps [OF this s(5)] obtain w2 where
      "sendAll sks x (drop k bs) w1 = (True, w2)" "buf w2 = buf w1 @ drop k bs" "live w2" by blast
    then show ?thesis using s False by (simp add: sendAll.simps [of _ _ bs])
  qed
qed

end

locale stream_in =
  fixes skr :: "'w sockets"
    and y :: int
    and buf :: "'w \<Rightarrow> u8 list"
    and live :: "'w \<Rightarrow> bool"
  assumes recv_prefix: "live w \<Longrightarrow> 0 < n \<Longrightarrow> buf w \<noteq> [] \<Longrightarrow>
      \<exists>k w'. sys_recv skr y n w = ((int k, take k (buf w)), w') \<and> 0 < k \<and> k \<le> n
        \<and> k \<le> length (buf w) \<and> buf w' = drop k (buf w) \<and> live w'"
begin

lemma recvAll_exact:
  assumes "live w" and "n \<le> length (buf w)"
  shows "\<exists>w'. recvAll skr y n w = (Some (take n (buf w)), w') \<and> buf w' = drop n (buf w) \<and> live w'"
  using assms
proof (induction n arbitrary: w rule: less_induct)
  case (less n)
  show ?case
  proof (cases "n = 0")
    case True
    then show ?thesis using less.prems by (simp add: recvAll.simps [of _ _ 0])
  next
    case False
    then have "buf w \<noteq> []" using less.prems by auto
    then obtain k w1 where r: "sys_recv skr y n w = ((int k, take k (buf w)), w1)" "0 < k" "k \<le> n"
        "k \<le> length (buf w)" "buf w1 = drop k (buf w)" "live w1"
      using recv_prefix [OF less.prems(1), of n] False by auto
    have "n - k < n" "n - k \<le> length (buf w1)" using r False less.prems by auto
    from less.IH [OF this(1) r(6) this(2)] obtain w2 where
      "recvAll skr y (n - k) w1 = (Some (take (n - k) (buf w1)), w2)"
      "buf w2 = drop (n - k) (buf w1)" "live w2" by blast
    moreover have "take n (buf w) = take k (buf w) @ take (n - k) (drop k (buf w))"
      using r(3) by (metis le_add_diff_inverse take_add)
    ultimately show ?thesis using r False by (simp add: recvAll.simps [of _ _ n])
  qed
qed

lemma recvAll_append:
  assumes "live w" and "buf w = bs @ rest" and "length bs = n"
  obtains w' where "recvAll skr y n w = (Some bs, w')" "buf w' = rest" "live w'"
  using recvAll_exact [OF assms(1), of n] assms by auto

end

locale byte_stream = stream_out sks x buf live + stream_in skr y buf live
  for sks skr :: "'w sockets" and x y :: int and buf :: "'w \<Rightarrow> u8 list" and live :: "'w \<Rightarrow> bool"

text \<open>What each single transfer keeps, the whole one keeps.\<close>

lemma sendAll_keeps:
  assumes "\<And>bs w. bs \<noteq> [] \<Longrightarrow> P w \<Longrightarrow> P (snd (sys_send sk fd bs w))" and "P w"
  shows "P (snd (sendAll sk fd bs w))"
  using assms(2)
proof (induction "length bs" arbitrary: bs w rule: less_induct)
  case less
  obtain k w1 where s: "sys_send sk fd bs w = (k, w1)" by (metis surj_pair)
  with assms(1) [of bs w] less.prems have "bs \<noteq> [] \<Longrightarrow> P w1" by simp
  then show ?case
    using less.hyps [of "drop (nat k) bs" w1] less.prems s by (subst sendAll.simps) auto
qed

lemma recvAll_keeps:
  assumes "\<And>n w. 0 < n \<Longrightarrow> P w \<Longrightarrow> P (snd (sys_recv sk fd n w))" and "P w"
  shows "P (snd (recvAll sk fd n w))"
  using assms(2)
proof (induction n arbitrary: w rule: less_induct)
  case (less n)
  obtain k bs w1 where r: "sys_recv sk fd n w = ((k, bs), w1)" by (metis surj_pair)
  with assms(1) [of n w] less.prems have "0 < n \<Longrightarrow> P w1" by simp
  then show ?case
    using less.IH [of "n - nat k" w1] less.prems r by (subst recvAll.simps) (auto split: prod.splits)
qed

section \<open>Messages as values\<close>

record ctrl_msg =
  m_type :: u16
  m_flags :: u16
  m_payload :: "u8 list"

definition msg_header :: "ctrl_msg \<Rightarrow> CtrlMsgHeader" where
  "msg_header m = \<lparr> h_type = m_type m, h_flags = m_flags m, h_length = of_nat (length (m_payload m)) \<rparr>"

definition frame :: "ctrl_msg \<Rightarrow> u8 list" where
  "frame m = header_bytes (msg_header m) @ m_payload m"

text \<open>A message the receiving side accepts: its length fits the 32-bit field and it does not carry
  the reserved HELLO flag.\<close>

definition sendable :: "ctrl_msg \<Rightarrow> bool" where
  "sendable m \<longleftrightarrow> length (m_payload m) < 2 ^ 32
     \<and> \<not> (m_type m = CTRL_STRUCT \<and> m_flags m AND kHelloFlag \<noteq> 0)"

lemma length_header_bytes [simp]: "length (header_bytes h) = 8"
  by (simp add: header_bytes_def)

lemma header_of_header_bytes [simp]: "header_of (header_bytes h) = h"
  by (simp add: header_of_def header_bytes_def)

lemma unat_msg_length:
  "length (m_payload m) < 2 ^ 32 \<Longrightarrow> unat (h_length (msg_header m)) = length (m_payload m)"
  by (simp add: msg_header_def unat_of_nat)

definition frames :: "ctrl_msg list \<Rightarrow> u8 list" where
  "frames q = concat (map frame q)"

lemma frames_simps [simp]:
  "frames [] = []" "frames (m # q) = frame m @ frames q" "frames (q @ q') = frames q @ frames q'"
  by (simp_all add: frames_def)

context byte_stream
begin

lemma ctrl_send_enqueues:
  assumes "live w" and "fdOf m peer_id = x" and "0 \<le> x"
  shows "\<exists>w'. ctrl_send sks m peer_id (m_type msg) (m_payload msg) (m_flags msg) w = (True, w')
    \<and> buf w' = buf w @ frame msg \<and> live w'"
proof -
  obtain w1 where h: "sendAll sks x (header_bytes (msg_header msg)) w = (True, w1)"
      "buf w1 = buf w @ header_bytes (msg_header msg)" "live w1"
    using sendAll_exact [OF assms(1)] by blast
  obtain w2 where p: "sendAll sks x (m_payload msg) w1 = (True, w2)"
      "buf w2 = buf w1 @ m_payload msg" "live w2"
    using sendAll_exact [OF h(3)] by blast
  show ?thesis
    using h p assms by (cases "m_payload msg = []")
      (auto simp: ctrl_send_def Let_def frame_def msg_header_def)
qed

lemma ctrl_recv_dequeues:
  assumes "live w" and "fdOf m peer_id = y" and "0 \<le> y"
    and "buf w = frame msg @ rest" and "sendable msg"
  shows "\<exists>w'. ctrl_recv skr m peer_id w = (Some (msg_header msg, m_payload msg), w')
    \<and> buf w' = rest \<and> live w'"
proof -
  have len: "unat (h_length (msg_header msg)) = length (m_payload msg)"
    using assms(5) by (simp add: sendable_def unat_msg_length)
  obtain w1 where h: "recvAll skr y 8 w = (Some (header_bytes (msg_header msg)), w1)"
      "buf w1 = m_payload msg @ rest" "live w1"
    by (rule recvAll_append [OF assms(1), of "header_bytes (msg_header msg)" "m_payload msg @ rest" 8])
      (simp_all add: assms(4) frame_def)
  obtain w2 where p: "recvAll skr y (length (m_payload msg)) w1 = (Some (m_payload msg), w2)"
      "buf w2 = rest" "live w2"
    by (rule recvAll_append [OF h(3,2)]) simp_all
  have "\<not> (h_type (msg_header msg) = CTRL_STRUCT \<and> h_flags (msg_header msg) AND kHelloFlag \<noteq> 0)"
    using assms(5) by (simp add: sendable_def msg_header_def)
  then show ?thesis using h p assms(2,3) len by (simp add: ctrl_recv_def Let_def)
qed

lemma hello_exchange:
  assumes "live w" and "buf w = []"
  shows "\<exists>w1 w2. sendHello sks x self_id w = (True, w1)
    \<and> recvHelloAndBind skr y m w1
        = (case bind_conn skr self_id y m w2 of (m', w') \<Rightarrow> (True, m', w')) \<and> buf w2 = [] \<and> live w2"
proof -
  obtain w1 where h: "sendAll sks x (header_bytes hello_header) w = (True, w1)"
      "buf w1 = header_bytes hello_header" "live w1"
    using sendAll_exact [OF assms(1), of "header_bytes hello_header"] assms(2) by auto
  obtain w2 where p: "sendAll sks x (le_bytes 4 self_id) w1 = (True, w2)"
      "buf w2 = header_bytes hello_header @ le_bytes 4 self_id" "live w2"
    using sendAll_exact [OF h(3), of "le_bytes 4 self_id"] h(2) by auto
  obtain w3 where rh: "recvAll skr y 8 w2 = (Some (header_bytes hello_header), w3)"
      "buf w3 = le_bytes 4 self_id" "live w3"
    by (rule recvAll_append [OF p(3,2)]) simp_all
  obtain w4 where rp: "recvAll skr y 4 w3 = (Some (le_bytes 4 self_id), w4)" "buf w4 = []" "live w4"
    by (rule recvAll_append [OF rh(3), of "le_bytes 4 self_id" "[]" 4]) (simp_all add: rh(2))
  have "kHelloFlag AND kHelloFlag \<noteq> 0" by (simp add: kHelloFlag_def)
  then have "recvHelloAndBind skr y m w2
      = (case bind_conn skr self_id y m w4 of (m', w') \<Rightarrow> (True, m', w'))"
    using rh rp by (simp add: recvHelloAndBind_def Let_def hello_header_def)
  then show ?thesis using h p rp by (auto simp: sendHello_def)
qed

end

section \<open>A network of processes\<close>

text \<open>
  A reference world for the socket calls.  Descriptors are never reused; \<open>n_open p\<close> is the
  descriptor table of process \<open>p\<close>, \<open>n_backlog\<close> the connections that wait to be accepted,
  \<open>n_inbox\<close> the bytes that have arrived, \<open>n_dead\<close> the closed ends.  A transfer moves at most
  \<open>Suc (n_seg)\<close> bytes.
\<close>

record net =
  n_next :: int
  n_open :: "nat \<Rightarrow> int list"
  n_peer :: "int \<Rightarrow> int"
  n_inbox :: "int \<Rightarrow> u8 list"
  n_addr :: "sockaddr \<Rightarrow> int option"
  n_backlog :: "int \<Rightarrow> int list"
  n_dead :: "int list"
  n_seg :: nat

definition net_fresh :: "nat \<Rightarrow> net \<Rightarrow> int" where
  "net_fresh p w = foldr max (n_open w p) (max 0 (n_next w)) + 1"

definition net_socket :: "nat \<Rightarrow> domain \<Rightarrow> net \<Rightarrow> int \<times> net" where
  "net_socket p d w = (net_fresh p w,
     w\<lparr> n_next := net_fresh p w, n_open := (n_open w)(p := net_fresh p w # n_open w p) \<rparr>)"

definition net_bind :: "nat \<Rightarrow> int \<Rightarrow> sockaddr \<Rightarrow> net \<Rightarrow> int \<times> net" where
  "net_bind p fd a w =
    (if n_addr w a \<noteq> None then (- 1, w) else (0, w\<lparr> n_addr := (n_addr w)(a := Some fd) \<rparr>))"

definition net_connect :: "nat \<Rightarrow> int \<Rightarrow> sockaddr \<Rightarrow> net \<Rightarrow> int \<times> net" where
  "net_connect p fd a w =
    (case n_addr w a of
       None \<Rightarrow> (- 1, w)
     | Some l \<Rightarrow> let s = net_fresh p w in
         (0, w\<lparr> n_next := s, n_peer := (n_peer w)(fd := s, s := fd),
                n_backlog := (n_backlog w)(l := n_backlog w l @ [s]) \<rparr>))"

definition net_accept :: "nat \<Rightarrow> int \<Rightarrow> net \<Rightarrow> int \<times> net" where
  "net_accept p l w =
    (case n_backlog w l of
       [] \<Rightarrow> (- 1, w)
     | s # q \<Rightarrow>
         if s < 0 \<or> s \<in> set (n_open w p) then (- 1, w)
         else (s, w\<lparr> n_open := (n_open w)(p := s # n_open w p), n_backlog := (n_backlog w)(l := q) \<rparr>))"

definition net_send :: "nat \<Rightarrow> int \<Rightarrow> u8 list \<Rightarrow> net \<Rightarrow> int \<times> net" where
  "net_send p fd bs w =
    (let peer = n_peer w fd; k = min (Suc (n_seg w)) (length bs)
     in if fd \<notin> set (n_open w p) \<or> peer \<in> set (n_dead w) then (- 1, w)
        else (int k, w\<lparr> n_inbox := (n_inbox w)(peer := n_inbox w peer @ take k bs) \<rparr>))"

text \<open>A read that would block, or finds the end of the stream, returns zero.\<close>

definition net_recv :: "nat \<Rightarrow> int \<Rightarrow> nat \<Rightarrow> net \<Rightarrow> (int \<times> u8 list) \<times> net" where
  "net_recv p fd n w =
    (let k = min (min (Suc (n_seg w)) n) (length (n_inbox w fd))
     in if fd \<notin> set (n_open w p) then ((- 1, []), w)
        else ((int k, take k (n_inbox w fd)), w\<lparr> n_inbox := (n_inbox w)(fd := drop k (n_inbox w fd)) \<rparr>))"

definition net_close :: "nat \<Rightarrow> int \<Rightarrow> net \<Rightarrow> net" where
  "net_close p fd w =
    (if fd \<in> set (n_open w p)
     then w\<lparr> n_open := (n_open w)(p := removeAll fd (n_open w p)), n_dead := fd # n_dead w \<rparr> else w)"

definition net_sockets :: "nat \<Rightarrow> net sockets" where
  "net_sockets p = \<lparr> sys_socket = net_socket p, inet_pton_ok = (\<lambda>s. s \<noteq> []), sys_bind = net_bind p,
     sys_listen = (\<lambda>fd w. (0, w)), sys_accept = net_accept p, sys_connect = net_connect p,
     sys_send = net_send p, sys_recv = net_recv p, sys_shutdown = (\<lambda>fd w. w), sys_close = net_close p,
     sys_unlink = (\<lambda>path w. w\<lparr> n_addr := (n_addr w)(Unix (sun_path path) := None) \<rparr>) \<rparr>"

definition net_live :: "nat \<Rightarrow> nat \<Rightarrow> int \<Rightarrow> int \<Rightarrow> net \<Rightarrow> bool" where
  "net_live p q x y w \<longleftrightarrow> x \<in> set (n_open w p) \<and> y \<in> set (n_open w q) \<and> n_peer w x = y
     \<and> y \<notin> set (n_dead w)"

interpretation net_stream: byte_stream "net_sockets p" "net_sockets q" x y "\<lambda>w. n_inbox w y" "net_live p q x y"
  for p q x y
proof unfold_locales
  fix w :: net and bs :: "u8 list"
  assume a: "net_live p q x y w" "bs \<noteq> []"
  let ?k = "min (Suc (n_seg w)) (length bs)"
  have "0 < ?k" "?k \<le> length bs" using a(2) by auto
  with a(1) show "\<exists>k w'. sys_send (net_sockets p) x bs w = (int k, w') \<and> 0 < k \<and> k \<le> length bs
      \<and> n_inbox w' y = n_inbox w y @ take k bs \<and> net_live p q x y w'"
    by (intro exI [of _ ?k] exI) (auto simp: net_sockets_def net_send_def Let_def net_live_def)
next
  fix w :: net and n :: nat
  assume a: "net_live p q x y w" "0 < n" "n_inbox w y \<noteq> []"
  let ?k = "min (min (Suc (n_seg w)) n) (length (n_inbox w y))"
  have "0 < ?k" "?k \<le> n" "?k \<le> length (n_inbox w y)" using a(2,3) by auto
  with a(1) show "\<exists>k w'. sys_recv (net_sockets q) y n w = ((int k, take k (n_inbox w y)), w')
      \<and> 0 < k \<and> k \<le> n \<and> k \<le> length (n_inbox w y) \<and> n_inbox w' y = drop k (n_inbox w y)
      \<and> net_live p q x y w'"
    by (intro exI [of _ ?k] exI) (auto simp: net_sockets_def net_recv_def Let_def net_live_def)
qed

section \<open>Properties of the message layer\<close>

text \<open>C18: Over any connected stream that delivers bytes in order, however it segments them, the
  message layer is a queue: sending a message appends it whole, and when the oldest message in the
  stream is one that the receiver accepts, \<open>ctrl_recv\<close> returns exactly its header and payload and
  leaves the following messages untouched.\<close>

theorem ctrl_fifo:
  assumes "byte_stream sks skr x y buf live" and "live w" and "buf w = frames q"
    and "fdOf ma pb = x" and "0 \<le> x" and "fdOf mb pa = y" and "0 \<le> y"
  shows "(\<exists>w'. ctrl_send sks ma pb (m_type msg) (m_payload msg) (m_flags msg) w = (True, w')
            \<and> buf w' = frames (q @ [msg]) \<and> live w')
    \<and> (case q of [] \<Rightarrow> True | m # q' \<Rightarrow> sendable m \<longrightarrow>
         (\<exists>w'. ctrl_recv skr mb pa w = (Some (msg_header m, m_payload m), w')
            \<and> buf w' = frames q' \<and> live w'))"
proof -
  note bs = byte_stream.ctrl_send_enqueues [OF assms(1)] byte_stream.ctrl_recv_dequeues [OF assms(1)]
  show ?thesis
    using bs(1) [OF assms(2,4,5), of msg] bs(2) [OF assms(2,6,7)] assms(3)
    by (cases q) auto
qed

definition demo_net :: net where
  "demo_net = \<lparr> n_next = 20, n_open = (\<lambda>p. if p = 0 then [11] else [12]),
     n_peer = (\<lambda>fd. if fd = 11 then 12 else 11), n_inbox = (\<lambda>fd. []), n_addr = (\<lambda>a. None),
     n_backlog = (\<lambda>fd. []), n_dead = [], n_seg = 2 \<rparr>"

definition demo_msg :: ctrl_msg where
  "demo_msg = \<lparr> m_type = CTRL_INT, m_flags = 0, m_payload = [5, 6] \<rparr>"

definition demo_mgr :: "CtrlId \<Rightarrow> int \<Rightarrow> CtrlSocketManager" where
  "demo_mgr i fd = new_CtrlSocketManager\<lparr> id_to_conn := [i \<mapsto> fd] \<rparr>"

theorem ctrl_fifo_witness:
  "\<exists>w'. ctrl_recv (net_sockets 1) (demo_mgr 0 12) 0 (demo_net\<lparr> n_inbox := (\<lambda>fd. frame demo_msg) \<rparr>)
     = (Some (msg_header demo_msg, [5, 6]), w') \<and> n_inbox w' 12 = []"
  using ctrl_fifo [where w = "demo_net\<lparr> n_inbox := (\<lambda>fd. frame demo_msg) \<rparr>" and q = "[demo_msg]"
      and ma = "demo_mgr 1 11" and mb = "demo_mgr 0 12" and pa = 0 and pb = 1 and msg = demo_msg,
      OF net_stream.byte_stream_axioms [where p = 0 and q = 1 and x = 11 and y = 12]]
  by (auto simp: net_live_def demo_net_def demo_mgr_def fdOf_def demo_msg_def sendable_def CTRL_INT_def
      CTRL_STRUCT_def)

text \<open>A 64-bit value sent with \<open>sendU64\<close> on an idle connection is the value \<open>recvU64\<close> returns;
  a \<open>recvInt\<close> at the other end instead refuses it, because the two share one message type and are
  told apart by the payload's size, and the message is consumed all the same.\<close>

theorem u64_round_trip:
  assumes "byte_stream sks skr x y buf live" and "live w" and "buf w = []"
    and "fdOf ma pb = x" and "0 \<le> x" and "fdOf mb pa = y" and "0 \<le> y"
  shows "\<exists>w1 w2. sendU64 sks ma pb v w = (True, w1) \<and> recvU64 skr mb pa w1 = (Some v, w2)
    \<and> recvInt skr mb pa w1 = (None, w2) \<and> buf w2 = []"
proof -
  let ?m = "\<lparr> m_type = CTRL_INT, m_flags = 0, m_payload = le_bytes 8 v \<rparr>"
  obtain w1 where s: "sendU64 sks ma pb v w = (True, w1)" "buf w1 = frame ?m @ []" "live w1"
    using byte_stream.ctrl_send_enqueues [OF assms(1,2,4,5), of ?m] assms(3)
    by (auto simp: sendU64_def)
  have "sendable ?m" by (simp add: sendable_def CTRL_INT_def CTRL_STRUCT_def)
  from byte_stream.ctrl_recv_dequeues [OF assms(1) s(3) assms(6,7) s(2) this] obtain w2 where
    "ctrl_recv skr mb pa w1 = (Some (msg_header ?m, le_bytes 8 v), w2)" "buf w2 = []" by auto
  then show ?thesis
    using s(1) by (auto simp: recvU64_def recvInt_def recv_typed_def msg_header_def)
qed

theorem u64_round_trip_witness:
  "\<exists>w1 w2. sendU64 (net_sockets 0) (demo_mgr 1 11) 1 77 demo_net = (True, w1)
     \<and> recvU64 (net_sockets 1) (demo_mgr 0 12) 0 w1 = (Some 77, w2)
     \<and> recvInt (net_sockets 1) (demo_mgr 0 12) 0 w1 = (None, w2) \<and> n_inbox w2 12 = []"
  by (rule u64_round_trip [where x = 11 and y = 12,
        OF net_stream.byte_stream_axioms [where p = 0 and q = 1 and x = 11 and y = 12]])
    (simp_all add: net_live_def demo_net_def demo_mgr_def fdOf_def)

text \<open>The HELLO that a connecting side sends makes the accepting side register the connection
  under exactly the caller's rank, if that rank had none; if it had one, the older connection stays
  registered and the new descriptor is shut down and closed.\<close>

theorem hello_registers:
  assumes "byte_stream sks skr x y buf live" and "live w" and "buf w = []"
  shows "\<exists>w1 w2. sendHello sks x self_id w = (True, w1)
    \<and> recvHelloAndBind skr y m w1 =
       (if id_to_conn m self_id = None
        then (True, m\<lparr> id_to_conn := (id_to_conn m)(self_id \<mapsto> y) \<rparr>, w2)
        else (True, m, sys_close skr y (sys_shutdown skr y w2))) \<and> buf w2 = []"
  using byte_stream.hello_exchange [OF assms, of self_id m]
  by (cases "id_to_conn m self_id") (auto simp: bind_conn_def shut_def)

theorem hello_registers_witness:
  "\<exists>w1 w2. sendHello (net_sockets 0) 11 7 demo_net = (True, w1)
    \<and> recvHelloAndBind (net_sockets 1) 12 new_CtrlSocketManager w1
      = (True, new_CtrlSocketManager\<lparr> id_to_conn := [7 \<mapsto> 12] \<rparr>, w2) \<and> n_inbox w2 12 = []"
  using hello_registers [of "net_sockets 0" "net_sockets 1" 11 12 "\<lambda>w. n_inbox w 12" "net_live 0 1 11 12"
      demo_net 7 new_CtrlSocketManager, OF net_stream.byte_stream_axioms]
  by (simp add: net_live_def demo_net_def new_CtrlSocketManager_def)

end
