(* ===== verification/Hmc_CtrlConn.thy ===== *)
theory Hmc_CtrlConn
  imports Hmc_CtrlStream
begin

text \<open>
  Connections and descriptors of the control plane: the operations of the manager as a step
  relation (calls of the application and rounds of the two accept threads, in any order), the
  invariant that the descriptors open in the process are exactly those the manager still records,
  and what happens when a peer is connected twice.  The locale \<open>fd_table\<close> is the contract of the
  descriptor table.
\<close>

section \<open>Steps of the manager\<close>

inductive establish_step ::
  "'w sockets \<Rightarrow> CtrlSocketManager \<times> 'w \<Rightarrow> CtrlSocketManager \<times> 'w \<Rightarrow> bool" for sk where
  start: "start sk m ip port path w = (ok, m', w') \<Longrightarrow> establish_step sk (m, w) (m', w')"
| stop: "stop sk m w = (m', w') \<Longrightarrow> establish_step sk (m, w) (m', w')"
| tcp: "connectTcp sk peer_id ip port self_id m w = (ok, m', w') \<Longrightarrow> establish_step sk (m, w) (m', w')"
| uds: "connectUds sk peer_id path self_id m w = (ok, m', w') \<Longrightarrow> establish_step sk (m, w) (m', w')"
| tcp_accept: "tcpAcceptRound sk m w = (m', w') \<Longrightarrow> establish_step sk (m, w) (m', w')"
| uds_accept: "udsAcceptRound sk m w = (m', w') \<Longrightarrow> establish_step sk (m, w) (m', w')"
| send: "ctrl_send sk m peer_id type payload flags w = (ok, w') \<Longrightarrow> establish_step sk (m, w) (m, w')"
| recv: "ctrl_recv sk m peer_id w = (msg, w') \<Longrightarrow> establish_step sk (m, w) (m, w')"

inductive ctrl_step ::
  "'w sockets \<Rightarrow> CtrlSocketManager \<times> 'w \<Rightarrow> CtrlSocketManager \<times> 'w \<Rightarrow> bool" for sk where
  establish: "establish_step sk s s' \<Longrightarrow> ctrl_step sk s s'"
| close: "ctrl_close sk peer_id m w = (m', w') \<Longrightarrow> ctrl_step sk (m, w) (m', w')"
| close_all: "closeAll sk ids m w = (m', w') \<Longrightarrow> distinct ids \<Longrightarrow> set ids = dom (id_to_conn m)
    \<Longrightarrow> ctrl_step sk (m, w) (m', w')"

text \<open>The destructor.\<close>

definition destroy_CtrlSocketManager ::
  "'w sockets \<Rightarrow> CtrlId list \<Rightarrow> CtrlSocketManager \<Rightarrow> 'w \<Rightarrow> CtrlSocketManager \<times> 'w" where
  "destroy_CtrlSocketManager sk ids m w = (case stop sk m w of (m1, w1) \<Rightarrow> closeAll sk ids m1 w1)"

section \<open>Registered connections are stable\<close>

lemma bind_conn_le: "bind_conn sk p fd m w = (m', w') \<Longrightarrow> id_to_conn m \<subseteq>\<^sub>m id_to_conn m'"
  by (auto simp: bind_conn_def map_le_def split: option.splits)

lemma introduce_le:
  "introduce sk p i fd m w = (ok, m', w') \<Longrightarrow> id_to_conn m \<subseteq>\<^sub>m id_to_conn m'"
  by (auto simp: introduce_def dest: bind_conn_le split: prod.splits if_splits)

lemma recvHello_le:
  "recvHelloAndBind sk fd m w = (ok, m', w') \<Longrightarrow> id_to_conn m \<subseteq>\<^sub>m id_to_conn m'"
  by (auto simp: recvHelloAndBind_def Let_def dest: bind_conn_le split: prod.splits if_splits option.splits)

lemma acceptRound_le:
  "acceptRound sk l m w = (m', w') \<Longrightarrow> id_to_conn m \<subseteq>\<^sub>m id_to_conn m'"
  by (auto simp: acceptRound_def dest: recvHello_le split: prod.splits if_splits)

lemma stop_conns: "stop sk m w = (m', w') \<Longrightarrow> id_to_conn m' = id_to_conn m"
  by (auto simp: stop_def Let_def split: if_splits)

lemma start_conns: "start sk m ip port path w = (ok, m', w') \<Longrightarrow> id_to_conn m' = id_to_conn m"
  by (auto simp: start_def Let_def dest!: stop_conns split: prod.splits if_splits)

lemma establish_le:
  assumes "establish_step sk s s'"
  shows "id_to_conn (fst s) \<subseteq>\<^sub>m id_to_conn (fst s')"
  using assms
proof cases
  case tcp
  then show ?thesis by (auto simp: connectTcp_def dest: introduce_le split: prod.splits if_splits)
next
  case uds
  then show ?thesis by (auto simp: connectUds_def dest: introduce_le split: prod.splits if_splits)
next
  case tcp_accept
  then show ?thesis by (auto simp: tcpAcceptRound_def dest: acceptRound_le)
next
  case uds_accept
  then show ?thesis by (auto simp: udsAcceptRound_def dest: acceptRound_le)
qed (auto dest: stop_conns start_conns)

section \<open>Descriptors the manager records\<close>

definition listeners :: "CtrlSocketManager \<Rightarrow> int set" where
  "listeners m = {fd. 0 \<le> fd \<and> (fd = tcp_listen_fd m \<or> fd = uds_listen_fd m)}"

definition owned :: "CtrlSocketManager \<Rightarrow> int set" where
  "owned m = ran (id_to_conn m) \<union> listeners m"

text \<open>No descriptor is recorded twice, and a manager that does not run has no listener and no
  accept thread.\<close>

definition conns_wf :: "(CtrlId \<rightharpoonup> int) \<Rightarrow> bool" where
  "conns_wf f \<longleftrightarrow> (\<forall>fd \<in> ran f. 0 \<le> fd) \<and> inj_on f (dom f)"

definition listen_wf :: "CtrlSocketManager \<Rightarrow> bool" where
  "listen_wf m \<longleftrightarrow> (0 \<le> tcp_listen_fd m \<longrightarrow> tcp_listen_fd m \<noteq> uds_listen_fd m)
     \<and> (\<not> running m \<longrightarrow> tcp_listen_fd m < 0 \<and> uds_listen_fd m < 0)
     \<and> (tcp_thread m \<longrightarrow> 0 \<le> tcp_listen_fd m) \<and> (uds_thread m \<longrightarrow> 0 \<le> uds_listen_fd m)
     \<and> is_server m = running m"

definition ctrl_wf :: "CtrlSocketManager \<Rightarrow> bool" where
  "ctrl_wf m \<longleftrightarrow> conns_wf (id_to_conn m) \<and> listen_wf m \<and> ran (id_to_conn m) \<inter> listeners m = {}"

lemma listen_update [simp]:
  "listeners (m\<lparr> id_to_conn := f \<rparr>) = listeners m" "listen_wf (m\<lparr> id_to_conn := f \<rparr>) = listen_wf m"
  by (simp_all add: listeners_def listen_wf_def)

lemma ctrl_wf_new: "ctrl_wf new_CtrlSocketManager" "owned new_CtrlSocketManager = {}"
  by (auto simp: ctrl_wf_def conns_wf_def listen_wf_def new_CtrlSocketManager_def listeners_def owned_def)

lemma conns_wf_insert:
  "conns_wf f \<Longrightarrow> 0 \<le> fd \<Longrightarrow> fd \<notin> ran f \<Longrightarrow> f p = None \<Longrightarrow> conns_wf (f(p \<mapsto> fd))"
  by (auto simp: conns_wf_def inj_on_def ran_def)

lemma conns_wf_remove:
  assumes "conns_wf f" and "f p = Some fd"
  shows "conns_wf (f(p := None))" and "ran (f(p := None)) = ran f - {fd}"
proof -
  have inj: "a = p" if "f a = Some fd" for a
    using assms that by (auto simp: conns_wf_def inj_on_def dom_def)
  show "ran (f(p := None)) = ran f - {fd}"
  proof
    show "ran (f(p := None)) \<subseteq> ran f - {fd}"
      using inj by (auto simp: ran_def split: if_splits)
    show "ran f - {fd} \<subseteq> ran (f(p := None))"
    proof
      fix x assume "x \<in> ran f - {fd}"
      then obtain a where "f a = Some x" "x \<noteq> fd" by (auto simp: ran_def)
      then have "(f(p := None)) a = Some x" using assms(2) by auto
      then show "x \<in> ran (f(p := None))" by (rule ranI)
    qed
  qed
  then show "conns_wf (f(p := None))"
    using assms(1) by (auto simp: conns_wf_def inj_on_def)
qed

lemma ctrl_wf_insert:
  assumes "ctrl_wf m" and "id_to_conn m p = None" and "0 \<le> fd" and "fd \<notin> owned m"
  shows "ctrl_wf (m\<lparr> id_to_conn := (id_to_conn m)(p \<mapsto> fd) \<rparr>)"
    and "owned (m\<lparr> id_to_conn := (id_to_conn m)(p \<mapsto> fd) \<rparr>) = insert fd (owned m)"
  using assms by (simp_all add: ctrl_wf_def owned_def conns_wf_insert)

lemma ctrl_wf_remove:
  assumes "ctrl_wf m" and "id_to_conn m p = Some fd"
  shows "ctrl_wf (m\<lparr> id_to_conn := (id_to_conn m)(p := None) \<rparr>)"
    and "owned (m\<lparr> id_to_conn := (id_to_conn m)(p := None) \<rparr>) = owned m - {fd}"
proof -
  have w: "conns_wf (id_to_conn m)" and d: "ran (id_to_conn m) \<inter> listeners m = {}"
    using assms(1) by (simp_all add: ctrl_wf_def)
  have "fd \<in> ran (id_to_conn m)" using assms(2) by (rule ranI)
  with d have "fd \<notin> listeners m" by blast
  with d show "ctrl_wf (m\<lparr> id_to_conn := (id_to_conn m)(p := None) \<rparr>)"
    "owned (m\<lparr> id_to_conn := (id_to_conn m)(p := None) \<rparr>) = owned m - {fd}"
    using assms(1) conns_wf_remove [OF w assms(2)] by (auto simp: ctrl_wf_def owned_def)
qed

section \<open>Contract of the descriptor table\<close>

locale fd_table =
  fixes sk :: "'w sockets"
    and opened :: "'w \<Rightarrow> int set"
  assumes socket_fresh: "sys_socket sk d w = (fd, w') \<Longrightarrow>
      if fd < 0 then opened w' = opened w else fd \<notin> opened w \<and> opened w' = insert fd (opened w)"
    and accept_fresh: "sys_accept sk l w = (fd, w') \<Longrightarrow>
      if fd < 0 then opened w' = opened w else fd \<notin> opened w \<and> opened w' = insert fd (opened w)"
    and opened_bind [simp]: "opened (snd (sys_bind sk fd a w)) = opened w"
    and opened_listen [simp]: "opened (snd (sys_listen sk fd w)) = opened w"
    and opened_connect [simp]: "opened (snd (sys_connect sk fd a w)) = opened w"
    and opened_send [simp]: "opened (snd (sys_send sk fd bs w)) = opened w"
    and opened_recv [simp]: "opened (snd (sys_recv sk fd n w)) = opened w"
    and opened_shutdown [simp]: "opened (sys_shutdown sk fd w) = opened w"
    and opened_unlink [simp]: "opened (sys_unlink sk path w) = opened w"
    and opened_close [simp]: "opened (sys_close sk fd w) = opened w - {fd}"
begin

definition owns :: "CtrlSocketManager \<Rightarrow> 'w \<Rightarrow> bool" where
  "owns m w \<longleftrightarrow> ctrl_wf m \<and> opened w = owned m"

text \<open>A call that may return one new descriptor, as \<^verbatim>\<open>socket\<close> does.\<close>

definition gets_fd :: "int \<Rightarrow> 'w \<Rightarrow> 'w \<Rightarrow> bool" where
  "gets_fd fd w w' \<longleftrightarrow> (if fd < 0 then opened w' = opened w
     else fd \<notin> opened w \<and> opened w' = insert fd (opened w))"

lemma opened_shut [simp]: "opened (shut sk fd w) = opened w - {fd}"
  by (simp add: shut_def)

lemma opened_sendAll [simp]: "opened (snd (sendAll sk fd bs w)) = opened w"
  by (rule sendAll_keeps [where P = "\<lambda>v. opened v = opened w"]) simp_all

lemma opened_recvAll [simp]: "opened (snd (recvAll sk fd n w)) = opened w"
  by (rule recvAll_keeps [where P = "\<lambda>v. opened v = opened w"]) simp_all

lemma socket_gets_fd: "gets_fd (fst (sys_socket sk d w)) w (snd (sys_socket sk d w))"
  using socket_fresh [of d w "fst (sys_socket sk d w)" "snd (sys_socket sk d w)"]
  by (simp add: gets_fd_def)

lemma dialTcp_fd:
  assumes "dialTcp sk ip port w = (fd, w')"
  shows "gets_fd fd w w'"
proof -
  obtain fd0 w1 where s: "sys_socket sk AF_INET w = (fd0, w1)" by (metis surj_pair)
  obtain rc w2 where c: "sys_connect sk fd0 (Inet ip port) w1 = (rc, w2)" by (metis surj_pair)
  have "opened w2 = opened w1" using opened_connect [of fd0 "Inet ip port" w1] c by simp
  then show ?thesis
    using assms s c socket_gets_fd [of AF_INET w]
    by (cases "fd0 < 0"; cases "inet_pton_ok sk ip"; cases "rc < 0")
      (auto simp: dialTcp_def gets_fd_def)
qed

lemma dialUds_fd:
  assumes "dialUds sk path w = (fd, w')"
  shows "gets_fd fd w w'"
proof -
  obtain fd0 w1 where s: "sys_socket sk AF_UNIX w = (fd0, w1)" by (metis surj_pair)
  obtain rc w2 where c: "sys_connect sk fd0 (Unix (sun_path path)) w1 = (rc, w2)" by (metis surj_pair)
  have "opened w2 = opened w1" using opened_connect [of fd0 "Unix (sun_path path)" w1] c by simp
  then show ?thesis
    using assms s c socket_gets_fd [of AF_UNIX w]
    by (cases "fd0 < 0"; cases "rc < 0") (auto simp: dialUds_def gets_fd_def)
qed

lemma dialUdsRetry_fd: "dialUdsRetry n sk path w = (fd, w') \<Longrightarrow> gets_fd fd w w'"
proof (induction n arbitrary: w)
  case (Suc n)
  obtain fd1 w1 where d: "dialUds sk path w = (fd1, w1)" by (metis surj_pair)
  show ?case
    using Suc.prems dialUds_fd [OF d] d Suc.IH [of w1]
    by (cases "fd1 < 0"; cases "fd < 0") (simp_all add: gets_fd_def)
qed (simp add: gets_fd_def)

text \<open>The common tail of the two listeners, \<^verbatim>\<open>bind\<close> and \<^verbatim>\<open>listen\<close>.\<close>

lemma listener_fd:
  assumes "gets_fd fd0 w w1" and "opened w2 = opened w1" and "0 \<le> fd0"
    and "(case sys_bind sk fd0 a w2 of (rc, w3) \<Rightarrow>
         if rc < 0 then ((- 1, False), sys_close sk fd0 w3)
         else case sys_listen sk fd0 w3 of (rc2, w4) \<Rightarrow>
           if rc2 < 0 then ((- 1, False), sys_close sk fd0 w4) else ((fd0, True), w4)) = ((fd, ok), w')"
  shows "gets_fd fd w w' \<and> ok = (0 \<le> fd)"
proof -
  obtain rc w3 where b: "sys_bind sk fd0 a w2 = (rc, w3)" by (metis surj_pair)
  obtain rc2 w4 where l: "sys_listen sk fd0 w3 = (rc2, w4)" by (metis surj_pair)
  have "opened w3 = opened w2" "opened w4 = opened w3"
    using opened_bind [of fd0 a w2] opened_listen [of fd0 w3] b l by simp_all
  then show ?thesis
    using assms b l by (cases "rc < 0"; cases "rc2 < 0") (auto simp: gets_fd_def)
qed

lemma listenTcp_fd:
  assumes "listenTcp sk ip port w = ((fd, ok), w')"
  shows "gets_fd fd w w' \<and> ok = (0 \<le> fd)"
proof -
  obtain fd0 w1 where s: "sys_socket sk AF_INET w = (fd0, w1)" by (metis surj_pair)
  have g: "gets_fd fd0 w w1" using socket_gets_fd [of AF_INET w] s by simp
  show ?thesis
  proof (cases "fd0 < 0 \<or> \<not> inet_pton_ok sk ip")
    case True
    then show ?thesis using assms s g by (cases "fd0 < 0") (auto simp: listenTcp_def gets_fd_def)
  next
    case False
    then show ?thesis
      using assms s by (intro listener_fd [OF g refl, of "Inet ip port"]) (simp_all add: listenTcp_def)
  qed
qed

lemma listenUds_fd:
  assumes "listenUds sk path w = ((fd, ok), w')"
  shows "gets_fd fd w w' \<and> ok = (0 \<le> fd)"
proof -
  obtain fd0 w1 where s: "sys_socket sk AF_UNIX w = (fd0, w1)" by (metis surj_pair)
  have g: "gets_fd fd0 w w1" using socket_gets_fd [of AF_UNIX w] s by simp
  show ?thesis
  proof (cases "fd0 < 0")
    case True
    then show ?thesis using assms s g by (auto simp: listenUds_def)
  next
    case False
    then show ?thesis
      using assms s
      by (intro listener_fd [OF g opened_unlink, of "Unix (sun_path path)"]) (simp_all add: listenUds_def)
  qed
qed

text \<open>Binding or discarding a descriptor that is not yet recorded.\<close>

lemma bind_conn_owns:
  assumes "bind_conn sk p fd m w = (m', w')" and "ctrl_wf m" and "0 \<le> fd" and "fd \<notin> owned m"
    and "opened w = insert fd (owned m)"
  shows "owns m' w'"
  using assms ctrl_wf_insert [OF assms(2) _ assms(3,4), of p]
  by (auto simp: bind_conn_def owns_def split: option.splits)

lemma introduce_owns:
  assumes "introduce sk p i fd m w = (ok, m', w')" and "ctrl_wf m" and "0 \<le> fd" and "fd \<notin> owned m"
    and "opened w = insert fd (owned m)"
  shows "owns m' w'"
proof -
  have "opened (snd (sendHello sk fd i w)) = opened w" by (simp add: sendHello_def split_beta)
  then show ?thesis
    using assms bind_conn_owns [OF _ assms(2-4), of p "snd (sendHello sk fd i w)"]
    by (cases "bind_conn sk p fd m (snd (sendHello sk fd i w))")
      (auto simp: introduce_def owns_def split_beta split: if_splits)
qed

lemma recvHello_owns:
  assumes "recvHelloAndBind sk fd m w = (ok, m', w')" and "ctrl_wf m" and "0 \<le> fd" and "fd \<notin> owned m"
    and "opened w = insert fd (owned m)"
  shows "if ok then owns m' w' else m' = m \<and> opened w' = opened w"
proof -
  obtain r1 w1 where a: "recvAll sk fd 8 w = (r1, w1)" by (metis surj_pair)
  obtain r2 w2 where b: "recvAll sk fd 4 w1 = (r2, w2)" by (metis surj_pair)
  have "opened w1 = opened w" "opened w2 = opened w"
    using opened_recvAll [of fd 8 w] opened_recvAll [of fd 4 w1] a b by simp_all
  then show ?thesis
    using assms(1,5) a b bind_conn_owns [OF _ assms(2-4), of _ w2]
    by (auto simp: recvHelloAndBind_def Let_def split: prod.splits if_splits option.splits)
qed

lemma connect_owns:
  assumes "owns m w" and "gets_fd fd w w1"
    and "(if fd < 0 then (False, m, w1) else introduce sk p i fd m w1) = (ok, m', w')"
  shows "owns m' w'"
  using assms introduce_owns [of p i fd m w1 ok m' w'] by (auto simp: owns_def gets_fd_def split: if_splits)

lemma acceptRound_owns:
  assumes "owns m w" and "acceptRound sk l m w = (m', w')"
  shows "owns m' w'"
proof (cases "running m")
  case True
  obtain fd w1 where a: "sys_accept sk l w = (fd, w1)" by (metis surj_pair)
  obtain ok m2 w2 where h: "recvHelloAndBind sk fd m w1 = (ok, m2, w2)" by (metis surj_pair)
  show ?thesis
    using assms True a h accept_fresh [OF a] recvHello_owns [OF h]
    by (cases "fd < 0"; cases ok) (auto simp: acceptRound_def owns_def)
qed (use assms in \<open>simp add: acceptRound_def\<close>)

lemma stop_fields:
  assumes "running m" and "stop sk m w = (m', w')"
  shows "listeners m' = {}" and "id_to_conn m' = id_to_conn m" and "\<not> running m'" and "listen_wf m'"
proof -
  have m': "m' = m\<lparr> running := False, tcp_listen_fd := (if tcp_listen_fd m \<ge> 0 then - 1 else tcp_listen_fd m),
      tcp_thread := False, uds_listen_fd := (if uds_listen_fd m \<ge> 0 then - 1 else uds_listen_fd m),
      uds_thread := False, is_server := False \<rparr>"
    using assms by (simp add: stop_def Let_def)
  show "listeners m' = {}" "id_to_conn m' = id_to_conn m" "\<not> running m'" "listen_wf m'"
    unfolding m' by (auto simp: listeners_def listen_wf_def)
qed

lemma opened_stop:
  assumes "running m" and "stop sk m w = (m', w')"
  shows "opened w' = opened w - listeners m"
  using assms
  by (cases "tcp_listen_fd m \<ge> 0"; cases "uds_listen_fd m \<ge> 0"; cases "uds_path m = []")
    (auto simp: stop_def Let_def listeners_def)

lemma stop_owns:
  assumes "owns m w" and "stop sk m w = (m', w')"
  shows "owns m' w' \<and> \<not> running m'"
proof (cases "running m")
  case True
  have "opened w - listeners m = ran (id_to_conn m)"
    using assms(1) by (auto simp: owns_def owned_def ctrl_wf_def)
  then show ?thesis
    using assms(1) opened_stop [OF True assms(2)] stop_fields [OF True assms(2)]
    by (simp add: owns_def ctrl_wf_def owned_def)
qed (use assms in \<open>simp add: stop_def owns_def\<close>)

lemma start_owns:
  assumes "owns m w" and "start sk m ip port path w = (ok, m', w')"
  shows "owns m' w'"
proof (cases "running m")
  case False
  have l: "tcp_listen_fd m < 0" "uds_listen_fd m < 0" "\<not> tcp_thread m" "\<not> uds_thread m"
    and c: "conns_wf (id_to_conn m)" and o: "opened w = ran (id_to_conn m)"
    using assms(1) False by (auto simp: owns_def ctrl_wf_def listen_wf_def owned_def listeners_def)
  obtain fd1 ok1 w1 where t: "(if port \<noteq> 0 then listenTcp sk ip port w else ((tcp_listen_fd m, True), w))
      = ((fd1, ok1), w1)" by (metis surj_pair)
  obtain fd2 ok2 w2 where u: "(if path \<noteq> [] then listenUds sk path w1 else ((uds_listen_fd m, True), w1))
      = ((fd2, ok2), w2)" by (metis surj_pair)
  let ?m2 = "m\<lparr> bind_ip := ip, tcp_port := port, uds_path := path, running := True, is_server := True,
     tcp_listen_fd := fd1, tcp_thread := port \<noteq> 0 \<and> ok1, uds_listen_fd := fd2, uds_thread := path \<noteq> [] \<and> ok2 \<rparr>"
  have g1: "gets_fd fd1 w w1" "port \<noteq> 0 \<longrightarrow> ok1 = (0 \<le> fd1)"
    using t l(1) listenTcp_fd [of ip port w] by (auto simp: gets_fd_def split: if_splits)
  have g2: "gets_fd fd2 w1 w2" "path \<noteq> [] \<longrightarrow> ok2 = (0 \<le> fd2)"
    using u l(2) listenUds_fd [of path w1] by (auto simp: gets_fd_def split: if_splits)
  have disj: "ran (id_to_conn m) \<inter> listeners ?m2 = {}"
    using g1 g2 o by (auto simp: listeners_def gets_fd_def split: if_splits)
  have open2: "opened w2 = owned ?m2"
    using g1(1) g2(1) o by (auto simp: owned_def listeners_def gets_fd_def split: if_splits)
  have wf2: "ctrl_wf ?m2"
    using g1 g2 c disj by (auto simp: ctrl_wf_def listen_wf_def gets_fd_def split: if_splits)
  have "start sk m ip port path w =
      (if ok1 \<and> ok2 then (True, ?m2, w2) else case stop sk ?m2 w2 of (m3, w3) \<Rightarrow> (False, m3, w3))"
    using False t u l by (cases m; cases "port = 0"; cases "path = []") (simp_all add: start_def Let_def)
  then show ?thesis
    using assms(2) wf2 open2 stop_owns [of ?m2 w2]
    by (cases "stop sk ?m2 w2") (auto simp: owns_def split: if_splits)
qed (use assms in \<open>simp add: start_def\<close>)

lemma close_owns:
  assumes "owns m w" and "ctrl_close sk p m w = (m', w')"
  shows "owns m' w'"
proof (cases "id_to_conn m p")
  case (Some fd)
  then have "0 \<le> fd" using assms(1) by (auto simp: owns_def ctrl_wf_def conns_wf_def ran_def)
  then show ?thesis
    using assms Some ctrl_wf_remove [of m p fd] opened_shut [of fd w]
    by (simp add: ctrl_close_def owns_def)
qed (use assms in \<open>simp add: ctrl_close_def\<close>)

lemma opened_close_fold:
  "opened (fold (\<lambda>i w. let fd = fdOf m i in if fd \<ge> 0 then sys_close sk fd w else w) ids w)
    = opened w - {fd. 0 \<le> fd \<and> (\<exists>i \<in> set ids. fdOf m i = fd)}"
  by (induction ids arbitrary: w) (auto simp: Let_def)

lemma closeAll_owns:
  assumes "owns m w" and "closeAll sk ids m w = (m', w')" and "set ids = dom (id_to_conn m)"
  shows "owns m' w' \<and> opened w' = listeners m"
proof -
  have p: "\<forall>fd \<in> ran (id_to_conn m). 0 \<le> fd" and d: "ran (id_to_conn m) \<inter> listeners m = {}"
    using assms(1) by (simp_all add: owns_def ctrl_wf_def conns_wf_def)
  have "{fd. 0 \<le> fd \<and> (\<exists>i \<in> set ids. fdOf m i = fd)} = ran (id_to_conn m)"
    using p assms(3) by (force simp: fdOf_def ran_def split: option.splits)
  then have "opened w' = listeners m"
    using assms(1,2) d by (auto simp: closeAll_def opened_close_fold owns_def owned_def)
  then show ?thesis
    using assms(1,2) by (auto simp: closeAll_def owns_def ctrl_wf_def conns_wf_def owned_def)
qed

lemma opened_ctrl_recv: "opened (snd (ctrl_recv sk m p w)) = opened w"
proof (cases "fdOf m p < 0")
  case False
  obtain r1 w1 where a: "recvAll sk (fdOf m p) 8 w = (r1, w1)" by (metis surj_pair)
  then have w1: "opened w1 = opened w" using opened_recvAll [of "fdOf m p" 8 w] by simp
  show ?thesis
  proof (cases r1)
    case (Some hb)
    let ?n = "unat (h_length (header_of hb))"
    obtain r2 w2 where b: "recvAll sk (fdOf m p) ?n w1 = (r2, w2)" by (metis surj_pair)
    then have "opened w2 = opened w1" using opened_recvAll [of "fdOf m p" ?n w1] by simp
    then show ?thesis using False a b w1 Some by (cases r2) (simp_all add: ctrl_recv_def Let_def)
  qed (use False a w1 in \<open>simp add: ctrl_recv_def Let_def\<close>)
qed (simp add: ctrl_recv_def)

lemma establish_owns:
  assumes "establish_step sk s s'" and "owns (fst s) (snd s)"
  shows "owns (fst s') (snd s')"
  using assms
proof cases
  case (tcp p ip port i m w ok m' w')
  obtain fd w1 where "dialTcp sk ip port w = (fd, w1)" by (metis surj_pair)
  with tcp assms(2) connect_owns [OF _ dialTcp_fd] show ?thesis by (simp add: connectTcp_def)
next
  case (uds p path i m w ok m' w')
  obtain fd w1 where "dialUdsRetry 5 sk path w = (fd, w1)" by (metis surj_pair)
  with uds assms(2) connect_owns [OF _ dialUdsRetry_fd] show ?thesis by (simp add: connectUds_def)
next
  case (send m p ty pl fl w ok w')
  have "opened (snd (ctrl_send sk m p ty pl fl w)) = opened w"
    by (simp add: ctrl_send_def Let_def split_beta)
  with send assms(2) show ?thesis by (simp add: owns_def)
next
  case (recv m p w msg w')
  with opened_ctrl_recv [of m p w] assms(2) show ?thesis by (simp add: owns_def)
next
  case (stop m w m' w')
  with assms(2) stop_owns [of m w m' w'] show ?thesis by simp
next
  case (start m ip port path w ok m' w')
  with assms(2) start_owns [of m w ip port path ok m' w'] show ?thesis by simp
next
  case (tcp_accept m w m' w')
  with assms(2) acceptRound_owns [of m w _ m' w'] show ?thesis by (simp add: tcpAcceptRound_def)
next
  case (uds_accept m w m' w')
  with assms(2) acceptRound_owns [of m w _ m' w'] show ?thesis by (simp add: udsAcceptRound_def)
qed

lemma step_owns:
  assumes "ctrl_step sk s s'" and "owns (fst s) (snd s)"
  shows "owns (fst s') (snd s')"
  using assms(1)
proof cases
  case establish
  then show ?thesis using assms(2) by (rule establish_owns)
next
  case (close p m w m' w')
  then show ?thesis using assms(2) close_owns [of m w p m' w'] by simp
next
  case (close_all ids m w m' w')
  then show ?thesis using assms(2) closeAll_owns [of m w ids m' w'] by simp
qed

lemma reachable_owns:
  assumes "(ctrl_step sk)\<^sup>*\<^sup>* (new_CtrlSocketManager, w0) s" and "opened w0 = {}"
  shows "owns (fst s) (snd s)"
  using assms(1)
proof induction
  case base
  then show ?case by (simp add: owns_def ctrl_wf_new assms(2))
next
  case (step s s')
  then show ?case by (simp add: step_owns)
qed

lemma destroy_releases:
  assumes "owns m w" and "set ids = dom (id_to_conn m)"
  shows "opened (snd (destroy_CtrlSocketManager sk ids m w)) = {}"
proof -
  obtain m1 w1 where s: "stop sk m w = (m1, w1)" by (metis surj_pair)
  have o: "owns m1 w1" "\<not> running m1" using stop_owns [OF assms(1) s] by simp_all
  then have "listeners m1 = {}" by (auto simp: owns_def ctrl_wf_def listen_wf_def listeners_def)
  moreover have "set ids = dom (id_to_conn m1)" using assms(2) stop_conns [OF s] by simp
  ultimately show ?thesis
    using closeAll_owns [OF o(1) surjective_pairing, of ids] s by (simp add: destroy_CtrlSocketManager_def)
qed

end

interpretation net_fds: fd_table "net_sockets p" "\<lambda>w. set (n_open w p)" for p
proof unfold_locales
  have fresh: "net_fresh p w \<notin> set (n_open w p)" "0 < net_fresh p w" for w :: net
  proof -
    have b: "x \<le> foldr max xs b" if "x \<in> set xs" for x b :: int and xs
      using that by (induction xs) (auto simp: le_max_iff_disj)
    have "0 \<le> foldr max xs (max 0 b)" for b :: int and xs
      by (induction xs) (auto simp: le_max_iff_disj)
    from this [of "n_open w p" "n_next w"]
    have "0 \<le> foldr max (n_open w p) (max 0 (n_next w))" .
    then show "0 < net_fresh p w" by (simp add: net_fresh_def)
    show "net_fresh p w \<notin> set (n_open w p)"
      using b [of "net_fresh p w" "n_open w p" "max 0 (n_next w)"] by (auto simp: net_fresh_def)
  qed
  show "if fd < 0 then set (n_open w' p) = set (n_open w p)
      else fd \<notin> set (n_open w p) \<and> set (n_open w' p) = insert fd (set (n_open w p))"
    if "sys_socket (net_sockets p) d w = (fd, w')" for d w fd w'
    using that fresh [of w] by (auto simp: net_sockets_def net_socket_def)
  show "if fd < 0 then set (n_open w' p) = set (n_open w p)
      else fd \<notin> set (n_open w p) \<and> set (n_open w' p) = insert fd (set (n_open w p))"
    if "sys_accept (net_sockets p) l w = (fd, w')" for l w fd w'
    using that by (auto simp: net_sockets_def net_accept_def split: list.splits if_splits)
qed (auto simp: net_sockets_def net_bind_def net_connect_def net_send_def net_recv_def net_close_def Let_def
    split: option.splits)

section \<open>Runs of the reference network\<close>

lemma net_calls:
  "sys_socket (net_sockets p) = net_socket p" "inet_pton_ok (net_sockets p) = (\<lambda>s. s \<noteq> [])"
  "sys_bind (net_sockets p) = net_bind p" "sys_listen (net_sockets p) = (\<lambda>fd w. (0, w))"
  "sys_accept (net_sockets p) = net_accept p" "sys_connect (net_sockets p) = net_connect p"
  "sys_shutdown (net_sockets p) = (\<lambda>fd w. w)" "sys_close (net_sockets p) = net_close p"
  by (simp_all add: net_sockets_def)

lemma net_sendAll_dead:
  "n_peer w fd \<in> set (n_dead w) \<Longrightarrow> 0 < length bs \<Longrightarrow> sendAll (net_sockets p) fd bs w = (False, w)"
  by (subst sendAll.simps) (simp add: net_sockets_def net_send_def Let_def)

lemma net_sendAll:
  assumes "fd \<in> set (n_open w p)" and "n_peer w fd \<notin> set (n_dead w)" and "0 < length bs"
    and "length bs \<le> Suc (n_seg w)"
  shows "sendAll (net_sockets p) fd bs w
    = (True, w\<lparr> n_inbox := (n_inbox w)(n_peer w fd := n_inbox w (n_peer w fd) @ bs) \<rparr>)"
  using assms by (subst sendAll.simps)
    (simp add: net_sockets_def net_send_def Let_def sendAll.simps [of _ _ "[]"])

lemma net_recvAll:
  assumes "fd \<in> set (n_open w p)" and "n \<le> length (n_inbox w fd)" and "0 < n" and "n \<le> Suc (n_seg w)"
  shows "recvAll (net_sockets p) fd n w
    = (Some (take n (n_inbox w fd)), w\<lparr> n_inbox := (n_inbox w)(fd := drop n (n_inbox w fd)) \<rparr>)"
  using assms by (subst recvAll.simps)
    (simp add: net_sockets_def net_recv_def Let_def recvAll.simps [of _ _ 0])

definition crossing_net :: net where
  "crossing_net = \<lparr> n_next = 2, n_open = (\<lambda>p. []), n_peer = (\<lambda>fd. - 1), n_inbox = (\<lambda>fd. []),
     n_addr = (\<lambda>a. None), n_backlog = (\<lambda>fd. []), n_dead = [], n_seg = 1460 \<rparr>"

definition crossing_run :: "(bool \<times> bool) \<times> (bool \<times> bool)" where
  "crossing_run =
    (let a = net_sockets 0; b = net_sockets 1;
         (_, ma, w1) = start a new_CtrlSocketManager ''a'' 1 [] crossing_net;
         (_, mb, w2) = start b new_CtrlSocketManager ''b'' 1 [] w1;
         (ok_a, ma, w3) = connectTcp a 1 ''b'' 1 0 ma w2;
         (ok_b, mb, w4) = connectTcp b 0 ''a'' 1 1 mb w3;
         (ma, w5) = tcpAcceptRound a ma w4;
         (mb, w6) = tcpAcceptRound b mb w5
     in ((ok_a, ok_b), (fst (sendU64 a ma 1 7 w6), fst (sendU64 b mb 0 7 w6))))"

lemmas net_run_defs =
  crossing_net_def new_CtrlSocketManager_def start_def listenTcp_def net_calls net_socket_def net_fresh_def
  net_bind_def connectTcp_def dialTcp_def net_connect_def introduce_def sendHello_def net_sendAll net_recvAll
  bind_conn_def shut_def net_close_def

text \<open>A rank that listens and dials itself twice under the rank 1.\<close>

definition dial_once :: "CtrlSocketManager \<times> net" where
  "dial_once = (case start (net_sockets 0) new_CtrlSocketManager ''a'' 1 [] crossing_net of
     (_, m, w) \<Rightarrow> snd (connectTcp (net_sockets 0) 1 ''a'' 1 0 m w))"

definition dial_twice :: "CtrlSocketManager \<times> net" where
  "dial_twice = (case dial_once of (m, w) \<Rightarrow> snd (connectTcp (net_sockets 0) 1 ''a'' 1 0 m w))"

lemma dial_once_conns: "id_to_conn (fst dial_once) = [1 \<mapsto> 4]"
  by (simp add: dial_once_def net_run_defs Let_def)

lemma connectTcp_step:
  "establish_step sk (m, w) (snd (connectTcp sk p ip port i m w))"
  by (cases "connectTcp sk p ip port i m w") (auto intro: establish_step.tcp)

lemma dial_once_reachable:
  "(ctrl_step (net_sockets 0))\<^sup>*\<^sup>* (new_CtrlSocketManager, crossing_net) dial_once"
proof -
  obtain ok m w where s: "start (net_sockets 0) new_CtrlSocketManager ''a'' 1 [] crossing_net = (ok, m, w)"
    by (metis surj_pair)
  have "ctrl_step (net_sockets 0) (new_CtrlSocketManager, crossing_net) (m, w)"
    using s by (intro ctrl_step.establish establish_step.start)
  moreover have "ctrl_step (net_sockets 0) (m, w) dial_once"
    by (simp add: dial_once_def s ctrl_step.establish connectTcp_step)
  ultimately show ?thesis by (meson rtranclp.rtrancl_refl rtranclp.rtrancl_into_rtrancl)
qed

section \<open>Properties of the connection table\<close>

text \<open>C19: In every state the manager reaches from its creation, through any sequence of starts (also
  failing ones), stops, dials, accepted connections, rejected HELLOs, messages and closes, the
  descriptors open in the process are exactly the registered connections and the listeners, no
  descriptor is recorded twice, and no listener or accept thread is left when the server does not
  run; the destructor then closes every one of them.\<close>

theorem ctrl_no_descriptor_leak:
  assumes "fd_table sk opened" and "opened w0 = {}"
    and "(ctrl_step sk)\<^sup>*\<^sup>* (new_CtrlSocketManager, w0) (m, w)" and "set ids = dom (id_to_conn m)"
  shows "opened w = owned m \<and> ctrl_wf m \<and> opened (snd (destroy_CtrlSocketManager sk ids m w)) = {}"
proof -
  have o: "fd_table.owns opened m w"
    using fd_table.reachable_owns [OF assms(1,3,2)] by simp
  then show ?thesis
    using fd_table.destroy_releases [OF assms(1) o assms(4)] by (simp add: fd_table.owns_def [OF assms(1)])
qed

theorem ctrl_no_descriptor_leak_witness:
  "case dial_once of (m, w) \<Rightarrow> set (n_open w 0) = owned m \<and> id_to_conn m = [1 \<mapsto> 4]
     \<and> set (n_open (snd (destroy_CtrlSocketManager (net_sockets 0) [1] m w)) 0) = {}"
  using ctrl_no_descriptor_leak [OF net_fds.fd_table_axioms [of 0], of crossing_net "fst dial_once"
      "snd dial_once" "[1]"] dial_once_reachable dial_once_conns
  by (simp add: split_beta crossing_net_def)

text \<open>C24: Whatever the sockets do, no sequence of starts, stops, dials, accepts, sends and receives
  ever replaces or drops the connection registered for a peer: only \<open>ctrl_close\<close> and \<open>closeAll\<close>
  remove one.\<close>

theorem first_connection_wins:
  assumes "(establish_step sk)\<^sup>*\<^sup>* (m, w) (m', w')" and "id_to_conn m peer_id = Some fd"
  shows "fdOf m' peer_id = fd"
proof -
  have "id_to_conn m \<subseteq>\<^sub>m id_to_conn (fst s')" if "(establish_step sk)\<^sup>*\<^sup>* (m, w) s'" for s'
    using that by induction (auto dest: establish_le map_le_trans)
  from this [OF assms(1)] show ?thesis
    using assms(2) by (simp add: fdOf_def map_le_def domIff) (metis domI option.simps(5))
qed

theorem first_connection_wins_witness:
  "establish_step (net_sockets 0) dial_once dial_twice \<and> fdOf (fst dial_twice) 1 = 4"
proof -
  have "establish_step (net_sockets 0) dial_once dial_twice"
    using connectTcp_step [of "net_sockets 0" "fst dial_once" "snd dial_once"]
    by (simp add: dial_twice_def split_beta)
  then show ?thesis
    using first_connection_wins [of "net_sockets 0" "fst dial_once" "snd dial_once" "fst dial_twice"
        "snd dial_twice" 1 4] dial_once_conns by auto
qed

text \<open>Two ranks never get the same socket path: for a fixed directory, \<open>udsPathFor\<close> is injective
  in the rank, and a trailing slash of the directory does not matter.\<close>

theorem uds_path_per_rank:
  "(udsPathFor dir a = udsPathFor dir b) = (a = b) \<and> (dir \<noteq> [] \<and> last dir \<noteq> CHR ''/''
     \<longrightarrow> udsPathFor (dir @ ''/'') a = udsPathFor dir a)"
  by (auto simp: udsPathFor_def Let_def to_string_inj word_unat_eq_iff)

theorem uds_path_per_rank_witness:
  "udsPathFor ''/tmp/'' 7 = udsPathFor ''/tmp'' 7 \<and> udsPathFor ''/tmp'' 7 \<noteq> udsPathFor ''/tmp'' 71"
  using uds_path_per_rank [of "''/tmp''" 7 7] uds_path_per_rank [of "''/tmp''" 7 71] by simp


end
