(* ===== verification/Hmc_Ucx.thy ===== *)
theory Hmc_Ucx
  imports Hmc_ConnManager
begin

text \<open>
  The UCX transport: \<^verbatim>\<open>UCXContext\<close> and \<^verbatim>\<open>UCXEndpoint\<close> (src/network/net_ucx.h,
  src/network/ucx_endpoint.cpp), the handshake of \<^verbatim>\<open>UCXClient\<close> and \<^verbatim>\<open>UCXServer\<close>
  (src/network/ucx_client.cpp, src/network/ucx_server.cpp).  The UCP library is the parameter \<open>ucp_api\<close>.
  A completion callback runs inside \<^verbatim>\<open>ucp_worker_progress\<close>; \<open>callback r w\<close> is what it was given for
  request \<open>r\<close>, once it has run.  Messages are given by their bytes.  Polling loops are
  \<^verbatim>\<open>partial_function (option)\<close>: \<open>None\<close> is a call that never returns.
\<close>

section \<open>The UCP library\<close>

datatype ucs_status_t = UCS_OK | UCS_INPROGRESS | UCS_ERR_UNSUPPORTED | UCS_ERR_TIMED_OUT | UCS_ERR int

definition ucs_to_status :: "ucs_status_t \<Rightarrow> status_t" where
  "ucs_to_status st = (case st of UCS_OK \<Rightarrow> SUCCESS | UCS_ERR_UNSUPPORTED \<Rightarrow> UNSUPPORT
     | UCS_ERR_TIMED_OUT \<Rightarrow> TIMEOUT | _ \<Rightarrow> ERROR)"

text \<open>\<^verbatim>\<open>ucs_status_ptr_t\<close>: an error, null when the operation has completed, or a request.\<close>

datatype ucs_status_ptr = PtrErr ucs_status_t | PtrNull | PtrReq nat

datatype ep_target = FromConnRequest nat | ToSockaddr string u16

datatype client_addr = Inet4 string | Inet6 string | OtherFamily int

record 'w ucp_api =
  ucp_config_read :: "'w \<Rightarrow> ucs_status_t \<times> 'w"
  ucp_init :: "'w \<Rightarrow> (ucs_status_t \<times> nat) \<times> 'w"
  ucp_cleanup :: "nat \<Rightarrow> 'w \<Rightarrow> 'w"
  ucp_worker_create :: "nat \<Rightarrow> 'w \<Rightarrow> (ucs_status_t \<times> nat) \<times> 'w"
  ucp_worker_destroy :: "nat \<Rightarrow> 'w \<Rightarrow> 'w"
  ucp_worker_progress :: "nat \<Rightarrow> 'w \<Rightarrow> 'w"
  ucp_worker_get_address :: "nat \<Rightarrow> 'w \<Rightarrow> (ucs_status_t \<times> u8 list) \<times> 'w"
  inet_pton_v4 :: "string \<Rightarrow> bool"
  ucp_listener_create :: "nat \<Rightarrow> string \<Rightarrow> u16 \<Rightarrow> 'w \<Rightarrow> (ucs_status_t \<times> nat) \<times> 'w"
  ucp_listener_destroy :: "nat \<Rightarrow> 'w \<Rightarrow> 'w"
  ucp_conn_request_query :: "nat \<Rightarrow> 'w \<Rightarrow> (ucs_status_t \<times> client_addr) \<times> 'w"
  ucp_ep_create :: "nat \<Rightarrow> ep_target \<Rightarrow> 'w \<Rightarrow> (ucs_status_t \<times> nat) \<times> 'w"
  ucp_ep_close_nbx :: "nat \<Rightarrow> 'w \<Rightarrow> ucs_status_ptr \<times> 'w"
  ucp_mem_map :: "nat \<Rightarrow> addr \<Rightarrow> u64 \<Rightarrow> 'w \<Rightarrow> (ucs_status_t \<times> nat) \<times> 'w"
  ucp_mem_unmap :: "nat \<Rightarrow> nat \<Rightarrow> 'w \<Rightarrow> 'w"
  ucp_rkey_pack :: "nat \<Rightarrow> nat \<Rightarrow> 'w \<Rightarrow> (ucs_status_t \<times> u8 list) \<times> 'w"
  ucp_ep_rkey_unpack :: "nat \<Rightarrow> u8 list \<Rightarrow> 'w \<Rightarrow> (ucs_status_t \<times> nat) \<times> 'w"
  ucp_rkey_destroy :: "nat \<Rightarrow> 'w \<Rightarrow> 'w"
  ucp_put_nbx :: "nat \<Rightarrow> addr \<Rightarrow> u64 \<Rightarrow> u64 \<Rightarrow> nat \<Rightarrow> 'w \<Rightarrow> ucs_status_ptr \<times> 'w"
  ucp_get_nbx :: "nat \<Rightarrow> addr \<Rightarrow> u64 \<Rightarrow> u64 \<Rightarrow> nat \<Rightarrow> 'w \<Rightarrow> ucs_status_ptr \<times> 'w"
  ucp_tag_send_nbx :: "nat \<Rightarrow> u8 list \<Rightarrow> u64 \<Rightarrow> 'w \<Rightarrow> ucs_status_ptr \<times> 'w"
  ucp_tag_recv_nbx :: "nat \<Rightarrow> nat \<Rightarrow> u64 \<Rightarrow> u64 \<Rightarrow> 'w \<Rightarrow> (ucs_status_ptr \<times> u8 list) \<times> 'w"
  ucp_request_check_status :: "nat \<Rightarrow> 'w \<Rightarrow> ucs_status_t"
  ucp_request_free :: "nat \<Rightarrow> 'w \<Rightarrow> 'w"
  callback :: "nat \<Rightarrow> 'w \<Rightarrow> (ucs_status_t \<times> u8 list) option"
  ucx_now :: "'w \<Rightarrow> int \<times> 'w"

section \<open>Tags and metadata\<close>

definition kData :: u8 where "kData = 1"
definition kCtrl :: u8 where "kCtrl = 2"
definition kMaskAll :: u64 where "kMaskAll = - 1"

definition make_tag :: "u8 \<Rightarrow> u16 \<Rightarrow> u32 \<Rightarrow> u64" where
  "make_tag t ch sn = (push_bit 56 (ucast t) OR push_bit 40 (ucast ch)) OR push_bit 8 (ucast sn)"

record UcxRemoteMemInfo =
  mi_base_addr :: u64
  mi_size :: u64
  mi_rkey_len :: u32
  mi_listen_port :: u16
  mi_reserved :: u16

definition sizeof_mem_info :: nat where "sizeof_mem_info = 24"

definition mem_info_bytes :: "UcxRemoteMemInfo \<Rightarrow> u8 list" where
  "mem_info_bytes h = le_bytes 8 (mi_base_addr h) @ le_bytes 8 (mi_size h) @ le_bytes 4 (mi_rkey_len h)
     @ le_bytes 2 (mi_listen_port h) @ le_bytes 2 (mi_reserved h)"

definition mem_info_of :: "u8 list \<Rightarrow> UcxRemoteMemInfo" where
  "mem_info_of bs = \<lparr> mi_base_addr = le_word (take 8 bs), mi_size = le_word (take 8 (drop 8 bs)),
     mi_rkey_len = le_word (take 4 (drop 16 bs)), mi_listen_port = le_word (take 2 (drop 20 bs)),
     mi_reserved = le_word (take 2 (drop 22 bs)) \<rparr>"

definition no_mem_info :: UcxRemoteMemInfo where
  "no_mem_info = \<lparr> mi_base_addr = 0, mi_size = 0, mi_rkey_len = 0, mi_listen_port = 0, mi_reserved = 0 \<rparr>"

section \<open>Context\<close>

record UCXContext =
  uc_context :: "nat option"
  uc_worker :: "nat option"
  uc_listener :: "nat option"
  uc_pending :: "nat list"
  uc_initialized :: bool

definition new_UCXContext :: UCXContext where
  "new_UCXContext = \<lparr> uc_context = None, uc_worker = None, uc_listener = None, uc_pending = [],
     uc_initialized = False \<rparr>"

definition ucx_init :: "'w ucp_api \<Rightarrow> UCXContext \<Rightarrow> 'w \<Rightarrow> status_t \<times> UCXContext \<times> 'w" where
  "ucx_init U c w =
    (if uc_initialized c then (SUCCESS, c, w)
     else case ucp_config_read U w of (st1, w1) \<Rightarrow>
     if st1 \<noteq> UCS_OK then (ucs_to_status st1, c, w1)
     else case ucp_init U w1 of ((st2, x), w2) \<Rightarrow>
     if st2 \<noteq> UCS_OK then (ucs_to_status st2, c, w2)
     else case ucp_worker_create U x w2 of ((st3, k), w3) \<Rightarrow>
     if st3 \<noteq> UCS_OK then (ucs_to_status st3, c, ucp_cleanup U x w3)
     else (SUCCESS, c\<lparr> uc_context := Some x, uc_worker := Some k, uc_initialized := True \<rparr>, w3))"

definition stopListener :: "'w ucp_api \<Rightarrow> UCXContext \<Rightarrow> 'w \<Rightarrow> UCXContext \<times> 'w" where
  "stopListener U c w =
    (c\<lparr> uc_listener := None, uc_pending := [] \<rparr>,
     case uc_listener c of None \<Rightarrow> w | Some l \<Rightarrow> ucp_listener_destroy U l w)"

definition finalize :: "'w ucp_api \<Rightarrow> UCXContext \<Rightarrow> 'w \<Rightarrow> UCXContext \<times> 'w" where
  "finalize U c w =
    (case stopListener U c w of (c1, w1) \<Rightarrow>
       if \<not> uc_initialized c1 then (c1, w1)
       else
         let w2 = (case uc_worker c1 of None \<Rightarrow> w1 | Some k \<Rightarrow> ucp_worker_destroy U k w1);
             w3 = (case uc_context c1 of None \<Rightarrow> w2 | Some x \<Rightarrow> ucp_cleanup U x w2)
         in (c1\<lparr> uc_worker := None, uc_context := None, uc_initialized := False \<rparr>, w3))"

definition ucx_progress :: "'w ucp_api \<Rightarrow> UCXContext \<Rightarrow> 'w \<Rightarrow> 'w" where
  "ucx_progress U c w = (case uc_worker c of None \<Rightarrow> w | Some k \<Rightarrow> ucp_worker_progress U k w)"

definition packWorkerAddress :: "'w ucp_api \<Rightarrow> UCXContext \<Rightarrow> 'w \<Rightarrow> (status_t \<times> u8 list) \<times> UCXContext \<times> 'w" where
  "packWorkerAddress U c w =
    (case ucx_init U c w of (s, c1, w1) \<Rightarrow>
       if s \<noteq> SUCCESS then ((s, []), c1, w1)
       else case ucp_worker_get_address U (the (uc_worker c1)) w1 of ((st, a), w2) \<Rightarrow>
         if st \<noteq> UCS_OK then ((ucs_to_status st, []), c1, w2) else ((SUCCESS, a), c1, w2))"

definition onConnectRequest :: "nat \<Rightarrow> UCXContext \<Rightarrow> UCXContext" where
  "onConnectRequest cr c = c\<lparr> uc_pending := uc_pending c @ [cr] \<rparr>"

definition startListener :: "'w ucp_api \<Rightarrow> string \<Rightarrow> u16 \<Rightarrow> UCXContext \<Rightarrow> 'w \<Rightarrow> status_t \<times> UCXContext \<times> 'w" where
  "startListener U ip port c w =
    (case ucx_init U c w of (s, c1, w1) \<Rightarrow>
       if s \<noteq> SUCCESS then (s, c1, w1)
       else if uc_listener c1 \<noteq> None then (SUCCESS, c1, w1)
       else if \<not> inet_pton_v4 U ip then (ERROR, c1, w1)
       else case ucp_listener_create U (the (uc_worker c1)) ip port w1 of ((st, l), w2) \<Rightarrow>
         if st \<noteq> UCS_OK then (ucs_to_status st, c1, w2)
         else (SUCCESS, c1\<lparr> uc_listener := Some l \<rparr>, w2))"

definition popConnRequest :: "UCXContext \<Rightarrow> nat option \<times> UCXContext" where
  "popConnRequest c = (case uc_pending c of [] \<Rightarrow> (None, c) | r # rs \<Rightarrow> (Some r, c\<lparr> uc_pending := rs \<rparr>))"

section \<open>Endpoint\<close>

record UCXEndpoint =
  ue_ep :: "nat option"
  ue_buffer :: ConnBuffer
  ue_role :: EndpointType
  tag_seq :: u32
  local_mem_ready :: bool
  local_mem :: "nat option"
  local_base :: u64
  local_size :: u64
  remote_base :: u64
  remote_size :: u64
  remote_rkey :: "nat option"
  inflight_reqs :: "u64 \<rightharpoonup> nat"
  next_wrid :: u64

definition new_UCXEndpoint :: "nat \<Rightarrow> ConnBuffer \<Rightarrow> EndpointType \<Rightarrow> UCXEndpoint" where
  "new_UCXEndpoint ep b r = \<lparr> ue_ep = Some ep, ue_buffer = b, ue_role = r, tag_seq = 1, local_mem_ready = False,
     local_mem = None, local_base = ptr b, local_size = buffer_size b, remote_base = 0, remote_size = 0,
     remote_rkey = None, inflight_reqs = Map.empty, next_wrid = 1 \<rparr>"

definition nextDefaultTag :: "UCXEndpoint \<Rightarrow> u64 \<times> UCXEndpoint" where
  "nextDefaultTag e = (make_tag kData 0 (tag_seq e), e\<lparr> tag_seq := tag_seq e + 1 \<rparr>)"

subsection \<open>Completion callbacks\<close>

record UcxRequest =
  rq_completed :: bool
  rq_status :: ucs_status_t
  rq_recv_len :: nat

definition new_UcxRequest :: UcxRequest where
  "new_UcxRequest = \<lparr> rq_completed = False, rq_status = UCS_INPROGRESS, rq_recv_len = 0 \<rparr>"

definition onSendComplete :: "ucs_status_t \<Rightarrow> UcxRequest \<Rightarrow> UcxRequest" where
  "onSendComplete st m = m\<lparr> rq_status := st, rq_completed := True \<rparr>"

definition onRecvComplete :: "ucs_status_t \<Rightarrow> nat \<Rightarrow> UcxRequest \<Rightarrow> UcxRequest" where
  "onRecvComplete st len m =
    (if st = UCS_OK then m\<lparr> rq_recv_len := len \<rparr> else m)\<lparr> rq_status := st, rq_completed := True \<rparr>"

definition onRmaComplete :: "ucs_status_t \<Rightarrow> UcxRequest \<Rightarrow> UcxRequest" where
  "onRmaComplete st m = m\<lparr> rq_status := st, rq_completed := True \<rparr>"

subsection \<open>Tagged messages\<close>

text \<open>A request of the tag layer: completed at once, or one to wait for.\<close>

datatype tag_req = Immediate | Pending nat

definition tagSendAsync ::
  "'w ucp_api \<Rightarrow> UCXEndpoint \<Rightarrow> u8 list option \<Rightarrow> u16 \<Rightarrow> u32 \<Rightarrow> 'w \<Rightarrow> (status_t \<times> tag_req option) \<times> UCXEndpoint \<times> 'w" where
  "tagSendAsync U e buf ch sn w =
    (case (ue_ep e, buf) of
       (Some ep, Some bs) \<Rightarrow>
         if bs = [] then ((SUCCESS, None), e, w)
         else
           let (n, e1) = (if sn \<noteq> 0 then (sn, e) else (tag_seq e, e\<lparr> tag_seq := tag_seq e + 1 \<rparr>))
           in (case ucp_tag_send_nbx U ep bs (make_tag kData ch n) w of
                 (PtrErr st, w1) \<Rightarrow> ((ERROR, None), e1, w1)
               | (PtrNull, w1) \<Rightarrow> ((SUCCESS, Some Immediate), e1, w1)
               | (PtrReq r, w1) \<Rightarrow> ((SUCCESS, Some (Pending r)), e1, w1))
     | _ \<Rightarrow> ((SUCCESS, None), e, w))"

text \<open>A receive matches on type and channel only when no sequence number is given.  When it completes
  at once the bytes are in the buffer.\<close>

definition recv_mask :: "u32 \<Rightarrow> u64" where
  "recv_mask sn = (if sn = 0 then NOT (push_bit 8 (0xFFFFFFFF :: u64)) else kMaskAll)"

definition tagRecvAsync ::
  "'w ucp_api \<Rightarrow> UCXContext \<Rightarrow> bool \<Rightarrow> nat \<Rightarrow> u16 \<Rightarrow> u32 \<Rightarrow> 'w \<Rightarrow> (status_t \<times> (tag_req \<times> u8 list) option) \<times> 'w" where
  "tagRecvAsync U c buf_ok capacity ch sn w =
    (if \<not> buf_ok \<or> capacity = 0 then ((ERROR, None), w)
     else case ucp_tag_recv_nbx U (the (uc_worker c)) capacity (make_tag kData ch sn) (recv_mask sn) w of
       ((PtrErr st, _), w1) \<Rightarrow> ((ERROR, None), w1)
     | ((PtrNull, bs), w1) \<Rightarrow> ((SUCCESS, Some (Immediate, bs)), w1)
     | ((PtrReq r, _), w1) \<Rightarrow> ((SUCCESS, Some (Pending r, [])), w1))"

text \<open>The polling loop of \<^verbatim>\<open>waitRequest\<close> and \<^verbatim>\<open>tagRecv\<close>: the request's metadata and the bytes received.\<close>

partial_function (option) wait_tag ::
  "'w ucp_api \<Rightarrow> UCXContext \<Rightarrow> nat \<Rightarrow> 'w \<Rightarrow> ((UcxRequest \<times> u8 list) \<times> 'w) option" where
  "wait_tag U c r w =
    (let w1 = ucx_progress U c w in
     case callback U r w1 of
       Some (st, bs) \<Rightarrow> Some ((onRecvComplete st (length bs) new_UcxRequest, bs), w1)
     | None \<Rightarrow>
         (let st = ucp_request_check_status U r w1
          in if st \<noteq> UCS_INPROGRESS then Some ((onSendComplete st new_UcxRequest, []), w1)
             else wait_tag U c r w1))"

definition waitRequest :: "'w ucp_api \<Rightarrow> UCXContext \<Rightarrow> tag_req option \<Rightarrow> 'w \<Rightarrow> (status_t \<times> 'w) option" where
  "waitRequest U c req w =
    (case req of
       None \<Rightarrow> Some (SUCCESS, w)
     | Some Immediate \<Rightarrow> Some (ucs_to_status UCS_OK, w)
     | Some (Pending r) \<Rightarrow>
         (case wait_tag U c r w of
            None \<Rightarrow> None
          | Some ((m, _), w1) \<Rightarrow> Some (ucs_to_status (rq_status m), ucp_request_free U r w1)))"

definition tagSend ::
  "'w ucp_api \<Rightarrow> UCXContext \<Rightarrow> UCXEndpoint \<Rightarrow> u8 list option \<Rightarrow> u16 \<Rightarrow> u32 \<Rightarrow> 'w \<Rightarrow> (status_t \<times> UCXEndpoint \<times> 'w) option" where
  "tagSend U c e buf ch sn w =
    (case tagSendAsync U e buf ch sn w of ((s, req), e1, w1) \<Rightarrow>
       if s \<noteq> SUCCESS then Some (s, e1, w1)
       else map_option (\<lambda>(s1, w2). (s1, e1, w2)) (waitRequest U c req w1))"

text \<open>Status, reported length and the bytes in the buffer.  A receive that completes at once has not
  run its callback: its length is still zero.\<close>

definition tagRecv ::
  "'w ucp_api \<Rightarrow> UCXContext \<Rightarrow> bool \<Rightarrow> nat \<Rightarrow> u16 \<Rightarrow> u32 \<Rightarrow> 'w \<Rightarrow> ((status_t \<times> nat \<times> u8 list) \<times> 'w) option" where
  "tagRecv U c buf_ok capacity ch sn w =
    (case tagRecvAsync U c buf_ok capacity ch sn w of
       ((s, None), w1) \<Rightarrow> Some ((if s \<noteq> SUCCESS then s else ERROR, 0, []), w1)
     | ((s, Some (Immediate, bs)), w1) \<Rightarrow> Some ((ucs_to_status UCS_OK, rq_recv_len new_UcxRequest, bs), w1)
     | ((s, Some (Pending r, _)), w1) \<Rightarrow>
         (case wait_tag U c r w1 of
            None \<Rightarrow> None
          | Some ((m, bs), w2) \<Rightarrow>
              Some ((ucs_to_status (rq_status m), rq_recv_len m, bs), ucp_request_free U r w2)))"

subsection \<open>Memory\<close>

definition ensureLocalMemRegistered :: "'w ucp_api \<Rightarrow> UCXContext \<Rightarrow> UCXEndpoint \<Rightarrow> 'w \<Rightarrow> status_t \<times> UCXEndpoint \<times> 'w" where
  "ensureLocalMemRegistered U c e w =
    (if local_mem_ready e then (SUCCESS, e, w)
     else if ptr (ue_buffer e) = 0 \<or> local_size e = 0 then (ERROR, e, w)
     else case ucp_mem_map U (the (uc_context c)) (ptr (ue_buffer e)) (local_size e) w of ((st, m), w1) \<Rightarrow>
       if st \<noteq> UCS_OK then (ucs_to_status st, e, w1)
       else (SUCCESS, e\<lparr> local_mem := Some m, local_mem_ready := True \<rparr>, w1))"

definition exportLocalMemInfo ::
  "'w ucp_api \<Rightarrow> UCXContext \<Rightarrow> UCXEndpoint \<Rightarrow> UcxRemoteMemInfo \<Rightarrow> 'w
     \<Rightarrow> (status_t \<times> UcxRemoteMemInfo \<times> u8 list) \<times> UCXEndpoint \<times> 'w" where
  "exportLocalMemInfo U c e hdr w =
    (case ensureLocalMemRegistered U c e w of (s, e1, w1) \<Rightarrow>
       if s \<noteq> SUCCESS then ((s, hdr, []), e1, w1)
       else case ucp_rkey_pack U (the (uc_context c)) (the (local_mem e1)) w1 of ((st, bs), w2) \<Rightarrow>
         if st \<noteq> UCS_OK then ((ucs_to_status st, hdr, []), e1, w2)
         else ((SUCCESS, hdr\<lparr> mi_base_addr := local_base e1, mi_size := local_size e1,
                  mi_rkey_len := of_nat (length bs) \<rparr>, bs), e1, w2))"

definition setRemoteMemInfo ::
  "'w ucp_api \<Rightarrow> UCXEndpoint \<Rightarrow> UcxRemoteMemInfo \<Rightarrow> u8 list \<Rightarrow> 'w \<Rightarrow> status_t \<times> UCXEndpoint \<times> 'w" where
  "setRemoteMemInfo U e hdr rkey_bytes w =
    (case ue_ep e of
       None \<Rightarrow> (ERROR, e, w)
     | Some ep \<Rightarrow>
         if mi_base_addr hdr = 0 \<or> mi_size hdr = 0 \<or> mi_rkey_len hdr = 0 then (ERROR, e, w)
         else if length rkey_bytes \<noteq> unat (mi_rkey_len hdr) then (ERROR, e, w)
         else
           let w1 = (case remote_rkey e of None \<Rightarrow> w | Some k \<Rightarrow> ucp_rkey_destroy U k w);
               e1 = e\<lparr> remote_rkey := None \<rparr>
           in (case ucp_ep_rkey_unpack U ep rkey_bytes w1 of ((st, k), w2) \<Rightarrow>
                 if st \<noteq> UCS_OK then (ucs_to_status st, e1, w2)
                 else (SUCCESS, e1\<lparr> remote_base := mi_base_addr hdr, remote_size := mi_size hdr,
                        remote_rkey := Some k \<rparr>, w2)))"

subsection \<open>Transfers\<close>

text \<open>The checks shared by the four transfers: endpoint and remote key, or \<open>None\<close>.\<close>

definition rma_target :: "UCXEndpoint \<Rightarrow> size_t \<Rightarrow> size_t \<Rightarrow> size_t \<Rightarrow> (nat \<times> nat) option" where
  "rma_target e local_off remote_off len =
    (case (ue_ep e, remote_rkey e) of
       (Some ep, Some k) \<Rightarrow>
         if ptr (ue_buffer e) = 0 \<or> local_off + len > local_size e \<or> remote_off + len > remote_size e then None
         else Some (ep, k)
     | _ \<Rightarrow> None)"

text \<open>Poll until the request has completed, then free it.\<close>

partial_function (option) wait_rma :: "'w ucp_api \<Rightarrow> UCXContext \<Rightarrow> nat \<Rightarrow> 'w \<Rightarrow> (ucs_status_t \<times> 'w) option" where
  "wait_rma U c r w =
    (if ucp_request_check_status U r w = UCS_INPROGRESS then wait_rma U c r (ucx_progress U c w)
     else Some (ucp_request_check_status U r w, ucp_request_free U r w))"

definition finish_rma :: "'w ucp_api \<Rightarrow> UCXContext \<Rightarrow> ucs_status_ptr \<times> 'w \<Rightarrow> (status_t \<times> 'w) option" where
  "finish_rma U c rw =
    (case rw of
       (PtrErr st, w) \<Rightarrow> Some (ERROR, w)
     | (PtrNull, w) \<Rightarrow> Some (SUCCESS, w)
     | (PtrReq r, w) \<Rightarrow> map_option (\<lambda>(st, w1). (ucs_to_status st, w1)) (wait_rma U c r w))"

definition ucx_writeData ::
  "'w ucp_api \<Rightarrow> UCXContext \<Rightarrow> UCXEndpoint \<Rightarrow> size_t \<Rightarrow> size_t \<Rightarrow> size_t \<Rightarrow> 'w \<Rightarrow> (status_t \<times> 'w) option" where
  "ucx_writeData U c e local_off remote_off len w =
    (case rma_target e local_off remote_off len of
       None \<Rightarrow> Some (ERROR, w)
     | Some (ep, k) \<Rightarrow> finish_rma U c (ucp_put_nbx U ep (ptr (ue_buffer e) + local_off) len (remote_base e + remote_off) k w))"

definition ucx_readData ::
  "'w ucp_api \<Rightarrow> UCXContext \<Rightarrow> UCXEndpoint \<Rightarrow> size_t \<Rightarrow> size_t \<Rightarrow> size_t \<Rightarrow> 'w \<Rightarrow> (status_t \<times> 'w) option" where
  "ucx_readData U c e local_off remote_off len w =
    (case rma_target e local_off remote_off len of
       None \<Rightarrow> Some (ERROR, w)
     | Some (ep, k) \<Rightarrow> finish_rma U c (ucp_get_nbx U ep (ptr (ue_buffer e) + local_off) len (remote_base e + remote_off) k w))"

text \<open>Non-blocking: the identifier under which the request is kept, 0 when there is none.\<close>

definition keep_request :: "UCXEndpoint \<Rightarrow> ucs_status_ptr \<times> 'w \<Rightarrow> (status_t \<times> u64) \<times> UCXEndpoint \<times> 'w" where
  "keep_request e rw =
    (case rw of
       (PtrErr st, w) \<Rightarrow> ((ERROR, 0), e, w)
     | (PtrNull, w) \<Rightarrow> ((SUCCESS, 0), e, w)
     | (PtrReq r, w) \<Rightarrow>
         let i = next_wrid e + 1
         in ((SUCCESS, i), e\<lparr> next_wrid := next_wrid e + 1, inflight_reqs := (inflight_reqs e)(i \<mapsto> r) \<rparr>, w))"

definition ucx_writeDataNB ::
  "'w ucp_api \<Rightarrow> UCXEndpoint \<Rightarrow> size_t \<Rightarrow> size_t \<Rightarrow> size_t \<Rightarrow> 'w \<Rightarrow> (status_t \<times> u64) \<times> UCXEndpoint \<times> 'w" where
  "ucx_writeDataNB U e local_off remote_off len w =
    (case rma_target e local_off remote_off len of
       None \<Rightarrow> ((ERROR, 0), e, w)
     | Some (ep, k) \<Rightarrow> keep_request e (ucp_put_nbx U ep (ptr (ue_buffer e) + local_off) len (remote_base e + remote_off) k w))"

definition ucx_readDataNB ::
  "'w ucp_api \<Rightarrow> UCXEndpoint \<Rightarrow> size_t \<Rightarrow> size_t \<Rightarrow> size_t \<Rightarrow> 'w \<Rightarrow> (status_t \<times> u64) \<times> UCXEndpoint \<times> 'w" where
  "ucx_readDataNB U e local_off remote_off len w =
    (case rma_target e local_off remote_off len of
       None \<Rightarrow> ((ERROR, 0), e, w)
     | Some (ep, k) \<Rightarrow> keep_request e (ucp_get_nbx U ep (ptr (ue_buffer e) + local_off) len (remote_base e + remote_off) k w))"

subsection \<open>Waiting\<close>

definition ucx_waitWrId ::
  "'w ucp_api \<Rightarrow> UCXContext \<Rightarrow> u64 \<Rightarrow> UCXEndpoint \<Rightarrow> 'w \<Rightarrow> (status_t \<times> UCXEndpoint \<times> 'w) option" where
  "ucx_waitWrId U c wid e w =
    (case inflight_reqs e wid of
       None \<Rightarrow> Some (ERROR, e, w)
     | Some r \<Rightarrow>
         map_option (\<lambda>(st, w1). (ucs_to_status st, e\<lparr> inflight_reqs := (inflight_reqs e)(wid := None) \<rparr>, w1))
           (wait_rma U c r w))"

text \<open>Take the requests of the identifiers out of the table; identifier 0 is skipped.  An unknown one
  ends the call, but those before it have left the table.\<close>

primrec take_inflight :: "u64 list \<Rightarrow> (u64 \<rightharpoonup> nat) \<Rightarrow> nat list option \<times> (u64 \<rightharpoonup> nat)" where
  "take_inflight [] f = (Some [], f)"
| "take_inflight (i # is) f =
    (if i = 0 then take_inflight is f
     else case f i of
       None \<Rightarrow> (None, f)
     | Some r \<Rightarrow> (case take_inflight is (f(i := None)) of (rs, g) \<Rightarrow> (map_option ((#) r) rs, g)))"

text \<open>One pass over the requests from index \<open>i\<close>: a finished one is freed and replaced by the last.\<close>

function sweep :: "'w ucp_api \<Rightarrow> nat \<Rightarrow> nat list \<Rightarrow> 'w \<Rightarrow> nat list \<times> 'w" where
  "sweep U i rs w =
    (if length rs \<le> i then (rs, w)
     else if ucp_request_check_status U (rs ! i) w = UCS_INPROGRESS then sweep U (Suc i) rs w
     else sweep U i (butlast (rs[i := last rs])) (ucp_request_free U (rs ! i) w))"
  by pat_completeness auto
termination by (relation "measure (\<lambda>(U, i, rs, w). length rs - i)") auto

declare sweep.simps [simp del]

text \<open>The polling loop; \<open>start\<close> and \<open>timeout\<close> are in nanoseconds.\<close>

partial_function (option) multi_loop ::
  "'w ucp_api \<Rightarrow> UCXContext \<Rightarrow> int \<Rightarrow> int \<Rightarrow> nat list \<Rightarrow> 'w \<Rightarrow> (status_t \<times> 'w) option" where
  "multi_loop U c start timeout rs w =
    (if rs = [] then Some (SUCCESS, w)
     else case sweep U 0 rs (ucx_progress U c w) of (rs1, w1) \<Rightarrow>
       if length rs1 \<noteq> length rs then multi_loop U c start timeout rs1 w1
       else case ucx_now U w1 of (now, w2) \<Rightarrow>
         if now - start > timeout then Some (TIMEOUT, w2) else multi_loop U c start timeout rs1 w2)"

definition ucx_waitWrIdMulti ::
  "'w ucp_api \<Rightarrow> UCXContext \<Rightarrow> int \<Rightarrow> u64 list \<Rightarrow> UCXEndpoint \<Rightarrow> 'w \<Rightarrow> (status_t \<times> UCXEndpoint \<times> 'w) option" where
  "ucx_waitWrIdMulti U c timeout wrids e w =
    (if wrids = [] then Some (SUCCESS, e, w)
     else case take_inflight wrids (inflight_reqs e) of
       (None, f) \<Rightarrow> Some (ERROR, e\<lparr> inflight_reqs := f \<rparr>, w)
     | (Some rs, f) \<Rightarrow>
         let e1 = e\<lparr> inflight_reqs := f \<rparr>
         in if rs = [] then Some (SUCCESS, e1, w)
            else (case ucx_now U w of (start, w1) \<Rightarrow>
              map_option (\<lambda>(s, w2). (s, e1, w2)) (multi_loop U c start timeout rs w1)))"

subsection \<open>Closing\<close>

definition ucx_closeEndpoint :: "'w ucp_api \<Rightarrow> UCXContext \<Rightarrow> UCXEndpoint \<Rightarrow> 'w \<Rightarrow> (status_t \<times> UCXEndpoint \<times> 'w) option" where
  "ucx_closeEndpoint U c e w =
    (case ue_ep e of
       None \<Rightarrow> Some (SUCCESS, e, w)
     | Some ep \<Rightarrow>
         (case ucp_ep_close_nbx U ep w of
            (PtrReq r, w1) \<Rightarrow> map_option (\<lambda>(_, w2). (SUCCESS, e\<lparr> ue_ep := None \<rparr>, w2)) (wait_rma U c r w1)
          | (_, w1) \<Rightarrow> Some (SUCCESS, e\<lparr> ue_ep := None \<rparr>, w1)))"

definition delete_UCXEndpoint :: "'w ucp_api \<Rightarrow> UCXContext \<Rightarrow> UCXEndpoint \<Rightarrow> 'w \<Rightarrow> 'w option" where
  "delete_UCXEndpoint U c e w =
    map_option (\<lambda>(_, e1, w1).
      let w2 = (case local_mem e1 of None \<Rightarrow> w1 | Some m \<Rightarrow> ucp_mem_unmap U (the (uc_context c)) m w1)
      in (case remote_rkey e1 of None \<Rightarrow> w2 | Some k \<Rightarrow> ucp_rkey_destroy U k w2))
      (ucx_closeEndpoint U c e w)"

section \<open>The endpoint as a virtual class\<close>

text \<open>An endpoint keeps the context of the side that made it: \<open>cc\<close> is the one of the clients,
  \<open>cs\<close> the one of the server.  Connecting, listening and the destructor, which may not return, are
  arguments; a UCX endpoint is never an \<^verbatim>\<open>RDMAEndpoint\<close>.\<close>

definition endpoint_context :: "UCXContext \<Rightarrow> UCXContext \<Rightarrow> UCXEndpoint \<Rightarrow> UCXContext" where
  "endpoint_context cc cs e = (case ue_role e of Client \<Rightarrow> cc | Server \<Rightarrow> cs)"

definition ucx_class ::
  "'w ucp_api \<Rightarrow> UCXContext \<Rightarrow> UCXContext \<Rightarrow> (UCXEndpoint \<Rightarrow> 'w \<Rightarrow> 'w)
    \<Rightarrow> (ConnType \<Rightarrow> string \<Rightarrow> u16 \<Rightarrow> 'w \<Rightarrow> UCXEndpoint option \<times> 'w) \<Rightarrow> (ConnType \<Rightarrow> 'w \<Rightarrow> 'w)
    \<Rightarrow> (UCXEndpoint, 'w) Endpoint" where
  "ucx_class U cc cs destroy connect stopListen = \<lparr>
     m_writeData = (\<lambda>e lo ro n w. map_option (\<lambda>(st, w1). (st, e, w1))
        (ucx_writeData U (endpoint_context cc cs e) e lo ro n w)),
     m_readData = (\<lambda>e lo ro n w. map_option (\<lambda>(st, w1). (st, e, w1))
        (ucx_readData U (endpoint_context cc cs e) e lo ro n w)),
     m_writeDataNB = ucx_writeDataNB U, m_readDataNB = ucx_readDataNB U,
     m_waitWrId = (\<lambda>i e. ucx_waitWrId U (endpoint_context cc cs e) i e),
     m_waitWrIdMulti = (\<lambda>t is e. ucx_waitWrIdMulti U (endpoint_context cc cs e) t is e),
     m_uhm_send = (\<lambda>a n t e w. Some (UNSUPPORT, e, w)),
     m_uhm_recv = (\<lambda>a n t f e w. Some (UNSUPPORT, e, w)),
     m_destroy = destroy, as_rdma = (\<lambda>e. None), of_rdma = (\<lambda>r. undefined),
     m_connect = connect, m_stopListen = stopListen \<rparr>"

section \<open>Client\<close>

definition kHandshakeChannel :: u16 where "kHandshakeChannel = 1"
definition kSeqHdr :: u32 where "kSeqHdr = 1"
definition kSeqRkey :: u32 where "kSeqRkey = 2"

text \<open>The client's side of the handshake: header out, header in, key out, key in.\<close>

definition client_handshake ::
  "'w ucp_api \<Rightarrow> UCXContext \<Rightarrow> u16 \<Rightarrow> UCXEndpoint \<Rightarrow> 'w \<Rightarrow> (bool \<times> UCXEndpoint \<times> 'w) option" where
  "client_handshake U c listen_port e w =
    (case exportLocalMemInfo U c e no_mem_info w of ((s0, hdr, key_out), e0, w0) \<Rightarrow>
     if s0 \<noteq> SUCCESS then Some (False, e0, w0)
     else case tagSend U c e0 (Some (mem_info_bytes (hdr\<lparr> mi_listen_port := listen_port \<rparr>))) kHandshakeChannel kSeqHdr w0 of
       None \<Rightarrow> None
     | Some (s1, e1, w1) \<Rightarrow>
     if s1 \<noteq> SUCCESS then Some (False, e1, w1)
     else case tagRecv U c True sizeof_mem_info kHandshakeChannel kSeqHdr w1 of
       None \<Rightarrow> None
     | Some ((s2, got, bs), w2) \<Rightarrow>
     if s2 \<noteq> SUCCESS \<or> got \<noteq> sizeof_mem_info \<or> mi_rkey_len (mem_info_of bs) = 0 then Some (False, e1, w2)
     else case tagSend U c e1 (Some key_out) kHandshakeChannel kSeqRkey w2 of
       None \<Rightarrow> None
     | Some (s3, e3, w3) \<Rightarrow>
     if s3 \<noteq> SUCCESS then Some (False, e3, w3)
     else case tagRecv U c True (unat (mi_rkey_len (mem_info_of bs))) kHandshakeChannel kSeqRkey w3 of
       None \<Rightarrow> None
     | Some ((s4, got4, key), w4) \<Rightarrow>
     if s4 \<noteq> SUCCESS \<or> got4 \<noteq> unat (mi_rkey_len (mem_info_of bs)) then Some (False, e3, w4)
     else (case setRemoteMemInfo U e3 (mem_info_of bs) key w4 of (s5, e5, w5) \<Rightarrow> Some (s5 = SUCCESS, e5, w5)))"

definition ucx_connect ::
  "'w ucp_api \<Rightarrow> u16 \<Rightarrow> ConnBuffer \<Rightarrow> string \<Rightarrow> u16 \<Rightarrow> UCXContext \<Rightarrow> 'w \<Rightarrow> (UCXEndpoint option \<times> UCXContext \<times> 'w) option" where
  "ucx_connect U listen_port b ip port c w =
    (case ucx_init U c w of (s, c1, w1) \<Rightarrow>
     if s \<noteq> SUCCESS \<or> \<not> inet_pton_v4 U ip then Some (None, c1, w1)
     else case ucp_ep_create U (the (uc_worker c1)) (ToSockaddr ip port) w1 of ((st, ep), w2) \<Rightarrow>
     if st \<noteq> UCS_OK then Some (None, c1, w2)
     else case client_handshake U c1 listen_port (new_UCXEndpoint ep b Client) w2 of
       None \<Rightarrow> None
     | Some (True, e, w3) \<Rightarrow> Some (Some e, c1, w3)
     | Some (False, e, w3) \<Rightarrow>
         (case ucx_closeEndpoint U c1 e w3 of
            None \<Rightarrow> None
          | Some (_, e4, w4) \<Rightarrow> map_option (\<lambda>w5. (None, c1, w5)) (delete_UCXEndpoint U c1 e4 w4)))"

section \<open>Server\<close>

definition peer_ip_from_conn_request :: "'w ucp_api \<Rightarrow> nat \<Rightarrow> 'w \<Rightarrow> string option \<times> 'w" where
  "peer_ip_from_conn_request U cr w =
    (case ucp_conn_request_query U cr w of ((st, a), w1) \<Rightarrow>
       (if st \<noteq> UCS_OK then None
        else case a of Inet4 ip \<Rightarrow> Some ip | Inet6 ip \<Rightarrow> Some ip | OtherFamily n \<Rightarrow> None, w1))"

text \<open>The server's side: header in, header out, key in, key out.  The result is the client's header.\<close>

definition server_handshake ::
  "'w ucp_api \<Rightarrow> UCXContext \<Rightarrow> UCXEndpoint \<Rightarrow> 'w \<Rightarrow> (UcxRemoteMemInfo option \<times> UCXEndpoint \<times> 'w) option" where
  "server_handshake U c e w =
    (case exportLocalMemInfo U c e no_mem_info w of ((s0, hdr, key_out), e0, w0) \<Rightarrow>
     if s0 \<noteq> SUCCESS then Some (None, e0, w0)
     else case tagRecv U c True sizeof_mem_info kHandshakeChannel kSeqHdr w0 of
       None \<Rightarrow> None
     | Some ((s1, got, bs), w1) \<Rightarrow>
     if s1 \<noteq> SUCCESS \<or> got \<noteq> sizeof_mem_info \<or> mi_rkey_len (mem_info_of bs) = 0 then Some (None, e0, w1)
     else case tagSend U c e0 (Some (mem_info_bytes hdr)) kHandshakeChannel kSeqHdr w1 of
       None \<Rightarrow> None
     | Some (s2, e2, w2) \<Rightarrow>
     if s2 \<noteq> SUCCESS then Some (None, e2, w2)
     else case tagRecv U c True (unat (mi_rkey_len (mem_info_of bs))) kHandshakeChannel kSeqRkey w2 of
       None \<Rightarrow> None
     | Some ((s3, got3, key), w3) \<Rightarrow>
     if s3 \<noteq> SUCCESS \<or> got3 \<noteq> unat (mi_rkey_len (mem_info_of bs)) then Some (None, e2, w3)
     else case tagSend U c e2 (Some key_out) kHandshakeChannel kSeqRkey w3 of
       None \<Rightarrow> None
     | Some (s4, e4, w4) \<Rightarrow>
     if s4 \<noteq> SUCCESS then Some (None, e4, w4)
     else (case setRemoteMemInfo U e4 (mem_info_of bs) key w4 of (s5, e5, w5) \<Rightarrow>
             Some (if s5 = SUCCESS then Some (mem_info_of bs) else None, e5, w5)))"

text \<open>What the accepting thread does with one connection request.  \<open>wrap\<close> sees a UCX endpoint as an
  \<^verbatim>\<open>Endpoint\<close> of the table.\<close>

definition ucx_serve_request ::
  "'w ucp_api \<Rightarrow> ('e, 'w) Endpoint \<Rightarrow> (UCXEndpoint \<Rightarrow> 'e) \<Rightarrow> ConnBuffer \<Rightarrow> UCXContext \<Rightarrow> nat \<Rightarrow> 'e ConnManager \<Rightarrow> 'w
     \<Rightarrow> ('e ConnManager \<times> 'w) option" where
  "ucx_serve_request U C wrap b c cr cm w =
    (case peer_ip_from_conn_request U cr w of
       (None, w1) \<Rightarrow> Some (cm, w1)
     | (Some ip, w1) \<Rightarrow>
     (case ucp_ep_create U (the (uc_worker c)) (FromConnRequest cr) w1 of ((st, ep), w2) \<Rightarrow>
      if st \<noteq> UCS_OK then Some (cm, w2)
      else case server_handshake U c (new_UCXEndpoint ep b Server) w2 of
        None \<Rightarrow> None
      | Some (None, e, w3) \<Rightarrow>
          (case ucx_closeEndpoint U c e w3 of
             None \<Rightarrow> None
           | Some (_, e4, w4) \<Rightarrow> map_option (\<lambda>w5. (cm, w5)) (delete_UCXEndpoint U c e4 w4))
      | Some (Some hdr, e, w3) \<Rightarrow>
          Some (addEndpoint C ip (mi_listen_port hdr) (Some (wrap e)) UCX cm w3)))"

text \<open>One round of the accepting thread.\<close>

definition ucx_accept_round ::
  "'w ucp_api \<Rightarrow> ('e, 'w) Endpoint \<Rightarrow> (UCXEndpoint \<Rightarrow> 'e) \<Rightarrow> ConnBuffer \<Rightarrow> UCXContext \<Rightarrow> 'e ConnManager \<Rightarrow> 'w
     \<Rightarrow> (UCXContext \<times> 'e ConnManager \<times> 'w) option" where
  "ucx_accept_round U C wrap b c cm w =
    (case popConnRequest c of
       (None, c1) \<Rightarrow> Some (c1, cm, ucx_progress U c1 w)
     | (Some cr, c1) \<Rightarrow> map_option (\<lambda>(cm1, w1). (c1, cm1, w1)) (ucx_serve_request U C wrap b c1 cr cm w))"

record UCXServer =
  us_ip :: string
  us_port :: u16
  us_running :: bool
  us_context :: UCXContext
  us_accept_running :: bool

definition new_UCXServer :: UCXServer where
  "new_UCXServer = \<lparr> us_ip = ''0.0.0.0'', us_port = 0, us_running = False, us_context = new_UCXContext,
     us_accept_running = False \<rparr>"

text \<open>The server and the global \<^verbatim>\<open>g_ucx_listen_port\<close>.\<close>

definition ucx_listen :: "'w ucp_api \<Rightarrow> string \<Rightarrow> u16 \<Rightarrow> UCXServer \<Rightarrow> 'w \<Rightarrow> (status_t \<times> u16) \<times> UCXServer \<times> 'w" where
  "ucx_listen U ip port s w =
    (let s0 = s\<lparr> us_ip := ip, us_port := port \<rparr> in
     if us_running s0 then ((SUCCESS, port), s0, w)
     else case ucx_init U (us_context s0) w of (r1, c1, w1) \<Rightarrow>
     if r1 \<noteq> SUCCESS then ((r1, port), s0\<lparr> us_context := c1 \<rparr>, w1)
     else case startListener U ip port c1 w1 of (r2, c2, w2) \<Rightarrow>
     if r2 \<noteq> SUCCESS then ((r2, port), s0\<lparr> us_context := c2 \<rparr>, w2)
     else ((SUCCESS, port), s0\<lparr> us_context := c2, us_running := True, us_accept_running := True \<rparr>, w2))"

definition ucx_stopListen :: "'w ucp_api \<Rightarrow> UCXServer \<Rightarrow> 'w \<Rightarrow> status_t \<times> UCXServer \<times> 'w" where
  "ucx_stopListen U s w =
    (if \<not> us_running s then (SUCCESS, s, w)
     else case stopListener U (us_context s) w of (c1, w1) \<Rightarrow>
       (SUCCESS, s\<lparr> us_running := False, us_accept_running := False, us_context := c1 \<rparr>, w1))"

end
