(* ===== verification/Hmc_Communicator.thy ===== *)
theory Hmc_Communicator
  imports Hmc_P2p Hmc_CtrlConn Hmc_Ucx
begin

text \<open>
  The public interface, class \<^verbatim>\<open>Communicator\<close> (include/hmc.h, src/network/communicator.cpp): one-sided
  and pipelined transfers, non-blocking transfers with the table of requests in flight, control
  messages, connecting and disconnecting, and same-host endpoints.  It composes the connection
  manager, the control plane and the endpoints; \<open>hmc_class\<close> joins the three endpoint classes
  into one virtual interface.
\<close>

section \<open>Endpoint objects\<close>

datatype any_endpoint = AsRdma RDMAEndpoint | AsUcx UCXEndpoint | AsP2p P2pEndpoint

definition on_any ::
  "(RDMAEndpoint \<Rightarrow> 'w \<Rightarrow> (status_t \<times> RDMAEndpoint \<times> 'w) option) \<Rightarrow> (UCXEndpoint \<Rightarrow> 'w \<Rightarrow> (status_t \<times> UCXEndpoint \<times> 'w) option)
     \<Rightarrow> (P2pEndpoint \<Rightarrow> 'w \<Rightarrow> status_t \<times> 'w) \<Rightarrow> any_endpoint \<Rightarrow> 'w \<Rightarrow> (status_t \<times> any_endpoint \<times> 'w) option" where
  "on_any f u g e w = (case e of
       AsRdma r \<Rightarrow> map_option (\<lambda>(st, r', w'). (st, AsRdma r', w')) (f r w)
     | AsUcx r \<Rightarrow> map_option (\<lambda>(st, r', w'). (st, AsUcx r', w')) (u r w)
     | AsP2p q \<Rightarrow> (case g q w of (st, w') \<Rightarrow> Some (st, e, w')))"

definition on_any_nb ::
  "(RDMAEndpoint \<Rightarrow> 'w \<Rightarrow> (status_t \<times> u64) \<times> RDMAEndpoint \<times> 'w) \<Rightarrow> (UCXEndpoint \<Rightarrow> 'w \<Rightarrow> (status_t \<times> u64) \<times> UCXEndpoint \<times> 'w)
     \<Rightarrow> (P2pEndpoint \<Rightarrow> 'w \<Rightarrow> (status_t \<times> u64) \<times> 'w) \<Rightarrow> any_endpoint \<Rightarrow> 'w \<Rightarrow> (status_t \<times> u64) \<times> any_endpoint \<times> 'w" where
  "on_any_nb f u g e w = (case e of
       AsRdma r \<Rightarrow> (case f r w of (st, r', w') \<Rightarrow> (st, AsRdma r', w'))
     | AsUcx r \<Rightarrow> (case u r w of (st, r', w') \<Rightarrow> (st, AsUcx r', w'))
     | AsP2p q \<Rightarrow> (case g q w of (st, w') \<Rightarrow> (st, e, w')))"

definition hmc_class ::
  "(RDMAEndpoint, 'w) Endpoint \<Rightarrow> (UCXEndpoint, 'w) Endpoint \<Rightarrow> 'w p2p_env \<Rightarrow> (any_endpoint, 'w) Endpoint" where
  "hmc_class R X E = \<lparr>
     m_writeData = (\<lambda>e lo ro n. on_any (\<lambda>r. m_writeData R r lo ro n) (\<lambda>u. m_writeData X u lo ro n)
        (\<lambda>q. p2p_writeData E q lo ro n) e),
     m_readData = (\<lambda>e lo ro n. on_any (\<lambda>r. m_readData R r lo ro n) (\<lambda>u. m_readData X u lo ro n)
        (\<lambda>q. p2p_readData E q lo ro n) e),
     m_writeDataNB = (\<lambda>e lo ro n. on_any_nb (\<lambda>r. m_writeDataNB R r lo ro n) (\<lambda>u. m_writeDataNB X u lo ro n)
        (\<lambda>q. p2p_writeDataNB E q lo ro n) e),
     m_readDataNB = (\<lambda>e lo ro n. on_any_nb (\<lambda>r. m_readDataNB R r lo ro n) (\<lambda>u. m_readDataNB X u lo ro n)
        (\<lambda>q. p2p_readDataNB E q lo ro n) e),
     m_waitWrId = (\<lambda>i. on_any (m_waitWrId R i) (m_waitWrId X i) (\<lambda>q w. (SUCCESS, w))),
     m_waitWrIdMulti = (\<lambda>t is. on_any (m_waitWrIdMulti R t is) (m_waitWrIdMulti X t is) (\<lambda>q w. (SUCCESS, w))),
     m_uhm_send = (\<lambda>a n t. on_any (m_uhm_send R a n t) (m_uhm_send X a n t) (\<lambda>q w. (UNSUPPORT, w))),
     m_uhm_recv = (\<lambda>a n t f. on_any (m_uhm_recv R a n t f) (m_uhm_recv X a n t f) (\<lambda>q w. (UNSUPPORT, w))),
     m_destroy = (\<lambda>e w. case e of AsRdma r \<Rightarrow> m_destroy R r w | AsUcx u \<Rightarrow> m_destroy X u w | AsP2p q \<Rightarrow> p2p_delete E q w),
     as_rdma = (\<lambda>e. case e of AsRdma r \<Rightarrow> as_rdma R r | _ \<Rightarrow> None),
     of_rdma = (\<lambda>r. AsRdma (of_rdma R r)),
     m_connect = (\<lambda>t ip port w. if t = UCX then apfst (map_option AsUcx) (m_connect X t ip port w)
        else apfst (map_option AsRdma) (m_connect R t ip port w)),
     m_stopListen = (\<lambda>t. if t = UCX then m_stopListen X t else m_stopListen R t) \<rparr>"

section \<open>State\<close>

record 'e Communicator =
  c_buffer :: ConnBuffer
  conn_manager :: "'e ConnManager"
  inflight_ep :: "u64 \<rightharpoonup> ptr"

definition new_Communicator :: "ConnBuffer \<Rightarrow> 'e Communicator" where
  "new_Communicator b = \<lparr> c_buffer = b, conn_manager = new_ConnManager, inflight_ep = Map.empty \<rparr>"

datatype CtrlTransport = TCP | UDS

record CtrlLink =
  l_transport :: CtrlTransport
  l_ip :: string
  l_port :: u16
  l_uds_path :: string

type_synonym ('e, 'w, 'r) comm_run = "((status_t \<times> 'r) \<times> 'e Communicator \<times> 'w) run"

section \<open>Calls through a connection\<close>

definition checkConn :: "string \<Rightarrow> u16 \<Rightarrow> ConnType \<Rightarrow> 'e Communicator \<Rightarrow> 'w \<Rightarrow> ('e, 'w, unit) comm_run" where
  "checkConn ip port t c w =
    (case withEndpoint ip port t () (\<lambda>p e w. Some ((SUCCESS, ()), e, w)) (conn_manager c) w of
       Ret (st, cm, w1) \<Rightarrow> Ret (st, c\<lparr> conn_manager := cm \<rparr>, w1)
     | Diverge \<Rightarrow> Diverge
     | Fault \<Rightarrow> Fault)"

text \<open>\<^verbatim>\<open>checkConn\<close> followed by a call on the endpoint: the body of every data operation.\<close>

definition with_conn ::
  "string \<Rightarrow> u16 \<Rightarrow> ConnType \<Rightarrow> 'r \<Rightarrow> (ptr \<Rightarrow> 'e \<Rightarrow> 'w \<Rightarrow> ((status_t \<times> 'r) \<times> 'e \<times> 'w) option)
     \<Rightarrow> 'e Communicator \<Rightarrow> 'w \<Rightarrow> ('e, 'w, 'r) comm_run" where
  "with_conn ip port t dflt f c w =
    (case checkConn ip port t c w of
       Ret ((sret, _), c1, w1) \<Rightarrow>
         if sret \<noteq> SUCCESS then Ret ((sret, dflt), c1, w1)
         else (case withEndpoint ip port t dflt f (conn_manager c1) w1 of
                 Ret (r, cm, w2) \<Rightarrow> Ret (r, c1\<lparr> conn_manager := cm \<rparr>, w2)
               | Diverge \<Rightarrow> Diverge
               | Fault \<Rightarrow> Fault)
     | Diverge \<Rightarrow> Diverge
     | Fault \<Rightarrow> Fault)"

definition plain :: "(status_t \<times> 'e \<times> 'w) option \<Rightarrow> ((status_t \<times> unit) \<times> 'e \<times> 'w) option" where
  "plain = map_option (\<lambda>(st, e, w). ((st, ()), e, w))"

definition put where
  "put C ip port local_off remote_off n t c w =
    with_conn ip port t () (\<lambda>p e w. plain (m_writeData C e local_off remote_off n w)) c w"

definition get where
  "get C ip port local_off remote_off n t c w =
    with_conn ip port t () (\<lambda>p e w. plain (m_readData C e local_off remote_off n w)) c w"

definition putPipeline where
  "putPipeline C v env ip port local_off remote_off n chunk_size max_inflight t c w =
    with_conn ip port t () (\<lambda>p e w. case as_rdma C e of
        None \<Rightarrow> Some ((UNSUPPORT, ()), e, w)
      | Some r \<Rightarrow> map_option (\<lambda>(st, r', w'). ((st, ()), of_rdma C r', w'))
          (writeDataPipeline v env r local_off remote_off n chunk_size max_inflight w)) c w"

definition getPipeline where
  "getPipeline C v env ip port local_off remote_off n chunk_size max_inflight t c w =
    with_conn ip port t () (\<lambda>p e w. case as_rdma C e of
        None \<Rightarrow> Some ((UNSUPPORT, ()), e, w)
      | Some r \<Rightarrow> map_option (\<lambda>(st, r', w'). ((st, ()), of_rdma C r', w'))
          (readDataPipeline v env r local_off remote_off n chunk_size max_inflight w)) c w"

definition sendDataTo where
  "sendDataTo C ip port send_buf buf_size buf_type t c w =
    with_conn ip port t () (\<lambda>p e w. plain (m_uhm_send C send_buf buf_size buf_type e w)) c w"

definition recvDataFrom where
  "recvDataFrom C ip port recv_buf buf_size buf_type flag t c w =
    with_conn ip port t () (\<lambda>p e w. plain (m_uhm_recv C recv_buf buf_size buf_type flag e w)) c w"

section \<open>Requests in flight\<close>

text \<open>A non-blocking call: what is stored through \<^verbatim>\<open>wr_id\<close>, and the registration of the endpoint
  under the identifier.\<close>

definition start_nb ::
  "('e \<Rightarrow> 'w \<Rightarrow> (status_t \<times> u64) \<times> 'e \<times> 'w) \<Rightarrow> string \<Rightarrow> u16 \<Rightarrow> ConnType \<Rightarrow> 'e Communicator \<Rightarrow> 'w
     \<Rightarrow> ('e, 'w, u64) comm_run" where
  "start_nb op ip port t c w =
    (case with_conn ip port t (0, None) (\<lambda>p e w. case op e w of ((r, i), e1, w1) \<Rightarrow>
         Some ((r, if r \<noteq> SUCCESS then (0, None) else (i, Some p)), e1, w1)) c w of
       Ret ((st, i, None), c1, w1) \<Rightarrow> Ret ((st, i), c1, w1)
     | Ret ((st, i, Some p), c1, w1) \<Rightarrow>
         Ret ((st, i), if i \<noteq> 0 then c1\<lparr> inflight_ep := (inflight_ep c1)(i \<mapsto> p) \<rparr> else c1, w1)
     | Diverge \<Rightarrow> Diverge
     | Fault \<Rightarrow> Fault)"

definition putNB where
  "putNB C ip port local_off remote_off n t c w =
    start_nb (\<lambda>e w. m_writeDataNB C e local_off remote_off n w) ip port t c w"

definition getNB where
  "getNB C ip port local_off remote_off n t c w =
    start_nb (\<lambda>e w. m_readDataNB C e local_off remote_off n w) ip port t c w"

definition wait_one :: "('e, 'w) Endpoint \<Rightarrow> u64 \<Rightarrow> 'e Communicator \<Rightarrow> 'w \<Rightarrow> ('e, 'w, unit) comm_run" where
  "wait_one C i c w =
    (if i = 0 then Ret ((SUCCESS, ()), c, w)
     else case inflight_ep c i of
       None \<Rightarrow> Ret ((NOT_FOUND, ()), c, w)
     | Some p \<Rightarrow>
         let c1 = c\<lparr> inflight_ep := (inflight_ep c)(i := None) \<rparr>
         in (case deref p (\<lambda>e w. plain (m_waitWrId C i e w)) (conn_manager c1) w of
               Ret (r, cm, w1) \<Rightarrow> Ret (r, c1\<lparr> conn_manager := cm \<rparr>, w1)
             | Diverge \<Rightarrow> Diverge
             | Fault \<Rightarrow> Fault))"

text \<open>Grouping the identifiers by endpoint; \<open>False\<close>: an identifier was not in flight, and what had
  been taken out before it stays out.\<close>

fun add_group :: "ptr \<Rightarrow> u64 \<Rightarrow> (ptr \<times> u64 list) list \<Rightarrow> (ptr \<times> u64 list) list" where
  "add_group p i [] = [(p, [i])]"
| "add_group p i ((q, is) # gs) = (if p = q then (q, is @ [i]) # gs else (q, is) # add_group p i gs)"

fun collect_wr_ids ::
  "u64 list \<Rightarrow> (u64 \<rightharpoonup> ptr) \<Rightarrow> (ptr \<times> u64 list) list \<Rightarrow> bool \<times> (ptr \<times> u64 list) list \<times> (u64 \<rightharpoonup> ptr)" where
  "collect_wr_ids [] inflight by_ep = (True, by_ep, inflight)"
| "collect_wr_ids (i # is) inflight by_ep =
    (if i = 0 then collect_wr_ids is inflight by_ep
     else case inflight i of
       None \<Rightarrow> (False, by_ep, inflight)
     | Some p \<Rightarrow> collect_wr_ids is (inflight(i := None)) (add_group p i by_ep))"

primrec wait_groups ::
  "('e, 'w) Endpoint \<Rightarrow> (ptr \<times> u64 list) list \<Rightarrow> 'e ConnManager \<Rightarrow> 'w
     \<Rightarrow> ((status_t \<times> unit) \<times> 'e ConnManager \<times> 'w) run" where
  "wait_groups C [] cm w = Ret ((SUCCESS, ()), cm, w)"
| "wait_groups C (g # gs) cm w =
    (if snd g = [] then wait_groups C gs cm w
     else case deref (fst g) (\<lambda>e w. plain (m_waitWrIdMulti C 1000000000 (snd g) e w)) cm w of
       Ret ((st, _), cm1, w1) \<Rightarrow>
         if st \<noteq> SUCCESS then Ret ((st, ()), cm1, w1) else wait_groups C gs cm1 w1
     | Diverge \<Rightarrow> Diverge
     | Fault \<Rightarrow> Fault)"

text \<open>The groups are walked in the unspecified order of a hash table, \<open>order\<close>.\<close>

definition wait_all ::
  "('e, 'w) Endpoint \<Rightarrow> ((ptr \<times> u64 list) list \<Rightarrow> (ptr \<times> u64 list) list) \<Rightarrow> u64 list \<Rightarrow> 'e Communicator \<Rightarrow> 'w
     \<Rightarrow> ('e, 'w, unit) comm_run" where
  "wait_all C order is c w =
    (case collect_wr_ids is (inflight_ep c) [] of (found, by_ep, inflight) \<Rightarrow>
       let c1 = c\<lparr> inflight_ep := inflight \<rparr>
       in if \<not> found then Ret ((NOT_FOUND, ()), c1, w)
          else (case wait_groups C (order by_ep) (conn_manager c1) w of
                  Ret (r, cm, w1) \<Rightarrow> Ret (r, c1\<lparr> conn_manager := cm \<rparr>, w1)
                | Diverge \<Rightarrow> Diverge
                | Fault \<Rightarrow> Fault))"

section \<open>Control messages\<close>

definition ok_bool :: "bool \<Rightarrow> status_t" where
  "ok_bool b = (if b then SUCCESS else ERROR)"

definition ctrlSend :: "'w sockets \<Rightarrow> CtrlSocketManager \<Rightarrow> CtrlId \<Rightarrow> u64 \<Rightarrow> 'w \<Rightarrow> status_t \<times> 'w" where
  "ctrlSend sk m peer tag w = apfst ok_bool (sendU64 sk m peer tag w)"

definition ctrlRecv :: "'w sockets \<Rightarrow> CtrlSocketManager \<Rightarrow> CtrlId \<Rightarrow> 'w \<Rightarrow> (status_t \<times> u64 option) \<times> 'w" where
  "ctrlRecv sk m peer w = (case recvU64 sk m peer w of
       (None, w1) \<Rightarrow> ((ERROR, None), w1)
     | (Some t, w1) \<Rightarrow> ((SUCCESS, Some t), w1))"

definition initCtrlServer ::
  "'w sockets \<Rightarrow> string \<Rightarrow> u16 \<Rightarrow> string \<Rightarrow> CtrlSocketManager \<Rightarrow> 'w \<Rightarrow> status_t \<times> CtrlSocketManager \<times> 'w" where
  "initCtrlServer sk ip port path m w =
    (case start sk m ip port path w of (ok, m1, w1) \<Rightarrow> (ok_bool ok, m1, w1))"

definition closeCtrl ::
  "'w sockets \<Rightarrow> CtrlId list \<Rightarrow> CtrlSocketManager \<Rightarrow> 'w \<Rightarrow> status_t \<times> CtrlSocketManager \<times> 'w" where
  "closeCtrl sk peers m w = (case stop sk m w of (m1, w1) \<Rightarrow> (SUCCESS, closeAll sk peers m1 w1))"

definition connectCtrl ::
  "'w sockets \<Rightarrow> CtrlId \<Rightarrow> CtrlId \<Rightarrow> CtrlLink \<Rightarrow> CtrlSocketManager \<Rightarrow> 'w \<Rightarrow> status_t \<times> CtrlSocketManager \<times> 'w" where
  "connectCtrl sk peer_id self_id link m w =
    (if l_transport link = UDS then
       if l_uds_path link = [] then (ERROR, m, w)
       else apfst ok_bool (connectUds sk peer_id (l_uds_path link) self_id m w)
     else if l_ip link = [] \<or> l_port link = 0 then (ERROR, m, w)
     else apfst ok_bool (connectTcp sk peer_id (l_ip link) (l_port link) self_id m w))"

definition closeCtrlPeer ::
  "'w sockets \<Rightarrow> CtrlId \<Rightarrow> CtrlSocketManager \<Rightarrow> 'w \<Rightarrow> status_t \<times> CtrlSocketManager \<times> 'w" where
  "closeCtrlPeer sk peer_id m w = (SUCCESS, ctrl_close sk peer_id m w)"

section \<open>Connections\<close>

text \<open>The control manager is a process-wide object, so these operations thread both states.\<close>

type_synonym ('e, 'w) both = "'e Communicator \<times> CtrlSocketManager \<times> 'w"

definition initServer ::
  "'w sockets \<Rightarrow> string \<Rightarrow> u16 \<Rightarrow> u16 \<Rightarrow> string \<Rightarrow> ConnType \<Rightarrow> ('e, 'w) both \<Rightarrow> (status_t \<times> ('e, 'w) both) outcome" where
  "initServer sk ip data_port ctrl_tcp_port ctrl_uds_path t s =
    (case s of (c, m, w) \<Rightarrow>
       (case initCtrlServer sk ip ctrl_tcp_port ctrl_uds_path m w of (st, m1, w1) \<Rightarrow>
          if st \<noteq> SUCCESS then Return (st, (c, m1, w1))
          else (case initiateServer t (conn_manager c) of
                  Return (st2, cm) \<Rightarrow> Return (st2, (c\<lparr> conn_manager := cm \<rparr>, m1, w1))
                | Throw msg \<Rightarrow> Throw msg
                | Exit n \<Rightarrow> Exit n)))"

definition closeServer ::
  "('e, 'w) Endpoint \<Rightarrow> 'w sockets \<Rightarrow> CtrlId list \<Rightarrow> ConnType list \<Rightarrow> ('e, 'w) both \<Rightarrow> status_t \<times> ('e, 'w) both" where
  "closeServer C sk peers order s =
    (case s of (c, m, w) \<Rightarrow>
       (case closeCtrl sk peers m w of (_, m1, w1) \<Rightarrow>
          (case stopServer C order (conn_manager c) w1 of (st, cm, w2) \<Rightarrow>
             (st, (c\<lparr> conn_manager := cm \<rparr>, m1, w2)))))"

definition connectTo ::
  "('e, 'w) Endpoint \<Rightarrow> 'w sockets \<Rightarrow> CtrlId \<Rightarrow> CtrlId \<Rightarrow> string \<Rightarrow> u16 \<Rightarrow> CtrlLink \<Rightarrow> ConnType \<Rightarrow> ('e, 'w) both
     \<Rightarrow> (status_t \<times> ('e, 'w) both) run" where
  "connectTo C sk peer_id self_id peer_ip data_port link t s =
    (case s of (c, m, w) \<Rightarrow>
       (case checkConn peer_ip data_port t c w of
          Fault \<Rightarrow> Fault
        | Diverge \<Rightarrow> Diverge
        | Ret ((st, _), c1, w1) \<Rightarrow>
            if st = SUCCESS then Ret (SUCCESS, (c1, m, w1))
            else (case connectCtrl sk peer_id self_id link m w1 of (cs, m1, w2) \<Rightarrow>
              if cs \<noteq> SUCCESS then Ret (cs, (c1, m1, w2))
              else (case initiateConnectionAsClient C peer_ip data_port t (conn_manager c1) w2 of (r, cm, w3) \<Rightarrow>
                if r \<noteq> SUCCESS
                then (case closeCtrlPeer sk peer_id m1 w3 of (_, m2, w4) \<Rightarrow>
                        Ret (r, (c1\<lparr> conn_manager := cm \<rparr>, m2, w4)))
                else Ret (SUCCESS, (c1\<lparr> conn_manager := cm \<rparr>, m1, w3))))))"

definition disConnect ::
  "('e, 'w) Endpoint \<Rightarrow> string \<Rightarrow> u16 \<Rightarrow> ConnType \<Rightarrow> 'e Communicator \<Rightarrow> 'w \<Rightarrow> (status_t \<times> 'e Communicator \<times> 'w) run" where
  "disConnect C ip port t c w =
    (case checkConn ip port t c w of
       Fault \<Rightarrow> Fault
     | Diverge \<Rightarrow> Diverge
     | Ret ((st, _), c1, w1) \<Rightarrow>
         if st = SUCCESS
         then (case removeEndpoint C ip port t (conn_manager c1) w1 of (cm, w2) \<Rightarrow>
                 Ret (SUCCESS, c1\<lparr> conn_manager := cm \<rparr>, w2))
         else Ret (SUCCESS, c1, w1))"

section \<open>Same-host endpoints\<close>

text \<open>\<^verbatim>\<open>connectP2p\<close> ignores whether the handles were exchanged: on a failed receive it goes on with
  a handle of zeros.  \<^verbatim>\<open>static_cast<int>\<close> of a rank is signed.\<close>

definition connectP2p ::
  "'w p2p_env \<Rightarrow> (any_endpoint, 'w) Endpoint \<Rightarrow> 'w sockets \<Rightarrow> CtrlId \<Rightarrow> CtrlId \<Rightarrow> int \<Rightarrow> MemoryType
     \<Rightarrow> (any_endpoint, 'w) both \<Rightarrow> status_t \<times> (any_endpoint, 'w) both" where
  "connectP2p E C sk peer_id self_id device_id mem_type s =
    (case s of (c, m, w) \<Rightarrow>
       if ptr (c_buffer c) = 0 then (ERROR, s)
       else case create mem_type of
         None \<Rightarrow> (UNSUPPORT, s)
       | Some T \<Rightarrow>
           (case tr_init E device_id (ptr (c_buffer c)) (buffer_size (c_buffer c)) T w of (st, T1, w1) \<Rightarrow>
              if st \<noteq> SUCCESS then (st, (c, m, tr_delete E T1 w1))
              else case tr_export E (replicate 64 0) T1 w1 of ((st2, local_handle), w2) \<Rightarrow>
                if st2 \<noteq> SUCCESS then (st2, (c, m, tr_delete E T1 w2))
                else
                  let (got, w3) =
                        (if self_id < peer_id
                         then recvStruct P2P_HANDLE_SIZE sk m peer_id (snd (sendStruct sk m peer_id local_handle w2))
                         else case recvStruct P2P_HANDLE_SIZE sk m peer_id w2 of (g, v) \<Rightarrow>
                                (g, snd (sendStruct sk m peer_id local_handle v)));
                      peer_handle = (case got of None \<Rightarrow> replicate 64 0 | Some h \<Rightarrow> h)
                  in case tr_import E peer_handle 0 (sint peer_id) T1 w3 of ((st3, peer), T2, w4) \<Rightarrow>
                       if st3 \<noteq> SUCCESS then (st3, (c, m, tr_delete E T2 w4))
                       else case initiateP2pConnection C (sint peer_id)
                              (Some (AsP2p \<lparr> transport = Some T2, local_ptr = ptr (c_buffer c), peer_ptr = peer,
                                  peer_rank = sint peer_id \<rparr>)) (conn_manager c) w4 of (st4, cm, w5) \<Rightarrow>
                         (st4, (c\<lparr> conn_manager := cm \<rparr>, m, w5))))"

definition p2p_call ::
  "int \<Rightarrow> (ptr \<Rightarrow> 'e \<Rightarrow> 'w \<Rightarrow> ((status_t \<times> unit) \<times> 'e \<times> 'w) option) \<Rightarrow> 'e Communicator \<Rightarrow> 'w \<Rightarrow> ('e, 'w, unit) comm_run" where
  "p2p_call rank f c w =
    (case withP2pEndpoint rank () f (conn_manager c) w of
       Ret (r, cm, w1) \<Rightarrow> Ret (r, c\<lparr> conn_manager := cm \<rparr>, w1)
     | Diverge \<Rightarrow> Diverge
     | Fault \<Rightarrow> Fault)"

definition putP2p where
  "putP2p C rank local_off remote_off n c w =
    p2p_call rank (\<lambda>p e w. plain (m_writeData C e local_off remote_off n w)) c w"

definition getP2p where
  "getP2p C rank local_off remote_off n c w =
    p2p_call rank (\<lambda>p e w. plain (m_readData C e local_off remote_off n w)) c w"

definition addP2pEndpoint ::
  "('e, 'w) Endpoint \<Rightarrow> int \<Rightarrow> 'e option \<Rightarrow> 'e Communicator \<Rightarrow> 'w \<Rightarrow> status_t \<times> 'e Communicator \<times> 'w" where
  "addP2pEndpoint C rank e c w =
    (case initiateP2pConnection C rank e (conn_manager c) w of (st, cm, w1) \<Rightarrow>
       (st, c\<lparr> conn_manager := cm \<rparr>, w1))"

section \<open>Destruction\<close>

text \<open>The connection manager is shared with the servers it owns: each \<^verbatim>\<open>Server\<close> keeps a
  \<^verbatim>\<open>shared_ptr\<close> to it.  Its destructor therefore runs when the communicator goes away only if no
  server is left, and then destroys the endpoints; \<open>order\<close> is the order in which the tables are
  walked.  With a server left the two keep each other alive.\<close>

definition delete_ConnManager :: "('e, 'w) Endpoint \<Rightarrow> ptr list \<Rightarrow> 'e ConnManager \<Rightarrow> 'w \<Rightarrow> 'e ConnManager \<times> 'w" where
  "delete_ConnManager C order cm w =
    (case stopServer C [] cm w of (_, cm1, w1) \<Rightarrow> fold (\<lambda>p (cm, w). reset_ptr C (Some p) cm w) order (cm1, w1))"

definition delete_Communicator :: "('e, 'w) Endpoint \<Rightarrow> ptr list \<Rightarrow> 'e Communicator \<Rightarrow> 'w \<Rightarrow> 'e Communicator \<times> 'w" where
  "delete_Communicator C order c w =
    (if servers (conn_manager c) \<noteq> {} then (c, w)
     else case delete_ConnManager C order (conn_manager c) w of (cm, w1) \<Rightarrow> (c\<lparr> conn_manager := cm \<rparr>, w1))"

end
