(* ===== verification/Hmc_CommProps.thy ===== *)
theory Hmc_CommProps
  imports Hmc_Communicator
begin

text \<open>
  Properties of the public interface: what \<open>connectTo\<close> leaves behind on every outcome, how the table
  of requests in flight routes a wait to the endpoint that posted the request, and the cases in which
  it does not.  \<open>conn_ptr\<close> is the endpoint a peer address designates.
\<close>

section \<open>The designated endpoint\<close>

definition conn_ptr :: "'e ConnManager \<Rightarrow> string \<Rightarrow> u16 \<Rightarrow> ConnType \<Rightarrow> ptr option" where
  "conn_ptr cm ip port t = (case endpointMapFor t cm of
       None \<Rightarrow> None | Some f \<Rightarrow> Option.bind (f \<lparr> pk_ip = ip, pk_port = port \<rparr>) id)"

lemma conn_ptr_slot:
  "conn_ptr cm ip port t = (case t of RDMA \<Rightarrow> slot_ptr cm (RdmaSlot \<lparr> pk_ip = ip, pk_port = port \<rparr>)
     | UCX \<Rightarrow> slot_ptr cm (UcxSlot \<lparr> pk_ip = ip, pk_port = port \<rparr>) | P2P \<Rightarrow> None)"
  by (cases t) (simp_all add: conn_ptr_def endpointMapFor_def)

lemma conn_ptr_live: "cm_wf cm \<Longrightarrow> conn_ptr cm ip port t = Some p \<Longrightarrow> \<exists>e. heap cm p = Some e"
  using owner_live [of "slot_ptr cm" "heap cm" "next_ptr cm"] unfolding conn_ptr_slot cm_wf_def
  by (cases t) (simp_all del: slot_ptr.simps)

lemma withEndpoint_ptr:
  "conn_ptr cm ip port t = Some p \<Longrightarrow> withEndpoint ip port t d f cm w = deref p (f p) cm w"
  by (auto simp: conn_ptr_def withEndpoint_def bind_eq_Some_conv split: option.splits)

lemma withEndpoint_none:
  assumes "conn_ptr cm ip port t = None"
  shows "\<exists>st. st \<noteq> SUCCESS \<and> withEndpoint ip port t d f cm w = Ret ((st, d), cm, w)"
  using assms by (auto simp: conn_ptr_def withEndpoint_def split: option.splits)

lemma store_same [simp]: "heap cm p = Some e \<Longrightarrow> cm\<lparr> heap := (heap cm)(p \<mapsto> e) \<rparr> = cm"
  by (cases cm) (simp add: map_upd_triv)

lemma checkConn_some:
  assumes "cm_wf (conn_manager c)" and "conn_ptr (conn_manager c) ip port t = Some p"
  shows "checkConn ip port t c w = Ret ((SUCCESS, ()), c, w)"
  using conn_ptr_live [OF assms] assms(2)
  by (auto simp: checkConn_def withEndpoint_ptr deref_def)

lemma checkConn_none:
  assumes "conn_ptr (conn_manager c) ip port t = None"
  shows "\<exists>st. st \<noteq> SUCCESS \<and> checkConn ip port t c w = Ret ((st, ()), c, w)"
proof -
  obtain st where st: "st \<noteq> SUCCESS"
    "withEndpoint ip port t () (\<lambda>p e w. Some ((SUCCESS, ()), e, w)) (conn_manager c) w
       = Ret ((st, ()), conn_manager c, w)"
    using withEndpoint_none [OF assms, of "()" "\<lambda>p e w. Some ((SUCCESS, ()), e, w)" w] by blast
  then show ?thesis by (simp add: checkConn_def)
qed

lemma with_conn_some:
  assumes "cm_wf (conn_manager c)" and "conn_ptr (conn_manager c) ip port t = Some p"
  shows "with_conn ip port t d f c w = (case deref p (f p) (conn_manager c) w of
       Ret (r, cm, w2) \<Rightarrow> Ret (r, c\<lparr> conn_manager := cm \<rparr>, w2) | Diverge \<Rightarrow> Diverge | Fault \<Rightarrow> Fault)"
  by (simp add: with_conn_def checkConn_some [OF assms] withEndpoint_ptr [OF assms(2)])

lemma with_conn_none:
  assumes "conn_ptr (conn_manager c) ip port t = None"
  shows "\<exists>st. st \<noteq> SUCCESS \<and> with_conn ip port t d f c w = Ret ((st, d), c, w)"
  using checkConn_none [OF assms, of w] by (auto simp: with_conn_def)

section \<open>Non-blocking requests\<close>

lemma start_nb_success:
  assumes "cm_wf (conn_manager c)" and "start_nb op ip port t c w = Ret ((SUCCESS, i), c1, w1)"
  obtains p e e1 where "conn_ptr (conn_manager c) ip port t = Some p" and "heap (conn_manager c) p = Some e"
    and "op e w = ((SUCCESS, i), e1, w1)"
    and "conn_manager c1 = (conn_manager c)\<lparr> heap := (heap (conn_manager c))(p \<mapsto> e1) \<rparr>"
    and "inflight_ep c1 = (if i \<noteq> 0 then (inflight_ep c)(i \<mapsto> p) else inflight_ep c)"
    and "c_buffer c1 = c_buffer c"
proof (cases "conn_ptr (conn_manager c) ip port t")
  case None
  have "start_nb op ip port t c w \<noteq> Ret ((SUCCESS, i), c1, w1)"
    using with_conn_none [OF None, of "(0, None)" "\<lambda>p e w. case op e w of ((r, i), e1, w1) \<Rightarrow>
         Some ((r, if r \<noteq> SUCCESS then (0, None) else (i, Some p)), e1, w1)" w]
    by (auto simp: start_nb_def)
  then show thesis using assms(2) by simp
next
  case (Some p)
  obtain e where e: "heap (conn_manager c) p = Some e" using conn_ptr_live [OF assms(1) Some] by blast
  obtain r j e1 v where o: "op e w = ((r, j), e1, v)" by (metis surj_pair)
  show thesis
    using that [OF Some e] assms(2) o
    by (cases "r = SUCCESS")
      (auto simp: start_nb_def with_conn_some [OF assms(1) Some] deref_def e split: if_splits)
qed

lemma slot_ptr_store [simp]: "conn_ptr (cm\<lparr> heap := h \<rparr>) ip port t = conn_ptr cm ip port t"
  by (cases t) (simp_all add: conn_ptr_slot)

lemma start_nb_wf:
  assumes "cm_wf (conn_manager c)" and "start_nb op ip port t c w = Ret ((SUCCESS, i), c1, w1)"
  shows "cm_wf (conn_manager c1)"
  by (rule start_nb_success [OF assms]) (simp add: cm_wf_store [OF assms(1)])

text \<open>Removing the connection destroys the endpoint.\<close>

lemma disConnect_destroys:
  assumes "cm_wf (conn_manager c)" and "conn_ptr (conn_manager c) ip port t = Some p"
    and "disConnect C ip port t c w = Ret (st, c1, w1)"
  shows "st = SUCCESS \<and> heap (conn_manager c1) p = None \<and> inflight_ep c1 = inflight_ep c
    \<and> conn_ptr (conn_manager c1) ip port t = None"
proof -
  let ?k = "\<lparr> pk_ip = ip, pk_port = port \<rparr>"
  obtain cm w2 where r: "removeEndpoint C ip port t (conn_manager c) w = (cm, w2)" by (metis surj_pair)
  have cm: "cm = fst (removeEndpoint C ip port t (conn_manager c) w)" by (simp add: r)
  have "heap cm p = None \<and> conn_ptr cm ip port t = None"
    using assms(2) unfolding cm
    by (cases t) (auto simp: conn_ptr_def endpointMapFor_def removeEndpoint_def Let_def set_map_def
        reset_ptr_fst drop_ptr_def bind_eq_Some_conv split: option.splits)
  then show ?thesis
    using assms(3) by (auto simp: disConnect_def checkConn_some [OF assms(1,2)] r)
qed

section \<open>Grouping the identifiers of a batch wait\<close>

definition ep_group :: "ptr \<Rightarrow> (ptr \<times> u64 list) list \<Rightarrow> u64 list" where
  "ep_group p gs = (case map_of gs p of None \<Rightarrow> [] | Some is \<Rightarrow> is)"

lemma ep_group_add: "ep_group p (add_group q i gs) = ep_group p gs @ (if p = q then [i] else [])"
  by (induction q i gs rule: add_group.induct) (auto simp: ep_group_def)

lemma keys_add: "set (map fst (add_group q i gs)) = insert q (set (map fst gs))"
  by (induction q i gs rule: add_group.induct) auto

lemma distinct_add: "distinct (map fst gs) \<Longrightarrow> distinct (map fst (add_group q i gs))"
proof (induction q i gs rule: add_group.induct)
  case (2 p i q "is" gs)
  then show ?case using keys_add [of p i gs] by (auto simp: image_iff)
qed simp

lemma collect_all:
  assumes "distinct xs" and "0 \<notin> set xs" and "\<forall>i \<in> set xs. infl i \<noteq> None" and "distinct (map fst gs)"
  shows "\<exists>gs'. collect_wr_ids xs infl gs = (True, gs', infl |` (- set xs)) \<and> distinct (map fst gs')
    \<and> (\<forall>p. ep_group p gs' = ep_group p gs @ filter (\<lambda>i. infl i = Some p) xs)"
  using assms
proof (induction xs arbitrary: infl gs)
  case Nil
  then show ?case by (simp add: restrict_map_def)
next
  case (Cons i xs)
  then obtain q where q: "infl i = Some q" by auto
  have "\<exists>gs'. collect_wr_ids xs (infl(i := None)) (add_group q i gs) = (True, gs', (infl(i := None)) |` (- set xs))
    \<and> distinct (map fst gs')
    \<and> (\<forall>p. ep_group p gs' = ep_group p (add_group q i gs) @ filter (\<lambda>j. (infl(i := None)) j = Some p) xs)"
    using Cons.prems by (intro Cons.IH) (auto simp: distinct_add)
  moreover have "(infl(i := None)) |` (- set xs) = infl |` (- set (i # xs))"
    by (auto simp: restrict_map_def fun_eq_iff)
  moreover have "filter (\<lambda>j. (infl(i := None)) j = Some p) xs = filter (\<lambda>j. infl j = Some p) xs" for p
    using Cons.prems(1) by (intro filter_cong) auto
  ultimately show ?case using Cons.prems(2) q by (auto simp: ep_group_add)
qed

lemma collect_unknown:
  assumes "distinct (xs @ [j])" and "0 \<notin> set (xs @ [j])" and "\<forall>i \<in> set xs. infl i \<noteq> None" and "infl j = None"
  shows "\<exists>gs'. collect_wr_ids (xs @ j # ys) infl gs = (False, gs', infl |` (- set xs))"
  using assms
proof (induction xs arbitrary: infl gs)
  case Nil
  then show ?case by (simp add: restrict_map_def)
next
  case (Cons i xs)
  then obtain q where q: "infl i = Some q" by auto
  have "\<exists>gs'. collect_wr_ids (xs @ j # ys) (infl(i := None)) (add_group q i gs)
      = (False, gs', (infl(i := None)) |` (- set xs))"
    using Cons.prems by (intro Cons.IH) auto
  moreover have "(infl(i := None)) |` (- set xs) = infl |` (- set (i # xs))"
    by (auto simp: restrict_map_def fun_eq_iff)
  ultimately show ?case using Cons.prems(2) q by auto
qed

section \<open>Properties\<close>

text \<open>A non-blocking put that reports success under a non-zero identifier leaves the identifier
  registered for the endpoint that accepted it; a later wait for it runs that endpoint's own wait, on
  whatever state the endpoint has by then, and takes the identifier out, so that a second wait for it
  is refused without touching anything.\<close>

theorem put_then_wait:
  assumes "cm_wf (conn_manager c)" and "putNB C ip port lo ro n t c w = Ret ((SUCCESS, i), c1, w1)" and "i \<noteq> 0"
  shows "\<exists>p e e1. conn_ptr (conn_manager c) ip port t = Some p \<and> heap (conn_manager c) p = Some e
    \<and> m_writeDataNB C e lo ro n w = ((SUCCESS, i), e1, w1) \<and> heap (conn_manager c1) p = Some e1
    \<and> (\<forall>st e2 w2. m_waitWrId C i e1 w1 = Some (st, e2, w2) \<longrightarrow>
         (\<exists>c2. wait_one C i c1 w1 = Ret ((st, ()), c2, w2) \<and> heap (conn_manager c2) p = Some e2
            \<and> inflight_ep c2 = (inflight_ep c)(i := None)
            \<and> wait_one C i c2 w2 = Ret ((NOT_FOUND, ()), c2, w2)))"
  using assms(2) unfolding putNB_def
  by (rule start_nb_success [OF assms(1)]) (use assms(3) in \<open>auto simp: wait_one_def Let_def deref_def plain_def\<close>)

text \<open>Waiting for a request after its connection was removed follows a dangling pointer: the
  endpoint that the table of requests in flight still names has been destroyed by \<open>disConnect\<close>.\<close>

theorem wait_after_disconnect_dangles:
  assumes "cm_wf (conn_manager c)" and "putNB C ip port lo ro n t c w = Ret ((SUCCESS, i), c1, w1)" and "i \<noteq> 0"
    and "disConnect C ip port t c1 w1 = Ret (st, c2, w2)"
  shows "st = SUCCESS \<and> wait_one C i c2 w2 = Fault"
proof -
  have put: "start_nb (\<lambda>e w. m_writeDataNB C e lo ro n w) ip port t c w = Ret ((SUCCESS, i), c1, w1)"
    using assms(2) by (simp add: putNB_def)
  from assms(1) put obtain p where p: "conn_ptr (conn_manager c1) ip port t = Some p" "inflight_ep c1 i = Some p"
    by (rule start_nb_success) (use assms(3) in auto)
  have "st = SUCCESS \<and> heap (conn_manager c2) p = None \<and> inflight_ep c2 i = Some p"
    using disConnect_destroys [OF start_nb_wf [OF assms(1) put] p(1) assms(4)] p(2) by simp
  then show ?thesis using assms(3) by (simp add: wait_one_def deref_def Let_def)
qed

text \<open>Identifiers are local to an endpoint but the table of requests in flight is shared: when two
  endpoints hand out the same identifier, the second registration replaces the first, the wait for
  it runs on the second endpoint, and the request of the first can no longer be waited for.\<close>

theorem equal_ids_collide:
  assumes "cm_wf (conn_manager c)" and "conn_ptr (conn_manager c) ip1 port1 t1 \<noteq> conn_ptr (conn_manager c) ip2 port2 t2"
    and "putNB C ip1 port1 lo1 ro1 n1 t1 c w = Ret ((SUCCESS, i), c1, w1)"
    and "putNB C ip2 port2 lo2 ro2 n2 t2 c1 w1 = Ret ((SUCCESS, i), c2, w2)" and "i \<noteq> 0"
  shows "\<exists>p q. conn_ptr (conn_manager c) ip1 port1 t1 = Some p \<and> inflight_ep c1 i = Some p
    \<and> conn_ptr (conn_manager c) ip2 port2 t2 = Some q \<and> inflight_ep c2 i = Some q \<and> p \<noteq> q
    \<and> (\<forall>r c3 w3. wait_one C i c2 w2 = Ret (r, c3, w3) \<longrightarrow>
         heap (conn_manager c3) p = heap (conn_manager c1) p \<and> wait_one C i c3 w3 = Ret ((NOT_FOUND, ()), c3, w3))"
proof -
  have put1: "start_nb (\<lambda>e w. m_writeDataNB C e lo1 ro1 n1 w) ip1 port1 t1 c w = Ret ((SUCCESS, i), c1, w1)"
    and put2: "start_nb (\<lambda>e w. m_writeDataNB C e lo2 ro2 n2 w) ip2 port2 t2 c1 w1 = Ret ((SUCCESS, i), c2, w2)"
    using assms(3,4) by (simp_all add: putNB_def)
  from assms(1) put1 obtain p e1 where p: "conn_ptr (conn_manager c) ip1 port1 t1 = Some p"
    "inflight_ep c1 i = Some p" "conn_manager c1 = (conn_manager c)\<lparr> heap := (heap (conn_manager c))(p \<mapsto> e1) \<rparr>"
    by (rule start_nb_success) (use assms(5) in auto)
  from start_nb_wf [OF assms(1) put1] put2 obtain q e2 where q: "conn_ptr (conn_manager c) ip2 port2 t2 = Some q"
    "inflight_ep c2 i = Some q" "conn_manager c2 = (conn_manager c1)\<lparr> heap := (heap (conn_manager c1))(q \<mapsto> e2) \<rparr>"
    by (rule start_nb_success) (use assms(5) p(3) in auto)
  have "p \<noteq> q" using assms(2) p(1) q(1) by auto
  moreover have "heap (conn_manager c3) p = heap (conn_manager c1) p \<and> wait_one C i c3 w3 = Ret ((NOT_FOUND, ()), c3, w3)"
    if "wait_one C i c2 w2 = Ret (r, c3, w3)" for r c3 w3
    using that assms(5) q(2,3) \<open>p \<noteq> q\<close>
    by (auto simp: wait_one_def Let_def deref_def split: option.splits)
  ultimately show ?thesis using p q by auto
qed


text \<open>A batch wait that meets an unknown identifier returns at once, and forgets the requests
  listed before it: nothing has been waited for, yet none of them can be waited for again.\<close>

theorem batch_wait_forgets:
  assumes "distinct (xs @ [j])" and "0 \<notin> set (xs @ [j])" and "\<forall>i \<in> set xs. inflight_ep c i \<noteq> None"
    and "inflight_ep c j = None"
  shows "\<exists>c1. wait_all C order (xs @ j # ys) c w = Ret ((NOT_FOUND, ()), c1, w)
    \<and> conn_manager c1 = conn_manager c
    \<and> (\<forall>i \<in> set xs. wait_one C i c1 w = Ret ((NOT_FOUND, ()), c1, w))"
proof -
  obtain gs where "collect_wr_ids (xs @ j # ys) (inflight_ep c) [] = (False, gs, inflight_ep c |` (- set xs))"
    using collect_unknown [OF assms] by blast
  then show ?thesis using assms(2) by (auto simp: wait_all_def Let_def wait_one_def)
qed

section \<open>Connecting\<close>

lemma addEndpoint_conn:
  assumes "t \<noteq> P2P"
  shows "conn_ptr (fst (addEndpoint C ip port (Some e) t cm w)) ip port t = Some (next_ptr cm)"
  using assms
  by (cases t) (simp_all add: conn_ptr_def addEndpoint_def endpointMapFor_def alloc_def set_map_def Let_def
      reset_ptr_fst)

lemma initiate_conn:
  assumes "initiateConnectionAsClient C ip port t cm w = (st, cm', w')"
  shows "if st = SUCCESS then conn_ptr cm' ip port t \<noteq> None else cm' = cm"
proof (cases "t = P2P")
  case False
  obtain e w1 where m: "m_connect C t ip port w = (e, w1)" by (metis surj_pair)
  show ?thesis
  proof (cases e)
    case (Some e')
    then have "cm' = fst (addEndpoint C ip port (Some e') t cm w1)" "st = SUCCESS"
      using assms m False by (auto simp: initiateConnectionAsClient_def)
    then show ?thesis by (simp add: addEndpoint_conn [OF False, of C ip port e' cm w1])
  qed (use assms m False in \<open>auto simp: initiateConnectionAsClient_def\<close>)
qed (use assms in \<open>auto simp: initiateConnectionAsClient_def\<close>)

lemma closed_peer: "ctrl_close sk p m w = (m', w') \<Longrightarrow> id_to_conn m' p = None"
  by (auto simp: ctrl_close_def split: option.splits)

lemma connectCtrl_registers:
  assumes "connectCtrl sk p i link m w = (SUCCESS, m', w')"
  shows "id_to_conn m' p \<noteq> None"
proof -
  have b: "id_to_conn m2 p \<noteq> None" if "bind_conn sk p fd m1 v = (m2, v')" for fd m1 v m2 v'
    using that by (auto simp: bind_conn_def split: option.splits)
  have "id_to_conn m2 p \<noteq> None" if "introduce sk p i fd m v = (True, m2, v')" for fd v m2 v'
    using that b by (auto simp: introduce_def split: prod.splits if_splits)
  then show ?thesis
    using assms
    by (auto simp: connectCtrl_def ok_bool_def connectUds_def connectTcp_def apfst_def map_prod_def
        split: prod.splits if_splits)
qed

text \<open>C28: What \<open>connectTo\<close> leaves behind.  On success the peer address designates an endpoint; if it
  already did, nothing at all has changed, otherwise the peer also has a control connection.  On
  failure the endpoint tables are unchanged; and if the data connection was what failed, the peer has
  no control connection afterwards, not even one that had been registered before the call.\<close>

theorem connectTo_outcome:
  assumes "cm_wf (conn_manager c)"
    and "connectTo C sk peer_id self_id ip port link t (c, m, w) = Ret (st, c', m', w')"
  shows "inflight_ep c' = inflight_ep c
    \<and> (if conn_ptr (conn_manager c) ip port t \<noteq> None
       then st = SUCCESS \<and> c' = c \<and> m' = m \<and> w' = w
       else if st = SUCCESS
       then conn_ptr (conn_manager c') ip port t \<noteq> None \<and> id_to_conn m' peer_id \<noteq> None
       else conn_manager c' = conn_manager c
         \<and> (fst (connectCtrl sk peer_id self_id link m w) = SUCCESS \<longrightarrow> id_to_conn m' peer_id = None))"
proof (cases "conn_ptr (conn_manager c) ip port t")
  case (Some p)
  have "connectTo C sk peer_id self_id ip port link t (c, m, w) = Ret (SUCCESS, c, m, w)"
    by (simp add: connectTo_def checkConn_some [OF assms(1) Some])
  then have "st = SUCCESS" "c' = c" "m' = m" "w' = w" using assms(2) by simp_all
  then show ?thesis using Some by simp
next
  case None
  obtain s0 where s0: "s0 \<noteq> SUCCESS" "checkConn ip port t c w = Ret ((s0, ()), c, w)"
    using checkConn_none [OF None, of w] by auto
  obtain cs m1 w2 where cc: "connectCtrl sk peer_id self_id link m w = (cs, m1, w2)" by (metis surj_pair)
  obtain r cm w3 where ic: "initiateConnectionAsClient C ip port t (conn_manager c) w2 = (r, cm, w3)"
    by (metis surj_pair)
  obtain m2 w4 where cl: "ctrl_close sk peer_id m1 w3 = (m2, w4)" by (metis surj_pair)
  have "id_to_conn m1 peer_id \<noteq> None" if "cs = SUCCESS"
    using cc that connectCtrl_registers by auto
  note reg = this
  have eq: "connectTo C sk peer_id self_id ip port link t (c, m, w)
      = (if cs \<noteq> SUCCESS then Ret (cs, (c, m1, w2))
         else if r \<noteq> SUCCESS then Ret (r, (c\<lparr> conn_manager := cm \<rparr>, m2, w4))
         else Ret (SUCCESS, (c\<lparr> conn_manager := cm \<rparr>, m1, w3)))"
    using s0 cc ic cl by (simp add: connectTo_def closeCtrlPeer_def)
  consider (ctrl) "cs \<noteq> SUCCESS" | (data) "cs = SUCCESS" "r \<noteq> SUCCESS" | (ok) "cs = SUCCESS" "r = SUCCESS" by blast
  then show ?thesis
  proof cases
    case ctrl
    then have "st = cs" "c' = c" "m' = m1" using assms(2) by (simp_all add: eq)
    then show ?thesis using ctrl None cc by simp
  next
    case data
    then have "st = r" "c' = c\<lparr> conn_manager := cm \<rparr>" "m' = m2" using assms(2) by (simp_all add: eq)
    then show ?thesis using data None closed_peer [OF cl] initiate_conn [OF ic] by simp
  next
    case ok
    then have "st = SUCCESS" "c' = c\<lparr> conn_manager := cm \<rparr>" "m' = m1" using assms(2) by (simp_all add: eq)
    then show ?thesis using ok None reg initiate_conn [OF ic] by simp
  qed
qed

section \<open>Witnesses\<close>

definition demo_comm :: "RDMAEndpoint Communicator" where
  "demo_comm = (new_Communicator demo_buffer)\<lparr> conn_manager :=
     fst (addEndpoint demo_class ''g'' 6 (Some demo_endpoint) RDMA demo_table demo_nic) \<rparr>"

lemma demo_comm_wf: "cm_wf (conn_manager demo_comm)"
  by (simp add: demo_comm_def demo_table_def addEndpoint_wf cm_wf_new)

lemma demo_puts:
  "case putNB demo_class ''h'' 5 0 0 8 RDMA demo_comm demo_nic of Ret ((st, i), c1, w1) \<Rightarrow>
     st = SUCCESS \<and> i = 256 \<and>
     (case putNB demo_class ''g'' 6 0 0 8 RDMA c1 w1 of Ret ((st2, i2), c2, w2) \<Rightarrow> st2 = SUCCESS \<and> i2 = 256
      | Diverge \<Rightarrow> False | Fault \<Rightarrow> False)
   | Diverge \<Rightarrow> False | Fault \<Rightarrow> False"
  by code_simp

lemma demo_put_first:
  obtains c1 w1 where "putNB demo_class ''h'' 5 0 0 8 RDMA demo_comm demo_nic = Ret ((SUCCESS, 256), c1, w1)"
  using demo_puts by (auto split: run.splits prod.splits)

lemma demo_put_second:
  assumes "putNB demo_class ''h'' 5 0 0 8 RDMA demo_comm demo_nic = Ret ((SUCCESS, 256), c1, w1)"
  obtains c2 w2 where "putNB demo_class ''g'' 6 0 0 8 RDMA c1 w1 = Ret ((SUCCESS, 256), c2, w2)"
  using demo_puts assms by (auto split: run.splits prod.splits)

lemma demo_ptrs:
  "conn_ptr (conn_manager demo_comm) ''h'' 5 RDMA = Some 0" "conn_ptr (conn_manager demo_comm) ''g'' 6 RDMA = Some 1"
  by (simp_all add: demo_comm_def demo_table_def conn_ptr_def endpointMapFor_def addEndpoint_def alloc_def set_map_def
      new_ConnManager_def Let_def reset_ptr_def)

theorem put_then_wait_witness:
  "\<exists>c1 w1. putNB demo_class ''h'' 5 0 0 8 RDMA demo_comm demo_nic = Ret ((SUCCESS, 256), c1, w1)
     \<and> heap (conn_manager c1) 0 \<noteq> None"
proof -
  obtain c1 w1 where p: "putNB demo_class ''h'' 5 0 0 8 RDMA demo_comm demo_nic = Ret ((SUCCESS, 256), c1, w1)"
    by (rule demo_put_first)
  show ?thesis using put_then_wait [OF demo_comm_wf p] p by (auto simp: demo_ptrs)
qed

theorem wait_after_disconnect_dangles_witness:
  "\<exists>c1 w1 c2 w2. putNB demo_class ''h'' 5 0 0 8 RDMA demo_comm demo_nic = Ret ((SUCCESS, 256), c1, w1)
     \<and> disConnect demo_class ''h'' 5 RDMA c1 w1 = Ret (SUCCESS, c2, w2) \<and> wait_one demo_class 256 c2 w2 = Fault"
proof -
  obtain c1 w1 where p: "putNB demo_class ''h'' 5 0 0 8 RDMA demo_comm demo_nic = Ret ((SUCCESS, 256), c1, w1)"
    by (rule demo_put_first)
  have "cm_wf (conn_manager c1)" "conn_ptr (conn_manager c1) ''h'' 5 RDMA = Some 0"
    by (rule start_nb_success [OF demo_comm_wf p [unfolded putNB_def]];
        simp add: demo_ptrs cm_wf_store [OF demo_comm_wf])+
  then obtain st c2 w2 where d: "disConnect demo_class ''h'' 5 RDMA c1 w1 = Ret (st, c2, w2)"
    using checkConn_some [of c1 "''h''" 5 RDMA 0 w1]
    by (cases "removeEndpoint demo_class ''h'' 5 RDMA (conn_manager c1) w1") (auto simp: disConnect_def)
  show ?thesis using wait_after_disconnect_dangles [OF demo_comm_wf p _ d] p d by auto
qed

theorem equal_ids_collide_witness:
  "\<exists>c1 w1 c2 w2. putNB demo_class ''h'' 5 0 0 8 RDMA demo_comm demo_nic = Ret ((SUCCESS, 256), c1, w1)
     \<and> putNB demo_class ''g'' 6 0 0 8 RDMA c1 w1 = Ret ((SUCCESS, 256), c2, w2)
     \<and> inflight_ep c1 256 = Some 0 \<and> inflight_ep c2 256 = Some 1"
proof -
  obtain c1 w1 where p: "putNB demo_class ''h'' 5 0 0 8 RDMA demo_comm demo_nic = Ret ((SUCCESS, 256), c1, w1)"
    by (rule demo_put_first)
  obtain c2 w2 where q: "putNB demo_class ''g'' 6 0 0 8 RDMA c1 w1 = Ret ((SUCCESS, 256), c2, w2)"
    using p by (rule demo_put_second)
  show ?thesis using equal_ids_collide [OF demo_comm_wf _ p q] p q by (auto simp: demo_ptrs)
qed

definition demo_inflight :: "RDMAEndpoint Communicator" where
  "demo_inflight = demo_comm\<lparr> inflight_ep := [256 \<mapsto> 0, 512 \<mapsto> 1, 768 \<mapsto> 0] \<rparr>"


theorem batch_wait_forgets_witness:
  "\<exists>c1. wait_all demo_class id [256, 5, 512] demo_inflight demo_nic = Ret ((NOT_FOUND, ()), c1, demo_nic)
     \<and> wait_one demo_class 256 c1 demo_nic = Ret ((NOT_FOUND, ()), c1, demo_nic)"
  using batch_wait_forgets [of "[256]" 5 demo_inflight demo_class id "[512]" demo_nic]
  by (auto simp: demo_inflight_def)

text \<open>A class whose client never connects, over the network of sockets.\<close>

definition idle_verbs :: "'w verbs" where
  "idle_verbs = \<lparr> ibv_post_send = (\<lambda>q wr w. (0, w)), ibv_post_recv = (\<lambda>q wr w. (0, w)),
     ibv_poll_cq = (\<lambda>c n w. (None, w)), steady_now = (\<lambda>w. (0, w)) \<rparr>"

definition refusing_class :: "(RDMAEndpoint, net) Endpoint" where
  "refusing_class = rdma_class idle_verbs (\<lambda>a n t e w. Some (UNSUPPORT, e, w))
     (\<lambda>a n t f e w. Some (UNSUPPORT, e, w)) (\<lambda>e w. w) (\<lambda>t ip port w. (None, w)) (\<lambda>t w. w)"

theorem connectTo_outcome_witness:
  "case dial_once of (m, w) \<Rightarrow> fdOf m 1 = 4 \<and>
     (\<exists>c' m' w'. connectTo refusing_class (net_sockets 0) 1 0 ''h'' 5
        \<lparr> l_transport = TCP, l_ip = ''a'', l_port = 1, l_uds_path = [] \<rparr> RDMA (new_Communicator demo_buffer, m, w)
        = Ret (ERROR, c', m', w') \<and> id_to_conn m' 1 = None)"
proof -
  let ?l = "\<lparr> l_transport = TCP, l_ip = ''a'', l_port = 1, l_uds_path = [] \<rparr>"
  let ?c = "new_Communicator demo_buffer :: RDMAEndpoint Communicator"
  obtain m w where d: "dial_once = (m, w)" by (metis surj_pair)
  have "fst (connectCtrl (net_sockets 0) 1 0 ?l (fst dial_once) (snd dial_once)) = SUCCESS"
    by (simp add: connectCtrl_def dial_once_def net_run_defs ok_bool_def Let_def)
  then obtain m1 w1 where cc: "connectCtrl (net_sockets 0) 1 0 ?l m w = (SUCCESS, m1, w1)"
    using d by (metis fst_conv snd_conv surj_pair)
  have none: "conn_ptr (conn_manager ?c) ''h'' 5 RDMA = None" "cm_wf (conn_manager ?c)"
    by (simp_all add: new_Communicator_def cm_wf_new) (simp add: conn_ptr_def endpointMapFor_def new_ConnManager_def)
  obtain s0 where s0: "s0 \<noteq> SUCCESS" "checkConn ''h'' 5 RDMA ?c w = Ret ((s0, ()), ?c, w)"
    using checkConn_none [OF none(1), of w] by auto
  obtain c' m' w' where r: "connectTo refusing_class (net_sockets 0) 1 0 ''h'' 5 ?l RDMA (?c, m, w)
      = Ret (ERROR, c', m', w')"
    using s0 cc by (cases "ctrl_close (net_sockets 0) 1 m1 w1") (simp add: connectTo_def initiateConnectionAsClient_def refusing_class_def rdma_class_def
        closeCtrlPeer_def split_beta)
  show ?thesis
    using connectTo_outcome [OF none(2) r] none(1) cc r dial_once_conns unfolding d by (auto simp: fdOf_def)
qed

end
