(* ===== verification/Hmc_ConnRace.thy ===== *)
theory Hmc_ConnRace
  imports Hmc_ConnManager
begin

text \<open>
  The locking of the connection manager.  The functions of \<open>Hmc_ConnManager\<close> run to completion; here
  the threads that execute them interleave at the granularity of the two locks of the code, the mutex
  of a table and the mutex of an entry (src/network/net.h, \<^verbatim>\<open>withEndpoint\<close>;
  src/network/conn_manager.cpp, \<^verbatim>\<open>_addEndpoint\<close>, \<^verbatim>\<open>_removeEndpoint\<close>, \<^verbatim>\<open>_removeEndpointIfMatch\<close>).
  A block under a mutex that waits for no other lock is one step.  Entries are shared objects that
  outlive their place in the table while a thread still holds them.
\<close>

section \<open>State\<close>

type_synonym entry = nat
type_synonym thread = nat

text \<open>Where a thread is: idle; in \<^verbatim>\<open>withEndpoint\<close> with the entry found, or inside the call with the
  entry locked and the endpoint taken; in \<^verbatim>\<open>_removeEndpoint\<close> with the entry erased from the table.\<close>

datatype pc = Idle | Found entry | Using entry ptr | Erased entry

record race =
  r_map :: "PeerKey \<rightharpoonup> entry"
  r_endpoint :: "entry \<Rightarrow> ptr option"
  r_lock :: "entry \<Rightarrow> thread option"
  r_dead :: "ptr set"
  r_pc :: "thread \<Rightarrow> pc"
  r_entries :: entry
  r_ptrs :: ptr

definition race_init :: race where
  "race_init = \<lparr> r_map = Map.empty, r_endpoint = (\<lambda>e. None), r_lock = (\<lambda>e. None), r_dead = {},
     r_pc = (\<lambda>t. Idle), r_entries = 0, r_ptrs = 0 \<rparr>"

definition kill :: "ptr option \<Rightarrow> race \<Rightarrow> race" where
  "kill p s = (case p of None \<Rightarrow> s | Some q \<Rightarrow> s\<lparr> r_dead := insert q (r_dead s) \<rparr>)"

section \<open>Steps\<close>

inductive race_step :: "race \<Rightarrow> race \<Rightarrow> bool" where
  with_lookup: "r_pc s t = Idle \<Longrightarrow> r_map s key = Some e \<Longrightarrow> race_step s (s\<lparr> r_pc := (r_pc s)(t := Found e) \<rparr>)"
| with_enter: "r_pc s t = Found e \<Longrightarrow> r_lock s e = None \<Longrightarrow> r_endpoint s e = Some p \<Longrightarrow>
    race_step s (s\<lparr> r_pc := (r_pc s)(t := Using e p), r_lock := (r_lock s)(e := Some t) \<rparr>)"
| with_null: "r_pc s t = Found e \<Longrightarrow> r_lock s e = None \<Longrightarrow> r_endpoint s e = None \<Longrightarrow>
    race_step s (s\<lparr> r_pc := (r_pc s)(t := Idle) \<rparr>)"
| with_leave: "r_pc s t = Using e p \<Longrightarrow>
    race_step s (s\<lparr> r_pc := (r_pc s)(t := Idle), r_lock := (r_lock s)(e := None) \<rparr>)"
| remove_erase: "r_pc s t = Idle \<Longrightarrow> r_map s key = Some e \<Longrightarrow>
    race_step s (s\<lparr> r_map := (r_map s)(key := None), r_pc := (r_pc s)(t := Erased e) \<rparr>)"
| remove_take: "r_pc s t = Erased e \<Longrightarrow> r_lock s e = None \<Longrightarrow>
    race_step s (kill (r_endpoint s e) (s\<lparr> r_endpoint := (r_endpoint s)(e := None), r_pc := (r_pc s)(t := Idle) \<rparr>))"
| remove_match: "r_pc s t = Idle \<Longrightarrow> r_map s key = Some e \<Longrightarrow> r_lock s e = None \<Longrightarrow>
    race_step s (kill (r_endpoint s e) (s\<lparr> r_map := (r_map s)(key := None), r_endpoint := (r_endpoint s)(e := None) \<rparr>))"
| add_new: "r_pc s t = Idle \<Longrightarrow> r_map s key = None \<Longrightarrow>
    race_step s (s\<lparr> r_map := (r_map s)(key \<mapsto> r_entries s),
      r_endpoint := (r_endpoint s)(r_entries s := Some (r_ptrs s)), r_entries := Suc (r_entries s),
      r_ptrs := Suc (r_ptrs s) \<rparr>)"

text \<open>\<^verbatim>\<open>_addEndpoint\<close> on an address that is in the table: the new endpoint replaces the old one in the
  same entry under the mutex of the table only.\<close>

inductive replace_step :: "race \<Rightarrow> race \<Rightarrow> bool" where
  "r_pc s t = Idle \<Longrightarrow> r_map s key = Some e \<Longrightarrow>
    replace_step s (kill (r_endpoint s e) (s\<lparr> r_endpoint := (r_endpoint s)(e := Some (r_ptrs s)),
      r_ptrs := Suc (r_ptrs s) \<rparr>))"

section \<open>Invariant\<close>

definition race_inv :: "race \<Rightarrow> bool" where
  "race_inv s \<longleftrightarrow>
     (\<forall>t e p. r_pc s t = Using e p \<longrightarrow> r_lock s e = Some t \<and> r_endpoint s e = Some p)
   \<and> (\<forall>e p. r_endpoint s e = Some p \<longrightarrow> p < r_ptrs s \<and> e < r_entries s \<and> p \<notin> r_dead s)
   \<and> (\<forall>e e' p. r_endpoint s e = Some p \<longrightarrow> r_endpoint s e' = Some p \<longrightarrow> e = e')
   \<and> (\<forall>p \<in> r_dead s. p < r_ptrs s)"

lemma race_inv_init: "race_inv race_init"
  by (simp add: race_inv_def race_init_def)

lemma race_invD:
  assumes "race_inv s"
  shows "r_pc s t = Using e p \<Longrightarrow> r_lock s e = Some t" "r_pc s t = Using e p \<Longrightarrow> r_endpoint s e = Some p"
    "r_endpoint s e = Some p \<Longrightarrow> p < r_ptrs s" "r_endpoint s e = Some p \<Longrightarrow> e < r_entries s"
    "r_endpoint s e = Some p \<Longrightarrow> p \<notin> r_dead s" "p \<in> r_dead s \<Longrightarrow> p < r_ptrs s"
    "r_endpoint s e = Some p \<Longrightarrow> r_endpoint s e' = Some p \<Longrightarrow> e = e'"
  using assms by (simp_all add: race_inv_def)

lemma race_inv_step:
  assumes "race_step s s'" and "race_inv s"
  shows "race_inv s'"
  using assms(1)
proof cases
  case (with_enter t e p)
  have "u \<noteq> t \<Longrightarrow> r_pc s u = Using e q \<Longrightarrow> False" for u q
    using race_invD(1) [OF assms(2), of u e q] with_enter(3) by simp
  then show ?thesis using assms(2) with_enter by (auto simp: race_inv_def)
next
  case (with_leave t e p)
  have l: "r_lock s e = Some t" by (rule race_invD(1) [OF assms(2) with_leave(2)])
  have "r_lock s' e' = Some u \<and> r_endpoint s' e' = Some q" if "r_pc s' u = Using e' q" for u e' q
  proof -
    have u: "u \<noteq> t" "r_pc s u = Using e' q" using that with_leave(1) by (auto split: if_splits)
    then have "r_lock s e' = Some u" "r_endpoint s e' = Some q" using race_invD(1,2) [OF assms(2)] by blast+
    then show ?thesis using u(1) l with_leave(1) by auto
  qed
  moreover have "r_endpoint s' = r_endpoint s" "r_dead s' = r_dead s" "r_ptrs s' = r_ptrs s"
    "r_entries s' = r_entries s" using with_leave(1) by simp_all
  ultimately show ?thesis using assms(2) unfolding race_inv_def by simp
next
  case (remove_take t e)
  have nu: "r_pc s u \<noteq> Using e q" for u q
    using race_invD(1) [OF assms(2), of u e q] remove_take(3) by auto
  then show ?thesis
    using assms(2) remove_take race_invD(3,7) [OF assms(2)]
    by (cases "r_endpoint s e") (auto simp: race_inv_def kill_def)
next
  case (remove_match t key e)
  have nu: "r_pc s u \<noteq> Using e q" for u q
    using race_invD(1) [OF assms(2), of u e q] remove_match(4) by auto
  then show ?thesis
    using assms(2) remove_match race_invD(3,7) [OF assms(2)]
    by (cases "r_endpoint s e") (auto simp: race_inv_def kill_def)
next
  case (add_new t key)
  have "r_endpoint s (r_entries s) = None"
    using race_invD(4) [OF assms(2)] by (metis less_irrefl option.exhaust)
  moreover have "r_endpoint s e \<noteq> Some (r_ptrs s)" for e
    using race_invD(3) [OF assms(2)] by (metis less_irrefl)
  moreover have "r_ptrs s \<notin> r_dead s"
    using race_invD(6) [OF assms(2)] by (metis less_irrefl)
  ultimately show ?thesis
    using assms(2) add_new by (auto simp: race_inv_def less_Suc_eq)
qed (use assms(2) in \<open>auto simp: race_inv_def\<close>)

lemma race_reachable_inv: "race_step\<^sup>*\<^sup>* race_init s \<Longrightarrow> race_inv s"
  by (induction rule: rtranclp_induct) (auto simp: race_inv_init intro: race_inv_step)

section \<open>Properties\<close>

text \<open>C26: However lookups, calls, removals and additions of new peers interleave, an endpoint is
  never destroyed while a call uses it, and no two calls use the same endpoint at once: removing in
  two phases, first from the table and then under the lock of the entry, is enough.\<close>

theorem no_use_after_free:
  assumes "race_step\<^sup>*\<^sup>* race_init s" and "r_pc s t = Using e p"
  shows "p \<notin> r_dead s \<and> (\<forall>u e'. r_pc s u = Using e' p \<longrightarrow> u = t)"
proof -
  note inv = race_reachable_inv [OF assms(1)]
  have ep: "r_endpoint s e = Some p" by (rule race_invD(2) [OF inv assms(2)])
  have "u = t" if "r_pc s u = Using e' p" for u e'
  proof -
    have "e' = e" using race_invD(7) [OF inv race_invD(2) [OF inv that] ep] .
    then show ?thesis using race_invD(1) [OF inv that] race_invD(1) [OF inv assms(2)] by simp
  qed
  then show ?thesis using race_invD(5) [OF inv ep] by blast
qed

definition demo_key :: PeerKey where
  "demo_key = \<lparr> pk_ip = ''h'', pk_port = 5 \<rparr>"

text \<open>One peer is connected and a call on its endpoint is running.\<close>

definition race_busy :: race where
  "race_busy = \<lparr> r_map = [demo_key \<mapsto> 0], r_endpoint = (\<lambda>e. None)(0 := Some 0),
     r_lock = (\<lambda>e. None)(0 := Some 1), r_dead = {}, r_pc = (\<lambda>t. Idle)(1 := Using 0 0), r_entries = 1,
     r_ptrs = 1 \<rparr>"

lemma race_busy_reachable: "race_step\<^sup>*\<^sup>* race_init race_busy"
proof -
  let ?s1 = "\<lparr> r_map = [demo_key \<mapsto> 0], r_endpoint = (\<lambda>e. None)(0 := Some 0), r_lock = (\<lambda>e. None), r_dead = {},
     r_pc = (\<lambda>t. Idle), r_entries = 1, r_ptrs = 1 \<rparr> :: race"
  have "race_step race_init ?s1"
    using race_step.add_new [of race_init 0 demo_key] by (simp add: race_init_def)
  moreover have "race_step ?s1 (?s1\<lparr> r_pc := (\<lambda>t. Idle)(1 := Found 0) \<rparr>)"
    using race_step.with_lookup [of ?s1 1 demo_key 0] by simp
  moreover have "race_step (?s1\<lparr> r_pc := (\<lambda>t. Idle)(1 := Found 0) \<rparr>) race_busy"
    using race_step.with_enter [of "?s1\<lparr> r_pc := (\<lambda>t. Idle)(1 := Found 0) \<rparr>" 1 0 0]
    by (simp add: race_busy_def)
  ultimately show ?thesis by (meson rtranclp.rtrancl_refl rtranclp.rtrancl_into_rtrancl)
qed

theorem no_use_after_free_witness:
  "r_pc race_busy 1 = Using 0 0 \<and> 0 \<notin> r_dead race_busy"
  using no_use_after_free [OF race_busy_reachable, of 1 0 0] by (simp add: race_busy_def)

text \<open>C27: Replacing the endpoint of a connected address in place breaks this: the old endpoint is
  destroyed while a call is still running on it.  \<^verbatim>\<open>_addEndpoint\<close> does so when a UCX peer connects again
  under the same address and port, and when an RDMA connection made by \<^verbatim>\<open>initiateConnectionAsClient\<close>
  completes for an address that the server's thread has registered meanwhile; the RDMA server itself
  removes the old entry first.\<close>

theorem replacement_frees_in_use:
  "\<exists>s s'. race_step\<^sup>*\<^sup>* race_init s \<and> replace_step s s' \<and> r_pc s' 1 = Using 0 0 \<and> 0 \<in> r_dead s'"
proof -
  have "replace_step race_busy (kill (Some 0) (race_busy\<lparr> r_endpoint := (r_endpoint race_busy)(0 := Some 1),
      r_ptrs := 2 \<rparr>))"
    using replace_step.intros [of race_busy 0 demo_key 0] by (simp add: race_busy_def numeral_2_eq_2)
  then show ?thesis
    using race_busy_reachable by (intro exI conjI) (assumption | simp add: kill_def race_busy_def)+
qed

end
