(* ===== verification/Hmc_RdmaSetup.thy ===== *)
theory Hmc_RdmaSetup
  imports Hmc_RdmaEndpoint
begin

text \<open>
  Building and tearing down an RDMA endpoint: queue pairs, memory registration, local metadata and
  the release of every verbs object (src/network/rdma_endpoint.cpp, fields in
  src/network/net_rdma.h).  \<open>RDMAConn\<close> extends the endpoint record of \<open>Hmc_RdmaEndpoint\<close> with the
  fields only these operations use.  libibverbs and librdmacm are the parameter \<open>rdma_api\<close>; objects
  are handles.  A result \<open>None\<close> is undefined behaviour: a fixed-size array of the endpoint is indexed
  out of its bounds.
\<close>

section \<open>State\<close>

record RDMAConn = RDMAEndpoint +
  cm_id :: "nat option"
  pd :: "nat option"
  remote_metadata_mr :: "ibv_mr option"
  local_metadata_mr :: "ibv_mr option"
  uhm_buffer_state_mr :: "ibv_mr option"
  cm_event_channel :: "nat option"
  completion_channel :: "nat option"
  port_num :: u8
  sgid_index :: u8
  grh_hop_limit :: u8

text \<open>The addresses of the members that are registered: \<^verbatim>\<open>local_metadata_attr\<close>,
  \<^verbatim>\<open>remote_metadata_attr\<close> and \<^verbatim>\<open>uhm_buffer_state\<close>, and their sizes.\<close>

record layout =
  local_attr_addr :: addr
  remote_attr_addr :: addr
  uhm_state_addr :: addr

definition sizeof_rdma_buffer_attr :: nat where
  "sizeof_rdma_buffer_attr = 8 + 4 + 4 + 8 + 4 + 4 + 4 * MAX_QPS + 16 + 1"

definition sizeof_UHMBufferState :: nat where
  "sizeof_UHMBufferState = 16"

definition new_RDMAConn :: "environ \<Rightarrow> ConnBuffer \<Rightarrow> size_t \<Rightarrow> EndpointType \<Rightarrow> RDMAConn" where
  "new_RDMAConn env b nq r = RDMAEndpoint.extend (new_RDMAEndpoint env b nq r)
     \<lparr> cm_id = None, pd = None, remote_metadata_mr = None, local_metadata_mr = None,
       uhm_buffer_state_mr = None, cm_event_channel = None, completion_channel = None,
       port_num = 1, sgid_index = 1, grh_hop_limit = 1 \<rparr>"

section \<open>Verbs and connection manager calls\<close>

datatype qp_transition =
  ToInit u8
| ToRtr ibv_mtu u32 "u8 list" u8 u8 u8
| ToRts

datatype cm_event = ADDR_RESOLVED | ROUTE_RESOLVED | ESTABLISHED | CONNECT_REQUEST nat "u8 list"
  | DISCONNECTED nat | OTHER_EVENT

record 'w rdma_api =
  rdma_create_event_channel :: "'w \<Rightarrow> nat option \<times> 'w"
  rdma_create_id :: "nat option \<Rightarrow> 'w \<Rightarrow> nat option \<times> 'w"
  rdma_bind_addr :: "nat \<Rightarrow> string \<Rightarrow> u16 \<Rightarrow> 'w \<Rightarrow> int \<times> 'w"
  rdma_listen :: "nat \<Rightarrow> 'w \<Rightarrow> int \<times> 'w"
  rdma_resolve_addr :: "nat \<Rightarrow> string \<Rightarrow> u16 \<Rightarrow> 'w \<Rightarrow> int \<times> 'w"
  rdma_resolve_route :: "nat \<Rightarrow> 'w \<Rightarrow> int \<times> 'w"
  rdma_get_cm_event :: "nat option \<Rightarrow> 'w \<Rightarrow> cm_event option \<times> 'w"
  rdma_connect :: "nat \<Rightarrow> u8 list \<Rightarrow> 'w \<Rightarrow> int \<times> 'w"
  rdma_accept :: "nat \<Rightarrow> 'w \<Rightarrow> int \<times> 'w"
  rdma_reject :: "nat \<Rightarrow> 'w \<Rightarrow> 'w"
  rdma_disconnect :: "nat option \<Rightarrow> 'w \<Rightarrow> int \<times> 'w"
  rdma_create_qp :: "nat \<Rightarrow> nat \<Rightarrow> nat \<Rightarrow> u16 \<Rightarrow> u16 \<Rightarrow> 'w \<Rightarrow> qp option \<times> 'w"
  ibv_create_qp :: "nat \<Rightarrow> nat \<Rightarrow> u16 \<Rightarrow> u16 \<Rightarrow> 'w \<Rightarrow> qp option \<times> 'w"
  ibv_create_comp_channel :: "nat \<Rightarrow> 'w \<Rightarrow> nat option \<times> 'w"
  ibv_create_cq :: "nat \<Rightarrow> u16 \<Rightarrow> nat \<Rightarrow> 'w \<Rightarrow> nat option \<times> 'w"
  ibv_alloc_pd :: "nat \<Rightarrow> 'w \<Rightarrow> nat option \<times> 'w"
  ibv_reg_mr :: "nat option \<Rightarrow> addr \<Rightarrow> nat \<Rightarrow> 'w \<Rightarrow> ibv_mr option \<times> 'w"
  ibv_dereg_mr :: "ibv_mr \<Rightarrow> 'w \<Rightarrow> int \<times> 'w"
  ibv_destroy_qp :: "qp \<Rightarrow> 'w \<Rightarrow> 'w"
  ibv_destroy_cq :: "nat \<Rightarrow> 'w \<Rightarrow> 'w"
  ibv_destroy_comp_channel :: "nat \<Rightarrow> 'w \<Rightarrow> 'w"
  ibv_dealloc_pd :: "nat \<Rightarrow> 'w \<Rightarrow> 'w"
  rdma_destroy_event_channel :: "nat \<Rightarrow> 'w \<Rightarrow> 'w"
  rdma_destroy_id :: "nat \<Rightarrow> 'w \<Rightarrow> 'w"
  ibv_query_port :: "nat \<Rightarrow> u8 \<Rightarrow> 'w \<Rightarrow> (int \<times> ibv_mtu) \<times> 'w"
  ibv_query_gid :: "nat \<Rightarrow> u8 \<Rightarrow> u8 \<Rightarrow> 'w \<Rightarrow> (int \<times> u8 list) \<times> 'w"
  ibv_modify_qp :: "qp \<Rightarrow> qp_transition \<Rightarrow> 'w \<Rightarrow> int \<times> 'w"
  qp_num :: "qp \<Rightarrow> u32"

section \<open>Queue pairs\<close>

definition resize :: "nat \<Rightarrow> 'a option list \<Rightarrow> 'a option list" where
  "resize n xs = take n xs @ replicate (n - length xs) None"

text \<open>\<^verbatim>\<open>qps_[i] = ibv_create_qp(...)\<close> for the remaining indices; \<open>False\<close> at the first failure.\<close>

primrec create_extra_qps ::
  "'w rdma_api \<Rightarrow> nat \<Rightarrow> nat \<Rightarrow> nat list \<Rightarrow> RDMAConn \<Rightarrow> 'w \<Rightarrow> bool \<times> RDMAConn \<times> 'w" where
  "create_extra_qps A p c [] e w = (True, e, w)"
| "create_extra_qps A p c (i # is) e w =
    (case ibv_create_qp A p c (max_wr e) (max_sge e) w of (q, w1) \<Rightarrow>
       let e1 = e\<lparr> qps := (qps e)[i := q] \<rparr>
       in if q = None then (False, e1, w1) else create_extra_qps A p c is e1 w1)"

text \<open>\<open>None\<close>: a queue pair is missing, or the list of the metadata is too short.\<close>

definition record_qp_nums :: "'w rdma_api \<Rightarrow> RDMAConn \<Rightarrow> RDMAConn option" where
  "record_qp_nums A e =
    (let n = unat (num_qps e); used = take n (qps e)
     in if n > MAX_QPS \<or> length (qps e) < n \<or> None \<in> set used then None
        else Some (e\<lparr> local_metadata_attr := (local_metadata_attr e)\<lparr> ra_qp_nums := ucast (num_qps e),
               ra_qp_num_list := map (\<lambda>q. qp_num A (the q)) used
                 @ drop n (ra_qp_num_list (local_metadata_attr e)) \<rparr> \<rparr>))"

definition setupQPs :: "'w rdma_api \<Rightarrow> RDMAConn \<Rightarrow> 'w \<Rightarrow> (status_t \<times> RDMAConn \<times> 'w) option" where
  "setupQPs A e w =
    (case (pd e, cq e, cm_id e) of
       (Some p, Some c, Some i) \<Rightarrow>
         let e1 = e\<lparr> qps := resize (unat (num_qps e)) (qps e) \<rparr>
         in (case rdma_create_qp A i p c (max_wr e) (max_sge e) w of
               (None, w1) \<Rightarrow> Some (ERROR, e1, w1)
             | (Some q, w1) \<Rightarrow>
                 if num_qps e = 0 then None
                 else (case create_extra_qps A p c [1 ..< unat (num_qps e)] (e1\<lparr> qps := (qps e1)[0 := Some q] \<rparr>) w1 of
                   (ok, e2, w2) \<Rightarrow>
                     if \<not> ok then Some (ERROR, e2, w2)
                     else (case record_qp_nums A e2 of
                             None \<Rightarrow> None
                           | Some e3 \<Rightarrow> Some (SUCCESS, e3, w2))))
     | _ \<Rightarrow> Some (ERROR, e, w))"

text \<open>Each extra queue pair goes through INIT, RTR and RTS.\<close>

definition qp_to_rts :: "'w rdma_api \<Rightarrow> ibv_mtu \<Rightarrow> RDMAConn \<Rightarrow> nat \<Rightarrow> qp \<Rightarrow> 'w \<Rightarrow> bool \<times> 'w" where
  "qp_to_rts A mtu e i q w =
    (case ibv_modify_qp A q (ToInit (port_num e)) w of (r1, w1) \<Rightarrow>
       if r1 \<noteq> 0 then (False, w1)
       else case ibv_modify_qp A q (ToRtr mtu (ra_qp_num_list (remote_metadata_attr e) ! i)
              (ra_gid (remote_metadata_attr e)) (sgid_index e) (grh_hop_limit e) (port_num e)) w1 of (r2, w2) \<Rightarrow>
         if r2 \<noteq> 0 then (False, w2)
         else case ibv_modify_qp A q ToRts w2 of (r3, w3) \<Rightarrow> (r3 = 0, w3))"

primrec extra_to_rts ::
  "'w rdma_api \<Rightarrow> ibv_mtu \<Rightarrow> RDMAConn \<Rightarrow> nat list \<Rightarrow> 'w \<Rightarrow> (status_t \<times> 'w) option" where
  "extra_to_rts A mtu e [] w = Some (SUCCESS, w)"
| "extra_to_rts A mtu e (i # is) w =
    (if length (qps e) \<le> i then None
     else case qps e ! i of
       None \<Rightarrow> extra_to_rts A mtu e is w
     | Some q \<Rightarrow>
         if MAX_QPS \<le> i then None
         else (case qp_to_rts A mtu e i q w of (ok, w1) \<Rightarrow>
           if ok then extra_to_rts A mtu e is w1 else Some (ERROR, w1)))"

definition mtu_code :: "ibv_mtu \<Rightarrow> u32" where
  "mtu_code m = (case m of IBV_MTU_256 \<Rightarrow> 1 | IBV_MTU_512 \<Rightarrow> 2 | IBV_MTU_1024 \<Rightarrow> 3 | IBV_MTU_2048 \<Rightarrow> 4
     | IBV_MTU_4096 \<Rightarrow> 5)"

definition transitionExtraQPsToRTS ::
  "'w rdma_api \<Rightarrow> environ \<Rightarrow> RDMAConn \<Rightarrow> 'w \<Rightarrow> (status_t \<times> 'w) option" where
  "transitionExtraQPsToRTS A env e w =
    (if num_qps e \<le> 1 then Some (SUCCESS, w)
     else
       let (path_mtu, w1) = (case pd e of
              None \<Rightarrow> (IBV_MTU_1024, w)
            | Some p \<Rightarrow> (case ibv_query_port A p (port_num e) w of ((rc, active), w1) \<Rightarrow>
                (if rc = 0 then active else IBV_MTU_1024, w1)));
           path_mtu = mtuFromIntOrDefault (envU32OrDefault env ''HMC_RDMA_PATH_MTU'' (mtu_code path_mtu)) path_mtu
       in extra_to_rts A path_mtu e [1 ..< unat (num_qps e)] w1)"

section \<open>Memory registration and local metadata\<close>

definition registerMemory ::
  "'w rdma_api \<Rightarrow> RDMAConn \<Rightarrow> addr \<Rightarrow> nat \<Rightarrow> ibv_mr option \<Rightarrow> 'w \<Rightarrow> (status_t \<times> ibv_mr option) \<times> 'w" where
  "registerMemory A e a n mr w =
    (if a = 0 then ((ERROR, mr), w)
     else case ibv_reg_mr A (pd e) a n w of
       (None, w1) \<Rightarrow> ((ERROR, None), w1)
     | (Some m, w1) \<Rightarrow> ((SUCCESS, Some m), w1))"

definition deRegisterMemory :: "'w rdma_api \<Rightarrow> ibv_mr option \<Rightarrow> 'w \<Rightarrow> status_t \<times> 'w" where
  "deRegisterMemory A mr w =
    (case mr of
       None \<Rightarrow> (ERROR, w)
     | Some m \<Rightarrow> (case ibv_dereg_mr A m w of (r, w1) \<Rightarrow> (if r \<noteq> 0 then ERROR else SUCCESS, w1)))"

text \<open>The fields \<open>setupBuffers\<close> writes: the buffer's address, its length truncated to 32 bits and its
  local key; the UHM state; the GID, zeros when the query fails.\<close>

definition buffer_attr :: "ConnBuffer \<Rightarrow> ibv_mr \<Rightarrow> rdma_buffer_attr \<Rightarrow> rdma_buffer_attr" where
  "buffer_attr b mr a = a\<lparr> ra_address := ptr b, ra_length := ucast (buffer_size b), ra_key := lkey mr \<rparr>"

definition state_attr :: "layout \<Rightarrow> ibv_mr \<Rightarrow> rdma_buffer_attr \<Rightarrow> rdma_buffer_attr" where
  "state_attr L mr a = a\<lparr> ra_uhm_state_address := uhm_state_addr L, ra_uhm_state_key := lkey mr \<rparr>"

definition gid_attr :: "int \<Rightarrow> u8 list \<Rightarrow> u8 \<Rightarrow> rdma_buffer_attr \<Rightarrow> rdma_buffer_attr" where
  "gid_attr rc gid idx a = a\<lparr> ra_gid := (if rc = 0 then gid else replicate 16 0), ra_sgid_index := idx \<rparr>"

definition setupBuffers ::
  "'w rdma_api \<Rightarrow> layout \<Rightarrow> RDMAConn \<Rightarrow> 'w \<Rightarrow> (status_t \<times> RDMAConn \<times> 'w) option" where
  "setupBuffers A L e w =
    (case registerMemory A e (local_attr_addr L) sizeof_rdma_buffer_attr (local_metadata_mr e) w of ((s1, m1), w1) \<Rightarrow>
     let e1 = e\<lparr> local_metadata_mr := m1 \<rparr> in
     if s1 \<noteq> SUCCESS then Some (s1, e1, w1)
     else case registerMemory A e1 (remote_attr_addr L) sizeof_rdma_buffer_attr (remote_metadata_mr e1) w1 of ((s2, m2), w2) \<Rightarrow>
     let e2 = e1\<lparr> remote_metadata_mr := m2 \<rparr> in
     if s2 \<noteq> SUCCESS then Some (s2, e2, w2)
     else case registerMemory A e2 (ptr (ep_buffer e2)) (unat (buffer_size (ep_buffer e2))) (buffer_mr e2) w2 of ((s3, m3), w3) \<Rightarrow>
     let e3 = e2\<lparr> buffer_mr := m3 \<rparr> in
     if s3 \<noteq> SUCCESS then Some (s3, e3, w3)
     else
     let e3 = e3\<lparr> local_metadata_attr := buffer_attr (ep_buffer e3) (the m3) (local_metadata_attr e3) \<rparr> in
     case registerMemory A e3 (uhm_state_addr L) sizeof_UHMBufferState (uhm_buffer_state_mr e3) w3 of ((s4, m4), w4) \<Rightarrow>
     let e4 = e3\<lparr> uhm_buffer_state_mr := m4 \<rparr> in
     if s4 \<noteq> SUCCESS then Some (s4, e4, w4)
     else
     let e4 = e4\<lparr> local_metadata_attr := state_attr L (the m4) (local_metadata_attr e4) \<rparr> in
     case pd e4 of
       None \<Rightarrow> None
     | Some p \<Rightarrow> (case ibv_query_gid A p (port_num e4) (sgid_index e4) w4 of ((rc, gid), w5) \<Rightarrow>
         let e5 = e4\<lparr> local_metadata_attr := gid_attr rc gid (sgid_index e4) (local_metadata_attr e4) \<rparr>
         in (case record_qp_nums A e5 of
               None \<Rightarrow> None
             | Some e6 \<Rightarrow> Some (SUCCESS, e6, w5))))"

section \<open>Closing\<close>

definition closeEndpoint :: "'w rdma_api \<Rightarrow> RDMAConn \<Rightarrow> 'w \<Rightarrow> status_t \<times> 'w" where
  "closeEndpoint A e w =
    (case rdma_disconnect A (cm_id e) w of (r, w1) \<Rightarrow>
       if r \<noteq> 0 then (ERROR, w1)
       else case rdma_get_cm_event A (cm_event_channel e) w1 of
         (None, w2) \<Rightarrow> (ERROR, w2)
       | (Some _, w2) \<Rightarrow> (SUCCESS, w2))"

text \<open>Release an object unless its pointer is null.\<close>

definition release :: "('a \<Rightarrow> 'w \<Rightarrow> 'w) \<Rightarrow> 'a option \<Rightarrow> 'w \<Rightarrow> 'w" where
  "release f x w = (case x of None \<Rightarrow> w | Some h \<Rightarrow> f h w)"

definition cleanRdmaResources :: "'w rdma_api \<Rightarrow> RDMAConn \<Rightarrow> 'w \<Rightarrow> RDMAConn \<times> 'w" where
  "cleanRdmaResources A e w =
    (let dereg = (\<lambda>m w. snd (deRegisterMemory A (Some m) w));
         w1 = fold (release (ibv_destroy_qp A)) (qps e) w;
         w2 = release dereg (local_metadata_mr e) w1;
         w3 = release dereg (remote_metadata_mr e) w2;
         w4 = release dereg (uhm_buffer_state_mr e) w3;
         w5 = release dereg (buffer_mr e) w4;
         w6 = release (ibv_destroy_cq A) (cq e) w5;
         w7 = release (ibv_destroy_comp_channel A) (completion_channel e) w6;
         w8 = release (ibv_dealloc_pd A) (pd e) w7;
         w9 = release (rdma_destroy_event_channel A) (cm_event_channel e) w8;
         w10 = release (rdma_destroy_id A) (cm_id e) w9
     in (e\<lparr> qps := [], local_metadata_mr := None, remote_metadata_mr := None, uhm_buffer_state_mr := None,
            buffer_mr := None, cq := None, completion_channel := None, pd := None, cm_event_channel := None,
            cm_id := None \<rparr>, w10))"

definition delete_RDMAEndpoint :: "'w rdma_api \<Rightarrow> RDMAConn \<Rightarrow> 'w \<Rightarrow> 'w" where
  "delete_RDMAEndpoint A e w =
    (let w1 = (if ep_role e = Client \<and> connStatus e = SUCCESS then snd (closeEndpoint A e w) else w)
     in snd (cleanRdmaResources A e w1))"

section \<open>How many queue pairs\<close>

lemma extra_qps_created:
  assumes "create_extra_qps A p c is e w = (ok, e', w')" and "\<forall>i \<in> set is. i < length (qps e)"
  shows "length (qps e') = length (qps e) \<and> (\<forall>j < length (qps e). j \<notin> set is \<longrightarrow> qps e' ! j = qps e ! j)
    \<and> num_qps e' = num_qps e \<and> (ok \<longrightarrow> distinct is \<longrightarrow> (\<forall>i \<in> set is. qps e' ! i \<noteq> None))"
  using assms
proof (induction "is" arbitrary: e w)
  case (Cons i "is")
  obtain q w1 where q: "ibv_create_qp A p c (max_wr e) (max_sge e) w = (q, w1)" by (metis surj_pair)
  let ?e = "e\<lparr> qps := (qps e)[i := q] \<rparr>"
  show ?case
  proof (cases q)
    case None
    then show ?thesis using Cons.prems q by (auto simp: Let_def nth_list_update)
  next
    case (Some h)
    have run: "create_extra_qps A p c is ?e w1 = (ok, e', w')" using Cons.prems(1) q Some by (simp add: Let_def)
    have i: "i < length (qps e)" using Cons.prems(2) by simp
    have ih: "length (qps e') = length (qps e)" "num_qps e' = num_qps e"
      "\<And>j. j < length (qps e) \<Longrightarrow> j \<notin> set is \<Longrightarrow> qps e' ! j = (qps e)[i := q] ! j"
      "ok \<Longrightarrow> distinct is \<Longrightarrow> \<forall>j \<in> set is. qps e' ! j \<noteq> None"
      using Cons.IH [OF run] Cons.prems(2) by simp_all
    show ?thesis using ih i Some by (auto simp: nth_list_update)
  qed
qed auto

end
