(* ===== verification/Hmc_RdmaObjects.thy ===== *)
theory Hmc_RdmaObjects
  imports Hmc_RdmaSetup "HOL-Library.Multiset"
begin

text \<open>
  Ownership of verbs and connection manager objects by an endpoint.  The locale \<open>rdma_objects\<close> is the
  documented contract of the calls that create and destroy objects, over the set \<open>objs w\<close> of the live
  ones: a created object is fresh, destroying a live object removes it and nothing else, and the other
  calls leave the set alone.  Destroying an object that is not live is not specified, so a proof
  under the contract shows the absence of double destruction as well.  \<open>Listen c\<close> records that an
  identifier of channel \<open>c\<close> listens; only such a channel reports connection requests, each with a
  fresh identifier.  The contract is interpreted on a reference world.
\<close>

section \<open>Objects\<close>

datatype rdma_obj = Chan nat | Id nat | Qp qp | Cq nat | Pd nat | CompChan nat | Mr ibv_mr | Listen nat

fun destroy :: "'w rdma_api \<Rightarrow> rdma_obj \<Rightarrow> 'w \<Rightarrow> 'w" where
  "destroy A (Chan h) w = rdma_destroy_event_channel A h w"
| "destroy A (Id h) w = rdma_destroy_id A h w"
| "destroy A (Qp h) w = ibv_destroy_qp A h w"
| "destroy A (Cq h) w = ibv_destroy_cq A h w"
| "destroy A (Pd h) w = ibv_dealloc_pd A h w"
| "destroy A (CompChan h) w = ibv_destroy_comp_channel A h w"
| "destroy A (Mr m) w = snd (ibv_dereg_mr A m w)"
| "destroy A (Listen h) w = w"

text \<open>A call that makes one object, or fails.\<close>

definition made :: "('a \<Rightarrow> rdma_obj) \<Rightarrow> 'a option \<Rightarrow> rdma_obj set \<Rightarrow> rdma_obj set \<Rightarrow> bool" where
  "made mk r S S' = (case r of None \<Rightarrow> S' = S | Some h \<Rightarrow> mk h \<notin> S \<and> S' = insert (mk h) S)"

definition incoming :: "cm_event option \<Rightarrow> rdma_obj set" where
  "incoming ev = (case ev of Some (CONNECT_REQUEST i p) \<Rightarrow> {Id i} | _ \<Rightarrow> {})"

locale rdma_objects =
  fixes A :: "'w rdma_api"
    and objs :: "'w \<Rightarrow> rdma_obj set"
  assumes make_channel: "rdma_create_event_channel A w = (r1, w') \<Longrightarrow>
      made Chan r1 (objs w) (objs w') \<and> (\<forall>h. r1 = Some h \<longrightarrow> Listen h \<notin> objs w)"
    and make_id: "rdma_create_id A c w = (r1, w') \<Longrightarrow> made Id r1 (objs w) (objs w')"
    and make_cm_qp: "rdma_create_qp A i p c1 mw ms w = (r2, w') \<Longrightarrow> made Qp r2 (objs w) (objs w')"
    and make_qp: "ibv_create_qp A p c1 mw ms w = (r2, w') \<Longrightarrow> made Qp r2 (objs w) (objs w')"
    and make_comp: "ibv_create_comp_channel A i w = (r1, w') \<Longrightarrow> made CompChan r1 (objs w) (objs w')"
    and make_cq: "ibv_create_cq A i cap cc w = (r1, w') \<Longrightarrow> made Cq r1 (objs w) (objs w')"
    and make_pd: "ibv_alloc_pd A i w = (r1, w') \<Longrightarrow> made Pd r1 (objs w) (objs w')"
    and make_mr: "ibv_reg_mr A po a n w = (r3, w') \<Longrightarrow> made Mr r3 (objs w) (objs w')"
    and destroy_live: "x \<in> objs w \<Longrightarrow> \<forall>l. x \<noteq> Listen l \<Longrightarrow> objs (destroy A x w) = objs w - {x}"
    and objs_bind_addr: "objs (snd (rdma_bind_addr A i ip port w)) = objs w"
    and objs_listen: "\<exists>L \<subseteq> range Listen. objs (snd (rdma_listen A i w)) = objs w \<union> L"
    and objs_resolve_addr: "objs (snd (rdma_resolve_addr A i ip port w)) = objs w"
    and objs_resolve_route: "objs (snd (rdma_resolve_route A i w)) = objs w"
    and objs_connect: "objs (snd (rdma_connect A i pdata w)) = objs w"
    and objs_accept: "objs (snd (rdma_accept A i w)) = objs w"
    and objs_reject: "objs (rdma_reject A i w) = objs w"
    and objs_disconnect: "objs (snd (rdma_disconnect A io w)) = objs w"
    and objs_query_port: "objs (snd (ibv_query_port A p k w)) = objs w"
    and objs_query_gid: "objs (snd (ibv_query_gid A p k idx w)) = objs w"
    and objs_modify_qp: "objs (snd (ibv_modify_qp A q tr w)) = objs w"
    and objs_event: "rdma_get_cm_event A co w = (ev, w') \<Longrightarrow>
      objs w' = objs w \<union> incoming ev \<and> incoming ev \<inter> objs w = {}"
    and event_listens: "rdma_get_cm_event A co w = (Some (CONNECT_REQUEST i pdata), w') \<Longrightarrow>
      \<exists>h. co = Some h \<and> Listen h \<in> objs w"

section \<open>What an endpoint holds\<close>

definition opt_list :: "'a option \<Rightarrow> 'a list" where
  "opt_list x = (case x of None \<Rightarrow> [] | Some y \<Rightarrow> [y])"

lemma opt_list_simps [simp]: "opt_list None = []" "opt_list (Some y) = [y]"
  by (simp_all add: opt_list_def)

text \<open>In the order in which \<open>cleanRdmaResources\<close> releases them.\<close>

definition held_qps :: "RDMAConn \<Rightarrow> rdma_obj list" where
  "held_qps e = map Qp (concat (map opt_list (qps e)))"

definition held_fixed :: "RDMAConn \<Rightarrow> rdma_obj list" where
  "held_fixed e = map Mr (opt_list (local_metadata_mr e) @ opt_list (remote_metadata_mr e)
       @ opt_list (uhm_buffer_state_mr e) @ opt_list (buffer_mr e))
     @ map Cq (opt_list (cq e)) @ map CompChan (opt_list (completion_channel e)) @ map Pd (opt_list (pd e))
     @ map Chan (opt_list (cm_event_channel e)) @ map Id (opt_list (cm_id e))"

definition held :: "RDMAConn \<Rightarrow> rdma_obj list" where
  "held e = held_qps e @ held_fixed e"

text \<open>The live objects are those of the rest of the program, \<open>S\<close>, and those the endpoint holds.\<close>

definition holds :: "rdma_obj set \<Rightarrow> RDMAConn \<Rightarrow> rdma_obj set \<Rightarrow> bool" where
  "holds S e W \<longleftrightarrow> W = S \<union> set (held e) \<and> distinct (held e) \<and> S \<inter> set (held e) = {}"

lemma Listen_not_held [simp]: "Listen l \<notin> set (held e)"
  by (auto simp: held_def held_qps_def held_fixed_def)

lemma fold_release:
  "fold (release f) xs w = fold f (concat (map opt_list xs)) w"
  by (induction xs arbitrary: w) (auto simp: release_def split: option.splits)

lemma release_fold: "release f x w = fold f (opt_list x) w"
  by (cases x) (simp_all add: release_def)

lemma fold_map_destroy: "fold (destroy A) (map g xs) w = fold (\<lambda>x. destroy A (g x)) xs w"
  by (simp add: fold_map comp_def)

lemma clean_destroys_held: "snd (cleanRdmaResources A e w) = fold (destroy A) (held e) w"
proof -
  have eta: "(\<lambda>x. destroy A (Qp x)) = ibv_destroy_qp A" "(\<lambda>x. destroy A (Cq x)) = ibv_destroy_cq A"
    "(\<lambda>x. destroy A (Pd x)) = ibv_dealloc_pd A" "(\<lambda>x. destroy A (CompChan x)) = ibv_destroy_comp_channel A"
    "(\<lambda>x. destroy A (Chan x)) = rdma_destroy_event_channel A" "(\<lambda>x. destroy A (Id x)) = rdma_destroy_id A"
    "(\<lambda>x. destroy A (Mr x)) = (\<lambda>m w. snd (deRegisterMemory A (Some m) w))"
    by (auto simp: fun_eq_iff deRegisterMemory_def split: prod.splits)
  show ?thesis
    by (simp add: cleanRdmaResources_def Let_def held_def held_qps_def held_fixed_def fold_release
        release_fold fold_map_destroy eta)
qed

lemma clean_holds_nothing: "held (fst (cleanRdmaResources A e w)) = []"
  by (simp add: cleanRdmaResources_def Let_def held_def held_qps_def held_fixed_def)

lemma held_new [simp]: "held (new_RDMAConn env b nq r) = []"
  by (simp add: new_RDMAConn_def held_def held_qps_def held_fixed_def new_RDMAEndpoint_def Let_def
      RDMAEndpoint.defs)

lemma holds_nothing [simp]: "held e = [] \<Longrightarrow> holds S e W \<longleftrightarrow> W = S"
  by (auto simp: holds_def)

section \<open>Adding an object\<close>

lemma holds_mset:
  "mset (held e') = mset (held e) \<Longrightarrow> holds S e' W \<longleftrightarrow> holds S e W"
  using mset_eq_imp_distinct_iff mset_eq_setD unfolding holds_def by metis

lemma holds_add:
  assumes "holds S e W" and "made mk (Some h) W W'"
    and "mset (held e') = add_mset (mk h) (mset (held e))"
  shows "holds S e' W'"
proof -
  have "mset (held e') = mset (mk h # held e)" using assms(3) by simp
  then have "set (held e') = insert (mk h) (set (held e))" "distinct (held e') = distinct (mk h # held e)"
    by (metis list.simps(15) mset_eq_setD, metis mset_eq_imp_distinct_iff)
  then show ?thesis using assms(1,2) by (auto simp: holds_def made_def)
qed

lemma mset_opt_update:
  "i < length xs \<Longrightarrow> xs ! i = None \<Longrightarrow>
    mset (concat (map opt_list (xs[i := Some q]))) = add_mset q (mset (concat (map opt_list xs)))"
  by (induction xs arbitrary: i) (auto simp: less_Suc_eq_0_disj)

lemma held_add_qp:
  assumes "i < length (qps e)" and "qps e ! i = None"
  shows "mset (held (e\<lparr> qps := (qps e)[i := Some q] \<rparr>)) = add_mset (Qp q) (mset (held e))"
  using mset_opt_update [OF assms, of q] by (simp add: held_def held_qps_def held_fixed_def)

lemma held_frame [simp]:
  "held (e\<lparr> local_metadata_attr := a \<rparr>) = held e"
  "held (e\<lparr> remote_metadata_attr := a \<rparr>) = held e"
  "held (e\<lparr> connStatus := s \<rparr>) = held e"
  "held (e\<lparr> conn_id := c \<rparr>) = held e"
  by (simp_all add: held_def held_qps_def held_fixed_def)

lemma holds_frame [simp]:
  "holds S (e\<lparr> local_metadata_attr := a \<rparr>) W = holds S e W"
  "holds S (e\<lparr> remote_metadata_attr := a \<rparr>) W = holds S e W"
  "holds S (e\<lparr> connStatus := s \<rparr>) W = holds S e W"
  "holds S (e\<lparr> conn_id := c \<rparr>) W = holds S e W"
  by (simp_all add: holds_def)

lemma held_set_none:
  "cm_id e = None \<Longrightarrow> held (e\<lparr> cm_id := None \<rparr>) = held e"
  by (simp add: held_def held_qps_def held_fixed_def)

lemmas held_unfold = held_def held_qps_def held_fixed_def

lemma held_add:
  "cm_event_channel e = None \<Longrightarrow>
     mset (held (e\<lparr> cm_event_channel := Some h \<rparr>)) = add_mset (Chan h) (mset (held e))"
  "cm_id e = None \<Longrightarrow> mset (held (e\<lparr> cm_id := Some h \<rparr>)) = add_mset (Id h) (mset (held e))"
  "completion_channel e = None \<Longrightarrow>
     mset (held (e\<lparr> completion_channel := Some h \<rparr>)) = add_mset (CompChan h) (mset (held e))"
  "cq e = None \<Longrightarrow> mset (held (e\<lparr> cq := Some h \<rparr>)) = add_mset (Cq h) (mset (held e))"
  "pd e = None \<Longrightarrow> mset (held (e\<lparr> pd := Some h \<rparr>)) = add_mset (Pd h) (mset (held e))"
  "local_metadata_mr e = None \<Longrightarrow>
     mset (held (e\<lparr> local_metadata_mr := Some m \<rparr>)) = add_mset (Mr m) (mset (held e))"
  "remote_metadata_mr e = None \<Longrightarrow>
     mset (held (e\<lparr> remote_metadata_mr := Some m \<rparr>)) = add_mset (Mr m) (mset (held e))"
  "buffer_mr e = None \<Longrightarrow> mset (held (e\<lparr> buffer_mr := Some m \<rparr>)) = add_mset (Mr m) (mset (held e))"
  "uhm_buffer_state_mr e = None \<Longrightarrow>
     mset (held (e\<lparr> uhm_buffer_state_mr := Some m \<rparr>)) = add_mset (Mr m) (mset (held e))"
  by (simp_all add: held_unfold)

lemma held_null:
  "cm_event_channel e = None \<Longrightarrow> held (e\<lparr> cm_event_channel := None \<rparr>) = held e"
  "completion_channel e = None \<Longrightarrow> held (e\<lparr> completion_channel := None \<rparr>) = held e"
  "cq e = None \<Longrightarrow> held (e\<lparr> cq := None \<rparr>) = held e"
  "pd e = None \<Longrightarrow> held (e\<lparr> pd := None \<rparr>) = held e"
  "local_metadata_mr e = None \<Longrightarrow> held (e\<lparr> local_metadata_mr := None \<rparr>) = held e"
  "remote_metadata_mr e = None \<Longrightarrow> held (e\<lparr> remote_metadata_mr := None \<rparr>) = held e"
  "buffer_mr e = None \<Longrightarrow> held (e\<lparr> buffer_mr := None \<rparr>) = held e"
  "uhm_buffer_state_mr e = None \<Longrightarrow> held (e\<lparr> uhm_buffer_state_mr := None \<rparr>) = held e"
  by (simp_all add: held_unfold)

text \<open>A field that was null receives the result of the call that makes its object.\<close>

lemma holds_made:
  assumes "holds S e W" and "made mk r W W'"
    and "\<And>h. r = Some h \<Longrightarrow> mset (held e') = add_mset (mk h) (mset (held e))"
    and "r = None \<Longrightarrow> held e' = held e"
  shows "holds S e' W'"
proof (cases r)
  case None
  then show ?thesis using assms(1,2,4) by (simp add: holds_def made_def)
next
  case (Some h)
  with assms(2) have "made mk (Some h) W W'" by simp
  from holds_add [OF assms(1) this assms(3) [OF Some]] show ?thesis .
qed

context rdma_objects
begin

lemma fold_destroy:
  assumes "distinct xs" and "set xs \<subseteq> objs w" and "\<And>l. Listen l \<notin> set xs"
  shows "objs (fold (destroy A) xs w) = objs w - set xs"
  using assms
proof (induction xs arbitrary: w)
  case (Cons x xs)
  have "x \<in> objs w" using Cons.prems(2) by simp
  moreover have "\<forall>l. x \<noteq> Listen l" using Cons.prems(3) by (metis list.set_intros(1))
  ultimately have "objs (destroy A x w) = objs w - {x}" by (rule destroy_live)
  then show ?case using Cons.IH [of "destroy A x w"] Cons.prems by auto
qed simp

lemma clean_releases:
  assumes "holds S e (objs w)"
  shows "objs (snd (cleanRdmaResources A e w)) = S"
  using fold_destroy [of "held e" w] assms by (auto simp: clean_destroys_held holds_def)

lemma extra_qps_held:
  assumes "create_extra_qps A p c is e w = (ok, e1, w1)" and "holds S e (objs w)"
    and "distinct is" and "\<forall>i \<in> set is. i < length (qps e) \<and> qps e ! i = None"
  shows "holds S e1 (objs w1) \<and> (\<exists>xs. e1 = e\<lparr> qps := xs \<rparr>)"
  using assms
proof (induction "is" arbitrary: e w)
  case Nil
  then show ?case by (auto intro: exI [of _ "qps e1"])
next
  case (Cons i "is")
  obtain q w2 where q: "ibv_create_qp A p c (max_wr e) (max_sge e) w = (q, w2)" by (cases "ibv_create_qp A p c (max_wr e) (max_sge e) w")
  let ?e = "e\<lparr> qps := (qps e)[i := q] \<rparr>"
  have i: "i < length (qps e)" "qps e ! i = None" using Cons.prems(4) by auto
  have h: "holds S ?e (objs w2)"
  proof (rule holds_made [OF Cons.prems(2) make_qp [OF q]])
    show "mset (held ?e) = add_mset (Qp h) (mset (held e))" if "q = Some h" for h
      using held_add_qp [OF i] that by simp
    show "held ?e = held e" if "q = None"
    proof -
      have "(qps e)[i := q] = qps e" using i that by (metis list_update_id)
      then show ?thesis by simp
    qed
  qed
  show ?case
  proof (cases q)
    case None
    then show ?thesis using Cons.prems(1) q h by (auto simp: Let_def)
  next
    case (Some h')
    have "create_extra_qps A p c is ?e w2 = (ok, e1, w1)" using Cons.prems(1) q Some by (simp add: Let_def)
    from Cons.IH [OF this h] show ?thesis using Cons.prems(3,4) by (auto simp: nth_list_update)
  qed
qed

lemma qp_nums_held:
  "record_qp_nums A e = Some e1 \<Longrightarrow> \<exists>a. e1 = e\<lparr> local_metadata_attr := a \<rparr>"
  by (auto simp: record_qp_nums_def Let_def split: if_splits)

lemma setupQPs_held:
  assumes "setupQPs A e w = Some (s, e1, w1)" and "holds S e (objs w)" and "qps e = []"
  shows "holds S e1 (objs w1) \<and> (\<exists>xs a. e1 = e\<lparr> qps := xs, local_metadata_attr := a \<rparr>)"
proof (cases "pd e = None \<or> cq e = None \<or> cm_id e = None")
  case True
  have "e1 = e" "w1 = w" using True assms(1) by (auto simp: setupQPs_def split: option.splits)
  then show ?thesis
    using assms(2) by (auto intro!: exI [of _ "qps e"] exI [of _ "local_metadata_attr e"])
next
  case False
  then obtain p c i where pci: "pd e = Some p" "cq e = Some c" "cm_id e = Some i" by auto
  let ?n = "unat (num_qps e)"
  let ?e = "e\<lparr> qps := replicate ?n None \<rparr>"
  have he: "holds S ?e (objs w)"
    using assms(2,3) by (subst holds_mset [where e = e]) (simp_all add: held_unfold)
  obtain q w2 where q: "rdma_create_qp A i p c (max_wr e) (max_sge e) w = (q, w2)"
    by (cases "rdma_create_qp A i p c (max_wr e) (max_sge e) w")
  note m = make_cm_qp [OF q]
  show ?thesis
  proof (cases q)
    case None
    then have "e1 = ?e" "w1 = w2" using assms(1,3) pci q by (auto simp: setupQPs_def resize_def)
    moreover have "objs w2 = objs w" using m None by (simp add: made_def)
    ultimately show ?thesis
      using he by (auto intro!: exI [of _ "replicate ?n None"] exI [of _ "local_metadata_attr e"])
  next
    case (Some h)
    let ?primary = "?e\<lparr> qps := (replicate ?n None)[0 := Some h] \<rparr>"
    have n: "num_qps e \<noteq> 0" using assms(1,3) pci q Some by (auto simp: setupQPs_def resize_def)
    then have n0: "0 < ?n" by (simp add: unat_gt_0)
    have hp: "mset (held ?primary) = add_mset (Qp h) (mset (held ?e))" using held_add_qp [of 0 ?e h] n0 by simp
    have "made Qp (Some h) (objs w) (objs w2)" using m Some by simp
    from holds_add [OF he this hp] have h0: "holds S ?primary (objs w2)" .
    obtain ok e2 w3 where x: "create_extra_qps A p c [1 ..< ?n] ?primary w2 = (ok, e2, w3)"
      by (cases "create_extra_qps A p c [1 ..< ?n] ?primary w2") auto
    from extra_qps_held [OF x h0] obtain xs where e2: "holds S e2 (objs w3)" "e2 = ?primary\<lparr> qps := xs \<rparr>" by auto
    have r: "(if \<not> ok then Some (ERROR, e2, w3)
         else case record_qp_nums A e2 of None \<Rightarrow> None | Some e3 \<Rightarrow> Some (SUCCESS, e3, w3)) = Some (s, e1, w1)"
      using assms(1,3) pci q Some n x by (simp add: setupQPs_def resize_def)
    show ?thesis
    proof (cases ok)
      case True
      with r qp_nums_held obtain a where "e1 = e2\<lparr> local_metadata_attr := a \<rparr>" "w1 = w3"
        by (auto split: option.splits)
      then show ?thesis using e2 by auto
    next
      case False
      then have "e1 = e2" "w1 = w3" using r by auto
      then show ?thesis
        using e2 by (auto intro!: exI [of _ xs] exI [of _ "local_metadata_attr e"])
    qed
  qed
qed

lemma register_made:
  "registerMemory A e a n None w = ((s, m), w1) \<Longrightarrow> made Mr m (objs w) (objs w1)"
  using make_mr [of "pd e" a n w]
  by (cases "ibv_reg_mr A (pd e) a n w") (auto simp: registerMemory_def made_def split: if_splits option.splits)

lemma gid_objs: "ibv_query_gid A p k idx w = (r, w1) \<Longrightarrow> objs w1 = objs w"
  using objs_query_gid [of p k idx w] by simp

lemma setupBuffers_held:
  assumes run: "setupBuffers A L e w = Some (s, e', w')" and h: "holds S e (objs w)"
    and none: "local_metadata_mr e = None" "remote_metadata_mr e = None" "buffer_mr e = None"
      "uhm_buffer_state_mr e = None"
  shows "holds S e' (objs w') \<and> cm_event_channel e' = cm_event_channel e \<and> connStatus e' = connStatus e
    \<and> ep_role e' = ep_role e \<and> cm_id e' = cm_id e"
proof -
  obtain s1 m1 w1 where r1: "registerMemory A e (local_attr_addr L) sizeof_rdma_buffer_attr None w = ((s1, m1), w1)"
    by (metis surj_pair)
  define e1 where "e1 = e\<lparr> local_metadata_mr := m1 \<rparr>"
  obtain s2 m2 w2 where r2: "registerMemory A e1 (remote_attr_addr L) sizeof_rdma_buffer_attr None w1 = ((s2, m2), w2)"
    by (metis surj_pair)
  define e2 where "e2 = e1\<lparr> remote_metadata_mr := m2 \<rparr>"
  obtain s3 m3 w3 where r3: "registerMemory A e2 (ptr (ep_buffer e2)) (unat (buffer_size (ep_buffer e2))) None w2
      = ((s3, m3), w3)" by (metis surj_pair)
  define e3 where "e3 = e2\<lparr> buffer_mr := m3 \<rparr>"
  define e3a where "e3a = e3\<lparr> local_metadata_attr := buffer_attr (ep_buffer e3) (the m3) (local_metadata_attr e3) \<rparr>"
  obtain s4 m4 w4 where r4: "registerMemory A e3a (uhm_state_addr L) sizeof_UHMBufferState None w3 = ((s4, m4), w4)"
    by (metis surj_pair)
  define e4 where "e4 = e3a\<lparr> uhm_buffer_state_mr := m4 \<rparr>"
  note es = e1_def e2_def e3_def e3a_def e4_def
  have h1: "holds S e1 (objs w1)"
    by (rule holds_made [OF h register_made [OF r1]]) (simp_all add: e1_def held_add held_null none)
  have h2: "holds S e2 (objs w2)"
    by (rule holds_made [OF h1 register_made [OF r2]]) (simp_all add: e1_def e2_def held_add held_null none)
  have h3: "holds S e3 (objs w3)"
    by (rule holds_made [OF h2 register_made [OF r3]]) (simp_all add: e1_def e2_def e3_def held_add held_null none)
  then have h3a: "holds S e3a (objs w3)" by (simp add: e3a_def)
  have h4: "holds S e4 (objs w4)"
    by (rule holds_made [OF h3a register_made [OF r4]]) (simp_all add: es held_add held_null none)
  have mrs: "remote_metadata_mr e1 = None" "buffer_mr e2 = None" "uhm_buffer_state_mr e3a = None"
    by (simp_all add: es none)
  have "(e' = e1 \<and> w' = w1) \<or> (e' = e2 \<and> w' = w2) \<or> (e' = e3 \<and> w' = w3) \<or> (e' = e4 \<and> w' = w4)
     \<or> (\<exists>a. e' = e4\<lparr> local_metadata_attr := a \<rparr> \<and> objs w' = objs w4)"
    using run mrs
    by (auto simp: setupBuffers_def none r1 r2 r3 r4 Let_def e1_def [symmetric] e2_def [symmetric]
        e3_def [symmetric] e3a_def [symmetric] e4_def [symmetric] gid_objs
        dest!: qp_nums_held gid_objs split: if_splits option.splits prod.splits)
  moreover have "\<forall>x \<in> {e1, e2, e3, e4}. cm_event_channel x = cm_event_channel e \<and> connStatus x = connStatus e
      \<and> ep_role x = ep_role e \<and> cm_id x = cm_id e" by (simp add: es)
  ultimately show ?thesis using h1 h2 h3 h4 by auto
qed

end

section \<open>A reference world\<close>

text \<open>Handles are fresh numbers, creation fails once the budget is used up, and events come from a
  queue; a connection request is delivered only to a channel that listens.  An identifier listens on
  the channel created last.\<close>

record rdma_world =
  rw_objs :: "rdma_obj list"
  rw_budget :: nat
  rw_events :: "cm_event list"

fun handle_of :: "rdma_obj \<Rightarrow> nat" where
  "handle_of (Mr m) = mr_handle m"
| "handle_of (Chan h) = h"
| "handle_of (Id h) = h"
| "handle_of (Qp h) = h"
| "handle_of (Cq h) = h"
| "handle_of (Pd h) = h"
| "handle_of (CompChan h) = h"
| "handle_of (Listen h) = h"

definition rw_fresh :: "'a rdma_world_scheme \<Rightarrow> nat" where
  "rw_fresh w = Suc (foldr (\<lambda>x. max (handle_of x)) (rw_objs w) 0)"

definition rw_make :: "(nat \<Rightarrow> 'b) \<Rightarrow> ('b \<Rightarrow> rdma_obj) \<Rightarrow> 'a rdma_world_scheme \<Rightarrow> 'b option \<times> 'a rdma_world_scheme" where
  "rw_make of_handle mk w =
    (if rw_budget w = 0 then (None, w)
     else let x = of_handle (rw_fresh w)
          in (Some x, w\<lparr> rw_objs := mk x # rw_objs w, rw_budget := rw_budget w - 1 \<rparr>))"

definition rw_drop :: "rdma_obj \<Rightarrow> 'a rdma_world_scheme \<Rightarrow> 'a rdma_world_scheme" where
  "rw_drop x w = w\<lparr> rw_objs := removeAll x (rw_objs w) \<rparr>"

definition rw_event :: "nat option \<Rightarrow> 'a rdma_world_scheme \<Rightarrow> cm_event option \<times> 'a rdma_world_scheme" where
  "rw_event co w =
    (case rw_events w of
       [] \<Rightarrow> (None, w)
     | ev # rest \<Rightarrow>
         let w1 = w\<lparr> rw_events := rest \<rparr>
         in (case ev of
               CONNECT_REQUEST _ pdata \<Rightarrow>
                 (case co of
                    None \<Rightarrow> (None, w1)
                  | Some c \<Rightarrow>
                      if Listen c \<in> set (rw_objs w)
                      then (Some (CONNECT_REQUEST (rw_fresh w) pdata), w1\<lparr> rw_objs := Id (rw_fresh w) # rw_objs w \<rparr>)
                      else (None, w1))
             | _ \<Rightarrow> (Some ev, w1)))"

definition rw_channels :: "'a rdma_world_scheme \<Rightarrow> nat list" where
  "rw_channels w = concat (map (\<lambda>x. case x of Chan h \<Rightarrow> [h] | _ \<Rightarrow> []) (rw_objs w))"

definition rw_listen :: "nat \<Rightarrow> 'a rdma_world_scheme \<Rightarrow> int \<times> 'a rdma_world_scheme" where
  "rw_listen i w = (0, w\<lparr> rw_objs := map Listen (take 1 (rw_channels w)) @ rw_objs w \<rparr>)"

definition rw_mr :: "nat \<Rightarrow> ibv_mr" where
  "rw_mr h = \<lparr> mr_handle = h, lkey = of_nat h \<rparr>"

definition rw_api :: "'a rdma_world_scheme rdma_api" where
  "rw_api = \<lparr>
     rdma_create_event_channel = rw_make id Chan,
     rdma_create_id = (\<lambda>c. rw_make id Id),
     rdma_bind_addr = (\<lambda>i ip port w. (0, w)),
     rdma_listen = rw_listen,
     rdma_resolve_addr = (\<lambda>i ip port w. (0, w)),
     rdma_resolve_route = (\<lambda>i w. (0, w)),
     rdma_get_cm_event = rw_event,
     rdma_connect = (\<lambda>i pdata w. (0, w)),
     rdma_accept = (\<lambda>i w. (0, w)),
     rdma_reject = (\<lambda>i w. w),
     rdma_disconnect = (\<lambda>i w. (0, w)),
     rdma_create_qp = (\<lambda>i p c mw ms. rw_make id Qp),
     ibv_create_qp = (\<lambda>p c mw ms. rw_make id Qp),
     ibv_create_comp_channel = (\<lambda>i. rw_make id CompChan),
     ibv_create_cq = (\<lambda>i cap cc. rw_make id Cq),
     ibv_alloc_pd = (\<lambda>i. rw_make id Pd),
     ibv_reg_mr = (\<lambda>po a n. rw_make rw_mr Mr),
     ibv_dereg_mr = (\<lambda>m w. (0, rw_drop (Mr m) w)),
     ibv_destroy_qp = (\<lambda>h. rw_drop (Qp h)),
     ibv_destroy_cq = (\<lambda>h. rw_drop (Cq h)),
     ibv_destroy_comp_channel = (\<lambda>h. rw_drop (CompChan h)),
     ibv_dealloc_pd = (\<lambda>h. rw_drop (Pd h)),
     rdma_destroy_event_channel = (\<lambda>h. rw_drop (Chan h)),
     rdma_destroy_id = (\<lambda>h. rw_drop (Id h)),
     ibv_query_port = (\<lambda>p k w. ((0, IBV_MTU_4096), w)),
     ibv_query_gid = (\<lambda>p k idx w. ((0, replicate 16 idx), w)),
     ibv_modify_qp = (\<lambda>q tr w. (0, w)),
     qp_num = of_nat \<rparr>"

lemma rw_fresh_above: "x \<in> set (rw_objs w) \<Longrightarrow> handle_of x < rw_fresh w"
proof -
  have "x \<in> set xs \<Longrightarrow> handle_of x \<le> foldr (\<lambda>x. max (handle_of x)) xs 0" for xs
    by (induction xs) auto
  then show "x \<in> set (rw_objs w) \<Longrightarrow> handle_of x < rw_fresh w" by (simp add: rw_fresh_def less_Suc_eq_le)
qed

lemma rw_fresh_new: "handle_of x = rw_fresh w \<Longrightarrow> x \<notin> set (rw_objs w)"
  using rw_fresh_above by fastforce

lemma rw_make_made:
  "rw_make f mk w = (r, w') \<Longrightarrow> (\<And>h. handle_of (mk (f h)) = h) \<Longrightarrow> made mk r (set (rw_objs w)) (set (rw_objs w'))"
  by (auto simp: rw_make_def made_def Let_def rw_fresh_new split: if_splits)

lemma rw_event_incoming:
  "rw_event co w = (ev, w') \<Longrightarrow>
    set (rw_objs w') = set (rw_objs w) \<union> incoming ev \<and> incoming ev \<inter> set (rw_objs w) = {}"
  by (auto simp: rw_event_def incoming_def Let_def rw_fresh_new
      split: list.splits cm_event.splits option.splits if_splits)

lemma destroy_rw: "\<forall>l. x \<noteq> Listen l \<Longrightarrow> destroy rw_api x w = rw_drop x w"
  by (cases x) (simp_all add: rw_api_def)

interpretation rw: rdma_objects rw_api "\<lambda>w. set (rw_objs w)"
proof unfold_locales
  fix w w' :: "'a rdma_world_scheme" and r1 :: "nat option"
  assume "rdma_create_event_channel rw_api w = (r1, w')"
  then have r: "rw_make id Chan w = (r1, w')" by (simp add: rw_api_def)
  have "Listen h \<notin> set (rw_objs w)" if "r1 = Some h" for h
    using r that by (intro rw_fresh_new) (auto simp: rw_make_def Let_def split: if_splits)
  then show "made Chan r1 (set (rw_objs w)) (set (rw_objs w'))
      \<and> (\<forall>h. r1 = Some h \<longrightarrow> Listen h \<notin> set (rw_objs w))"
    using rw_make_made [OF r] by simp
next
  fix i :: nat and w :: "'a rdma_world_scheme"
  show "\<exists>L \<subseteq> range Listen. set (rw_objs (snd (rdma_listen rw_api i w))) = set (rw_objs w) \<union> L"
    by (rule exI [of _ "Listen ` set (take 1 (rw_channels w))"]) (auto simp: rw_api_def rw_listen_def)
next
  fix x :: rdma_obj and w :: "'a rdma_world_scheme"
  assume "\<forall>l. x \<noteq> Listen l"
  then show "set (rw_objs (destroy rw_api x w)) = set (rw_objs w) - {x}"
    by (auto simp: destroy_rw rw_drop_def)
next
  fix co :: "nat option" and w w' :: "'a rdma_world_scheme" and ev
  assume "rdma_get_cm_event rw_api co w = (ev, w')"
  then show "set (rw_objs w') = set (rw_objs w) \<union> incoming ev \<and> incoming ev \<inter> set (rw_objs w) = {}"
    by (intro rw_event_incoming) (simp add: rw_api_def)
next
  fix co :: "nat option" and i and pdata and w w' :: "'a rdma_world_scheme"
  assume "rdma_get_cm_event rw_api co w = (Some (CONNECT_REQUEST i pdata), w')"
  then show "\<exists>h. co = Some h \<and> Listen h \<in> set (rw_objs w)"
    by (auto simp: rw_api_def rw_event_def Let_def split: list.splits cm_event.splits option.splits if_splits)
qed (auto simp: rw_api_def rw_mr_def intro: rw_make_made)

end
