(* ===== verification/Hmc_RdmaMeta.thy ===== *)
theory Hmc_RdmaMeta
  imports Hmc_RdmaSetup Hmc_CtrlStream
begin

text \<open>
  Exchange of metadata between the two ends of an RDMA connection over a TCP connection of its own
  (src/network/rdma_client.cpp, src/network/rdma_server.cpp): a HELLO with the connection identifier
  and the caller's RDMA port, both in network byte order, then the packed \<^verbatim>\<open>rdma_buffer_attr\<close> of each
  side.  The server sorts incoming connections by identifier, because several may arrive before the
  one it waits for.
\<close>

section \<open>Wire formats\<close>

record MetaHello =
  hello_conn_id :: u64
  hello_port :: u16

definition hello_bytes :: "MetaHello \<Rightarrow> u8 list" where
  "hello_bytes h = be_bytes 8 (hello_conn_id h) @ be_bytes 2 (hello_port h)"

definition hello_of :: "u8 list \<Rightarrow> MetaHello" where
  "hello_of bs = \<lparr> hello_conn_id = be_word (take 8 bs), hello_port = be_word (take 2 (drop 8 bs)) \<rparr>"

text \<open>\<^verbatim>\<open>MetaReply\<close> has the same layout.\<close>

type_synonym MetaReply = MetaHello

definition attr_bytes :: "rdma_buffer_attr \<Rightarrow> u8 list" where
  "attr_bytes a = le_bytes 8 (ra_address a) @ le_bytes 4 (ra_length a) @ le_bytes 4 (ra_key a)
     @ le_bytes 8 (ra_uhm_state_address a) @ le_bytes 4 (ra_uhm_state_key a) @ le_bytes 4 (ra_qp_nums a)
     @ concat (map (le_bytes 4) (ra_qp_num_list a)) @ ra_gid a @ [ra_sgid_index a]"

definition u32_at :: "nat \<Rightarrow> u8 list \<Rightarrow> u32" where
  "u32_at i bs = le_word (take 4 (drop i bs))"

definition attr_of :: "u8 list \<Rightarrow> rdma_buffer_attr" where
  "attr_of bs = \<lparr> ra_address = le_word (take 8 bs), ra_length = u32_at 8 bs, ra_key = u32_at 12 bs,
     ra_uhm_state_address = le_word (take 8 (drop 16 bs)), ra_uhm_state_key = u32_at 24 bs,
     ra_qp_nums = u32_at 28 bs, ra_qp_num_list = map (\<lambda>i. u32_at (32 + 4 * i) bs) [0 ..< MAX_QPS],
     ra_gid = take 16 (drop 96 bs), ra_sgid_index = hd (drop 112 bs) \<rparr>"

text \<open>Its two arrays have their fixed sizes.\<close>

definition attr_ok :: "rdma_buffer_attr \<Rightarrow> bool" where
  "attr_ok a \<longleftrightarrow> length (ra_qp_num_list a) = MAX_QPS \<and> length (ra_gid a) = 16"

section \<open>Messages\<close>

definition sendMsg :: "'w sockets \<Rightarrow> int \<Rightarrow> u16 \<Rightarrow> u8 list \<Rightarrow> u16 \<Rightarrow> 'w \<Rightarrow> bool \<times> 'w" where
  "sendMsg sk fd type payload flags w =
    (case sendAll sk fd (header_bytes \<lparr> h_type = type, h_flags = flags, h_length = of_nat (length payload) \<rparr>) w of
       (ok, w1) \<Rightarrow>
         if \<not> ok then (False, w1)
         else if payload \<noteq> [] then sendAll sk fd payload w1 else (True, w1))"

definition recvMsg :: "'w sockets \<Rightarrow> int \<Rightarrow> 'w \<Rightarrow> (CtrlMsgHeader \<times> u8 list) option \<times> 'w" where
  "recvMsg sk fd w =
    (case recvAll sk fd 8 w of
       (None, w1) \<Rightarrow> (None, w1)
     | (Some hb, w1) \<Rightarrow>
         (case recvAll sk fd (unat (h_length (header_of hb))) w1 of
            (None, w2) \<Rightarrow> (None, w2)
          | (Some payload, w2) \<Rightarrow> (Some (header_of hb, payload), w2)))"

text \<open>Receive the other side's metadata: the type and the size have to fit.\<close>

definition recv_attr :: "'w sockets \<Rightarrow> int \<Rightarrow> 'w \<Rightarrow> rdma_buffer_attr option \<times> 'w" where
  "recv_attr sk fd w =
    (case recvMsg sk fd w of
       (None, w1) \<Rightarrow> (None, w1)
     | (Some (hdr, payload), w1) \<Rightarrow>
         (if h_type hdr \<noteq> CTRL_STRUCT \<or> length payload \<noteq> sizeof_rdma_buffer_attr then None
          else Some (attr_of payload), w1))"

text \<open>The final check of both sides.\<close>

definition attr_valid :: "rdma_buffer_attr \<Rightarrow> bool" where
  "attr_valid a \<longleftrightarrow> ra_address a \<noteq> 0 \<and> ra_length a \<noteq> 0 \<and> ra_key a \<noteq> 0"

section \<open>Client\<close>

definition dialOnce :: "'w sockets \<Rightarrow> string \<Rightarrow> u16 \<Rightarrow> 'w \<Rightarrow> int \<times> 'w" where
  "dialOnce sk ip port w =
    (case sys_socket sk AF_INET w of (fd, w1) \<Rightarrow>
       if fd < 0 then (- 1, w1)
       else if \<not> inet_pton_ok sk ip then (- 1, sys_close sk fd w1)
       else case sys_connect sk fd (Inet ip port) w1 of (rc, w2) \<Rightarrow>
         if rc < 0 then (- 1, sys_close sk fd w2) else (fd, w2))"

text \<open>A connection identifier drawn at random, never zero.\<close>

definition genConnId64 :: "('w \<Rightarrow> u64 \<times> 'w) \<Rightarrow> 'w \<Rightarrow> u64 \<times> 'w" where
  "genConnId64 draw w = (case draw w of (v, w1) \<Rightarrow> (if v = 0 then 1 else v, w1))"

definition client_meta_send :: "'w sockets \<Rightarrow> u16 \<Rightarrow> RDMAConn \<Rightarrow> int \<Rightarrow> 'w \<Rightarrow> bool \<times> 'w" where
  "client_meta_send sk listen_port e fd w =
    (case sendAll sk fd (hello_bytes \<lparr> hello_conn_id = conn_id e, hello_port = listen_port \<rparr>) w of (ok, w1) \<Rightarrow>
       if \<not> ok then (False, shut sk fd w1)
       else case sendMsg sk fd CTRL_STRUCT (attr_bytes (local_metadata_attr e)) 0 w1 of (ok2, w2) \<Rightarrow>
         if \<not> ok2 then (False, shut sk fd w2) else (True, w2))"

definition client_meta_recv :: "'w sockets \<Rightarrow> RDMAConn \<Rightarrow> int \<Rightarrow> 'w \<Rightarrow> status_t \<times> RDMAConn \<times> 'w" where
  "client_meta_recv sk e fd w =
    (case recvAll sk fd 10 w of
       (None, w1) \<Rightarrow> (ERROR, e, shut sk fd w1)
     | (Some rb, w1) \<Rightarrow>
         if hello_conn_id (hello_of rb) \<noteq> conn_id e then (ERROR, e, shut sk fd w1)
         else (case recv_attr sk fd w1 of
           (None, w2) \<Rightarrow> (ERROR, e, shut sk fd w2)
         | (Some a, w2) \<Rightarrow>
             (if attr_valid a then SUCCESS else ERROR, e\<lparr> remote_metadata_attr := a \<rparr>, shut sk fd w2)))"

definition client_exchangeMetaData ::
  "'w sockets \<Rightarrow> u16 \<Rightarrow> string \<Rightarrow> u16 \<Rightarrow> RDMAConn \<Rightarrow> 'w \<Rightarrow> status_t \<times> RDMAConn \<times> 'w" where
  "client_exchangeMetaData sk listen_port ip server_port e w =
    (case dialOnce sk ip (server_port + 10000) w of (fd, w1) \<Rightarrow>
       if fd < 0 then (ERROR, e, w1)
       else case client_meta_send sk listen_port e fd w1 of (ok, w2) \<Rightarrow>
         if \<not> ok then (ERROR, e, w2) else client_meta_recv sk e fd w2)"

section \<open>Server\<close>

text \<open>The connections that wait, per connection identifier, with the address of the last one that
  came under it.\<close>

record meta_table =
  pending_meta_fd :: "u64 \<Rightarrow> int list"
  peer_ip_by_conn :: "u64 \<Rightarrow> string"
  peer_port_by_conn :: "u64 \<Rightarrow> u16"

definition no_meta :: meta_table where
  "no_meta = \<lparr> pending_meta_fd = (\<lambda>c. []), peer_ip_by_conn = (\<lambda>c. []), peer_port_by_conn = (\<lambda>c. 0) \<rparr>"

definition pushMetaFd :: "u64 \<Rightarrow> int \<Rightarrow> string \<Rightarrow> u16 \<Rightarrow> meta_table \<Rightarrow> meta_table" where
  "pushMetaFd c fd ip port t = \<lparr> pending_meta_fd = (pending_meta_fd t)(c := pending_meta_fd t c @ [fd]),
     peer_ip_by_conn = (peer_ip_by_conn t)(c := ip), peer_port_by_conn = (peer_port_by_conn t)(c := port) \<rparr>"

definition popMetaFd :: "u64 \<Rightarrow> meta_table \<Rightarrow> (int \<times> string \<times> u16) option \<times> meta_table" where
  "popMetaFd c t =
    (case pending_meta_fd t c of
       [] \<Rightarrow> (None, t)
     | fd # rest \<Rightarrow> (Some (fd, peer_ip_by_conn t c, peer_port_by_conn t c),
         t\<lparr> pending_meta_fd := (pending_meta_fd t)(c := rest) \<rparr>))"

text \<open>\<^verbatim>\<open>accept\<close> and the address it reports, \<open>peer_addr\<close>.\<close>

definition acceptOnce :: "'w sockets \<Rightarrow> (int \<Rightarrow> 'w \<Rightarrow> string) \<Rightarrow> int \<Rightarrow> 'w \<Rightarrow> (int \<times> string) \<times> 'w" where
  "acceptOnce sk peer_addr listen_fd w =
    (case sys_accept sk listen_fd w of (fd, w1) \<Rightarrow>
       ((if fd < 0 then (- 1, []) else (fd, peer_addr fd w1)), w1))"

text \<open>Wait for the connection with identifier \<open>c\<close>; others that arrive are kept for later.\<close>

partial_function (option) await_meta_fd ::
  "'w sockets \<Rightarrow> (int \<Rightarrow> 'w \<Rightarrow> string) \<Rightarrow> int \<Rightarrow> u64 \<Rightarrow> meta_table \<Rightarrow> 'w
     \<Rightarrow> ((int \<times> string \<times> u16) option \<times> meta_table \<times> 'w) option" where
  "await_meta_fd sk peer_addr lfd c t w =
    (case popMetaFd c t of
       (Some r, t1) \<Rightarrow> Some (Some r, t1, w)
     | (None, t1) \<Rightarrow>
         (case acceptOnce sk peer_addr lfd w of ((fd, ip), w1) \<Rightarrow>
            if fd < 0 then Some (None, t1, w1)
            else (case recvAll sk fd 10 w1 of
                    (None, w2) \<Rightarrow> await_meta_fd sk peer_addr lfd c t1 (shut sk fd w2)
                  | (Some hb, w2) \<Rightarrow> await_meta_fd sk peer_addr lfd c
                      (pushMetaFd (hello_conn_id (hello_of hb)) fd ip (hello_port (hello_of hb)) t1) w2)))"

text \<open>Serve the connection found.\<close>

definition serve_meta ::
  "'w sockets \<Rightarrow> u16 \<Rightarrow> u64 \<Rightarrow> RDMAConn \<Rightarrow> int \<Rightarrow> 'w \<Rightarrow> status_t \<times> RDMAConn \<times> 'w" where
  "serve_meta sk listen_port c e fd w =
    (case recv_attr sk fd w of
       (None, w1) \<Rightarrow> (ERROR, e, shut sk fd w1)
     | (Some a, w1) \<Rightarrow>
         let e1 = e\<lparr> remote_metadata_attr := a \<rparr>
         in (case sendAll sk fd (hello_bytes \<lparr> hello_conn_id = c, hello_port = listen_port \<rparr>) w1 of (ok, w2) \<Rightarrow>
              if \<not> ok then (ERROR, e1, shut sk fd w2)
              else case sendMsg sk fd CTRL_STRUCT (attr_bytes (local_metadata_attr e1)) 0 w2 of (ok2, w3) \<Rightarrow>
                if \<not> ok2 then (ERROR, e1, shut sk fd w3)
                else (if attr_valid a then SUCCESS else ERROR, e1, shut sk fd w3)))"

definition server_exchangeMetaData ::
  "'w sockets \<Rightarrow> (int \<Rightarrow> 'w \<Rightarrow> string) \<Rightarrow> u16 \<Rightarrow> int \<Rightarrow> u64 \<Rightarrow> RDMAConn \<Rightarrow> meta_table \<Rightarrow> 'w
     \<Rightarrow> ((status_t \<times> string \<times> u16) \<times> RDMAConn \<times> meta_table \<times> 'w) option" where
  "server_exchangeMetaData sk peer_addr listen_port lfd c e t w =
    (if lfd < 0 then Some ((ERROR, [], 0), e, t, w)
     else case await_meta_fd sk peer_addr lfd c t w of
       None \<Rightarrow> None
     | Some (None, t1, w1) \<Rightarrow> Some ((ERROR, [], 0), e, t1, w1)
     | Some (Some (fd, ip, port), t1, w1) \<Rightarrow>
         (case serve_meta sk listen_port c e fd w1 of (s, e1, w2) \<Rightarrow>
            Some (if s = SUCCESS then (s, ip, port) else (s, [], 0), e1, t1, w2)))"

section \<open>Encoding\<close>

lemma hello_of_bytes [simp]: "hello_of (hello_bytes h) = h"
  by (simp add: hello_of_def hello_bytes_def be_word_def be_bytes_def)

lemma length_hello_bytes [simp]: "length (hello_bytes h) = 10"
  by (simp add: hello_bytes_def be_bytes_def)

lemma length_u32s [simp]: "length (concat (map (le_bytes 4) (xs :: u32 list))) = 4 * length xs"
  by (induction xs) simp_all

lemma length_attr_bytes: "attr_ok a \<Longrightarrow> length (attr_bytes a) = sizeof_rdma_buffer_attr"
  by (simp add: attr_ok_def attr_bytes_def sizeof_rdma_buffer_attr_def MAX_QPS_def)

lemma drop_past: "length xs \<le> n \<Longrightarrow> drop n (xs @ ys) = drop (n - length xs) ys"
  by simp

lemma u32_at_list:
  "i < length xs \<Longrightarrow> u32_at (4 * i) (concat (map (le_bytes 4) xs) @ rest) = xs ! i"
  by (induction xs arbitrary: i) (auto simp: u32_at_def less_Suc_eq_0_disj)

lemma u32_at_drop: "u32_at (k + i) bs = u32_at i (drop k bs)"
  by (simp add: u32_at_def add.commute)

lemma attr_of_bytes:
  assumes "attr_ok a"
  shows "attr_of (attr_bytes a) = a"
proof -
  have "map (\<lambda>i. u32_at (32 + 4 * i) (attr_bytes a)) [0 ..< MAX_QPS] = ra_qp_num_list a"
    using assms by (intro nth_equalityI)
      (auto simp: attr_ok_def attr_bytes_def u32_at_drop u32_at_list)
  moreover have "drop 96 (attr_bytes a) = ra_gid a @ [ra_sgid_index a]"
    using assms by (simp add: attr_ok_def attr_bytes_def MAX_QPS_def)
  moreover have "drop 112 (attr_bytes a) = drop 16 (drop 96 (attr_bytes a))" by simp
  moreover have "length (ra_gid a) = 16" using assms by (simp add: attr_ok_def)
  ultimately show ?thesis
    using assms by (simp add: attr_of_def u32_at_def attr_ok_def) (simp add: attr_bytes_def)
qed

section \<open>A connection in both directions\<close>

text \<open>Two streams between the client's descriptor \<open>x\<close> and the server's \<open>y\<close>.  What the server has
  sent can be read after it has closed its end.\<close>

locale duplex =
  up_out: stream_out skc x cbuf "\<lambda>w. oc w \<and> os w" +
  up_in: stream_in sks y cbuf os +
  down_out: stream_out sks y sbuf "\<lambda>w. oc w \<and> os w" +
  down_in: stream_in skc x sbuf oc
  for skc sks :: "'w sockets" and x y :: int and cbuf sbuf :: "'w \<Rightarrow> u8 list" and oc os :: "'w \<Rightarrow> bool" +
  assumes c_send_frame: "oc w \<Longrightarrow> os w \<Longrightarrow> sbuf (snd (sys_send skc x bs w)) = sbuf w"
    and s_send_frame: "oc w \<Longrightarrow> os w \<Longrightarrow> cbuf (snd (sys_send sks y bs w)) = cbuf w"
    and s_recv_frame: "os w \<Longrightarrow> sbuf (snd (sys_recv sks y n w)) = sbuf w
      \<and> oc (snd (sys_recv sks y n w)) = oc w \<and> os (snd (sys_recv sks y n w))"
    and s_shut: "os w \<Longrightarrow> sbuf (shut sks y w) = sbuf w \<and> oc (shut sks y w) = oc w"
begin

lemma up_send:
  assumes "oc w" and "os w"
  obtains w' where "sendAll skc x bs w = (True, w')" "cbuf w' = cbuf w @ bs" "sbuf w' = sbuf w" "oc w'" "os w'"
proof -
  obtain w' where w': "sendAll skc x bs w = (True, w')" "cbuf w' = cbuf w @ bs" "oc w' \<and> os w'"
    using up_out.sendAll_exact [of w bs] assms by blast
  have step: "oc (snd (sys_send skc x bs' v)) \<and> os (snd (sys_send skc x bs' v))
      \<and> sbuf (snd (sys_send skc x bs' v)) = sbuf w"
    if "bs' \<noteq> []" "oc v \<and> os v \<and> sbuf v = sbuf w" for bs' v
    using up_out.send_prefix [of v bs'] c_send_frame [of v bs'] that by auto
  have "oc (snd (sendAll skc x bs w)) \<and> os (snd (sendAll skc x bs w))
      \<and> sbuf (snd (sendAll skc x bs w)) = sbuf w"
    by (rule sendAll_keeps [where P = "\<lambda>v. oc v \<and> os v \<and> sbuf v = sbuf w"]) (simp_all add: step assms)
  then show ?thesis using that w' by simp
qed

lemma down_send:
  assumes "oc w" and "os w"
  obtains w' where "sendAll sks y bs w = (True, w')" "sbuf w' = sbuf w @ bs" "cbuf w' = cbuf w" "oc w'" "os w'"
proof -
  obtain w' where w': "sendAll sks y bs w = (True, w')" "sbuf w' = sbuf w @ bs" "oc w' \<and> os w'"
    using down_out.sendAll_exact [of w bs] assms by blast
  have step: "oc (snd (sys_send sks y bs' v)) \<and> os (snd (sys_send sks y bs' v))
      \<and> cbuf (snd (sys_send sks y bs' v)) = cbuf w"
    if "bs' \<noteq> []" "oc v \<and> os v \<and> cbuf v = cbuf w" for bs' v
    using down_out.send_prefix [of v bs'] s_send_frame [of v bs'] that by auto
  have "oc (snd (sendAll sks y bs w)) \<and> os (snd (sendAll sks y bs w))
      \<and> cbuf (snd (sendAll sks y bs w)) = cbuf w"
    by (rule sendAll_keeps [where P = "\<lambda>v. oc v \<and> os v \<and> cbuf v = cbuf w"]) (simp_all add: step assms)
  then show ?thesis using that w' by simp
qed

lemma up_recv:
  assumes "os w" and "cbuf w = bs @ rest" and "length bs = n"
  obtains w' where "recvAll sks y n w = (Some bs, w')" "cbuf w' = rest" "sbuf w' = sbuf w" "oc w' = oc w" "os w'"
proof -
  obtain w' where w': "recvAll sks y n w = (Some bs, w')" "cbuf w' = rest" "os w'"
    using up_in.recvAll_append [OF assms] by blast
  have "os (snd (recvAll sks y n w)) \<and> sbuf (snd (recvAll sks y n w)) = sbuf w
      \<and> oc (snd (recvAll sks y n w)) = oc w"
    by (rule recvAll_keeps [where P = "\<lambda>v. os v \<and> sbuf v = sbuf w \<and> oc v = oc w"])
      (simp_all add: s_recv_frame assms(1))
  then show ?thesis using that w' by simp
qed

lemma up_sendMsg:
  assumes "oc w" and "os w"
  obtains w' where "sendMsg skc x ty p fl w = (True, w')"
    "cbuf w' = cbuf w @ frame \<lparr> m_type = ty, m_flags = fl, m_payload = p \<rparr>" "sbuf w' = sbuf w" "oc w'" "os w'"
proof -
  let ?h = "header_bytes \<lparr> h_type = ty, h_flags = fl, h_length = of_nat (length p) \<rparr>"
  obtain w1 where a: "sendAll skc x ?h w = (True, w1)" "cbuf w1 = cbuf w @ ?h" "sbuf w1 = sbuf w" "oc w1" "os w1"
    using up_send [OF assms] by blast
  obtain w2 where b: "sendAll skc x p w1 = (True, w2)" "cbuf w2 = cbuf w1 @ p" "sbuf w2 = sbuf w1" "oc w2" "os w2"
    using up_send [OF a(4,5)] by blast
  show ?thesis
    using that a b by (cases "p = []") (auto simp: sendMsg_def frame_def msg_header_def)
qed

lemma down_sendMsg:
  assumes "oc w" and "os w"
  obtains w' where "sendMsg sks y ty p fl w = (True, w')"
    "sbuf w' = sbuf w @ frame \<lparr> m_type = ty, m_flags = fl, m_payload = p \<rparr>" "oc w'" "os w'"
proof -
  let ?h = "header_bytes \<lparr> h_type = ty, h_flags = fl, h_length = of_nat (length p) \<rparr>"
  obtain w1 where a: "sendAll sks y ?h w = (True, w1)" "sbuf w1 = sbuf w @ ?h" "oc w1" "os w1"
    using down_send [OF assms] by blast
  obtain w2 where b: "sendAll sks y p w1 = (True, w2)" "sbuf w2 = sbuf w1 @ p" "oc w2" "os w2"
    using down_send [OF a(3,4)] by blast
  show ?thesis
    using that a b by (cases "p = []") (auto simp: sendMsg_def frame_def msg_header_def)
qed

end

definition attr_msg :: "rdma_buffer_attr \<Rightarrow> ctrl_msg" where
  "attr_msg a = \<lparr> m_type = CTRL_STRUCT, m_flags = 0, m_payload = attr_bytes a \<rparr>"

lemma recv_attr_of_msg:
  assumes "recvAll sk fd 8 w = (Some (header_bytes (msg_header (attr_msg a))), w1)"
    and "recvAll sk fd sizeof_rdma_buffer_attr w1 = (Some (attr_bytes a), w2)" and "attr_ok a"
  shows "recv_attr sk fd w = (Some a, w2)"
proof -
  have "length (attr_bytes a) = sizeof_rdma_buffer_attr" using assms(3) by (rule length_attr_bytes)
  moreover from this have "unat (h_length (msg_header (attr_msg a))) = sizeof_rdma_buffer_attr"
    by (simp add: msg_header_def attr_msg_def unat_of_nat sizeof_rdma_buffer_attr_def MAX_QPS_def)
  moreover have "h_type (msg_header (attr_msg a)) = CTRL_STRUCT" by (simp add: msg_header_def attr_msg_def)
  ultimately show ?thesis
    using assms by (simp add: recv_attr_def recvMsg_def attr_of_bytes)
qed

lemma frame_attr_msg: "frame (attr_msg a) = header_bytes (msg_header (attr_msg a)) @ attr_bytes a"
  by (simp add: frame_def attr_msg_def)

context duplex
begin

lemma client_sends:
  assumes "oc w" and "os w" and "cbuf w = []"
  obtains w' where "client_meta_send skc g e x w = (True, w')"
    "cbuf w' = hello_bytes \<lparr> hello_conn_id = conn_id e, hello_port = g \<rparr> @ frame (attr_msg (local_metadata_attr e))"
    "sbuf w' = sbuf w" "oc w'" "os w'"
proof -
  let ?h = "hello_bytes \<lparr> hello_conn_id = conn_id e, hello_port = g \<rparr>"
  obtain w1 where a: "sendAll skc x ?h w = (True, w1)" "cbuf w1 = ?h" "sbuf w1 = sbuf w" "oc w1" "os w1"
    using up_send [OF assms(1,2), of ?h] assms(3) by auto
  obtain w2 where b: "sendMsg skc x CTRL_STRUCT (attr_bytes (local_metadata_attr e)) 0 w1 = (True, w2)"
    "cbuf w2 = ?h @ frame (attr_msg (local_metadata_attr e))" "sbuf w2 = sbuf w" "oc w2" "os w2"
    using up_sendMsg [OF a(4,5), of CTRL_STRUCT "attr_bytes (local_metadata_attr e)" 0] a(2,3)
    by (auto simp: attr_msg_def)
  show ?thesis using that [of w2] a b by (simp add: client_meta_send_def)
qed

lemma server_serves:
  assumes "oc w" and "os w" and "cbuf w = frame (attr_msg a)" and "sbuf w = []" and "attr_ok a" and "attr_valid a"
  obtains w' where "serve_meta sks g c e y w = (SUCCESS, e\<lparr> remote_metadata_attr := a \<rparr>, w')"
    "sbuf w' = hello_bytes \<lparr> hello_conn_id = c, hello_port = g \<rparr> @ frame (attr_msg (local_metadata_attr e))" "oc w'"
proof -
  let ?h = "hello_bytes \<lparr> hello_conn_id = c, hello_port = g \<rparr>"
  let ?m = "attr_msg (local_metadata_attr e)"
  obtain w1 where r1: "recvAll sks y 8 w = (Some (header_bytes (msg_header (attr_msg a))), w1)"
    "cbuf w1 = attr_bytes a" "sbuf w1 = []" "oc w1" "os w1"
    using up_recv [OF assms(2), of "header_bytes (msg_header (attr_msg a))" "attr_bytes a" 8] assms
    by (auto simp: frame_attr_msg)
  obtain w2 where r2: "recvAll sks y sizeof_rdma_buffer_attr w1 = (Some (attr_bytes a), w2)"
    "sbuf w2 = []" "oc w2" "os w2"
    using up_recv [OF r1(5), of "attr_bytes a" "[]" sizeof_rdma_buffer_attr] r1 length_attr_bytes [OF assms(5)]
    by auto
  have ra: "recv_attr sks y w = (Some a, w2)" by (rule recv_attr_of_msg [OF r1(1) r2(1) assms(5)])
  obtain w3 where s3: "sendAll sks y ?h w2 = (True, w3)" "sbuf w3 = ?h" "oc w3" "os w3"
    using down_send [OF r2(3,4), of ?h] r2(2) by auto
  obtain w4 where s4: "sendMsg sks y CTRL_STRUCT (attr_bytes (local_metadata_attr e)) 0 w3 = (True, w4)"
    "sbuf w4 = ?h @ frame ?m" "oc w4" "os w4"
    using down_sendMsg [OF s3(3,4), of CTRL_STRUCT "attr_bytes (local_metadata_attr e)" 0] s3(2)
    by (auto simp: attr_msg_def)
  show ?thesis
    using that [of "shut sks y w4"] s_shut [OF s4(4)] ra s3 s4 assms(6) by (simp add: serve_meta_def Let_def)
qed

lemma client_receives:
  assumes "oc w" and "attr_ok a" and "attr_valid a"
    and "sbuf w = hello_bytes \<lparr> hello_conn_id = conn_id e, hello_port = g \<rparr> @ frame (attr_msg a)"
  obtains w' where "client_meta_recv skc e x w = (SUCCESS, e\<lparr> remote_metadata_attr := a \<rparr>, w')"
proof -
  let ?h = "hello_bytes \<lparr> hello_conn_id = conn_id e, hello_port = g \<rparr>"
  obtain w1 where r1: "recvAll skc x 10 w = (Some ?h, w1)" "sbuf w1 = frame (attr_msg a)" "oc w1"
    by (rule down_in.recvAll_append [OF assms(1,4)]) simp_all
  obtain w2 where r2: "recvAll skc x 8 w1 = (Some (header_bytes (msg_header (attr_msg a))), w2)"
    "sbuf w2 = attr_bytes a" "oc w2"
    by (rule down_in.recvAll_append [OF r1(3), of "header_bytes (msg_header (attr_msg a))" "attr_bytes a" 8])
      (simp_all add: r1(2) frame_attr_msg)
  obtain w3 where r3: "recvAll skc x sizeof_rdma_buffer_attr w2 = (Some (attr_bytes a), w3)"
    by (rule down_in.recvAll_append [OF r2(3), of "attr_bytes a" "[]" sizeof_rdma_buffer_attr])
      (simp_all add: r2(2) length_attr_bytes assms(2))
  have "recv_attr skc x w1 = (Some a, w3)" by (rule recv_attr_of_msg [OF r2(1) r3 assms(2)])
  then show ?thesis
    using that [of "shut skc x w3"] r1 assms(3) by (simp add: client_meta_recv_def)
qed

end

section \<open>The reference network\<close>

definition net_end :: "nat \<Rightarrow> int \<Rightarrow> int \<Rightarrow> net \<Rightarrow> bool" where
  "net_end p x y w \<longleftrightarrow> x \<in> set (n_open w p) \<and> n_peer w x = y \<and> x \<notin> set (n_dead w) \<and> x \<noteq> y"

lemma net_end_both: "net_end p x y w \<Longrightarrow> net_end q y x w \<Longrightarrow> net_live p q x y w"
  by (simp add: net_end_def net_live_def)

lemma net_send_ends:
  "snd (sys_send (net_sockets p) x bs w) = w \<or>
    (\<exists>f. snd (sys_send (net_sockets p) x bs w) = w\<lparr> n_inbox := (n_inbox w)(n_peer w x := f) \<rparr>)"
  by (auto simp: net_sockets_def net_send_def Let_def)

lemma net_recv_ends:
  "snd (sys_recv (net_sockets p) x n w) = w \<or>
    (\<exists>f. snd (sys_recv (net_sockets p) x n w) = w\<lparr> n_inbox := (n_inbox w)(x := f) \<rparr>)"
  by (auto simp: net_sockets_def net_recv_def Let_def)

lemma net_end_inbox [simp]: "net_end p x y (w\<lparr> n_inbox := f \<rparr>) = net_end p x y w"
  by (simp add: net_end_def)

lemma net_stream_out:
  "stream_out (net_sockets p) x (\<lambda>w. n_inbox w y) (\<lambda>w. net_end p x y w \<and> net_end q y x w)"
proof
  fix w :: net and bs :: "u8 list"
  assume a: "net_end p x y w \<and> net_end q y x w" "bs \<noteq> []"
  from net_stream.send_prefix [of p q x y w bs] a net_end_both obtain k w' where
    k: "sys_send (net_sockets p) x bs w = (int k, w')" "0 < k" "k \<le> length bs"
      "n_inbox w' y = n_inbox w y @ take k bs" by blast
  have "net_end p x y w' \<and> net_end q y x w'" using net_send_ends [of p x bs w] k(1) a(1) by auto
  then show "\<exists>k w'. sys_send (net_sockets p) x bs w = (int k, w') \<and> 0 < k \<and> k \<le> length bs
      \<and> n_inbox w' y = n_inbox w y @ take k bs \<and> (net_end p x y w' \<and> net_end q y x w')"
    using k by blast
qed

lemma net_stream_in:
  "stream_in (net_sockets p) x (\<lambda>w. n_inbox w x) (net_end p x y)"
proof
  fix w :: net and n :: nat
  assume a: "net_end p x y w" "0 < n" "n_inbox w x \<noteq> []"
  let ?k = "min (min (Suc (n_seg w)) n) (length (n_inbox w x))"
  have "0 < ?k" "?k \<le> n" "?k \<le> length (n_inbox w x)" using a(2,3) by auto
  with a(1) show "\<exists>k w'. sys_recv (net_sockets p) x n w = ((int k, take k (n_inbox w x)), w')
      \<and> 0 < k \<and> k \<le> n \<and> k \<le> length (n_inbox w x) \<and> n_inbox w' x = drop k (n_inbox w x) \<and> net_end p x y w'"
    by (intro exI [of _ ?k] exI) (auto simp: net_sockets_def net_recv_def Let_def net_end_def)
qed

interpretation net_duplex: duplex "net_sockets p" "net_sockets q" x y "\<lambda>w. n_inbox w y" "\<lambda>w. n_inbox w x"
    "net_end p x y" "net_end q y x" for p q x y
proof (intro duplex.intro duplex_axioms.intro)
  show "stream_out (net_sockets q) y (\<lambda>w. n_inbox w x) (\<lambda>w. net_end p x y w \<and> net_end q y x w)"
    using net_stream_out [of q y x p] by (simp add: conj_commute)
next
  fix w bs
  assume "net_end p x y w" "net_end q y x w"
  then show "n_inbox (snd (sys_send (net_sockets p) x bs w)) x = n_inbox w x"
    using net_send_ends [of p x bs w] by (auto simp: net_end_def)
next
  fix w bs
  assume "net_end p x y w" "net_end q y x w"
  then show "n_inbox (snd (sys_send (net_sockets q) y bs w)) y = n_inbox w y"
    using net_send_ends [of q y bs w] by (auto simp: net_end_def)
next
  fix w n
  assume "net_end q y x w"
  then show "n_inbox (snd (sys_recv (net_sockets q) y n w)) x = n_inbox w x
      \<and> net_end p x y (snd (sys_recv (net_sockets q) y n w)) = net_end p x y w
      \<and> net_end q y x (snd (sys_recv (net_sockets q) y n w))"
    using net_recv_ends [of q y n w] by (auto simp: net_end_def)
next
  fix w
  assume "net_end q y x w"
  then show "n_inbox (shut (net_sockets q) y w) x = n_inbox w x
      \<and> net_end p x y (shut (net_sockets q) y w) = net_end p x y w"
    by (auto simp: net_end_def shut_def net_sockets_def net_close_def)
qed (rule net_stream_out net_stream_in)+

section \<open>Agreement\<close>

text \<open>C31: When client and server run the metadata exchange over a connection that delivers bytes in
  order in both directions, however it segments them and although the server closes it first, both
  succeed: the server reads the client's connection identifier and listening port from the HELLO, and
  each side ends with exactly the local metadata of the other as its remote metadata.\<close>

theorem meta_exchange_agrees:
  assumes "duplex skc sks x y cbuf sbuf oc os" and "oc w" and "os w" and "cbuf w = []" and "sbuf w = []"
    and "attr_ok (local_metadata_attr ec)" and "attr_valid (local_metadata_attr ec)"
    and "attr_ok (local_metadata_attr es)" and "attr_valid (local_metadata_attr es)"
  shows "\<exists>w1 w2 w3 w4 hb. client_meta_send skc client_port ec x w = (True, w1)
    \<and> recvAll sks y 10 w1 = (Some hb, w2)
    \<and> hello_of hb = \<lparr> hello_conn_id = conn_id ec, hello_port = client_port \<rparr>
    \<and> serve_meta sks server_port (conn_id ec) es y w2
        = (SUCCESS, es\<lparr> remote_metadata_attr := local_metadata_attr ec \<rparr>, w3)
    \<and> client_meta_recv skc ec x w3 = (SUCCESS, ec\<lparr> remote_metadata_attr := local_metadata_attr es \<rparr>, w4)"
proof -
  note d = assms(1)
  let ?h = "\<lparr> hello_conn_id = conn_id ec, hello_port = client_port \<rparr>"
  obtain w1 where c: "client_meta_send skc client_port ec x w = (True, w1)"
    "cbuf w1 = hello_bytes ?h @ frame (attr_msg (local_metadata_attr ec))" "sbuf w1 = []" "oc w1" "os w1"
    by (rule duplex.client_sends [OF d assms(2-4)]) (use assms(5) in auto)
  obtain w2 where h: "recvAll sks y 10 w1 = (Some (hello_bytes ?h), w2)"
    "cbuf w2 = frame (attr_msg (local_metadata_attr ec))" "sbuf w2 = []" "oc w2" "os w2"
    by (rule duplex.up_recv [OF d c(5,2), of 10]) (use c in auto)
  obtain w3 where s: "serve_meta sks server_port (conn_id ec) es y w2
      = (SUCCESS, es\<lparr> remote_metadata_attr := local_metadata_attr ec \<rparr>, w3)"
    "sbuf w3 = hello_bytes \<lparr> hello_conn_id = conn_id ec, hello_port = server_port \<rparr>
       @ frame (attr_msg (local_metadata_attr es))" "oc w3"
    by (rule duplex.server_serves [OF d h(4,5,2,3) assms(6,7)])
  obtain w4 where "client_meta_recv skc ec x w3 = (SUCCESS, ec\<lparr> remote_metadata_attr := local_metadata_attr es \<rparr>, w4)"
    by (rule duplex.client_receives [OF d s(3) assms(8,9) s(2)])
  with c(1) h(1) s(1) show ?thesis by (metis hello_of_bytes)
qed

definition demo_conn :: "u64 \<Rightarrow> addr \<Rightarrow> RDMAConn" where
  "demo_conn c base = (new_RDMAConn (\<lambda>_. None) demo_buffer 1 Client)\<lparr> conn_id := c,
     local_metadata_attr := empty_attr\<lparr> ra_address := base, ra_length := 64, ra_key := 5 \<rparr> \<rparr>"

theorem meta_exchange_agrees_witness:
  "\<exists>w1 w2 w3 w4 hb. client_meta_send (net_sockets 0) 7000 (demo_conn 9 4096) 11 demo_net = (True, w1)
    \<and> recvAll (net_sockets 1) 12 10 w1 = (Some hb, w2)
    \<and> hello_of hb = \<lparr> hello_conn_id = 9, hello_port = 7000 \<rparr>
    \<and> serve_meta (net_sockets 1) 8000 9 (demo_conn 9 8192) 12 w2 = (SUCCESS, (demo_conn 9 8192)
        \<lparr> remote_metadata_attr := local_metadata_attr (demo_conn 9 4096) \<rparr>, w3)
    \<and> client_meta_recv (net_sockets 0) (demo_conn 9 4096) 11 w3 = (SUCCESS, (demo_conn 9 4096)
        \<lparr> remote_metadata_attr := local_metadata_attr (demo_conn 9 8192) \<rparr>, w4)"
proof -
  have i: "conn_id (demo_conn 9 4096) = 9" by (simp add: demo_conn_def)
  show ?thesis
    using meta_exchange_agrees [where ec = "demo_conn 9 4096" and es = "demo_conn 9 8192" and w = demo_net
        and client_port = 7000 and server_port = 8000,
        OF net_duplex.duplex_axioms [where p = 0 and q = 1 and x = 11 and y = 12]]
    unfolding i by (simp add: net_end_def demo_net_def demo_conn_def attr_ok_def attr_valid_def empty_attr_def)
qed

end
