(* ===== verification/Hmc_RdmaConnect.thy ===== *)
theory Hmc_RdmaConnect
  imports Hmc_RdmaObjects Hmc_RdmaMeta Hmc_ConnManager
begin

text \<open>
  Establishing RDMA connections: \<^verbatim>\<open>RDMAClient::connect\<close> (src/network/rdma_client.cpp), the event loop of
  \<^verbatim>\<open>RDMAServer::listen\<close> and \<^verbatim>\<open>handleConnection\<close> (src/network/rdma_server.cpp) and the interrupt handling
  they share (src/utils/signal.cpp).  \<open>None\<close> is undefined behaviour or, for the metadata exchange of
  the server and its event loop, a call that never returns.  Whether an exit was requested is read
  from the world, \<open>exit_requested\<close>.
\<close>

section \<open>Interrupts\<close>

datatype sig_action = SIG_DFL | Handler

record sig_state =
  sig_running :: bool
  sigint_action :: sig_action

definition SIGINT :: int where
  "SIGINT = 2"

definition signal_handler :: "int \<Rightarrow> sig_state \<Rightarrow> unit outcome \<times> sig_state" where
  "signal_handler sig s =
    (if sig = SIGINT then (Exit (- 1), s\<lparr> sig_running := False \<rparr>) else (Return (), s))"

definition setup_signal_handler :: "sig_state \<Rightarrow> sig_state" where
  "setup_signal_handler s = s\<lparr> sigint_action := Handler \<rparr>"

definition should_exit :: "sig_state \<Rightarrow> bool" where
  "should_exit s \<longleftrightarrow> \<not> sig_running s"

text \<open>\<^verbatim>\<open>std::raise(SIGINT)\<close>: the handler runs; by default the process is terminated.\<close>

definition raise_SIGINT :: "sig_state \<Rightarrow> unit outcome \<times> sig_state" where
  "raise_SIGINT s = (case sigint_action s of SIG_DFL \<Rightarrow> (Exit (128 + SIGINT), s) | Handler \<Rightarrow> signal_handler SIGINT s)"

section \<open>Client\<close>

datatype attempt = Connected | Retry | Failed

definition await_cm :: "'w rdma_api \<Rightarrow> RDMAConn \<Rightarrow> cm_event \<Rightarrow> 'w \<Rightarrow> bool \<times> 'w" where
  "await_cm A e expected w =
    (case rdma_get_cm_event A (cm_event_channel e) w of (ev, w1) \<Rightarrow> (ev = Some expected, w1))"

text \<open>Channel, identifier, address and route.\<close>

definition client_resolve ::
  "'w rdma_api \<Rightarrow> string \<Rightarrow> u16 \<Rightarrow> RDMAConn \<Rightarrow> 'w \<Rightarrow> attempt \<times> RDMAConn \<times> 'w" where
  "client_resolve A ip port e w =
    (case rdma_create_event_channel A w of (ch, w1) \<Rightarrow>
     let e1 = e\<lparr> cm_event_channel := ch \<rparr> in
     if ch = None then (Failed, e1, w1)
     else case rdma_create_id A ch w1 of
       (None, w2) \<Rightarrow> (Failed, e1, w2)
     | (Some i, w2) \<Rightarrow>
     let e2 = e1\<lparr> cm_id := Some i \<rparr> in
     (case rdma_resolve_addr A i ip port w2 of (r1, w3) \<Rightarrow>
      if r1 \<noteq> 0 then (Retry, e2, w3)
      else case await_cm A e2 ADDR_RESOLVED w3 of (ok1, w4) \<Rightarrow>
      if \<not> ok1 then (Retry, e2, w4)
      else case rdma_resolve_route A i w4 of (r2, w5) \<Rightarrow>
      if r2 \<noteq> 0 then (Retry, e2, w5)
      else case await_cm A e2 ROUTE_RESOLVED w5 of (ok2, w6) \<Rightarrow>
      (if ok2 then Connected else Retry, e2, w6)))"

text \<open>Completion channel and queue, protection domain, queue pairs and buffers: the same steps on
  both sides, up to the first that fails.\<close>

definition open_queues ::
  "'w rdma_api \<Rightarrow> layout \<Rightarrow> nat \<Rightarrow> RDMAConn \<Rightarrow> 'w \<Rightarrow> (bool \<times> RDMAConn \<times> 'w) option" where
  "open_queues A L i e w =
    (case ibv_create_comp_channel A i w of (cc, w1) \<Rightarrow>
     let e1 = e\<lparr> completion_channel := cc \<rparr> in
     case cc of None \<Rightarrow> Some (False, e1, w1) | Some c \<Rightarrow>
     (case ibv_create_cq A i (cq_capacity e1) c w1 of (q, w2) \<Rightarrow>
      let e2 = e1\<lparr> cq := q \<rparr> in
      if q = None then Some (False, e2, w2)
      else case ibv_alloc_pd A i w2 of (p, w3) \<Rightarrow>
      let e3 = e2\<lparr> pd := p \<rparr> in
      if p = None then Some (False, e3, w3)
      else case setupQPs A e3 w3 of
        None \<Rightarrow> None
      | Some (s1, e4, w4) \<Rightarrow>
          if s1 \<noteq> SUCCESS then Some (False, e4, w4)
          else (case setupBuffers A L e4 w4 of
                  None \<Rightarrow> None
                | Some (s2, e5, w5) \<Rightarrow> Some (s2 = SUCCESS, e5, w5))))"

text \<open>One pass of the loop of \<^verbatim>\<open>connect\<close>.  The connection identifier travels as private data.\<close>

definition client_attempt ::
  "'w rdma_api \<Rightarrow> 'w sockets \<Rightarrow> layout \<Rightarrow> environ \<Rightarrow> u16 \<Rightarrow> string \<Rightarrow> u16 \<Rightarrow> RDMAConn \<Rightarrow> 'w
     \<Rightarrow> (attempt \<times> RDMAConn \<times> 'w) option" where
  "client_attempt A sk L env listen_port ip port e w =
    (case client_resolve A ip port e w of (r, e1, w1) \<Rightarrow>
     if r \<noteq> Connected then Some (r, e1, w1)
     else case open_queues A L (the (cm_id e1)) e1 w1 of
       None \<Rightarrow> None
     | Some (ok, e2, w2) \<Rightarrow>
     if \<not> ok then Some (Failed, e2, w2)
     else case rdma_connect A (the (cm_id e2)) (be_bytes 8 (conn_id e2)) w2 of (rc, w3) \<Rightarrow>
     if rc \<noteq> 0 then Some (Retry, e2, w3)
     else case await_cm A e2 ESTABLISHED w3 of (ok2, w4) \<Rightarrow>
     if \<not> ok2 then Some (Retry, e2, w4)
     else case client_exchangeMetaData sk listen_port ip port e2 w4 of (s, e3, w5) \<Rightarrow>
     if s \<noteq> SUCCESS then Some (Failed, e3, w5)
     else (case transitionExtraQPsToRTS A env e3 w5 of
             None \<Rightarrow> None
           | Some (_, w6) \<Rightarrow> Some (Connected, e3\<lparr> connStatus := SUCCESS \<rparr>, w6)))"

text \<open>At most \<open>n\<close> attempts.  A failed endpoint is destroyed.\<close>

primrec client_loop ::
  "nat \<Rightarrow> 'w rdma_api \<Rightarrow> 'w sockets \<Rightarrow> layout \<Rightarrow> environ \<Rightarrow> ('w \<Rightarrow> bool) \<Rightarrow> u16 \<Rightarrow> string \<Rightarrow> u16 \<Rightarrow> RDMAConn \<Rightarrow> 'w
     \<Rightarrow> (RDMAConn option \<times> 'w) option" where
  "client_loop 0 A sk L env exit_requested listen_port ip port e w = Some (None, delete_RDMAEndpoint A e w)"
| "client_loop (Suc n) A sk L env exit_requested listen_port ip port e w =
    (case client_attempt A sk L env listen_port ip port e w of
       None \<Rightarrow> None
     | Some (Connected, e1, w1) \<Rightarrow> Some (Some e1, w1)
     | Some (Failed, e1, w1) \<Rightarrow> Some (None, delete_RDMAEndpoint A e1 w1)
     | Some (Retry, e1, w1) \<Rightarrow>
         (case cleanRdmaResources A e1 w1 of (e2, w2) \<Rightarrow>
            if exit_requested w2 then Some (None, delete_RDMAEndpoint A e2 w2)
            else client_loop n A sk L env exit_requested listen_port ip port e2 w2))"

definition client_connect ::
  "'w rdma_api \<Rightarrow> 'w sockets \<Rightarrow> layout \<Rightarrow> environ \<Rightarrow> ('w \<Rightarrow> u64 \<times> 'w) \<Rightarrow> ('w \<Rightarrow> bool) \<Rightarrow> u16 \<Rightarrow> ConnBuffer
     \<Rightarrow> size_t \<Rightarrow> int \<Rightarrow> string \<Rightarrow> u16 \<Rightarrow> 'w \<Rightarrow> (RDMAConn option \<times> 'w) option" where
  "client_connect A sk L env draw exit_requested listen_port b nq max_retry_times ip port w =
    (if \<not> inet_pton_ok sk ip then Some (None, w)
     else case genConnId64 draw w of (c, w1) \<Rightarrow>
       client_loop (nat max_retry_times) A sk L env exit_requested listen_port ip port
         ((new_RDMAConn env b nq Client)\<lparr> conn_id := c \<rparr>) w1)"

section \<open>Server\<close>

record BoundKey =
  bk_ip :: string
  bk_port :: u16
  bk_conn_id :: u64

record RDMAServer =
  srv_buffer :: ConnBuffer
  srv_num_qps :: size_t
  server_cm_id :: "nat option"
  srv_event_channel :: "nat option"
  meta_listen_fd :: int
  meta_port :: u16

text \<open>The globals of rdma_server.cpp.\<close>

record rdma_globals =
  g_rdma_listen_port :: u16
  g_bound_by_cmid :: "nat \<rightharpoonup> BoundKey"
  g_meta :: meta_table

definition no_rdma_globals :: rdma_globals where
  "no_rdma_globals = \<lparr> g_rdma_listen_port = 0, g_bound_by_cmid = Map.empty, g_meta = no_meta \<rparr>"

definition new_RDMAServer :: "ConnBuffer \<Rightarrow> size_t \<Rightarrow> RDMAServer" where
  "new_RDMAServer b nq = \<lparr> srv_buffer = b, srv_num_qps = nq, server_cm_id = None, srv_event_channel = None,
     meta_listen_fd = - 1, meta_port = 0 \<rparr>"

definition bindCmid :: "nat \<Rightarrow> string \<Rightarrow> u16 \<Rightarrow> u64 \<Rightarrow> rdma_globals \<Rightarrow> rdma_globals" where
  "bindCmid i ip port c g = g\<lparr> g_bound_by_cmid := (g_bound_by_cmid g)
     (i \<mapsto> \<lparr> bk_ip = ip, bk_port = port, bk_conn_id = c \<rparr>) \<rparr>"

definition takeBind :: "nat \<Rightarrow> rdma_globals \<Rightarrow> BoundKey option \<times> rdma_globals" where
  "takeBind i g =
    (case g_bound_by_cmid g i of
       None \<Rightarrow> (None, g)
     | Some k \<Rightarrow> (Some k, g\<lparr> g_bound_by_cmid := (g_bound_by_cmid g)(i := None) \<rparr>))"

text \<open>The listeners of \<^verbatim>\<open>listen\<close>: \<open>True\<close> when the event loop is entered.\<close>

definition listen_open ::
  "'w rdma_api \<Rightarrow> 'w sockets \<Rightarrow> string \<Rightarrow> u16 \<Rightarrow> RDMAServer \<Rightarrow> rdma_globals \<Rightarrow> 'w
     \<Rightarrow> bool \<times> RDMAServer \<times> rdma_globals \<times> 'w" where
  "listen_open A sk ip port srv g w =
    (let g1 = g\<lparr> g_rdma_listen_port := port \<rparr> in
     case rdma_create_event_channel A w of (ch, w1) \<Rightarrow>
     let s1 = srv\<lparr> meta_port := port + 10000, srv_event_channel := ch \<rparr> in
     if ch = None then (False, s1, g1, w1)
     else case rdma_create_id A ch w1 of
       (None, w2) \<Rightarrow> (False, s1, g1, w2)
     | (Some i, w2) \<Rightarrow>
     let s2 = s1\<lparr> server_cm_id := Some i \<rparr> in
     (case rdma_bind_addr A i ip port w2 of (r1, w3) \<Rightarrow>
      if r1 \<noteq> 0 then (False, s2, g1, w3)
      else case rdma_listen A i w3 of (r2, w4) \<Rightarrow>
      if r2 \<noteq> 0 then (False, s2, g1, w4)
      else case sys_socket sk AF_INET w4 of (fd, w5) \<Rightarrow>
      let s3 = s2\<lparr> meta_listen_fd := fd \<rparr> in
      if fd < 0 then (False, s3, g1, w5)
      else case sys_bind sk fd (Inet ip (meta_port s3)) w5 of (r3, w6) \<Rightarrow>
      if r3 < 0 then (False, s3, g1, w6)
      else case sys_listen sk fd w6 of (r4, w7) \<Rightarrow>
      (r4 \<ge> 0, s3, g1, w7)))"

text \<open>The code at the label \<^verbatim>\<open>cleanup\<close>.\<close>

definition listen_cleanup :: "'w rdma_api \<Rightarrow> 'w sockets \<Rightarrow> RDMAServer \<Rightarrow> 'w \<Rightarrow> RDMAServer \<times> 'w" where
  "listen_cleanup A sk srv w =
    (let w1 = (if meta_listen_fd srv \<ge> 0 then shut sk (meta_listen_fd srv) w else w);
         w2 = release (rdma_destroy_id A) (server_cm_id srv) w1;
         w3 = release (rdma_destroy_event_channel A) (srv_event_channel srv) w2
     in (srv\<lparr> meta_listen_fd := (if meta_listen_fd srv \<ge> 0 then - 1 else meta_listen_fd srv),
              server_cm_id := None, srv_event_channel := None \<rparr>, w3))"

definition handleConnection ::
  "'w rdma_api \<Rightarrow> layout \<Rightarrow> environ \<Rightarrow> RDMAServer \<Rightarrow> nat \<Rightarrow> u64 \<Rightarrow> 'w \<Rightarrow> (RDMAConn option \<times> 'w) option" where
  "handleConnection A L env srv i c w =
    (let e = (new_RDMAConn env (srv_buffer srv) (srv_num_qps srv) Server)\<lparr> cm_id := Some i, conn_id := c \<rparr> in
     case open_queues A L i e w of
       None \<Rightarrow> None
     | Some (ok, e1, w1) \<Rightarrow>
     if \<not> ok then Some (None, delete_RDMAEndpoint A e1 w1)
     else case rdma_accept A i w1 of (rc, w2) \<Rightarrow>
     if rc \<noteq> 0 then Some (None, delete_RDMAEndpoint A e1 w2)
     else case rdma_get_cm_event A (srv_event_channel srv) w2 of (ev, w3) \<Rightarrow>
     if ev \<noteq> Some ESTABLISHED then Some (None, delete_RDMAEndpoint A e1 w3)
     else Some (Some (e1\<lparr> connStatus := SUCCESS \<rparr>), w3))"

text \<open>The connection identifier of a request: zero when the private data is too short.\<close>

definition request_conn_id :: "u8 list \<Rightarrow> u64" where
  "request_conn_id pdata = (if length pdata \<ge> 8 then be_word (take 8 pdata) else 0)"

text \<open>One event of the loop.  \<open>wrap\<close> sees an RDMA endpoint as an \<^verbatim>\<open>Endpoint\<close> of the table.\<close>

definition serve_request ::
  "'w rdma_api \<Rightarrow> 'w sockets \<Rightarrow> (int \<Rightarrow> 'w \<Rightarrow> string) \<Rightarrow> layout \<Rightarrow> environ \<Rightarrow> ('e, 'w) Endpoint \<Rightarrow> (RDMAConn \<Rightarrow> 'e)
     \<Rightarrow> RDMAServer \<Rightarrow> nat \<Rightarrow> u8 list \<Rightarrow> rdma_globals \<Rightarrow> 'e ConnManager \<Rightarrow> 'w
     \<Rightarrow> (rdma_globals \<times> 'e ConnManager \<times> 'w) option" where
  "serve_request A sk peer_addr L env C wrap srv i pdata g cm w =
    (let c = request_conn_id pdata in
     if c = 0 then Some (g, cm, rdma_reject A i w)
     else case handleConnection A L env srv i c w of
       None \<Rightarrow> None
     | Some (None, w1) \<Rightarrow> Some (g, cm, w1)
     | Some (Some e, w1) \<Rightarrow>
         (case server_exchangeMetaData sk peer_addr (g_rdma_listen_port g) (meta_listen_fd srv) c e (g_meta g) w1 of
            None \<Rightarrow> None
          | Some ((s, ip, port), e1, t, w2) \<Rightarrow>
              let g1 = g\<lparr> g_meta := t \<rparr> in
              if s \<noteq> SUCCESS then Some (g1, cm, delete_RDMAEndpoint A e1 w2)
              else (case transitionExtraQPsToRTS A env e1 w2 of
                None \<Rightarrow> None
              | Some (_, w3) \<Rightarrow>
                  (case removeEndpoint C ip port RDMA cm w3 of (cm1, w4) \<Rightarrow>
                   case addEndpoint C ip port (Some (wrap e1)) RDMA cm1 w4 of (cm2, w5) \<Rightarrow>
                     Some (bindCmid i ip port c g1, cm2, w5)))))"

definition serve_disconnect ::
  "('e, 'w) Endpoint \<Rightarrow> nat \<Rightarrow> rdma_globals \<Rightarrow> 'e ConnManager \<Rightarrow> 'w \<Rightarrow> rdma_globals \<times> 'e ConnManager \<times> 'w" where
  "serve_disconnect C i g cm w =
    (case takeBind i g of
       (None, g1) \<Rightarrow> (g1, cm, w)
     | (Some k, g1) \<Rightarrow>
         (case removeEndpointIfMatch C (bk_ip k) (bk_port k) RDMA (bk_conn_id k) cm w of
            (_, cm1, w1) \<Rightarrow> (g1, cm1, w1)))"

definition serve_event ::
  "'w rdma_api \<Rightarrow> 'w sockets \<Rightarrow> (int \<Rightarrow> 'w \<Rightarrow> string) \<Rightarrow> layout \<Rightarrow> environ \<Rightarrow> ('e, 'w) Endpoint \<Rightarrow> (RDMAConn \<Rightarrow> 'e)
     \<Rightarrow> RDMAServer \<Rightarrow> cm_event \<Rightarrow> rdma_globals \<Rightarrow> 'e ConnManager \<Rightarrow> 'w
     \<Rightarrow> (rdma_globals \<times> 'e ConnManager \<times> 'w) option" where
  "serve_event A sk peer_addr L env C wrap srv ev g cm w =
    (case ev of
       CONNECT_REQUEST i pdata \<Rightarrow> serve_request A sk peer_addr L env C wrap srv i pdata g cm w
     | DISCONNECTED i \<Rightarrow> Some (serve_disconnect C i g cm w)
     | _ \<Rightarrow> Some (g, cm, w))"

partial_function (option) listen_loop ::
  "'w rdma_api \<Rightarrow> 'w sockets \<Rightarrow> (int \<Rightarrow> 'w \<Rightarrow> string) \<Rightarrow> layout \<Rightarrow> environ \<Rightarrow> ('e, 'w) Endpoint \<Rightarrow> (RDMAConn \<Rightarrow> 'e)
     \<Rightarrow> ('w \<Rightarrow> bool) \<Rightarrow> RDMAServer \<Rightarrow> rdma_globals \<Rightarrow> 'e ConnManager \<Rightarrow> 'w
     \<Rightarrow> (rdma_globals \<times> 'e ConnManager \<times> 'w) option" where
  "listen_loop A sk peer_addr L env C wrap exit_requested srv g cm w =
    (if exit_requested w then Some (g, cm, w)
     else case rdma_get_cm_event A (srv_event_channel srv) w of
       (None, w1) \<Rightarrow> listen_loop A sk peer_addr L env C wrap exit_requested srv g cm w1
     | (Some ev, w1) \<Rightarrow>
         (case serve_event A sk peer_addr L env C wrap srv ev g cm w1 of
            None \<Rightarrow> None
          | Some (g1, cm1, w2) \<Rightarrow> listen_loop A sk peer_addr L env C wrap exit_requested srv g1 cm1 w2))"

text \<open>The result is SUCCESS however the listeners came up, but for the event channel.\<close>

definition rdma_server_listen ::
  "'w rdma_api \<Rightarrow> 'w sockets \<Rightarrow> (int \<Rightarrow> 'w \<Rightarrow> string) \<Rightarrow> layout \<Rightarrow> environ \<Rightarrow> ('e, 'w) Endpoint \<Rightarrow> (RDMAConn \<Rightarrow> 'e)
     \<Rightarrow> ('w \<Rightarrow> bool) \<Rightarrow> string \<Rightarrow> u16 \<Rightarrow> RDMAServer \<Rightarrow> rdma_globals \<Rightarrow> 'e ConnManager \<Rightarrow> 'w
     \<Rightarrow> (status_t \<times> RDMAServer \<times> rdma_globals \<times> 'e ConnManager \<times> 'w) option" where
  "rdma_server_listen A sk peer_addr L env C wrap exit_requested ip port srv g cm w =
    (case listen_open A sk ip port srv g w of (ok, s1, g1, w1) \<Rightarrow>
     if srv_event_channel s1 = None then Some (ERROR, s1, g1, cm, w1)
     else if \<not> ok then (case listen_cleanup A sk s1 w1 of (s2, w2) \<Rightarrow> Some (SUCCESS, s2, g1, cm, w2))
     else case listen_loop A sk peer_addr L env C wrap exit_requested s1 g1 cm w1 of
       None \<Rightarrow> None
     | Some (g2, cm2, w2) \<Rightarrow>
         (case listen_cleanup A sk s1 w2 of (s2, w3) \<Rightarrow> Some (SUCCESS, s2, g2, cm2, w3)))"

text \<open>\<^verbatim>\<open>stopListen\<close> interrupts its own process before it wakes the loop with a dummy identifier.\<close>

definition rdma_server_stopListen ::
  "'w rdma_api \<Rightarrow> RDMAServer \<Rightarrow> sig_state \<Rightarrow> 'w \<Rightarrow> status_t outcome \<times> sig_state \<times> 'w" where
  "rdma_server_stopListen A srv s w =
    (case raise_SIGINT s of
       (Exit n, s1) \<Rightarrow> (Exit n, s1, w)
     | (Throw m, s1) \<Rightarrow> (Throw m, s1, w)
     | (Return _, s1) \<Rightarrow>
         (case rdma_create_id A (srv_event_channel srv) w of
            (None, w1) \<Rightarrow> (Return SUCCESS, s1, w1)
          | (Some i, w1) \<Rightarrow> (Return SUCCESS, s1, rdma_destroy_id A i w1)))"

text \<open>So a process that stops its RDMA server exits, with the handler installed or without.\<close>

lemma stopListen_exits: "\<exists>n s1. rdma_server_stopListen A srv s w = (Exit n, s1, w)"
  by (cases "sigint_action s")
    (simp_all add: rdma_server_stopListen_def raise_SIGINT_def signal_handler_def SIGINT_def)

end
