(* ===== verification/Hmc_RdmaBalance.thy ===== *)
theory Hmc_RdmaBalance
  imports Hmc_RdmaConnect
begin

text \<open>
  Resources of connection set-up.  The locale \<open>rdma_host\<close> extends the contract of the verbs objects with
  the socket calls and the random source, which leave the objects alone.  Under it a connect gives
  the caller an endpoint that holds exactly the new objects, or gives everything back; destroying the
  endpoint releases each of its objects once.  The same holds for the server's side of a connection.
\<close>

section \<open>Contract\<close>

locale rdma_host = rdma_objects A objs
  for A :: "'w rdma_api" and objs :: "'w \<Rightarrow> rdma_obj set" +
  fixes sk :: "'w sockets"
    and draw :: "'w \<Rightarrow> u64 \<times> 'w"
  assumes objs_socket: "objs (snd (sys_socket sk d w)) = objs w"
    and objs_sock_connect: "objs (snd (sys_connect sk fd a w)) = objs w"
    and objs_send: "objs (snd (sys_send sk fd bs w)) = objs w"
    and objs_recv: "objs (snd (sys_recv sk fd n w)) = objs w"
    and objs_shutdown: "objs (sys_shutdown sk fd w) = objs w"
    and objs_close: "objs (sys_close sk fd w) = objs w"
    and objs_draw: "objs (snd (draw w)) = objs w"

section \<open>An endpoint that holds nothing yet\<close>

definition blank :: "RDMAConn \<Rightarrow> bool" where
  "blank e \<longleftrightarrow> held e = [] \<and> qps e = []"

lemma opt_list_Nil [simp]: "opt_list x = [] \<longleftrightarrow> x = None"
  by (cases x) simp_all

lemma blank_fields:
  "blank e \<Longrightarrow> cm_event_channel e = None \<and> cm_id e = None \<and> completion_channel e = None \<and> cq e = None
    \<and> pd e = None \<and> local_metadata_mr e = None \<and> remote_metadata_mr e = None \<and> buffer_mr e = None
    \<and> uhm_buffer_state_mr e = None \<and> qps e = []"
  by (simp add: blank_def held_unfold)

lemma blank_new: "blank ((new_RDMAConn env b nq r)\<lparr> conn_id := c \<rparr>)"
  by (simp add: blank_def) (simp add: new_RDMAConn_def new_RDMAEndpoint_def Let_def RDMAEndpoint.defs)

lemma blank_clean: "blank (fst (cleanRdmaResources A e w))"
  by (simp add: blank_def clean_holds_nothing) (simp add: cleanRdmaResources_def Let_def)

text \<open>What an operation keeps that the destructor looks at.\<close>

definition same_link :: "RDMAConn \<Rightarrow> RDMAConn \<Rightarrow> bool" where
  "same_link e e' \<longleftrightarrow> connStatus e' = connStatus e \<and> ep_role e' = ep_role e
     \<and> cm_event_channel e' = cm_event_channel e \<and> cm_id e' = cm_id e"

definition quiet :: "rdma_obj set \<Rightarrow> RDMAConn \<Rightarrow> bool" where
  "quiet S e \<longleftrightarrow> (\<forall>h. cm_event_channel e = Some h \<longrightarrow> Listen h \<notin> S)"

lemma quiet_link: "same_link e e' \<Longrightarrow> quiet S e \<Longrightarrow> quiet S e'"
  by (simp add: same_link_def quiet_def)

lemma Listen_holds: "holds S e W \<Longrightarrow> Listen h \<in> W \<longleftrightarrow> Listen h \<in> S"
  by (auto simp: holds_def)

context rdma_objects
begin

lemma quiet_event:
  assumes "holds S e (objs w)" and "quiet S e"
    and "rdma_get_cm_event A (cm_event_channel e) w = (ev, w')"
  shows "objs w' = objs w"
proof -
  have "incoming ev = {}"
  proof (cases "\<exists>i pdata. ev = Some (CONNECT_REQUEST i pdata)")
    case True
    then obtain h where "cm_event_channel e = Some h" "Listen h \<in> objs w"
      using event_listens [of "cm_event_channel e" w] assms(3) by blast
    then show ?thesis using assms(1,2) Listen_holds by (auto simp: quiet_def)
  qed (auto simp: incoming_def split: option.splits cm_event.splits)
  then show ?thesis using objs_event [OF assms(3)] by simp
qed

lemma quiet_await:
  assumes "holds S e (objs w)" and "quiet S e" and "await_cm A e expected w = (ok, w')"
  shows "objs w' = objs w"
proof -
  obtain ev w1 where "rdma_get_cm_event A (cm_event_channel e) w = (ev, w1)" by (metis surj_pair)
  with quiet_event [OF assms(1,2) this] assms(3) show ?thesis by (simp add: await_cm_def)
qed

lemma client_resolve_held:
  assumes run: "client_resolve A ip port e w = (r, e', w')" and b: "blank e" and h: "holds S e (objs w)"
  shows "holds S e' (objs w') \<and> quiet S e' \<and> (\<exists>ch i. e' = e\<lparr> cm_event_channel := ch, cm_id := i \<rparr>)
    \<and> (r = Connected \<longrightarrow> cm_id e' \<noteq> None)"
proof -
  note none = blank_fields [OF b]
  obtain ch w1 where c: "rdma_create_event_channel A w = (ch, w1)" by (metis surj_pair)
  define e1 where "e1 = e\<lparr> cm_event_channel := ch \<rparr>"
  have h1: "holds S e1 (objs w1)"
    by (rule holds_made [OF h make_channel [OF c, THEN conjunct1]])
      (use none in \<open>simp_all add: e1_def held_add held_null\<close>)
  have q1: "quiet S e1"
    using make_channel [OF c] Listen_holds [OF h] by (simp add: quiet_def e1_def)
  have keep: "e1 = e\<lparr> cm_event_channel := ch, cm_id := None \<rparr>" using none by (simp add: e1_def)
  obtain i w2 where ci: "rdma_create_id A ch w1 = (i, w2)" by (metis surj_pair)
  define e2 where "e2 = e1\<lparr> cm_id := i \<rparr>"
  have h2: "holds S e2 (objs w2)"
    by (rule holds_made [OF h1 make_id [OF ci]])
      (use none in \<open>simp_all add: e1_def e2_def held_add held_null held_set_none\<close>)
  have q2: "quiet S e2" using q1 by (simp add: quiet_def e2_def)
  have form: "e2 = e\<lparr> cm_event_channel := ch, cm_id := i \<rparr>" by (simp add: e2_def e1_def)
  show ?thesis
  proof (cases "ch = None \<or> i = None")
    case True
    have "e' = e1 \<and> (w' = w1 \<or> w' = w2 \<and> i = None) \<and> r = Failed"
      using True run c ci by (auto simp: client_resolve_def Let_def e1_def split: if_splits)
    moreover have "i = None \<Longrightarrow> objs w2 = objs w1" using make_id [OF ci] by (auto simp: made_def)
    ultimately show ?thesis using h1 q1 keep by auto
  next
    case False
    then obtain k j where kj: "ch = Some k" and j: "i = Some j" by auto
    have e2_eq: "e\<lparr> cm_event_channel := Some k, cm_id := Some j \<rparr> = e2" using form kj j by simp
    obtain r1 w3 where s1: "rdma_resolve_addr A j ip port w2 = (r1, w3)" by (metis surj_pair)
    then have o3: "objs w3 = objs w2" using objs_resolve_addr [of j ip port w2] by simp
    obtain ok1 w4 where s2: "await_cm A e2 ADDR_RESOLVED w3 = (ok1, w4)" by (metis surj_pair)
    have o4: "objs w4 = objs w2" using quiet_await [OF _ q2 s2] h2 o3 by simp
    obtain r2 w5 where s3: "rdma_resolve_route A j w4 = (r2, w5)" by (metis surj_pair)
    then have o5: "objs w5 = objs w2" using objs_resolve_route [of j w4] o4 by simp
    obtain ok2 w6 where s4: "await_cm A e2 ROUTE_RESOLVED w5 = (ok2, w6)" by (metis surj_pair)
    have o6: "objs w6 = objs w2" using quiet_await [OF _ q2 s4] h2 o5 by simp
    have "e' = e2 \<and> (w' = w3 \<or> w' = w4 \<or> w' = w5 \<or> w' = w6)"
      using run c ci s1 s2 s3 s4 unfolding kj j
      by (auto simp: client_resolve_def Let_def e2_eq split: if_splits)
    then have "e' = e2 \<and> objs w' = objs w2" using o3 o4 o5 o6 by auto
    then show ?thesis using h2 q2 form j by (auto simp: e2_def)
  qed
qed

lemma open_queues_held:
  assumes run: "open_queues A L i e w = Some (ok, e', w')" and h: "holds S e (objs w)"
    and none: "completion_channel e = None" "cq e = None" "pd e = None" "qps e = []"
      "local_metadata_mr e = None" "remote_metadata_mr e = None" "buffer_mr e = None" "uhm_buffer_state_mr e = None"
  shows "holds S e' (objs w') \<and> same_link e e'"
proof -
  obtain cc w1 where c: "ibv_create_comp_channel A i w = (cc, w1)" by (metis surj_pair)
  define e1 where "e1 = e\<lparr> completion_channel := cc \<rparr>"
  have h1: "holds S e1 (objs w1)"
    by (rule holds_made [OF h make_comp [OF c]]) (simp_all add: e1_def held_add held_null none)
  show ?thesis
  proof (cases cc)
    case None
    then show ?thesis using run c h1 by (auto simp: open_queues_def Let_def e1_def same_link_def)
  next
    case (Some k)
    obtain q w2 where cqr: "ibv_create_cq A i (cq_capacity e1) k w1 = (q, w2)" by (metis surj_pair)
    define e2 where "e2 = e1\<lparr> cq := q \<rparr>"
    have h2: "holds S e2 (objs w2)"
      by (rule holds_made [OF h1 make_cq [OF cqr]]) (simp_all add: e1_def e2_def held_add held_null none)
    obtain p w3 where pdr: "ibv_alloc_pd A i w2 = (p, w3)" by (metis surj_pair)
    define e3 where "e3 = e2\<lparr> pd := p \<rparr>"
    have h3: "holds S e3 (objs w3)"
      by (rule holds_made [OF h2 make_pd [OF pdr]]) (simp_all add: e1_def e2_def e3_def held_add held_null none)
    have link: "same_link e e2" "same_link e e3" by (simp_all add: same_link_def e1_def e2_def e3_def)
    have go: "open_queues A L i e w =
        (if q = None then Some (False, e2, w2) else if p = None then Some (False, e3, w3)
         else case setupQPs A e3 w3 of None \<Rightarrow> None
           | Some (s1, e4, w4) \<Rightarrow> if s1 \<noteq> SUCCESS then Some (False, e4, w4)
               else (case setupBuffers A L e4 w4 of None \<Rightarrow> None | Some (s2, e5, w5) \<Rightarrow> Some (s2 = SUCCESS, e5, w5)))"
      using cqr by (simp add: open_queues_def Let_def c Some pdr e1_def e2_def e3_def)
    show ?thesis
    proof (cases "q = None \<or> p = None")
      case True
      then show ?thesis using run go h2 h3 link by (auto split: if_splits)
    next
      case False
      with run go obtain s1 e4 w4 where q4: "setupQPs A e3 w3 = Some (s1, e4, w4)" by (auto split: option.splits)
      have "qps e3 = []" by (simp add: e1_def e2_def e3_def none)
      from setupQPs_held [OF q4 h3 this] obtain xs a where
        h4: "holds S e4 (objs w4)" "e4 = e3\<lparr> qps := xs, local_metadata_attr := a \<rparr>" by blast
      have l4: "same_link e e4" by (simp add: h4(2) same_link_def e1_def e2_def e3_def)
      have m4: "local_metadata_mr e4 = None" "remote_metadata_mr e4 = None" "buffer_mr e4 = None"
        "uhm_buffer_state_mr e4 = None" by (simp_all add: h4(2) e1_def e2_def e3_def none)
      show ?thesis
      proof (cases "s1 = SUCCESS")
        case True
        with run go False q4 obtain s2 where b: "setupBuffers A L e4 w4 = Some (s2, e', w')"
          by (auto split: option.splits)
        show ?thesis using setupBuffers_held [OF b h4(1) m4] l4 by (simp add: same_link_def)
      next
        case False
        then show ?thesis using run go q4 h4(1) l4 \<open>\<not> (q = None \<or> p = None)\<close> by auto
      qed
    qed
  qed
qed

lemma objs_qp_to_rts: "objs (snd (qp_to_rts A mtu e i q w)) = objs w"
  by (simp add: qp_to_rts_def split_beta objs_modify_qp)

lemma objs_extra_to_rts: "extra_to_rts A mtu e is w = Some (s, w') \<Longrightarrow> objs w' = objs w"
proof (induction "is" arbitrary: w)
  case (Cons i "is")
  show ?case
  proof (cases "qps e ! i")
    case (Some q)
    obtain ok w1 where q: "qp_to_rts A mtu e i q w = (ok, w1)" by (metis surj_pair)
    then have "objs w1 = objs w" using objs_qp_to_rts [of mtu e i q w] by simp
    then show ?thesis using Cons.prems Cons.IH [of w1] Some q by (auto split: if_splits)
  qed (use Cons in \<open>auto split: if_splits\<close>)
qed simp

lemma objs_transition:
  assumes "transitionExtraQPsToRTS A env e w = Some (s, w')"
  shows "objs w' = objs w"
proof (cases "num_qps e \<le> 1 \<or> pd e = None")
  case True
  then show ?thesis
    using assms by (auto simp: transitionExtraQPsToRTS_def Let_def dest: objs_extra_to_rts split: if_splits)
next
  case False
  then obtain p where p: "pd e = Some p" "\<not> num_qps e \<le> 1" by auto
  obtain rc active w1 where "ibv_query_port A p (port_num e) w = ((rc, active), w1)" by (metis surj_pair)
  moreover from this have "objs w1 = objs w" using objs_query_port [of p "port_num e" w] by simp
  ultimately show ?thesis
    using assms p by (auto simp: transitionExtraQPsToRTS_def Let_def dest!: objs_extra_to_rts)
qed

lemma closeEndpoint_objs:
  assumes "holds S e (objs w)" and "quiet S e"
  shows "objs (snd (closeEndpoint A e w)) = objs w"
proof -
  obtain r w1 where d: "rdma_disconnect A (cm_id e) w = (r, w1)" by (metis surj_pair)
  then have o: "objs w1 = objs w" using objs_disconnect [of "cm_id e" w] by simp
  obtain ev w2 where g: "rdma_get_cm_event A (cm_event_channel e) w1 = (ev, w2)" by (metis surj_pair)
  have "objs w2 = objs w" using quiet_event [OF _ assms(2) g] assms(1) o by simp
  then show ?thesis using d g o by (simp add: closeEndpoint_def split: option.splits)
qed

lemma delete_releases:
  assumes "holds S e (objs w)" and "quiet S e"
  shows "objs (delete_RDMAEndpoint A e w) = S"
  using closeEndpoint_objs [OF assms] clean_releases assms(1) by (simp add: delete_RDMAEndpoint_def Let_def)

end

context rdma_host
begin

lemma objs_sendAll [simp]: "objs (snd (sendAll sk fd bs w)) = objs w"
  by (rule sendAll_keeps [where P = "\<lambda>v. objs v = objs w"]) (simp_all add: objs_send)

lemma objs_recvAll [simp]: "objs (snd (recvAll sk fd n w)) = objs w"
  by (rule recvAll_keeps [where P = "\<lambda>v. objs v = objs w"]) (simp_all add: objs_recv)

lemma objs_shut [simp]: "objs (shut sk fd w) = objs w"
  by (simp add: shut_def objs_close objs_shutdown)

lemma objs_sendMsg [simp]: "objs (snd (sendMsg sk fd ty p fl w)) = objs w"
  by (simp add: sendMsg_def split_beta)

lemma recvAll_eqD: "recvAll sk fd n w = (r, w') \<Longrightarrow> objs w' = objs w"
  by (metis objs_recvAll snd_conv)

lemma objs_recvMsg [simp]: "objs (snd (recvMsg sk fd w)) = objs w"
proof -
  obtain r1 w1 where a: "recvAll sk fd 8 w = (r1, w1)" by (metis surj_pair)
  then have o: "objs w1 = objs w" by (rule recvAll_eqD)
  show ?thesis
  proof (cases r1)
    case (Some hb)
    obtain r2 w2 where b: "recvAll sk fd (unat (h_length (header_of hb))) w1 = (r2, w2)" by (metis surj_pair)
    then have "objs w2 = objs w1" by (rule recvAll_eqD)
    then show ?thesis using a b o Some by (cases r2) (simp_all add: recvMsg_def)
  qed (simp add: recvMsg_def a o)
qed

lemma recv_attr_eqD:
  assumes "recv_attr sk fd w = (r, w')"
  shows "objs w' = objs w"
proof -
  obtain r1 w1 where m: "recvMsg sk fd w = (r1, w1)" by (metis surj_pair)
  then have "objs w1 = objs w" using objs_recvMsg [of fd w] by simp
  then show ?thesis using assms m by (cases r1) (auto simp: recv_attr_def)
qed

lemma objs_dialOnce [simp]: "objs (snd (dialOnce sk ip port w)) = objs w"
  by (simp add: dialOnce_def split_beta objs_socket objs_close objs_sock_connect)

lemma objs_meta_send [simp]: "objs (snd (client_meta_send sk g e fd w)) = objs w"
  by (simp add: client_meta_send_def split_beta)

lemma meta_recv_frame:
  "objs (snd (snd (client_meta_recv sk e fd w))) = objs w
    \<and> held (fst (snd (client_meta_recv sk e fd w))) = held e
    \<and> cm_event_channel (fst (snd (client_meta_recv sk e fd w))) = cm_event_channel e"
proof -
  obtain r1 w1 where a: "recvAll sk fd 10 w = (r1, w1)" by (metis surj_pair)
  then have o: "objs w1 = objs w" by (rule recvAll_eqD)
  obtain r2 w2 where b: "recv_attr sk fd w1 = (r2, w2)" by (metis surj_pair)
  then have "objs w2 = objs w1" by (rule recv_attr_eqD)
  then show ?thesis
    using o by (cases r1; cases r2) (simp_all add: client_meta_recv_def a b)
qed

lemma exchange_frame:
  assumes "client_exchangeMetaData sk g ip port e w = (s, e', w')"
  shows "objs w' = objs w \<and> held e' = held e \<and> cm_event_channel e' = cm_event_channel e"
proof -
  obtain fd w1 where d: "dialOnce sk ip (port + 10000) w = (fd, w1)" by (metis surj_pair)
  obtain ok w2 where m: "client_meta_send sk g e fd w1 = (ok, w2)" by (metis surj_pair)
  have "objs w1 = objs w" "objs w2 = objs w1"
    using objs_dialOnce [of ip "port + 10000" w] objs_meta_send [of g e fd w1] d m by simp_all
  then show ?thesis
    using assms d m meta_recv_frame [of e fd w2]
    by (cases "fd < 0"; cases ok) (simp_all add: client_exchangeMetaData_def)
qed

text \<open>An attempt that does not connect leaves an endpoint that holds what was made so far; its status
  is not SUCCESS, so the destructor will not disconnect.\<close>

lemma client_attempt_held:
  assumes run: "client_attempt A sk L env g ip port e w = Some (r, e', w')"
    and b: "blank e" and h: "holds S e (objs w)"
  shows "holds S e' (objs w') \<and> quiet S e'"
proof -
  obtain r1 e1 w1 where a1: "client_resolve A ip port e w = (r1, e1, w1)" by (metis surj_pair)
  from client_resolve_held [OF a1 b h] obtain ch i where
    h1: "holds S e1 (objs w1)" "quiet S e1" "e1 = e\<lparr> cm_event_channel := ch, cm_id := i \<rparr>" by blast
  show ?thesis
  proof (cases "r1 = Connected")
    case False
    then show ?thesis using run a1 h1 by (auto simp: client_attempt_def)
  next
    case True
    with run a1 obtain ok e2 w2 where q: "open_queues A L (the (cm_id e1)) e1 w1 = Some (ok, e2, w2)"
      by (auto simp: client_attempt_def split: option.splits)
    have h2: "holds S e2 (objs w2)" "same_link e1 e2"
      using open_queues_held [OF q h1(1)] blank_fields [OF b] h1(3) by simp_all
    have q2: "quiet S e2" using quiet_link h2(2) h1(2) by blast
    obtain rc w3 where c: "rdma_connect A (the (cm_id e2)) (be_bytes 8 (conn_id e2)) w2 = (rc, w3)"
      by (metis surj_pair)
    then have o3: "objs w3 = objs w2" using objs_connect [of "the (cm_id e2)" "be_bytes 8 (conn_id e2)" w2] by simp
    obtain ok2 w4 where aw: "await_cm A e2 ESTABLISHED w3 = (ok2, w4)" by (metis surj_pair)
    have o4: "objs w4 = objs w2" using quiet_await [OF _ q2 aw] h2(1) o3 by simp
    obtain s e3 w5 where ex: "client_exchangeMetaData sk g ip port e2 w4 = (s, e3, w5)" by (metis surj_pair)
    note fr = exchange_frame [OF ex]
    have h3: "holds S e3 (objs w5)" "quiet S e3" using fr h2(1) q2 o4 by (simp_all add: quiet_def holds_def)
    show ?thesis
    proof (cases "\<not> ok \<or> rc \<noteq> 0 \<or> \<not> ok2 \<or> s \<noteq> SUCCESS")
      case True
      then show ?thesis
        using run a1 q c aw ex \<open>r1 = Connected\<close> h2(1) q2 o3 o4 h3
        by (auto simp: client_attempt_def split: if_splits)
    next
      case False
      with run a1 q c aw ex \<open>r1 = Connected\<close> obtain s6 where
        "transitionExtraQPsToRTS A env e3 w5 = Some (s6, w')" "e' = e3\<lparr> connStatus := SUCCESS \<rparr>"
        by (auto simp: client_attempt_def split: option.splits)
      then show ?thesis using objs_transition h3 by (fastforce simp: quiet_def)
    qed
  qed
qed

lemma client_loop_balanced:
  assumes "client_loop n A sk L env ex g ip port e w = Some (r, w')" and "blank e" and "holds S e (objs w)"
  shows "case r of None \<Rightarrow> objs w' = S | Some e' \<Rightarrow> holds S e' (objs w') \<and> quiet S e'"
  using assms
proof (induction n arbitrary: e w)
  case 0
  have "quiet S e" using blank_fields [OF 0(2)] by (simp add: quiet_def)
  then show ?case using 0 delete_releases by auto
next
  case (Suc n)
  from Suc.prems(1) obtain a e1 w1 where at: "client_attempt A sk L env g ip port e w = Some (a, e1, w1)"
    by (auto split: option.splits)
  note h1 = client_attempt_held [OF at Suc.prems(2,3)]
  obtain e2 w2 where cl: "cleanRdmaResources A e1 w1 = (e2, w2)" by (metis surj_pair)
  have b2: "blank e2" using blank_clean [of A e1 w1] cl by simp
  then have h2: "holds S e2 (objs w2)" "quiet S e2"
    using clean_releases [OF conjunct1 [OF h1]] cl by (auto simp: blank_def quiet_def blank_fields [OF b2])
  show ?case
  proof (cases a)
    case Connected
    then show ?thesis using Suc.prems(1) at h1 by auto
  next
    case Failed
    then show ?thesis using Suc.prems(1) at h1 delete_releases by auto
  next
    case Retry
    then show ?thesis
      using Suc.prems(1) at cl Suc.IH [of e2 w2, OF _ b2 h2(1)] h2 delete_releases by (auto split: if_splits)
  qed
qed

end

section \<open>Balance of a connect\<close>


section \<open>A reference host\<close>

text \<open>The reference world of the verbs objects next to the network of \<open>Hmc_CtrlStream\<close>.\<close>

record host = rdma_world +
  h_net :: net

definition on_net :: "(net \<Rightarrow> 'r \<times> net) \<Rightarrow> host \<Rightarrow> 'r \<times> host" where
  "on_net f w = (case f (h_net w) of (r, n) \<Rightarrow> (r, w\<lparr> h_net := n \<rparr>))"

definition host_sockets :: "nat \<Rightarrow> host sockets" where
  "host_sockets p = \<lparr> sys_socket = (\<lambda>d. on_net (net_socket p d)), inet_pton_ok = (\<lambda>s. s \<noteq> []),
     sys_bind = (\<lambda>fd a. on_net (net_bind p fd a)), sys_listen = (\<lambda>fd w. (0, w)),
     sys_accept = (\<lambda>fd. on_net (net_accept p fd)), sys_connect = (\<lambda>fd a. on_net (net_connect p fd a)),
     sys_send = (\<lambda>fd bs. on_net (net_send p fd bs)), sys_recv = (\<lambda>fd n. on_net (net_recv p fd n)),
     sys_shutdown = (\<lambda>fd w. w), sys_close = (\<lambda>fd w. w\<lparr> h_net := net_close p fd (h_net w) \<rparr>),
     sys_unlink = (\<lambda>path w. w) \<rparr>"

lemma on_net_objs [simp]: "rw_objs (snd (on_net f w)) = rw_objs w"
  by (simp add: on_net_def split: prod.splits)

interpretation rw_host: rdma_host rw_api "\<lambda>w. set (rw_objs w)" "host_sockets p" "\<lambda>w. (9, w)" for p
  by unfold_locales (simp_all add: host_sockets_def)

definition demo_layout :: layout where
  "demo_layout = \<lparr> local_attr_addr = 256, remote_attr_addr = 512, uhm_state_addr = 768 \<rparr>"

text \<open>Connecting where a third-party object exists already; what the peer answers is given by the
  number of bytes asked for.\<close>

definition demo_world :: "nat \<Rightarrow> rdma_world" where
  "demo_world budget = \<lparr> rw_objs = [Chan 1], rw_budget = budget,
     rw_events = [ADDR_RESOLVED, ROUTE_RESOLVED, ESTABLISHED] \<rparr>"

definition demo_peer_attr :: rdma_buffer_attr where
  "demo_peer_attr = empty_attr\<lparr> ra_address := 8192, ra_length := 64, ra_key := 5 \<rparr>"

definition demo_answer :: "nat \<Rightarrow> u8 list" where
  "demo_answer n = (if n = 10 then hello_bytes \<lparr> hello_conn_id = 9, hello_port = 8000 \<rparr>
     else if n = 8 then header_bytes (msg_header (attr_msg demo_peer_attr)) else attr_bytes demo_peer_attr)"

definition demo_sockets :: "rdma_world sockets" where
  "demo_sockets = \<lparr> sys_socket = (\<lambda>d w. (3, w)), inet_pton_ok = (\<lambda>s. s \<noteq> []),
     sys_bind = (\<lambda>fd a w. (0, w)), sys_listen = (\<lambda>fd w. (0, w)), sys_accept = (\<lambda>fd w. (4, w)),
     sys_connect = (\<lambda>fd a w. (0, w)), sys_send = (\<lambda>fd bs w. (int (length bs), w)),
     sys_recv = (\<lambda>fd n w. ((int n, demo_answer n), w)), sys_shutdown = (\<lambda>fd w. w),
     sys_close = (\<lambda>fd w. w), sys_unlink = (\<lambda>path w. w) \<rparr>"

interpretation rw_demo: rdma_host rw_api "\<lambda>w. set (rw_objs w)" demo_sockets "\<lambda>w. (9, w)"
  by unfold_locales (simp_all add: demo_sockets_def)

lemma demo_sendAll [simp]: "sendAll demo_sockets fd bs w = (True, w)"
  by (subst sendAll.simps) (simp add: demo_sockets_def sendAll.simps [of _ _ "[]"])

lemma demo_recvAll: "0 < n \<Longrightarrow> recvAll demo_sockets fd n w = (Some (demo_answer n), w)"
  by (subst recvAll.simps) (simp add: demo_sockets_def recvAll.simps [of _ _ 0])

lemma demo_exchange:
  assumes "conn_id e = 9"
  shows "client_exchangeMetaData demo_sockets g ''10.0.0.1'' port e w
    = (SUCCESS, e\<lparr> remote_metadata_attr := demo_peer_attr \<rparr>, w)"
proof -
  have ok: "attr_ok demo_peer_attr" by (simp add: attr_ok_def demo_peer_attr_def empty_attr_def)
  have "recv_attr demo_sockets 3 w = (Some demo_peer_attr, w)"
    by (rule recv_attr_of_msg [OF _ _ ok])
      (simp_all add: demo_recvAll sizeof_rdma_buffer_attr_def MAX_QPS_def demo_answer_def)
  moreover have "recvAll demo_sockets 3 10 w = (Some (hello_bytes \<lparr> hello_conn_id = 9, hello_port = 8000 \<rparr>), w)"
    by (simp add: demo_recvAll demo_answer_def)
  moreover have "dialOnce demo_sockets ''10.0.0.1'' (port + 10000) w = (3, w)"
    by (simp add: dialOnce_def demo_sockets_def)
  moreover have "shut demo_sockets 3 w = w" by (simp add: shut_def demo_sockets_def)
  ultimately show ?thesis
    using assms by (simp add: client_exchangeMetaData_def client_meta_send_def sendMsg_def client_meta_recv_def
        attr_valid_def demo_peer_attr_def)
qed

definition demo_connect :: "nat \<Rightarrow> (RDMAConn option \<times> rdma_world) option" where
  "demo_connect budget = client_connect rw_api demo_sockets demo_layout (\<lambda>_. None) (\<lambda>w. (9, w)) (\<lambda>w. False)
     7000 demo_buffer 1 1 ''10.0.0.1'' 7000 (demo_world budget)"

lemmas demo_connect_defs = demo_connect_def client_connect_def genConnId64_def client_attempt_def
  client_resolve_def Let_def rw_api_def rw_make_def await_cm_def rw_event_def demo_world_def open_queues_def
  setupQPs_def resize_def record_qp_nums_def setupBuffers_def registerMemory_def demo_layout_def rw_mr_def
  new_RDMAConn_def new_RDMAEndpoint_def RDMAEndpoint.defs transitionExtraQPsToRTS_def MAX_QPS_def
  demo_buffer_def gid_attr_def state_attr_def buffer_attr_def rw_fresh_def

lemma demo_connects: "\<exists>e w. demo_connect 20 = Some (Some e, w)"
proof -
  have "inet_pton_ok demo_sockets ''10.0.0.1''" by (simp add: demo_sockets_def)
  then show ?thesis by (simp add: demo_exchange demo_connect_defs)
qed


section \<open>The server's side\<close>


context rdma_objects
begin

lemma server_endpoint_held:
  assumes "Id i \<in> objs w"
    and run: "open_queues A L i ((new_RDMAConn env b nq Server)\<lparr> cm_id := Some i, conn_id := c \<rparr>) w
      = Some (ok, e, w')"
  shows "holds (objs w - {Id i}) e (objs w') \<and> cm_event_channel e = None \<and> Id i \<in> set (held e)"
proof -
  let ?e = "(new_RDMAConn env b nq Server)\<lparr> cm_id := Some i, conn_id := c \<rparr>"
  note none = blank_fields [OF blank_new [of c env b nq Server]]
  have "held ?e = [Id i]" by (simp add: new_RDMAConn_def new_RDMAEndpoint_def Let_def RDMAEndpoint.defs held_unfold)
  then have "holds (objs w - {Id i}) ?e (objs w)" using assms(1) by (auto simp: holds_def)
  from open_queues_held [OF run this] none show ?thesis by (simp add: same_link_def held_unfold)
qed

lemma delete_server:
  assumes "holds S e (objs w)" and "cm_event_channel e = None"
  shows "objs (delete_RDMAEndpoint A e w) = S"
  using delete_releases [OF assms(1)] assms(2) by (simp add: quiet_def)

end

text \<open>The server's side of a connection is balanced up to the event it takes from the channel: it
  takes over the identifier of the request, and when it fails that identifier and all it created are
  destroyed; an identifier that came with the event taken is left behind.\<close>

lemma handleConnection_balanced:
  assumes "rdma_objects A objs" and "Id i \<in> objs w" and "handleConnection A L env srv i c w = Some (r, w')"
  shows "case r of
      None \<Rightarrow> \<exists>ev. objs w' = (objs w - {Id i}) \<union> incoming ev
    | Some e \<Rightarrow> holds (objs w - {Id i}) e (objs w') \<and> objs (delete_RDMAEndpoint A e w') = objs w - {Id i}"
proof -
  note o = assms(1)
  let ?S = "objs w - {Id i}"
  let ?e = "(new_RDMAConn env (srv_buffer srv) (srv_num_qps srv) Server)\<lparr> cm_id := Some i, conn_id := c \<rparr>"
  from assms(3) obtain ok e1 w1 where q: "open_queues A L i ?e w = Some (ok, e1, w1)"
    by (auto simp: handleConnection_def Let_def split: option.splits)
  note h1 = rdma_objects.server_endpoint_held [OF o assms(2) q]
  obtain rc w2 where a: "rdma_accept A i w1 = (rc, w2)" by (metis surj_pair)
  then have o2: "objs w2 = objs w1" using rdma_objects.objs_accept [OF o, of i w1] by simp
  obtain ev w3 where g: "rdma_get_cm_event A (srv_event_channel srv) w2 = (ev, w3)" by (metis surj_pair)
  note inc = rdma_objects.objs_event [OF o g]
  have h3: "holds (?S \<union> incoming ev) e1 (objs w3)" using h1 inc o2 by (auto simp: holds_def)
  note del = rdma_objects.delete_server [OF o]
  have d1: "objs (delete_RDMAEndpoint A e1 w1) = ?S" using del h1 by blast
  have d2: "objs (delete_RDMAEndpoint A e1 w2) = ?S" using del h1 o2 by metis
  have d3: "objs (delete_RDMAEndpoint A e1 w3) = ?S \<union> incoming ev" using del h3 h1 by blast
  show ?thesis
  proof (cases "ok \<and> rc = 0 \<and> ev = Some ESTABLISHED")
    case True
    then have "r = Some (e1\<lparr> connStatus := SUCCESS \<rparr>)" "w' = w3"
      using assms(3) q a g by (auto simp: handleConnection_def Let_def)
    moreover have "holds ?S (e1\<lparr> connStatus := SUCCESS \<rparr>) (objs w3)" using h3 True by (simp add: incoming_def)
    ultimately show ?thesis using del h1 by simp
  next
    case False
    then have "r = None" "w' \<in> {delete_RDMAEndpoint A e1 w1, delete_RDMAEndpoint A e1 w2, delete_RDMAEndpoint A e1 w3}"
      using assms(3) q a g by (auto simp: handleConnection_def Let_def split: if_splits)
    moreover have "?S = ?S \<union> incoming None" by (simp add: incoming_def)
    ultimately show ?thesis using d1 d2 d3 by auto
  qed
qed

text \<open>The server loses a client that calls while another is being accepted.  After it has accepted,
  \<open>handleConnection\<close> takes the next event of the one channel of the server whatever it is; when that
  is the connection request of another client, both fail: the endpoint of the first is destroyed
  with its identifier, the request of the second is neither served nor rejected, and the second's
  identifier stays live with no owner.\<close>

theorem second_request_lost:
  assumes "rdma_objects A objs" and "Id i \<in> objs w"
    and "open_queues A L i ((new_RDMAConn env (srv_buffer srv) (srv_num_qps srv) Server)
      \<lparr> cm_id := Some i, conn_id := c \<rparr>) w = Some (True, e, w1)"
    and "rdma_accept A i w1 = (0, w2)"
    and "rdma_get_cm_event A (srv_event_channel srv) w2 = (Some (CONNECT_REQUEST j pdata), w3)"
  shows "\<exists>w'. handleConnection A L env srv i c w = Some (None, w')
    \<and> objs w' = insert (Id j) (objs w - {Id i}) \<and> Id j \<notin> objs w"
proof -
  note o = assms(1)
  have run: "handleConnection A L env srv i c w = Some (None, delete_RDMAEndpoint A e w3)"
    using assms(3-5) by (simp add: handleConnection_def)
  note h = rdma_objects.server_endpoint_held [OF o assms(2,3)]
  note inc = rdma_objects.objs_event [OF o assms(5)]
  have o2: "objs w2 = objs w1" using rdma_objects.objs_accept [OF o, of i w1] assms(4) by simp
  have h3: "holds (insert (Id j) (objs w - {Id i})) e (objs w3)"
    using h inc o2 by (auto simp: holds_def incoming_def)
  have "Id j \<notin> objs w"
    using h inc o2 assms(2) by (auto simp: holds_def incoming_def)
  then show ?thesis using run rdma_objects.delete_server [OF o h3] h by simp
qed

definition demo_server :: RDMAServer where
  "demo_server = (new_RDMAServer demo_buffer 1)\<lparr> srv_event_channel := Some 1 \<rparr>"

definition demo_busy :: rdma_world where
  "demo_busy = \<lparr> rw_objs = [Id 5, Chan 1, Listen 1], rw_budget = 20, rw_events = [CONNECT_REQUEST 0 []] \<rparr>"

lemma demo_busy_opens:
  "\<exists>e w. open_queues rw_api demo_layout 5 ((new_RDMAConn (\<lambda>_. None) (srv_buffer demo_server)
       (srv_num_qps demo_server) Server)\<lparr> cm_id := Some 5, conn_id := 9 \<rparr>) demo_busy = Some (True, e, w)
     \<and> rw_events w = [CONNECT_REQUEST 0 []] \<and> Listen 1 \<in> set (rw_objs w)"
  by (simp add: demo_connect_defs demo_busy_def demo_server_def new_RDMAServer_def)

theorem second_request_lost_witness:
  "\<exists>j w. handleConnection rw_api demo_layout (\<lambda>_. None) demo_server 5 9 demo_busy = Some (None, w)
    \<and> set (rw_objs w) = {Id j, Chan 1, Listen 1}"
proof -
  obtain e w where run: "open_queues rw_api demo_layout 5 ((new_RDMAConn (\<lambda>_. None) (srv_buffer demo_server)
       (srv_num_qps demo_server) Server)\<lparr> cm_id := Some 5, conn_id := 9 \<rparr>) demo_busy = Some (True, e, w)"
    and ev: "rw_events w = [CONNECT_REQUEST 0 []]" "Listen 1 \<in> set (rw_objs w)"
    using demo_busy_opens by blast
  have acc: "rdma_accept rw_api 5 w = (0, w)" by (simp add: rw_api_def)
  have "rdma_get_cm_event rw_api (srv_event_channel demo_server) w = (Some (CONNECT_REQUEST (rw_fresh w) []),
      w\<lparr> rw_events := [], rw_objs := Id (rw_fresh w) # rw_objs w \<rparr>)"
    using ev by (simp add: rw_api_def rw_event_def demo_server_def Let_def)
  from second_request_lost [OF rw.rdma_objects_axioms _ run acc this]
  show ?thesis by (auto simp: demo_busy_def)
qed

section \<open>The number of queue pairs\<close>

text \<open>C33: \<open>setupQPs\<close> is defined for exactly 1 to \<open>MAX_QPS\<close> queue pairs: for these it returns, and it
  never succeeds for another number, for which it writes outside its arrays once the queue pairs can
  be created.  After a success every queue pair exists and the local metadata lists their numbers.\<close>

theorem setupQPs_bounds:
  "(num_qps e \<noteq> 0 \<longrightarrow> unat (num_qps e) \<le> MAX_QPS \<longrightarrow> setupQPs A e w \<noteq> None)
   \<and> (setupQPs A e w = Some (SUCCESS, e', w') \<longrightarrow>
        num_qps e \<noteq> 0 \<and> unat (num_qps e) \<le> MAX_QPS \<and> length (qps e') = unat (num_qps e) \<and> None \<notin> set (qps e')
        \<and> take (unat (num_qps e)) (ra_qp_num_list (local_metadata_attr e')) = map (\<lambda>q. qp_num A (the q)) (qps e'))"
proof (cases "pd e = None \<or> cq e = None \<or> cm_id e = None")
  case True
  then show ?thesis by (auto simp: setupQPs_def split: option.splits)
next
  case False
  then obtain p c i where pci: "pd e = Some p" "cq e = Some c" "cm_id e = Some i" by auto
  let ?n = "unat (num_qps e)"
  obtain q w2 where q: "rdma_create_qp A i p c (max_wr e) (max_sge e) w = (q, w2)" by (metis surj_pair)
  show ?thesis
  proof (cases "q = None \<or> num_qps e = 0")
    case True
    then show ?thesis using pci q by (cases q) (simp_all add: setupQPs_def Let_def)
  next
    case False
    then obtain h where h: "q = Some h" and n: "num_qps e \<noteq> 0" by auto
    let ?primary = "e\<lparr> qps := (resize ?n (qps e))[0 := Some h] \<rparr>"
    obtain ok e2 w3 where x: "create_extra_qps A p c [1 ..< ?n] ?primary w2 = (ok, e2, w3)" by (metis surj_pair)
    have len: "length (resize ?n (qps e)) = ?n" by (simp add: resize_def)
    have ex: "length (qps e2) = ?n" "num_qps e2 = num_qps e"
      "ok \<Longrightarrow> \<forall>j \<in> {1 ..< ?n}. qps e2 ! j \<noteq> None" "0 < ?n \<Longrightarrow> qps e2 ! 0 = Some h"
      using extra_qps_created [OF x] len by auto
    have all: "None \<notin> set (qps e2)" if ok
    proof
      assume "None \<in> set (qps e2)"
      then obtain j where "j < ?n" "qps e2 ! j = None" using ex(1) by (auto simp: in_set_conv_nth)
      then show False using ex(3) [OF that] ex(4) by (cases "j = 0") auto
    qed
    have run: "setupQPs A e w = (if \<not> ok then Some (ERROR, e2, w3)
        else (case record_qp_nums A e2 of None \<Rightarrow> None | Some e3 \<Rightarrow> Some (SUCCESS, e3, w3)))"
      using pci q h n x by (simp add: setupQPs_def Let_def)
    show ?thesis using run all ex n by (auto simp: record_qp_nums_def Let_def split: if_splits)
  qed
qed

definition demo_ready :: RDMAConn where
  "demo_ready = (new_RDMAConn (\<lambda>_. None) demo_buffer 2 Client)\<lparr> pd := Some 2, cq := Some 3, cm_id := Some 4 \<rparr>"

lemma demo_ready_runs: "\<exists>e w. setupQPs rw_api demo_ready (demo_world 20) = Some (SUCCESS, e, w)"
proof -
  have "[Suc 0 ..< 2] = [Suc 0]" by (simp add: upt_conv_Cons)
  moreover have "replicate 2 (None :: qp option) = [None, None]" by (simp add: numeral_2_eq_2)
  ultimately show ?thesis by (simp add: demo_connect_defs demo_ready_def)
qed

theorem setupQPs_bounds_witness:
  "\<exists>e w. setupQPs rw_api demo_ready (demo_world 20) = Some (SUCCESS, e, w) \<and> length (qps e) = 2 \<and> None \<notin> set (qps e)"
proof -
  obtain e w where run: "setupQPs rw_api demo_ready (demo_world 20) = Some (SUCCESS, e, w)"
    using demo_ready_runs by blast
  have "num_qps demo_ready = 2" by (simp add: demo_ready_def new_RDMAConn_def new_RDMAEndpoint_def Let_def RDMAEndpoint.defs)
  with run setupQPs_bounds [of demo_ready rw_api "demo_world 20" e w] show ?thesis by simp
qed

end
