(* ===== verification/Hmc_UcxProps.thy ===== *)
theory Hmc_UcxProps
  imports Hmc_Ucx
begin

text \<open>
  Properties of the UCX transport.  The handshake is examined on a reference world of tag matching:
  each worker has one queue of arrived messages and one list of posted receives, and a receive takes
  the oldest message whose tag agrees under its mask, whichever endpoint it came over, as the UCP
  library documents it.
\<close>

section \<open>Receiving\<close>

lemma tagRecv_immediate:
  assumes "ucp_tag_recv_nbx U (the (uc_worker c)) cap (make_tag kData ch sn) (recv_mask sn) w = ((PtrNull, bs), w1)"
    and "0 < cap"
  shows "tagRecv U c True cap ch sn w = Some ((SUCCESS, 0, bs), w1)"
  using assms by (simp add: tagRecv_def tagRecvAsync_def ucs_to_status_def new_UcxRequest_def)

text \<open>The server turns a client away whose header came early.  When the library completes the
  receive of the header at once, its callback does not run, \<open>tagRecv\<close> reports success with length 0,
  and the handshake fails although the buffer holds the right message.\<close>

theorem ucx_early_header_fails:
  assumes "exportLocalMemInfo U c e no_mem_info w = ((SUCCESS, hdr, key), e0, w0)"
    and "ucp_tag_recv_nbx U (the (uc_worker c)) sizeof_mem_info (make_tag kData kHandshakeChannel kSeqHdr)
      kMaskAll w0 = ((PtrNull, mem_info_bytes h), w1)"
  shows "tagRecv U c True sizeof_mem_info kHandshakeChannel kSeqHdr w0 = Some ((SUCCESS, 0, mem_info_bytes h), w1)
    \<and> server_handshake U c e w = Some (None, e0, w1)"
proof -
  have "recv_mask kSeqHdr = kMaskAll" by (simp add: recv_mask_def kSeqHdr_def)
  then have r: "tagRecv U c True sizeof_mem_info kHandshakeChannel kSeqHdr w0 = Some ((SUCCESS, 0, mem_info_bytes h), w1)"
    using assms(2) by (intro tagRecv_immediate) (simp_all add: sizeof_mem_info_def)
  then show ?thesis using assms(1) by (simp add: server_handshake_def) (simp add: sizeof_mem_info_def)
qed

section \<open>Waiting for several requests\<close>

lemma sweep_finished:
  "ucp_request_check_status U r w \<noteq> UCS_INPROGRESS \<Longrightarrow> sweep U 0 [r] w = ([], ucp_request_free U r w)"
  by (simp add: sweep.simps [of U 0])

text \<open>Waiting for several requests hides their errors.  For a request that has failed \<open>waitWrId\<close>
  reports the failure, while \<open>waitWrIdMulti\<close> frees the request and reports success.\<close>

theorem ucx_multi_hides_errors:
  assumes "inflight_reqs e i = Some r" and "i \<noteq> 0"
    and "\<And>v. ucp_request_check_status U r v = UCS_ERR n"
  shows "\<exists>e' w' e'' w''. ucx_waitWrId U c i e w = Some (ERROR, e', w')
    \<and> ucx_waitWrIdMulti U c timeout [i] e w = Some (SUCCESS, e'', w'')"
proof -
  obtain t w1 where now: "ucx_now U w = (t, w1)" by (metis surj_pair)
  have "wait_rma U c r w = Some (UCS_ERR n, ucp_request_free U r w)"
    by (subst wait_rma.simps) (simp add: assms(3))
  moreover have "multi_loop U c t timeout [r] w1 = Some (SUCCESS, ucp_request_free U r (ucx_progress U c w1))"
    by (subst multi_loop.simps) (simp add: sweep_finished assms(3) multi_loop.simps [of _ _ _ _ "[]"])
  ultimately show ?thesis
    using assms(1,2) now by (simp add: ucx_waitWrId_def ucx_waitWrIdMulti_def ucs_to_status_def)
qed

text \<open>The contract of requests: freeing a live one ends it, nothing else in the loop does.\<close>

locale ucp_requests =
  fixes U :: "'w ucp_api"
    and live :: "'w \<Rightarrow> nat set"
  assumes free_live: "r \<in> live w \<Longrightarrow> live (ucp_request_free U r w) = live w - {r}"
    and progress_live: "live (ucp_worker_progress U k w) = live w"
    and now_live: "live (snd (ucx_now U w)) = live w"

lemma swap_remove:
  assumes "i < length rs" and "distinct rs"
  shows "set (butlast (rs[i := last rs])) = set rs - {rs ! i} \<and> distinct (butlast (rs[i := last rs]))"
proof -
  obtain ys x where rs: "rs = ys @ [x]" using assms(1) by (cases rs rule: rev_cases) auto
  show ?thesis
  proof (cases "i = length ys")
    case True
    then show ?thesis using assms(2) rs by auto
  next
    case False
    then have i: "i < length ys" using assms(1) rs by simp
    have "butlast (rs[i := last rs]) = ys[i := x]" using i rs by (simp add: list_update_append)
    moreover have "set (ys[i := x]) = insert x (set ys - {ys ! i})"
      using assms(2) rs i by (simp add: set_update_distinct)
    moreover have "distinct (ys[i := x])" using assms(2) rs by (simp add: distinct_list_update)
    ultimately show ?thesis using assms(2) rs i by (auto simp: nth_append)
  qed
qed

context ucp_requests
begin

lemma ucx_progress_live [simp]: "live (ucx_progress U c w) = live w"
  by (simp add: ucx_progress_def progress_live split: option.splits)

lemma sweep_accounts:
  assumes "sweep U i rs w = (rs', w')" and "distinct rs" and "set rs \<subseteq> live w"
  shows "distinct rs' \<and> set rs' \<subseteq> set rs \<and> live w' = live w - (set rs - set rs')"
  using assms
proof (induction "length rs - i" arbitrary: i rs w rule: less_induct)
  case less
  show ?case
  proof (cases "length rs \<le> i")
    case True
    then show ?thesis using less.prems by (simp add: sweep.simps [of U i])
  next
    case False
    then have i: "i < length rs" by simp
    show ?thesis
    proof (cases "ucp_request_check_status U (rs ! i) w = UCS_INPROGRESS")
      case True
      then have "sweep U (Suc i) rs w = (rs', w')" using less.prems(1) i by (simp add: sweep.simps [of U i])
      from less.hyps [OF _ this less.prems(2,3)] i show ?thesis by simp
    next
      case False
      let ?rs = "butlast (rs[i := last rs])" and ?w = "ucp_request_free U (rs ! i) w"
      have run: "sweep U i ?rs ?w = (rs', w')" using less.prems(1) i False by (simp add: sweep.simps [of U i])
      note rm = swap_remove [OF i less.prems(2)]
      have r: "rs ! i \<in> set rs" using i by simp
      then have lw: "live ?w = live w - {rs ! i}" using less.prems(3) by (intro free_live) auto
      have "length ?rs - i < length rs - i" using i by simp
      from less.hyps [OF this run] have
        "distinct rs' \<and> set rs' \<subseteq> set ?rs \<and> live w' = live ?w - (set ?rs - set rs')"
        using rm lw less.prems(3) by auto
      then show ?thesis using rm lw r by auto
    qed
  qed
qed

end

text \<open>The loop as a relation over its rounds.\<close>

inductive uw_run ::
  "'w ucp_api \<Rightarrow> UCXContext \<Rightarrow> int \<Rightarrow> int \<Rightarrow> nat list \<Rightarrow> 'w \<Rightarrow> status_t \<times> 'w \<Rightarrow> bool" for U c start timeout where
  uw_done: "uw_run U c start timeout [] w (SUCCESS, w)"
| uw_progress: "rs \<noteq> [] \<Longrightarrow> sweep U 0 rs (ucx_progress U c w) = (rs1, w1) \<Longrightarrow> length rs1 \<noteq> length rs \<Longrightarrow>
    uw_run U c start timeout rs1 w1 r \<Longrightarrow> uw_run U c start timeout rs w r"
| uw_timeout: "rs \<noteq> [] \<Longrightarrow> sweep U 0 rs (ucx_progress U c w) = (rs1, w1) \<Longrightarrow> length rs1 = length rs \<Longrightarrow>
    ucx_now U w1 = (now, w2) \<Longrightarrow> now - start > timeout \<Longrightarrow> uw_run U c start timeout rs w (TIMEOUT, w2)"
| uw_idle: "rs \<noteq> [] \<Longrightarrow> sweep U 0 rs (ucx_progress U c w) = (rs1, w1) \<Longrightarrow> length rs1 = length rs \<Longrightarrow>
    ucx_now U w1 = (now, w2) \<Longrightarrow> \<not> now - start > timeout \<Longrightarrow> uw_run U c start timeout rs1 w2 r \<Longrightarrow>
    uw_run U c start timeout rs w r"

lemma multi_loop_run: "multi_loop U c start timeout rs w = Some r \<Longrightarrow> uw_run U c start timeout rs w r"
  by (rule multi_loop.raw_induct [where P = uw_run, rotated])
    (auto intro: uw_run.intros split: prod.splits if_splits)

context ucp_requests
begin

lemma uw_run_accounts:
  assumes "uw_run U c start timeout rs w r" and "distinct rs" and "set rs \<subseteq> live w"
  shows "\<exists>rs'. set rs' \<subseteq> set rs \<and> live (snd r) = live w - (set rs - set rs')
    \<and> (fst r = SUCCESS \<and> rs' = [] \<or> fst r = TIMEOUT \<and> rs' \<noteq> [])"
  using assms
proof (induction rule: uw_run.induct)
  case (uw_done w)
  then show ?case by auto
next
  case (uw_progress rs w rs1 w1 r)
  have sw: "distinct rs1" "set rs1 \<subseteq> set rs" "live w1 = live w - (set rs - set rs1)"
    using sweep_accounts [OF uw_progress.hyps(2)] uw_progress.prems by simp_all
  then have "set rs1 \<subseteq> live w1" using uw_progress.prems by auto
  from uw_progress.IH [OF sw(1) this] obtain rs' where "set rs' \<subseteq> set rs1"
    "live (snd r) = live w1 - (set rs1 - set rs')" "fst r = SUCCESS \<and> rs' = [] \<or> fst r = TIMEOUT \<and> rs' \<noteq> []"
    by blast
  then show ?case using sw(2,3) by (intro exI [of _ rs']) auto
next
  case (uw_timeout rs w rs1 w1 now w2)
  have sw: "set rs1 \<subseteq> set rs" "live w1 = live w - (set rs - set rs1)"
    using sweep_accounts [OF uw_timeout.hyps(2)] uw_timeout.prems by simp_all
  have "live w2 = live w1" using now_live [of w1] uw_timeout.hyps(4) by simp
  then show ?case using sw uw_timeout.hyps(1,3) by (intro exI [of _ rs1]) auto
next
  case (uw_idle rs w rs1 w1 now w2 r)
  have sw: "distinct rs1" "set rs1 \<subseteq> set rs" "live w1 = live w - (set rs - set rs1)"
    using sweep_accounts [OF uw_idle.hyps(2)] uw_idle.prems by simp_all
  have l2: "live w2 = live w1" using now_live [of w1] uw_idle.hyps(4) by simp
  then have "set rs1 \<subseteq> live w2" using sw uw_idle.prems by auto
  from uw_idle.IH [OF sw(1) this] obtain rs' where "set rs' \<subseteq> set rs1"
    "live (snd r) = live w2 - (set rs1 - set rs')" "fst r = SUCCESS \<and> rs' = [] \<or> fst r = TIMEOUT \<and> rs' \<noteq> []"
    by blast
  then show ?case using sw(2,3) l2 by (intro exI [of _ rs']) auto
qed

end

text \<open>The requests an identifier list stands for.\<close>

definition requests_of :: "u64 list \<Rightarrow> (u64 \<rightharpoonup> nat) \<Rightarrow> nat set" where
  "requests_of wids f = {r. \<exists>i \<in> set wids. i \<noteq> 0 \<and> f i = Some r}"

definition one_id :: "(u64 \<rightharpoonup> nat) \<Rightarrow> bool" where
  "one_id f \<longleftrightarrow> (\<forall>i j r. f i = Some r \<longrightarrow> f j = Some r \<longrightarrow> i = j)"

lemma requests_of_Cons:
  assumes "i \<noteq> 0" and "f i = Some r"
  shows "requests_of (i # wids) f = insert r (requests_of wids (f(i := None)))"
proof -
  have a: "requests_of wids (f(i := None)) = {x. \<exists>j \<in> set wids. j \<noteq> 0 \<and> j \<noteq> i \<and> f j = Some x}"
    unfolding requests_of_def by (intro Collect_cong bex_cong refl) auto
  have b: "requests_of (i # wids) f = insert r {x. \<exists>j \<in> set wids. j \<noteq> 0 \<and> f j = Some x}"
    using assms unfolding requests_of_def by auto
  have c: "(\<exists>j \<in> set wids. j \<noteq> 0 \<and> f j = Some x) = (\<exists>j \<in> set wids. j \<noteq> 0 \<and> j \<noteq> i \<and> f j = Some x)"
    if "x \<noteq> r" for x
    using assms(2) that by (intro bex_cong refl) auto
  show ?thesis
  proof (rule set_eqI)
    fix x
    show "x \<in> requests_of (i # wids) f \<longleftrightarrow> x \<in> insert r (requests_of wids (f(i := None)))"
      unfolding a b using c [of x] by (cases "x = r") simp_all
  qed
qed

lemma take_inflight_some:
  assumes "take_inflight wids f = (Some rs, g)" and "one_id f"
  shows "set rs = requests_of wids f \<and> distinct rs \<and> g = (\<lambda>i. if i \<in> set wids \<and> i \<noteq> 0 then None else f i)"
  using assms
proof (induction wids arbitrary: f rs)
  case Nil
  then show ?case by (auto simp: requests_of_def)
next
  case (Cons i wids)
  show ?case
  proof (cases "i = 0")
    case True
    then have "take_inflight wids f = (Some rs, g)" using Cons.prems(1) by simp
    from Cons.IH [OF this Cons.prems(2)] True show ?thesis by (auto simp: requests_of_def)
  next
    case False
    from False Cons.prems(1) obtain r where r: "f i = Some r" by (auto split: option.splits)
    from False Cons.prems(1) r obtain rs1 where rs1: "take_inflight wids (f(i := None)) = (Some rs1, g)" "rs = r # rs1"
      by (auto split: prod.splits)
    have "one_id (f(i := None))" using Cons.prems(2) by (auto simp: one_id_def)
    note ih = Cons.IH [OF rs1(1) this]
    have "set rs1 = requests_of wids (f(i := None))" by (rule conjunct1 [OF ih])
    then have "set rs = requests_of (i # wids) f" using r rs1(2) False by (simp add: requests_of_Cons)
    moreover have "r \<notin> set rs1"
      using ih r Cons.prems(2) by (auto simp: requests_of_def one_id_def split: if_splits)
    ultimately show ?thesis using ih rs1(2) False by auto
  qed
qed

text \<open>C36: \<open>waitWrIdMulti\<close> of the UCX endpoint ends in one of three ways.  A success has freed each request
  of the identifiers once and dropped the identifiers.  A timeout leaves some requests live whose
  identifiers are gone all the same, so that no later call can wait for them or free them.  An error
  comes only of an identifier that is not in the table, and frees nothing.\<close>

theorem ucx_multi_outcome:
  assumes "ucp_requests U live" and "one_id (inflight_reqs e)"
    and "requests_of wids (inflight_reqs e) \<subseteq> live w"
    and "ucx_waitWrIdMulti U c timeout wids e w = Some (s, e', w')"
  shows "let reqs = requests_of wids (inflight_reqs e);
             dropped = (\<lambda>i. if i \<in> set wids \<and> i \<noteq> 0 then None else inflight_reqs e i)
         in s = SUCCESS \<and> live w' = live w - reqs \<and> inflight_reqs e' = dropped
          \<or> s = TIMEOUT \<and> (\<exists>R \<subseteq> reqs. R \<noteq> {} \<and> live w' = live w - (reqs - R)) \<and> inflight_reqs e' = dropped
          \<or> s = ERROR \<and> live w' = live w \<and> fst (take_inflight wids (inflight_reqs e)) = None"
proof -
  obtain rs f where t: "take_inflight wids (inflight_reqs e) = (rs, f)" by (metis surj_pair)
  show ?thesis
  proof (cases rs)
    case None
    then show ?thesis using assms(4) t by (auto simp: ucx_waitWrIdMulti_def Let_def split: if_splits)
  next
    case (Some qs)
    note tk = take_inflight_some [OF t [unfolded Some] assms(2)]
    show ?thesis
    proof (cases "qs = []")
      case True
      then show ?thesis using assms(4) t Some tk by (auto simp: ucx_waitWrIdMulti_def Let_def split: if_splits)
    next
      case False
      then have "wids \<noteq> []" using t Some by auto
      obtain t0 w1 where now: "ucx_now U w = (t0, w1)" by (metis surj_pair)
      have lw: "live w1 = live w" using ucp_requests.now_live [OF assms(1), of w] now by simp
      from assms(4) t Some False \<open>wids \<noteq> []\<close> now have
        ml: "multi_loop U c t0 timeout qs w1 = Some (s, w')" and e': "inflight_reqs e' = f"
        by (auto simp: ucx_waitWrIdMulti_def Let_def)
      have "set qs \<subseteq> live w1" using tk assms(3) lw by simp
      from ucp_requests.uw_run_accounts [OF assms(1) multi_loop_run [OF ml] _ this] tk obtain rs' where
        "set rs' \<subseteq> set qs" "live w' = live w - (set qs - set rs')"
        "s = SUCCESS \<and> rs' = [] \<or> s = TIMEOUT \<and> rs' \<noteq> []" using lw by auto
      then show ?thesis using tk e' by (auto simp: Let_def intro: exI [of _ "set rs'"])
    qed
  qed
qed

section \<open>A reference world of tag matching\<close>

record posted_recv =
  pr_req :: nat
  pr_tag :: u64
  pr_mask :: u64
  pr_cap :: nat

record tagnet =
  tn_arrived :: "nat \<Rightarrow> (u64 \<times> u8 list) list"
  tn_posted :: "nat \<Rightarrow> posted_recv list"
  tn_done :: "nat \<rightharpoonup> ucs_status_t \<times> u8 list"
  tn_next :: nat
  tn_live :: "nat list"
  tn_peer :: "nat \<Rightarrow> nat"
  tn_clock :: int
  tn_imm :: bool

text \<open>The oldest arrived message that a receive accepts.\<close>

primrec take_match :: "u64 \<Rightarrow> u64 \<Rightarrow> (u64 \<times> u8 list) list \<Rightarrow> (u8 list \<times> (u64 \<times> u8 list) list) option" where
  "take_match tag msk [] = None"
| "take_match tag msk (m # ms) =
    (if (fst m XOR tag) AND msk = 0 then Some (snd m, ms)
     else map_option (\<lambda>(bs, rest). (bs, m # rest)) (take_match tag msk ms))"

definition delivered :: "nat \<Rightarrow> u8 list \<Rightarrow> ucs_status_t \<times> u8 list" where
  "delivered cap bs = (if length bs \<le> cap then (UCS_OK, bs) else (UCS_ERR 10, []))"

primrec match_posted ::
  "posted_recv list \<Rightarrow> (u64 \<times> u8 list) list \<Rightarrow> (nat \<rightharpoonup> ucs_status_t \<times> u8 list)
     \<Rightarrow> posted_recv list \<times> (u64 \<times> u8 list) list \<times> (nat \<rightharpoonup> ucs_status_t \<times> u8 list)" where
  "match_posted [] ms d = ([], ms, d)"
| "match_posted (p # ps) ms d =
    (case take_match (pr_tag p) (pr_mask p) ms of
       None \<Rightarrow> (case match_posted ps ms d of (ps1, ms1, d1) \<Rightarrow> (p # ps1, ms1, d1))
     | Some (bs, rest) \<Rightarrow> match_posted ps rest (d(pr_req p \<mapsto> delivered (pr_cap p) bs)))"

definition tn_progress :: "nat \<Rightarrow> tagnet \<Rightarrow> tagnet" where
  "tn_progress k w =
    (case match_posted (tn_posted w k) (tn_arrived w k) (tn_done w) of (ps, ms, d) \<Rightarrow>
       w\<lparr> tn_posted := (tn_posted w)(k := ps), tn_arrived := (tn_arrived w)(k := ms), tn_done := d \<rparr>)"

definition tn_send :: "nat \<Rightarrow> u8 list \<Rightarrow> u64 \<Rightarrow> tagnet \<Rightarrow> ucs_status_ptr \<times> tagnet" where
  "tn_send ep bs tag w =
    (let k = tn_peer w ep in (PtrNull, w\<lparr> tn_arrived := (tn_arrived w)(k := tn_arrived w k @ [(tag, bs)]) \<rparr>))"

definition tn_recv :: "nat \<Rightarrow> nat \<Rightarrow> u64 \<Rightarrow> u64 \<Rightarrow> tagnet \<Rightarrow> (ucs_status_ptr \<times> u8 list) \<times> tagnet" where
  "tn_recv k cap tag msk w =
    (case (tn_imm w, take_match tag msk (tn_arrived w k)) of
       (True, Some (bs, rest)) \<Rightarrow> ((PtrNull, bs), w\<lparr> tn_arrived := (tn_arrived w)(k := rest) \<rparr>)
     | _ \<Rightarrow> ((PtrReq (tn_next w), []), w\<lparr> tn_posted := (tn_posted w)(k := tn_posted w k
           @ [\<lparr> pr_req = tn_next w, pr_tag = tag, pr_mask = msk, pr_cap = cap \<rparr>]),
         tn_next := Suc (tn_next w), tn_done := (tn_done w)(tn_next w := None), tn_live := tn_next w # tn_live w \<rparr>))"

definition tn_rma :: "tagnet \<Rightarrow> ucs_status_ptr \<times> tagnet" where
  "tn_rma w = (PtrReq (tn_next w), w\<lparr> tn_next := Suc (tn_next w), tn_live := tn_next w # tn_live w \<rparr>)"

definition tn_handle :: "tagnet \<Rightarrow> (ucs_status_t \<times> nat) \<times> tagnet" where
  "tn_handle w = ((UCS_OK, tn_next w), w\<lparr> tn_next := Suc (tn_next w) \<rparr>)"

definition tn_key :: "nat \<Rightarrow> u8 list" where
  "tn_key m = le_bytes 4 (of_nat m :: u32)"

definition tn_api :: "tagnet ucp_api" where
  "tn_api = \<lparr>
     ucp_config_read = (\<lambda>w. (UCS_OK, w)), ucp_init = tn_handle, ucp_cleanup = (\<lambda>x w. w),
     ucp_worker_create = (\<lambda>x. tn_handle), ucp_worker_destroy = (\<lambda>k w. w), ucp_worker_progress = tn_progress,
     ucp_worker_get_address = (\<lambda>k w. ((UCS_OK, [ucast (of_nat k :: u32)]), w)), inet_pton_v4 = (\<lambda>s. s \<noteq> []),
     ucp_listener_create = (\<lambda>k ip port. tn_handle), ucp_listener_destroy = (\<lambda>l w. w),
     ucp_conn_request_query = (\<lambda>cr w. ((UCS_OK, Inet4 (if cr = 1 then ''10.0.0.1'' else ''10.0.0.2'')), w)),
     ucp_ep_create = (\<lambda>k t. tn_handle), ucp_ep_close_nbx = (\<lambda>ep w. (PtrNull, w)),
     ucp_mem_map = (\<lambda>x a n. tn_handle), ucp_mem_unmap = (\<lambda>x m w. w),
     ucp_rkey_pack = (\<lambda>x m w. ((UCS_OK, tn_key m), w)),
     ucp_ep_rkey_unpack = (\<lambda>ep bs w. ((UCS_OK, unat (le_word bs :: u32)), w)), ucp_rkey_destroy = (\<lambda>k w. w),
     ucp_put_nbx = (\<lambda>ep a n d k. tn_rma), ucp_get_nbx = (\<lambda>ep a n d k. tn_rma),
     ucp_tag_send_nbx = tn_send, ucp_tag_recv_nbx = tn_recv,
     ucp_request_check_status = (\<lambda>r w. case tn_done w r of None \<Rightarrow> UCS_INPROGRESS | Some (st, bs) \<Rightarrow> st),
     ucp_request_free = (\<lambda>r w. w\<lparr> tn_live := removeAll r (tn_live w) \<rparr>),
     callback = (\<lambda>r w. tn_done w r),
     ucx_now = (\<lambda>w. (tn_clock w, w\<lparr> tn_clock := tn_clock w + 1000 \<rparr>)) \<rparr>"

interpretation tn_requests: ucp_requests tn_api "\<lambda>w. set (tn_live w)"
  by unfold_locales (auto simp: tn_api_def tn_progress_def split: prod.splits)

subsection \<open>One message each way\<close>

lemma tagSend_tn:
  assumes "ue_ep e = Some ep" and "bs \<noteq> []" and "sn \<noteq> 0"
  shows "tagSend tn_api c e (Some bs) ch sn w = Some (SUCCESS, e, w\<lparr> tn_arrived :=
    (tn_arrived w)(tn_peer w ep := tn_arrived w (tn_peer w ep) @ [(make_tag kData ch sn, bs)]) \<rparr>)"
  using assms by (simp add: tagSend_def tagSendAsync_def tn_api_def tn_send_def Let_def waitRequest_def
      ucs_to_status_def)

lemma tagRecv_tn:
  assumes k: "uc_worker c = Some k" and q: "tn_posted w k = []" "\<not> tn_imm w"
    and m: "take_match (make_tag kData ch sn) (recv_mask sn) (tn_arrived w k) = Some (bs, rest)"
    and len: "length bs \<le> cap" "0 < cap"
  shows "\<exists>w'. tagRecv tn_api c True cap ch sn w = Some ((SUCCESS, length bs, bs), w')
    \<and> tn_arrived w' = (tn_arrived w)(k := rest) \<and> tn_posted w' k = [] \<and> tn_peer w' = tn_peer w \<and> \<not> tn_imm w'"
proof -
  let ?r = "tn_next w"
  let ?p = "\<lparr> pr_req = ?r, pr_tag = make_tag kData ch sn, pr_mask = recv_mask sn, pr_cap = cap \<rparr>"
  let ?w1 = "w\<lparr> tn_posted := (tn_posted w)(k := [?p]), tn_next := Suc ?r, tn_done := (tn_done w)(?r := None),
    tn_live := ?r # tn_live w \<rparr>"
  let ?w2 = "?w1\<lparr> tn_posted := (tn_posted ?w1)(k := []), tn_arrived := (tn_arrived w)(k := rest),
    tn_done := (tn_done ?w1)(?r \<mapsto> (UCS_OK, bs)) \<rparr>"
  have post: "tagRecvAsync tn_api c True cap ch sn w = ((SUCCESS, Some (Pending ?r, [])), ?w1)"
    using k q len by (simp add: tagRecvAsync_def tn_api_def tn_recv_def)
  have prog: "ucx_progress tn_api c ?w1 = ?w2"
    using k m len by (simp add: ucx_progress_def tn_api_def tn_progress_def delivered_def)
  have "callback tn_api ?r ?w2 = Some (UCS_OK, bs)" by (simp add: tn_api_def)
  then have "wait_tag tn_api c ?r ?w1 = Some ((onRecvComplete UCS_OK (length bs) new_UcxRequest, bs), ?w2)"
    by (subst wait_tag.simps) (simp only: prog Let_def option.simps prod.case)
  then have "tagRecv tn_api c True cap ch sn w = Some ((SUCCESS, length bs, bs), ucp_request_free tn_api ?r ?w2)"
    using post by (simp add: tagRecv_def onRecvComplete_def new_UcxRequest_def ucs_to_status_def)
  then show ?thesis using q by (simp add: tn_api_def)
qed

lemma mem_info_round [simp]: "mem_info_of (mem_info_bytes h) = h"
  by (simp add: mem_info_of_def mem_info_bytes_def)

lemma length_mem_info [simp]: "length (mem_info_bytes h) = sizeof_mem_info"
  by (simp add: mem_info_bytes_def sizeof_mem_info_def)

subsection \<open>The handshake\<close>

definition hdr_tag :: u64 where "hdr_tag = make_tag kData kHandshakeChannel kSeqHdr"
definition key_tag :: u64 where "key_tag = make_tag kData kHandshakeChannel kSeqRkey"

text \<open>What an endpoint with registered memory \<open>m\<close> announces.\<close>

definition own_info :: "UCXEndpoint \<Rightarrow> nat \<Rightarrow> u16 \<Rightarrow> UcxRemoteMemInfo" where
  "own_info e m port = \<lparr> mi_base_addr = local_base e, mi_size = local_size e, mi_rkey_len = 4,
     mi_listen_port = port, mi_reserved = 0 \<rparr>"

text \<open>An endpoint on worker \<open>k\<close> ready for the handshake, with no receive outstanding on the worker.\<close>

definition hs_ready :: "UCXContext \<Rightarrow> UCXEndpoint \<Rightarrow> nat \<Rightarrow> nat \<Rightarrow> nat \<Rightarrow> tagnet \<Rightarrow> bool" where
  "hs_ready c e k ep m w \<longleftrightarrow> uc_worker c = Some k \<and> ue_ep e = Some ep \<and> local_mem_ready e
     \<and> local_mem e = Some m \<and> remote_rkey e = None \<and> tn_posted w k = [] \<and> \<not> tn_imm w \<and> tn_peer w ep \<noteq> k"

definition info_valid :: "UcxRemoteMemInfo \<Rightarrow> u8 list \<Rightarrow> bool" where
  "info_valid h key \<longleftrightarrow> mi_base_addr h \<noteq> 0 \<and> mi_size h \<noteq> 0 \<and> mi_rkey_len h \<noteq> 0
     \<and> unat (mi_rkey_len h) = length key"

text \<open>The header and the key that the receives of a handshake find in the queue.\<close>

definition finds :: "(u64 \<times> u8 list) list \<Rightarrow> UcxRemoteMemInfo \<Rightarrow> u8 list \<Rightarrow> (u64 \<times> u8 list) list \<Rightarrow> bool" where
  "finds ms h key rest \<longleftrightarrow> (\<exists>ms1. take_match hdr_tag kMaskAll ms = Some (mem_info_bytes h, ms1)
     \<and> take_match key_tag kMaskAll ms1 = Some (key, rest))"

definition learned :: "UCXEndpoint \<Rightarrow> UcxRemoteMemInfo \<Rightarrow> u8 list \<Rightarrow> bool" where
  "learned e h key \<longleftrightarrow> remote_base e = mi_base_addr h \<and> remote_size e = mi_size h
     \<and> remote_rkey e = Some (unat (le_word key :: u32))"

definition announces :: "UCXEndpoint \<Rightarrow> nat \<Rightarrow> u16 \<Rightarrow> (u64 \<times> u8 list) list" where
  "announces e m port = [(hdr_tag, mem_info_bytes (own_info e m port)), (key_tag, tn_key m)]"

lemma seq_nonzero [simp]: "kSeqHdr \<noteq> 0" "kSeqRkey \<noteq> 0" "recv_mask kSeqHdr = kMaskAll" "recv_mask kSeqRkey = kMaskAll"
  by (simp_all add: recv_mask_def kSeqHdr_def kSeqRkey_def)

lemma mem_info_nonempty [simp]: "mem_info_bytes h \<noteq> []"
proof -
  have "length (mem_info_bytes h) \<noteq> 0" unfolding length_mem_info by (simp add: sizeof_mem_info_def)
  then show ?thesis by (metis length_0_conv)
qed

lemma tn_key_simps [simp]: "tn_key m \<noteq> []" "length (tn_key m) = 4"
  by (simp_all add: tn_key_def) (metis length_le_bytes list.size(3) zero_neq_numeral)

lemma export_tn:
  assumes "local_mem_ready e" and "local_mem e = Some m"
  shows "exportLocalMemInfo tn_api c e no_mem_info w = ((SUCCESS, own_info e m 0, tn_key m), e, w)"
  using assms by (simp add: exportLocalMemInfo_def ensureLocalMemRegistered_def tn_api_def own_info_def no_mem_info_def)

lemma set_remote_tn:
  assumes "ue_ep e = Some ep" and "remote_rkey e = None" and "info_valid h key"
  shows "\<exists>e'. setRemoteMemInfo tn_api e h key w = (SUCCESS, e', w) \<and> learned e' h key"
  using assms by (simp add: setRemoteMemInfo_def tn_api_def info_valid_def learned_def)

lemma server_handshake_tn:
  assumes r: "hs_ready c e k ep m w" and v: "info_valid h key" and f: "finds (tn_arrived w k) h key rest"
  shows "\<exists>e' w'. server_handshake tn_api c e w = Some (Some h, e', w') \<and> learned e' h key
    \<and> tn_arrived w' = (tn_arrived w)(k := rest, tn_peer w ep := tn_arrived w (tn_peer w ep) @ announces e m 0)"
proof -
  let ?q = "tn_peer w ep"
  note rd = r [unfolded hs_ready_def]
  from f obtain ms1 where f1: "take_match hdr_tag kMaskAll (tn_arrived w k) = Some (mem_info_bytes h, ms1)"
    and f2: "take_match key_tag kMaskAll ms1 = Some (key, rest)" by (auto simp: finds_def)
  obtain w1 where a: "tagRecv tn_api c True sizeof_mem_info kHandshakeChannel kSeqHdr w
      = Some ((SUCCESS, sizeof_mem_info, mem_info_bytes h), w1)"
    "tn_arrived w1 = (tn_arrived w)(k := ms1)" "tn_posted w1 k = []" "tn_peer w1 = tn_peer w" "\<not> tn_imm w1"
    using tagRecv_tn [of c k w kHandshakeChannel kSeqHdr "mem_info_bytes h" ms1 sizeof_mem_info] rd f1
    by (auto simp: hdr_tag_def sizeof_mem_info_def)
  let ?w2 = "w1\<lparr> tn_arrived := (tn_arrived w1)(?q := tn_arrived w1 ?q @ [(hdr_tag, mem_info_bytes (own_info e m 0))]) \<rparr>"
  have b: "tagSend tn_api c e (Some (mem_info_bytes (own_info e m 0))) kHandshakeChannel kSeqHdr w1 = Some (SUCCESS, e, ?w2)"
    using tagSend_tn [of e ep] rd a(4) by (simp add: hdr_tag_def)
  have "0 < length key" using v by (simp add: info_valid_def flip: unat_gt_0) (metis length_greater_0_conv)
  then obtain w3 where d: "tagRecv tn_api c True (length key) kHandshakeChannel kSeqRkey ?w2 = Some ((SUCCESS, length key, key), w3)"
    "tn_arrived w3 = (tn_arrived ?w2)(k := rest)" "tn_peer w3 = tn_peer w"
    using tagRecv_tn [of c k ?w2 kHandshakeChannel kSeqRkey key rest "length key"] rd f2 a by (auto simp: key_tag_def)
  let ?w4 = "w3\<lparr> tn_arrived := (tn_arrived w3)(?q := tn_arrived w3 ?q @ [(key_tag, tn_key m)]) \<rparr>"
  have s: "tagSend tn_api c e (Some (tn_key m)) kHandshakeChannel kSeqRkey w3 = Some (SUCCESS, e, ?w4)"
    using tagSend_tn [of e ep] rd d(3) by (simp add: key_tag_def)
  obtain e' where e': "setRemoteMemInfo tn_api e h key ?w4 = (SUCCESS, e', ?w4)" "learned e' h key"
    using set_remote_tn v rd by blast
  have "server_handshake tn_api c e w = Some (Some h, e', ?w4)"
    using export_tn [of e m c w] rd a(1) b d(1) s e'(1) v by (simp add: server_handshake_def info_valid_def)
  moreover have "tn_arrived ?w4 = (tn_arrived w)(k := rest, ?q := tn_arrived w ?q @ announces e m 0)"
    using rd a(2) d(2) by (simp add: announces_def fun_eq_iff)
  ultimately show ?thesis using e'(2) by blast
qed

lemma client_handshake_tn:
  assumes r: "hs_ready c e k ep m w" and v: "info_valid h key" and f: "finds (tn_arrived w k) h key rest"
  shows "\<exists>e' w'. client_handshake tn_api c port e w = Some (True, e', w') \<and> learned e' h key
    \<and> tn_arrived w' = (tn_arrived w)(k := rest, tn_peer w ep := tn_arrived w (tn_peer w ep) @ announces e m port)"
proof -
  let ?q = "tn_peer w ep" and ?own = "own_info e m port"
  note rd = r [unfolded hs_ready_def]
  from f obtain ms1 where f1: "take_match hdr_tag kMaskAll (tn_arrived w k) = Some (mem_info_bytes h, ms1)"
    and f2: "take_match key_tag kMaskAll ms1 = Some (key, rest)" by (auto simp: finds_def)
  let ?w1 = "w\<lparr> tn_arrived := (tn_arrived w)(?q := tn_arrived w ?q @ [(hdr_tag, mem_info_bytes ?own)]) \<rparr>"
  have own: "(own_info e m 0)\<lparr> mi_listen_port := port \<rparr> = ?own" by (simp add: own_info_def)
  have a: "tagSend tn_api c e (Some (mem_info_bytes ?own)) kHandshakeChannel kSeqHdr w = Some (SUCCESS, e, ?w1)"
    using tagSend_tn [of e ep] rd by (simp add: hdr_tag_def)
  obtain w2 where b: "tagRecv tn_api c True sizeof_mem_info kHandshakeChannel kSeqHdr ?w1
      = Some ((SUCCESS, sizeof_mem_info, mem_info_bytes h), w2)"
    "tn_arrived w2 = (tn_arrived ?w1)(k := ms1)" "tn_posted w2 k = []" "tn_peer w2 = tn_peer w" "\<not> tn_imm w2"
    using tagRecv_tn [of c k ?w1 kHandshakeChannel kSeqHdr "mem_info_bytes h" ms1 sizeof_mem_info] rd f1
    by (auto simp: hdr_tag_def sizeof_mem_info_def)
  let ?w3 = "w2\<lparr> tn_arrived := (tn_arrived w2)(?q := tn_arrived w2 ?q @ [(key_tag, tn_key m)]) \<rparr>"
  have d: "tagSend tn_api c e (Some (tn_key m)) kHandshakeChannel kSeqRkey w2 = Some (SUCCESS, e, ?w3)"
    using tagSend_tn [of e ep] rd b(4) by (simp add: key_tag_def)
  have "0 < length key" using v by (simp add: info_valid_def flip: unat_gt_0) (metis length_greater_0_conv)
  then obtain w4 where s: "tagRecv tn_api c True (length key) kHandshakeChannel kSeqRkey ?w3 = Some ((SUCCESS, length key, key), w4)"
    "tn_arrived w4 = (tn_arrived ?w3)(k := rest)"
    using tagRecv_tn [of c k ?w3 kHandshakeChannel kSeqRkey key rest "length key"] rd f2 b by (auto simp: key_tag_def)
  obtain e' where e': "setRemoteMemInfo tn_api e h key w4 = (SUCCESS, e', w4)" "learned e' h key"
    using set_remote_tn v rd by blast
  have "client_handshake tn_api c port e w = Some (True, e', w4)"
    using export_tn [of e m c w] own rd a b(1) d s(1) e'(1) v by (simp add: client_handshake_def info_valid_def)
  moreover have "tn_arrived w4 = (tn_arrived w)(k := rest, ?q := tn_arrived w ?q @ announces e m port)"
    using rd b(2) s(2) by (simp add: announces_def fun_eq_iff)
  ultimately show ?thesis using e'(2) by blast
qed

text \<open>The two tags differ, so header and key of one side are told apart.\<close>

lemma tags_match:
  "(hdr_tag XOR hdr_tag) AND kMaskAll = 0" "(key_tag XOR key_tag) AND kMaskAll = 0"
  "(hdr_tag XOR key_tag) AND kMaskAll \<noteq> 0" "(key_tag XOR hdr_tag) AND kMaskAll \<noteq> 0"
  by (simp_all add: hdr_tag_def key_tag_def make_tag_def kData_def kHandshakeChannel_def kSeqHdr_def
      kSeqRkey_def kMaskAll_def)

lemma finds_announced: "finds (announces e m port @ rest) (own_info e m port) (tn_key m) rest"
  by (simp add: finds_def announces_def tags_match del: word_and_max)

lemma own_info_valid: "local_base e \<noteq> 0 \<Longrightarrow> local_size e \<noteq> 0 \<Longrightarrow> info_valid (own_info e m port) (tn_key m)"
  by (simp add: info_valid_def own_info_def)


subsection \<open>Two clients at a time\<close>

text \<open>A fresh endpoint registers its memory first; from there on it is a ready one.\<close>

lemma fresh_handshake:
  assumes "uc_context c = Some x" and "ptr b \<noteq> 0" and "buffer_size b \<noteq> 0"
  shows "server_handshake tn_api c (new_UCXEndpoint ep b r) w
    = server_handshake tn_api c ((new_UCXEndpoint ep b r)\<lparr> local_mem := Some (tn_next w), local_mem_ready := True \<rparr>)
        (w\<lparr> tn_next := Suc (tn_next w) \<rparr>)"
proof -
  let ?e = "new_UCXEndpoint ep b r"
  let ?e1 = "?e\<lparr> local_mem := Some (tn_next w), local_mem_ready := True \<rparr>" and ?w1 = "w\<lparr> tn_next := Suc (tn_next w) \<rparr>"
  have "exportLocalMemInfo tn_api c ?e no_mem_info w = exportLocalMemInfo tn_api c ?e1 no_mem_info ?w1"
    using assms by (simp add: exportLocalMemInfo_def ensureLocalMemRegistered_def tn_api_def tn_handle_def
        new_UCXEndpoint_def)
  then show ?thesis by (simp only: server_handshake_def)
qed


section \<open>Witnesses\<close>

text \<open>Worker 1 is the server's, worker 2 the client's; endpoint 20 leads to the client, the others to
  the server.\<close>

definition demo_tn :: tagnet where
  "demo_tn = \<lparr> tn_arrived = (\<lambda>k. []), tn_posted = (\<lambda>k. []), tn_done = [9 \<mapsto> (UCS_OK, [])], tn_next = 100,
     tn_live = [9], tn_peer = (\<lambda>ep. if ep = 10 then 1 else 2), tn_clock = 0, tn_imm = False \<rparr>"

definition demo_ctx :: "nat \<Rightarrow> UCXContext" where
  "demo_ctx k = new_UCXContext\<lparr> uc_context := Some 5, uc_worker := Some k, uc_initialized := True \<rparr>"

definition demo_ue :: "nat \<Rightarrow> nat \<Rightarrow> UCXEndpoint" where
  "demo_ue ep m = (new_UCXEndpoint ep demo_buffer Client)\<lparr> local_mem := Some m, local_mem_ready := True,
     inflight_reqs := [5 \<mapsto> 9] \<rparr>"

lemmas demo_ucx_defs = demo_tn_def demo_ctx_def demo_ue_def new_UCXContext_def new_UCXEndpoint_def demo_buffer_def

theorem ucx_early_header_fails_witness:
  "\<exists>w. server_handshake tn_api (demo_ctx 1) (demo_ue 20 7)
      (demo_tn\<lparr> tn_imm := True, tn_arrived := (\<lambda>k. [(hdr_tag, mem_info_bytes no_mem_info)]) \<rparr>)
    = Some (None, demo_ue 20 7, w)"
proof -
  let ?w = "demo_tn\<lparr> tn_imm := True, tn_arrived := (\<lambda>k. [(hdr_tag, mem_info_bytes no_mem_info)]) \<rparr>"
  have e: "exportLocalMemInfo tn_api (demo_ctx 1) (demo_ue 20 7) no_mem_info ?w
      = ((SUCCESS, own_info (demo_ue 20 7) 7 0, tn_key 7), demo_ue 20 7, ?w)"
    by (rule export_tn) (simp_all add: demo_ue_def)
  have "\<exists>w. ucp_tag_recv_nbx tn_api (the (uc_worker (demo_ctx 1))) sizeof_mem_info
      (make_tag kData kHandshakeChannel kSeqHdr) kMaskAll ?w = ((PtrNull, mem_info_bytes no_mem_info), w)"
    by (simp add: tn_api_def tn_recv_def tags_match hdr_tag_def [symmetric] del: word_and_max)
  then show ?thesis using ucx_early_header_fails [OF e] by blast
qed

theorem ucx_multi_hides_errors_witness:
  "\<exists>e' w' e'' w''. ucx_waitWrId (tn_api\<lparr> ucp_request_check_status := \<lambda>r v. UCS_ERR 3 \<rparr>) (demo_ctx 1) 5 (demo_ue 20 7) demo_tn
      = Some (ERROR, e', w')
    \<and> ucx_waitWrIdMulti (tn_api\<lparr> ucp_request_check_status := \<lambda>r v. UCS_ERR 3 \<rparr>) (demo_ctx 1) 1000 [5] (demo_ue 20 7) demo_tn
      = Some (SUCCESS, e'', w'')"
  by (rule ucx_multi_hides_errors [where r = 9 and n = 3]) (simp_all add: demo_ue_def)

lemma demo_multi_run:
  "\<exists>s e w. ucx_waitWrIdMulti tn_api (demo_ctx 1) 1000 [5] (demo_ue 20 7) demo_tn = Some (s, e, w)"
proof -
  have "ucp_request_check_status tn_api 9 v \<noteq> UCS_INPROGRESS" if "tn_done v 9 = Some (UCS_OK, [])" for v
    using that by (simp add: tn_api_def)
  then have sw: "sweep tn_api 0 [9] v = ([], ucp_request_free tn_api 9 v)" if "tn_done v 9 = Some (UCS_OK, [])" for v
    using that by (intro sweep_finished) blast
  have pr: "tn_done (ucx_progress tn_api (demo_ctx 1) v) 9 = Some (UCS_OK, [])"
    if "tn_done v 9 = Some (UCS_OK, [])" "tn_posted v 1 = []" for v
    using that by (simp add: ucx_progress_def demo_ctx_def new_UCXContext_def tn_api_def tn_progress_def)
  have "\<exists>r. multi_loop tn_api (demo_ctx 1) t 1000 [9] v = Some r"
    if "tn_done v 9 = Some (UCS_OK, [])" "tn_posted v 1 = []" for v t
    using sw [OF pr [OF that]] by (subst multi_loop.simps) (simp add: multi_loop.simps [of _ _ _ _ "[]"])
  then show ?thesis
    by (simp add: ucx_waitWrIdMulti_def Let_def demo_ue_def) (simp add: tn_api_def demo_tn_def)
qed

theorem ucx_multi_outcome_witness:
  "\<exists>s e w. ucx_waitWrIdMulti tn_api (demo_ctx 1) 1000 [5] (demo_ue 20 7) demo_tn = Some (s, e, w)
    \<and> s \<noteq> ERROR \<and> inflight_reqs e 5 = None"
proof -
  obtain s e w where run: "ucx_waitWrIdMulti tn_api (demo_ctx 1) 1000 [5] (demo_ue 20 7) demo_tn = Some (s, e, w)"
    using demo_multi_run by blast
  have "one_id (inflight_reqs (demo_ue 20 7))" by (auto simp: one_id_def demo_ue_def split: if_splits)
  moreover have "requests_of [5] (inflight_reqs (demo_ue 20 7)) \<subseteq> set (tn_live demo_tn)"
    by (auto simp: requests_of_def demo_ue_def demo_tn_def)
  ultimately show ?thesis
    using ucx_multi_outcome [OF tn_requests.ucp_requests_axioms _ _ run] run
    by (auto simp: Let_def demo_ue_def)
qed



end
