(* ===== verification/Hmc_MemoryProps.thy ===== *)
theory Hmc_MemoryProps
  imports Hmc_ConnBuffer
begin

text \<open>
  The typing of \<^verbatim>\<open>Memory\<close> objects: which objects a program can hold, and that each of them carries the
  back end of the type it reports.
\<close>

section \<open>Objects\<close>

text \<open>An object made for device \<open>d\<close> and type \<open>t\<close>, and changed by the operations that store into it.\<close>

inductive memory_object :: "'hw platform \<Rightarrow> int \<Rightarrow> MemoryType \<Rightarrow> Memory \<Rightarrow> bool" for p d t where
  made: "setDeviceIdAndMemoryType p d t m = (Return (s, mo), m') \<Longrightarrow> memory_object p d t mo"
| inited: "memory_object p d t mo \<Longrightarrow> Memory_init p mo m = ((s, mo'), m') \<Longrightarrow> memory_object p d t mo'"
| allocated: "memory_object p d t mo \<Longrightarrow> Memory_allocateBuffer p mo n m = ((s, a, mo'), m') \<Longrightarrow> memory_object p d t mo'"
| peerable: "memory_object p d t mo \<Longrightarrow> Memory_allocatePeerableBuffer p mo n m = ((s, a, mo'), m') \<Longrightarrow>
    memory_object p d t mo'"

section \<open>Preservation\<close>

lemma Neuware_buffer_keeps:
  assumes "NeuwareMemory_allocateBuffer p b n m = ((s, a, b'), m')"
  shows "mb_mem_type b' = mb_mem_type b" "mb_device_id b' = mb_device_id b"
  using assms by (auto simp: NeuwareMemory_allocateBuffer_def Let_def split: if_splits prod.splits)

lemma allocate_keeps_class:
  assumes "MemoryBase_allocateBuffer p c n m = ((s, a, c'), m')"
  shows "class_type c' = class_type c" "mb_mem_type (class_base c') = mb_mem_type (class_base c)"
    "mb_device_id (class_base c') = mb_device_id (class_base c)"
  using assms
  by (cases c; auto simp: apfst_def map_prod_def dest: Neuware_buffer_keeps split: prod.splits)+

text \<open>What the three operations keep: the class, the recorded type and the device.\<close>

definition same_object :: "Memory \<Rightarrow> Memory \<Rightarrow> bool" where
  "same_object mo mo' \<longleftrightarrow> hmcMemoryType mo' = hmcMemoryType mo \<and> hmcDeviceId mo' = hmcDeviceId mo
     \<and> (memory_wf mo \<longrightarrow> memory_wf mo')"

lemma Memory_init_same: "Memory_init p mo m = ((s, mo'), m') \<Longrightarrow> same_object mo mo'"
  by (auto simp: same_object_def Memory_init_def memory_wf_def Memory_class_def init_keeps_class
      split: prod.splits option.splits)

lemma Memory_allocateBuffer_same: "Memory_allocateBuffer p mo n m = ((s, a, mo'), m') \<Longrightarrow> same_object mo mo'"
  by (auto simp: same_object_def Memory_allocateBuffer_def memory_wf_def Memory_class_def allocate_keeps_class
      split: prod.splits option.splits)

lemma Memory_allocatePeerableBuffer_same:
  "Memory_allocatePeerableBuffer p mo n m = ((s, a, mo'), m') \<Longrightarrow> same_object mo mo'"
  by (auto simp: same_object_def Memory_alloc_wf Memory_allocatePeerableBuffer_def split: prod.splits)

text \<open>The constructor throws exactly for the back ends the build leaves out.\<close>

lemma createMemoryClass_no_throw: "createMemoryClass p d h t m \<noteq> (Throw e, m')"
  by (cases t) (simp_all add: createMemoryClass_def construct_def Let_def split: prod.split)

lemma setDevice_throws:
  "(\<exists>e. fst (setDeviceIdAndMemoryType p d t m) = Throw e) \<longleftrightarrow> \<not> type_supported (cfg p) t"
proof -
  have n: "fst (case createMemoryClass p d h h m of (Return None, m1) \<Rightarrow> (Return x, m1)
           | (Return (Some c), m1) \<Rightarrow> (case MemoryBase_init p c m1 of ((i, c'), m2) \<Rightarrow> (Return (g i c'), m2))
           | (Throw e, m1) \<Rightarrow> (Throw e, m1) | (Exit i, m1) \<Rightarrow> (Exit i, m1)) \<noteq> Throw e"
    for h e and x :: "status_t \<times> Memory" and g
    using createMemoryClass_no_throw [of p d h h m]
    by (cases "createMemoryClass p d h h m") (auto split: outcome.split option.split prod.split)
  show ?thesis
    unfolding setDeviceIdAndMemoryType_def Let_def type_supported_def
    by (cases t) (simp_all add: n)
qed

text \<open>C37: Every \<^verbatim>\<open>Memory\<close> object a program can hold is well typed: its back end is the class of the
  type the object reports, that type is the one asked for, or the build's choice where \<^verbatim>\<open>DEFAULT\<close> was asked
  for, and never \<^verbatim>\<open>DEFAULT\<close> itself, and the build supports it.\<close>

theorem memory_object_typed:
  assumes "memory_object p d t mo"
  shows "memory_wf mo \<and> Memory_getMemoryType mo = resolve_type (cfg p) t \<and> Memory_getDeviceId mo = d
    \<and> type_supported (cfg p) (Memory_getMemoryType mo) \<and> Memory_getMemoryType mo \<noteq> DEFAULT"
proof -
  have "resolve_type (cfg p) t \<noteq> DEFAULT" by (simp add: resolve_type_def)
  moreover have "type_supported (cfg p) t \<Longrightarrow> type_supported (cfg p) (resolve_type (cfg p) t)"
    by (simp add: resolve_type_def default_memory_type_def type_supported_def Let_def)
  moreover have "memory_wf mo \<and> hmcMemoryType mo = resolve_type (cfg p) t \<and> hmcDeviceId mo = d \<and> type_supported (cfg p) t"
    using assms
  proof induction
    case made
    then show ?case using setDevice_return [OF made] by simp
  next
    case inited
    then show ?case using Memory_init_same [OF inited(2)] by (simp add: same_object_def)
  next
    case allocated
    then show ?case using Memory_allocateBuffer_same [OF allocated(2)] by (simp add: same_object_def)
  next
    case peerable
    then show ?case using Memory_allocatePeerableBuffer_same [OF peerable(2)] by (simp add: same_object_def)
  qed
  ultimately show ?thesis by (simp add: Memory_getMemoryType_def Memory_getDeviceId_def)
qed

theorem memory_object_typed_witness:
  "\<exists>mo. memory_object demo_platform 3 DEFAULT mo \<and> memory_wf mo \<and> Memory_getMemoryType mo = CPU \<and> Memory_getDeviceId mo = 3"
proof -
  obtain s mo where "setDeviceIdAndMemoryType demo_platform 3 DEFAULT demo_machine = (Return (s, mo), demo_machine)"
    by (simp add: setDeviceIdAndMemoryType_def default_memory_type_def createMemoryClass_def construct_def
        HostMemory_init_def demo_defs Let_def)
  then have "memory_object demo_platform 3 DEFAULT mo" by (rule made)
  with memory_object_typed [OF this] show ?thesis
    by (auto simp: resolve_type_def default_memory_type_def demo_defs Let_def)
qed

end
