(* ===== verification/Hmc_Driver.thy ===== *)
theory Hmc_Driver
  imports Hmc_Gpu "HOL-Library.Sublist"
begin

text \<open>
  The resource managers of src/resource_manager: \<^verbatim>\<open>GPUManager\<close> (driver_manager.h,
  driver_manager_gpu.cpp), which lists the accelerators of a machine, and \<^verbatim>\<open>support_rdma\<close>
  (driver_manager_rdma.cpp), which looks for a usable RDMA device.  The device functions of libibverbs
  are the parameter \<open>ibv_devices\<close>.
\<close>

section \<open>Accelerators\<close>

record GPUDeviceInfo =
  gi_deviceId :: int
  gi_freeMemory :: u64
  gi_totalMemory :: u64
  gi_pcieBusId :: string
  gi_vendor :: MemoryType

record GPUManager =
  gm_devices :: "GPUDeviceInfo list"
  gm_contexts :: "int list"

definition new_GPUManager :: GPUManager where
  "new_GPUManager = \<lparr> gm_devices = [], gm_contexts = [] \<rparr>"

definition getDeviceCount :: "GPUManager \<Rightarrow> int" where
  "getDeviceCount g = int (length (gm_devices g))"

definition getDeviceInfo :: "GPUManager \<Rightarrow> int \<Rightarrow> GPUDeviceInfo" where
  "getDeviceInfo g device_id =
    (if device_id < 0 \<or> device_id \<ge> int (length (gm_devices g))
     then \<lparr> gi_deviceId = - 1, gi_freeMemory = 0, gi_totalMemory = 0, gi_pcieBusId = [], gi_vendor = DEFAULT \<rparr>
     else gm_devices g ! nat device_id)"

text \<open>One context per device; a context that could not be created stays null.\<close>

primrec create_contexts :: "'hw platform \<Rightarrow> int list \<Rightarrow> ('hw, int list) call" where
  "create_contexts p [] m = ([], m)"
| "create_contexts p (d # ds) m =
    (case gpuCreateContext p d m of ((_, c), m1) \<Rightarrow>
     case create_contexts p ds m1 of (cs, m2) \<Rightarrow> ((case c of None \<Rightarrow> 0 | Some x \<Rightarrow> x) # cs, m2))"

text \<open>Making a device current, and the vendor it is listed under: the first enabled back end.\<close>

definition select_device :: "'hw platform \<Rightarrow> int list \<Rightarrow> int \<Rightarrow> 'hw machine \<Rightarrow> 'hw machine" where
  "select_device p ctxs d m =
    (if enable_cuda (cfg p) \<or> enable_rocm (cfg p) then snd (gpuSetDevice p d m)
     else if enable_neuware (cfg p) then snd (gpuSetCtx p (ctxs ! nat d) m)
     else if enable_musa (cfg p) then snd (gpuSetDevice p d m)
     else m)"

definition vendor_of :: "build \<Rightarrow> MemoryType" where
  "vendor_of b = (if enable_cuda b then NVIDIA_GPU else if enable_rocm b then AMD_GPU
     else if enable_neuware b then CAMBRICON_MLU else if enable_musa b then MOORE_GPU else DEFAULT)"

primrec collect_devices :: "'hw platform \<Rightarrow> int list \<Rightarrow> int list \<Rightarrow> ('hw, GPUDeviceInfo list) call" where
  "collect_devices p ctxs [] m = ([], m)"
| "collect_devices p ctxs (d # ds) m =
    (case gpuGetPcieBusId p d m of ((st, bus), m1) \<Rightarrow>
       if st \<noteq> SUCCESS then collect_devices p ctxs ds m1
       else
         (case gpuGetDeviceMemory p (select_device p ctxs d m1) of ((st2, mem), m2) \<Rightarrow>
            let (free, total) = (if st2 \<noteq> SUCCESS then (0, 0) else case mem of None \<Rightarrow> (0, 0) | Some x \<Rightarrow> x);
                info = \<lparr> gi_deviceId = d, gi_freeMemory = free, gi_totalMemory = total,
                         gi_pcieBusId = (case bus of None \<Rightarrow> [] | Some b \<Rightarrow> b), gi_vendor = vendor_of (cfg p) \<rparr>
            in (case collect_devices p ctxs ds m2 of (infos, m3) \<Rightarrow> (info # infos, m3))))"

definition device_ids :: "int \<Rightarrow> int list" where
  "device_ids n = map int [0..<nat n]"

definition GPUManager_init :: "'hw platform \<Rightarrow> GPUManager \<Rightarrow> ('hw, status_t \<times> GPUManager) call" where
  "GPUManager_init p g m =
    (case gpuInit p m of (ret, m1) \<Rightarrow>
     if ret \<noteq> SUCCESS then ((ret, g), m1)
     else case gpuGetDeviceCount p m1 of ((st, count), m2) \<Rightarrow>
     let device_count = (case count of None \<Rightarrow> 0 | Some n \<Rightarrow> n) in
     if st \<noteq> SUCCESS \<or> device_count \<le> 0 then ((ERROR, g), m2)
     else case (if enable_neuware (cfg p) then create_contexts p (device_ids device_count) m2
                else (gm_contexts g, m2)) of (ctxs, m3) \<Rightarrow>
     case collect_devices p ctxs (device_ids device_count) m3 of (infos, m4) \<Rightarrow>
       ((SUCCESS, g\<lparr> gm_devices := infos, gm_contexts := ctxs \<rparr>), m4))"

section \<open>RDMA devices\<close>

text \<open>\<^verbatim>\<open>ibv_get_device_list\<close> gives the list and its handle; opening a device may fail.\<close>

record 'w ibv_devices =
  get_device_list :: "'w \<Rightarrow> (nat \<times> nat list) \<times> 'w"
  free_device_list :: "nat \<Rightarrow> 'w \<Rightarrow> 'w"
  open_device :: "nat \<Rightarrow> 'w \<Rightarrow> nat option \<times> 'w"
  close_device :: "nat \<Rightarrow> 'w \<Rightarrow> 'w"

primrec any_opens :: "'w ibv_devices \<Rightarrow> nat list \<Rightarrow> 'w \<Rightarrow> bool \<times> 'w" where
  "any_opens V [] w = (False, w)"
| "any_opens V (d # ds) w =
    (case open_device V d w of
       (Some c, w1) \<Rightarrow> (True, close_device V c w1)
     | (None, w1) \<Rightarrow> any_opens V ds w1)"

definition support_rdma :: "'w ibv_devices \<Rightarrow> 'w \<Rightarrow> bool \<times> 'w" where
  "support_rdma V w =
    (case get_device_list V w of ((l, ds), w1) \<Rightarrow>
       if ds = [] then (False, w1)
       else case any_opens V ds w1 of (ok, w2) \<Rightarrow> (ok, free_device_list V l w2))"

section \<open>The list of accelerators\<close>

lemma collect_devices_ids:
  "collect_devices p ctxs ds m = (infos, m') \<Longrightarrow>
    subseq (map gi_deviceId infos) ds \<and> gi_vendor ` set infos \<subseteq> {vendor_of (cfg p)}
    \<and> ((\<forall>d m. fst (fst (gpuGetPcieBusId p d m)) = SUCCESS) \<longrightarrow> map gi_deviceId infos = ds)"
proof (induction ds arbitrary: m infos m')
  case (Cons d ds)
  obtain st bus m1 where bus: "gpuGetPcieBusId p d m = ((st, bus), m1)" by (metis prod.collapse)
  show ?case
  proof (cases "st = SUCCESS")
    case True
    obtain r m2 where mem: "gpuGetDeviceMemory p (select_device p ctxs d m1) = (r, m2)" by (metis prod.collapse)
    obtain rest m3 where rest: "collect_devices p ctxs ds m2 = (rest, m3)" by (metis prod.collapse)
    from Cons.prems obtain info where "infos = info # rest" "gi_deviceId info = d" "gi_vendor info = vendor_of (cfg p)"
      using True by (auto simp: bus mem rest split: prod.splits)
    with Cons.IH [OF rest] show ?thesis by auto
  next
    case False
    then have "collect_devices p ctxs ds m1 = (infos, m')" using Cons.prems by (simp add: bus)
    from Cons.IH [OF this] False bus show ?thesis
      by (auto intro: list_emb_Cons) (metis fst_conv)
  qed
qed simp

lemma device_ids_sorted: "sorted_wrt (<) (device_ids n)" "set (device_ids n) = {0..<n}"
  "length (device_ids n) = nat n"
  by (auto simp: device_ids_def sorted_wrt_map image_int_atLeastLessThan sorted_wrt_iff_nth_less)

lemma subseq_set: "subseq xs ys \<Longrightarrow> set xs \<subseteq> set ys"
  by (auto dest: list_emb_set)

lemma subseq_sorted_wrt: "subseq xs ys \<Longrightarrow> sorted_wrt R ys \<Longrightarrow> sorted_wrt R xs"
  by (induction xs ys rule: list_emb.induct) (auto dest: subseq_set)

lemma init_collects:
  assumes "GPUManager_init p g m = ((SUCCESS, g'), m')"
  shows "\<exists>n ctxs m1. 0 < n \<and> fst (gpuGetDeviceCount p (snd (gpuInit p m))) = (SUCCESS, Some n)
    \<and> collect_devices p ctxs (device_ids n) m1 = (gm_devices g', m')"
  using assms
  by (auto simp: GPUManager_init_def Let_def not_le split: prod.splits if_splits option.splits) blast+



text \<open>A machine with three devices, of which the second does not answer: the manager lists the first
  and the third, and index 1 is device 2.\<close>

definition demo_accel :: "nat platform" where
  "demo_accel = \<lparr> cfg = cpu_build\<lparr> enable_rocm := True \<rparr>, lc = undefined, cu = undefined,
     hip = \<lparr> hipInit = (\<lambda>m. (0, m)), hipMalloc = (\<lambda>n m. ((2, None), m)), hipFree = (\<lambda>a m. (0, m)),
       hipGetDevice = (\<lambda>m. ((0, Some 0), m)), hipSetDevice = (\<lambda>d m. (0, m\<lparr> hw := nat d \<rparr>)),
       hipMemcpy = (\<lambda>k d s n m. (0, m)), hipGetDeviceCount = (\<lambda>m. ((0, Some 3), m)),
       hipMemGetInfo = (\<lambda>m. ((0, Some (of_nat (hw m), 100)), m)),
       hipDeviceGetPCIBusId = (\<lambda>n d m. (if d = 1 then (1, []) else (0, ''0000''), m)) \<rparr>,
     cn = undefined, mu = undefined \<rparr>"

definition demo_manager :: GPUManager where
  "demo_manager = new_GPUManager\<lparr> gm_devices :=
     [\<lparr> gi_deviceId = 0, gi_freeMemory = 0, gi_totalMemory = 100, gi_pcieBusId = ''0000'', gi_vendor = AMD_GPU \<rparr>,
      \<lparr> gi_deviceId = 2, gi_freeMemory = 2, gi_totalMemory = 100, gi_pcieBusId = ''0000'', gi_vendor = AMD_GPU \<rparr>] \<rparr>"

lemma demo_manager_init:
  "GPUManager_init demo_accel new_GPUManager \<lparr> ram = (\<lambda>a. 0), hw = 0 \<rparr>
    = ((SUCCESS, demo_manager), \<lparr> ram = (\<lambda>a. 0), hw = 2 \<rparr>)"
proof -
  have "device_ids 3 = [0, 1, 2]" by (simp add: device_ids_def upt_rec)
  then show ?thesis
    by (simp add: GPUManager_init_def demo_accel_def demo_manager_def gpuInit_def ok_code_def gpuGetDeviceCount_def
        gpuGetPcieBusId_def gpuSetDevice_def gpuGetDeviceMemory_def select_device_def vendor_of_def cpu_build_def)
qed

lemma skipped_device_shifts: "gi_deviceId (getDeviceInfo demo_manager 1) = 2"
  by (simp add: demo_manager_def getDeviceInfo_def)


section \<open>The search for an RDMA device\<close>

text \<open>\<open>opened\<close> is an observer of the device contexts that are open.\<close>

locale device_contexts =
  fixes V :: "'w ibv_devices" and opened :: "'w \<Rightarrow> nat set" and lists :: "'w \<Rightarrow> nat set"
  assumes list_obtained: "get_device_list V w = ((l, ds), w1) \<Longrightarrow> opened w1 = opened w
      \<and> (if ds = [] then lists w1 = lists w else l \<notin> lists w \<and> lists w1 = insert l (lists w))"
    and device_opened: "open_device V d w = (Some c, w1) \<Longrightarrow> c \<notin> opened w \<and> opened w1 = insert c (opened w)
      \<and> lists w1 = lists w"
    and device_refused: "open_device V d w = (None, w1) \<Longrightarrow> opened w1 = opened w \<and> lists w1 = lists w"
    and device_closed: "c \<in> opened w \<Longrightarrow> opened (close_device V c w) = opened w - {c}
      \<and> lists (close_device V c w) = lists w"
    and list_freed: "l \<in> lists w \<Longrightarrow> lists (free_device_list V l w) = lists w - {l}
      \<and> opened (free_device_list V l w) = opened w"
begin

lemma any_opens_balanced: "any_opens V ds w = (ok, w') \<Longrightarrow> opened w' = opened w \<and> lists w' = lists w"
proof (induction ds arbitrary: w)
  case (Cons d ds)
  obtain r w1 where o: "open_device V d w = (r, w1)" by (metis prod.collapse)
  show ?case
  proof (cases r)
    case None
    then show ?thesis using Cons o device_refused by auto
  next
    case (Some c)
    then show ?thesis using Cons.prems o device_opened [of d w c w1] device_closed [of c w1] by auto
  qed
qed simp

lemma support_rdma_balanced: "support_rdma V w = (ok, w') \<Longrightarrow> opened w' = opened w \<and> lists w' = lists w"
  by (auto simp: support_rdma_def split: prod.splits if_splits dest!: list_obtained any_opens_balanced)
    (simp_all add: list_freed)

end

text \<open>A machine whose even-numbered devices work; a handle above all live ones is fresh.\<close>

record dev_world =
  dw_lists :: "nat list"
  dw_open :: "nat list"

definition fresh_handle :: "nat list \<Rightarrow> nat" where
  "fresh_handle hs = Suc (sum_list hs)"

lemma fresh_handle_new: "fresh_handle hs \<notin> set hs"
  by (auto simp: fresh_handle_def dest: member_le_sum_list)

definition dev_api :: "dev_world ibv_devices" where
  "dev_api = \<lparr> get_device_list = (\<lambda>w. let l = fresh_handle (dw_lists w)
       in ((l, [1, 2, 3]), w\<lparr> dw_lists := l # dw_lists w \<rparr>)),
     free_device_list = (\<lambda>l w. w\<lparr> dw_lists := removeAll l (dw_lists w) \<rparr>),
     open_device = (\<lambda>d w. if even d
        then (let c = fresh_handle (dw_open w) in (Some c, w\<lparr> dw_open := c # dw_open w \<rparr>)) else (None, w)),
     close_device = (\<lambda>c w. w\<lparr> dw_open := removeAll c (dw_open w) \<rparr>) \<rparr>"

interpretation dev: device_contexts dev_api "\<lambda>w. set (dw_open w)" "\<lambda>w. set (dw_lists w)"
  by unfold_locales (auto simp: dev_api_def Let_def fresh_handle_new split: if_splits)

lemma support_rdma_demo: "fst (support_rdma dev_api \<lparr> dw_lists = [], dw_open = [] \<rparr>)"
  by (simp add: support_rdma_def dev_api_def Let_def)

end
