(* ===== verification/Hmc_App.thy ===== *)
theory Hmc_App
  imports Hmc_Communicator Hmc_Env
begin

text \<open>
  The benchmark client apps/uhm_app/client.cpp: its settings, the control connection to the server,
  and one transfer in each of its modes, composed from the operations of \<^verbatim>\<open>Communicator\<close>,
  \<^verbatim>\<open>ConnBuffer\<close> and \<^verbatim>\<open>Memory\<close>.  Everything outside the repository is the record \<open>host\<close>; the machine
  that the buffers live in is a part of the world, read and stored by \<open>h_machine\<close> and \<open>h_store\<close>.
  The results of a mode are the times and flags it leaves in the globals; printing and the CSV file
  are left out.  A C++ vector is a block of \<^verbatim>\<open>operator new\<close>.
\<close>

section \<open>The world and the globals\<close>

record ('e, 'w, 'hw) host =
  h_platform :: "'hw platform"
  h_machine :: "'w \<Rightarrow> 'hw machine"
  h_store :: "'hw machine \<Rightarrow> 'w \<Rightarrow> 'w"
  h_class :: "('e, 'w) Endpoint"
  h_verbs :: "'w verbs"
  h_sockets :: "'w sockets"
  h_p2p :: "'w p2p_env"
  h_env :: environ
  h_order :: "(ptr \<times> u64 list) list \<Rightarrow> (ptr \<times> u64 list) list"
  h_now :: "'w \<Rightarrow> int \<times> 'w"

definition on_machine :: "('e, 'w, 'hw) host \<Rightarrow> ('hw, 'r) call \<Rightarrow> 'w \<Rightarrow> 'r \<times> 'w" where
  "on_machine H f w = (case f (h_machine H w) of (r, m) \<Rightarrow> (r, h_store H m w))"

record app_settings =
  server_ip :: string
  client_ip :: string
  tcp_server_ip :: string
  self_rank :: CtrlId
  peer_rank :: CtrlId
  device_id :: int
  num_channels :: u32
  pipeline_chunk_size :: size_t
  pipeline_max_inflight :: size_t
  stage_chunk_size :: size_t
  stage_slots :: size_t
  stage_src_window :: size_t
  app_buffer_size :: size_t

record 'e app =
  conf :: app_settings
  comm :: "'e Communicator"
  ctrl_mgr :: CtrlSocketManager
  ctrl_sock :: int
  app_buffer :: ConnBuffer
  gpu_buffer :: "ConnBuffer option"
  gpu_mem_op :: Memory
  total_time :: int
  g_last_transfer_ok :: bool

definition g_port :: u16 where "g_port = 2025"
definition ctrl_port :: u16 where "ctrl_port = 2027"

record transfer_ctx =
  cpu_data_ptr :: addr
  gpu_data_ptr :: addr
  ctx_size :: size_t

text \<open>Calls that may fail to return, in sequence.\<close>

definition run_bind :: "'a run \<Rightarrow> ('a \<Rightarrow> 'b run) \<Rightarrow> 'b run" where
  "run_bind r f = (case r of Ret x \<Rightarrow> f x | Diverge \<Rightarrow> Diverge | Fault \<Rightarrow> Fault)"

lemma run_bind_simps [simp]:
  "run_bind (Ret x) f = f x" "run_bind Diverge f = Diverge" "run_bind Fault f = Fault"
  by (simp_all add: run_bind_def)

lemma run_bind_cong [fundef_cong]: "r = s \<Longrightarrow> (\<And>x. s = Ret x \<Longrightarrow> f x = g x) \<Longrightarrow> run_bind r f = run_bind s g"
  by (cases s) simp_all

lemma run_bind_Ret_iff: "run_bind r f = Ret y \<longleftrightarrow> (\<exists>x. r = Ret x \<and> f x = Ret y)"
  by (cases r) simp_all

definition on_comm ::
  "('e Communicator \<Rightarrow> 'w \<Rightarrow> ('e, 'w, 'r) comm_run) \<Rightarrow> 'e app \<Rightarrow> 'w \<Rightarrow> ((status_t \<times> 'r) \<times> 'e app \<times> 'w) run" where
  "on_comm f a w = run_bind (f (comm a) w) (\<lambda>(r, c, w1). Ret (r, a\<lparr> comm := c \<rparr>, w1))"

text \<open>\<^verbatim>\<open>duration_cast<microseconds>\<close> of a difference of two readings in nanoseconds.\<close>

definition elapsed_us :: "int \<Rightarrow> int \<Rightarrow> int" where
  "elapsed_us t0 t1 = (t1 - t0) div 1000"

section \<open>The control connection\<close>

definition connect_control_server :: "('e, 'w, 'hw) host \<Rightarrow> string \<Rightarrow> u16 \<Rightarrow> 'e app \<Rightarrow> 'w \<Rightarrow> bool \<times> 'e app \<times> 'w" where
  "connect_control_server H ip port a w =
    (case sys_socket (h_sockets H) AF_INET w of (fd, w1) \<Rightarrow>
     let a1 = a\<lparr> ctrl_sock := fd \<rparr> in
     if fd < 0 then (False, a1, w1)
     else if \<not> inet_pton_ok (h_sockets H) ip
     then (False, a1\<lparr> ctrl_sock := - 1 \<rparr>, sys_close (h_sockets H) fd w1)
     else case sys_connect (h_sockets H) fd (Inet ip port) w1 of (rc, w2) \<Rightarrow>
       if rc < 0 then (False, a1\<lparr> ctrl_sock := - 1 \<rparr>, sys_close (h_sockets H) fd w2)
       else (True, a1, w2))"

definition ascii :: "string \<Rightarrow> u8 list" where
  "ascii msg = map of_char msg"

definition send_control_message :: "('e, 'w, 'hw) host \<Rightarrow> string \<Rightarrow> 'e app \<Rightarrow> 'w \<Rightarrow> bool \<times> 'w" where
  "send_control_message H msg a w =
    (if ctrl_sock a < 0 then (False, w)
     else case sys_send (h_sockets H) (ctrl_sock a) (ascii msg) w of (sent, w1) \<Rightarrow> (0 \<le> sent, w1))"

definition close_control_connection :: "('e, 'w, 'hw) host \<Rightarrow> 'e app \<Rightarrow> 'w \<Rightarrow> 'e app \<times> 'w" where
  "close_control_connection H a w =
    (if ctrl_sock a \<ge> 0 then (a\<lparr> ctrl_sock := - 1 \<rparr>, sys_close (h_sockets H) (ctrl_sock a) w) else (a, w))"

text \<open>The last statement of a mode: the message goes out whatever came of the transfer, and its own
  result is ignored.\<close>

definition finished :: "('e, 'w, 'hw) host \<Rightarrow> 'e app \<Rightarrow> 'w \<Rightarrow> ('e app \<times> 'w) run" where
  "finished H a w = Ret (a, snd (send_control_message H ''Finished'' a w))"

section \<open>Transfers in slices\<close>

text \<open>Sending in one call, or through shared memory on the same host.\<close>

definition send_channel_slice_uhm :: "('e, 'w, 'hw) host \<Rightarrow> transfer_ctx \<Rightarrow> 'e app \<Rightarrow> 'w \<Rightarrow> ('e app \<times> 'w) run" where
  "send_channel_slice_uhm H x a w =
    (case h_now H w of (t0, w0) \<Rightarrow>
     if server_ip (conf a) = client_ip (conf a)
     then (case on_machine H (writeFromGpu (h_platform H) (app_buffer a) (gpu_data_ptr x) (ctx_size x) 0) w0 of (_, w1) \<Rightarrow>
       run_bind (on_comm (putP2p (h_class H) (sint (peer_rank (conf a))) 0 0 (ctx_size x)) a w1) (\<lambda>(_, a2, w2).
       case h_now H w2 of (t1, w3) \<Rightarrow> finished H (a2\<lparr> total_time := elapsed_us t0 t1 \<rparr>) w3))
     else run_bind (on_comm (sendDataTo (h_class H) (server_ip (conf a)) g_port (gpu_data_ptr x) (ctx_size x) DEFAULT RDMA) a w0)
       (\<lambda>(_, a1, w1). case h_now H w1 of (t1, w2) \<Rightarrow> finished H (a1\<lparr> total_time := elapsed_us t0 t1 \<rparr>) w2))"

text \<open>The loop of the three chunked modes: fill the buffer with the next chunk, put it at the start of
  the server's buffer, and tell the server in the modes that do.  \<open>fill\<close> gets the offset and size
  of the chunk; its result is ignored.  In mode \<^verbatim>\<open>rdma_cpu\<close> the clock starts after the copy.\<close>

primrec slice_loop ::
  "('e, 'w, 'hw) host \<Rightarrow> ('e app \<Rightarrow> size_t \<Rightarrow> size_t \<Rightarrow> 'w \<Rightarrow> 'w) \<Rightarrow> bool \<Rightarrow> bool \<Rightarrow> size_t \<Rightarrow> size_t \<Rightarrow> nat \<Rightarrow> size_t
     \<Rightarrow> 'e app \<Rightarrow> 'w \<Rightarrow> ('e app \<times> 'w) run" where
  "slice_loop H fill timed notify chunk len 0 sent a w = Ret (a, w)"
| "slice_loop H fill timed notify chunk len (Suc n) sent a w =
    (let send_size = min chunk (len - sent) in
     case (if timed then (case h_now H w of (t, w') \<Rightarrow> (t, fill a sent send_size w'))
           else h_now H (fill a sent send_size w)) of (t0, w1) \<Rightarrow>
     run_bind (on_comm (put (h_class H) (server_ip (conf a)) g_port 0 0 send_size RDMA) a w1) (\<lambda>(_, a2, w2).
     case h_now H w2 of (t1, w3) \<Rightarrow>
     slice_loop H fill timed notify chunk len n (sent + send_size)
       (a2\<lparr> total_time := total_time a2 + elapsed_us t0 t1 \<rparr>)
       (if notify then snd (ctrlSend (h_sockets H) (ctrl_mgr a2) (peer_rank (conf a2)) 1 w3) else w3)))"

text \<open>The number of chunks; a buffer of less than two bytes makes the code divide by zero.\<close>

definition slice_count :: "size_t \<Rightarrow> size_t \<Rightarrow> nat option" where
  "slice_count buf_size len =
    (let chunk_size = buf_size div 2
     in if chunk_size = 0 then None else Some (unat ((len + chunk_size - 1) div chunk_size)))"

definition send_slices ::
  "('e, 'w, 'hw) host \<Rightarrow> ('e app \<Rightarrow> size_t \<Rightarrow> size_t \<Rightarrow> 'w \<Rightarrow> 'w) \<Rightarrow> bool \<Rightarrow> bool \<Rightarrow> transfer_ctx \<Rightarrow> 'e app \<Rightarrow> 'w
     \<Rightarrow> ('e app \<times> 'w) run" where
  "send_slices H fill timed notify x a w =
    (case slice_count (app_buffer_size (conf a)) (ctx_size x) of
       None \<Rightarrow> Fault
     | Some n \<Rightarrow>
         run_bind (slice_loop H fill timed notify (app_buffer_size (conf a) div 2) (ctx_size x) n 0
             (a\<lparr> total_time := 0 \<rparr>) w) (\<lambda>(a1, w1). finished H a1 w1))"

definition send_channel_slice_serial :: "('e, 'w, 'hw) host \<Rightarrow> transfer_ctx \<Rightarrow> 'e app \<Rightarrow> 'w \<Rightarrow> ('e app \<times> 'w) run" where
  "send_channel_slice_serial H x = send_slices H (\<lambda>a sent n w.
     snd (on_machine H (writeFromGpu (h_platform H) (app_buffer a) (gpu_data_ptr x + sent) n 0) w)) True True x"

definition send_channel_slice_g2h2g :: "('e, 'w, 'hw) host \<Rightarrow> transfer_ctx \<Rightarrow> 'e app \<Rightarrow> 'w \<Rightarrow> ('e app \<times> 'w) run" where
  "send_channel_slice_g2h2g H x = send_slices H (\<lambda>a sent n w.
     snd (on_machine H (Memory_copyDeviceToHost (h_platform H) (gpu_mem_op a) (ptr (app_buffer a))
        (gpu_data_ptr x + sent) n) w)) True True x"

definition send_channel_slice_rdma_cpu :: "('e, 'w, 'hw) host \<Rightarrow> transfer_ctx \<Rightarrow> 'e app \<Rightarrow> 'w \<Rightarrow> ('e app \<times> 'w) run" where
  "send_channel_slice_rdma_cpu H x = send_slices H (\<lambda>a sent n w.
     snd (on_machine H (writeFromGpu (h_platform H) (app_buffer a) (gpu_data_ptr x + sent) n 0) w)) False False x"

text \<open>The UCX mode gives up without the closing message when a step fails.\<close>

definition send_channel_slice_ucx :: "('e, 'w, 'hw) host \<Rightarrow> transfer_ctx \<Rightarrow> 'e app \<Rightarrow> 'w \<Rightarrow> ('e app \<times> 'w) run" where
  "send_channel_slice_ucx H x a w =
    (let a0 = a\<lparr> total_time := 0 \<rparr> in
     case h_now H w of (t0, w0) \<Rightarrow>
     case on_machine H (writeFromCpu (h_platform H) (the (gpu_buffer a)) (cpu_data_ptr x) (ctx_size x) 0) w0 of (s1, w1) \<Rightarrow>
     if s1 \<noteq> SUCCESS then Ret (a0, w1)
     else case on_machine H (writeFromCpu (h_platform H) (app_buffer a) (cpu_data_ptr x) (ctx_size x) 0) w1 of (s2, w2) \<Rightarrow>
     if s2 \<noteq> SUCCESS then Ret (a0, w2)
     else run_bind (on_comm (put (h_class H) (server_ip (conf a)) g_port 0 0 (ctx_size x) UCX) a0 w2) (\<lambda>((st, _), a3, w3).
     case h_now H w3 of (t1, w4) \<Rightarrow>
     let a4 = a3\<lparr> total_time := elapsed_us t0 t1 \<rparr> in
     if st \<noteq> SUCCESS then Ret (a4, w4) else finished H a4 w4))"

section \<open>Pipelined transfer\<close>

lemma remaining_decreases:
  fixes r s :: size_t
  assumes "r \<noteq> 0" and "s \<noteq> 0"
  shows "unat (r - min r s) < unat r"
proof -
  have "0 < unat r" "0 < unat s" using assms by (simp_all add: unat_gt_0)
  moreover have "unat (min r s) = min (unat r) (unat s)" by (simp add: min_def word_le_nat_alt)
  ultimately show ?thesis by (simp add: unat_sub word_le_nat_alt)
qed

lemma max_one_nonzero: "max 1 (s :: size_t) \<noteq> 0"
  by (metis max.cobounded1 word_le_0_iff zero_neq_one)

function pipeline_windows ::
  "('e, 'w, 'hw) host \<Rightarrow> size_t \<Rightarrow> size_t \<Rightarrow> 'e app \<Rightarrow> 'w \<Rightarrow> (bool \<times> 'e app \<times> 'w) run" where
  "pipeline_windows H window remaining a w =
    (if remaining = 0 then Ret (True, a, w)
     else let step = min remaining (max 1 window) in
     run_bind (on_comm (putPipeline (h_class H) (h_verbs H) (h_env H) (server_ip (conf a)) g_port 0 0 step
         (pipeline_chunk_size (conf a)) (pipeline_max_inflight (conf a)) RDMA) a w) (\<lambda>((st, _), a1, w1).
     if st \<noteq> SUCCESS then Ret (False, a1, w1) else pipeline_windows H window (remaining - step) a1 w1))"
  by pat_completeness auto
termination
  by (relation "measure (\<lambda>(H, window, remaining, a, w). unat remaining)") (auto simp: remaining_decreases max_one_nonzero)

definition send_channel_slice_pipeline :: "('e, 'w, 'hw) host \<Rightarrow> transfer_ctx \<Rightarrow> 'e app \<Rightarrow> 'w \<Rightarrow> ('e app \<times> 'w) run" where
  "send_channel_slice_pipeline H x a w =
    (let a0 = a\<lparr> total_time := 0, g_last_transfer_ok := False \<rparr>; b = app_buffer a in
     if (gpu_data_ptr x = 0 \<and> cb_mem_type b \<noteq> CPU) \<or> ctx_size x = 0 then finished H a0 w
     else
       let first_step = min (ctx_size x) (max 1 (buffer_size b)) in
       case (if cb_mem_type b = CPU
             then on_machine H (writeFromCpu (h_platform H) b (cpu_data_ptr x) first_step 0) w
             else on_machine H (writeFromGpu (h_platform H) b (gpu_data_ptr x) first_step 0) w) of (st, w1) \<Rightarrow>
       if st \<noteq> SUCCESS then finished H a0 w1
       else case h_now H w1 of (t0, w2) \<Rightarrow>
       run_bind (pipeline_windows H (buffer_size b) (ctx_size x) a0 w2) (\<lambda>(ok, a3, w3).
       if \<not> ok then finished H a3 w3
       else case h_now H w3 of (t1, w4) \<Rightarrow>
         finished H (a3\<lparr> total_time := elapsed_us t0 t1, g_last_transfer_ok := True \<rparr>) w4))"

section \<open>Staged transfer\<close>

text \<open>The loops of \<^verbatim>\<open>send_channel_slice_write_stage\<close>, over the three operations they call: \<open>copy\<close> into
  the buffer, \<open>post\<close> a non-blocking put, \<open>wait_id\<close> for its identifier.  Slot \<open>i\<close> of the buffer starts at
  \<open>i\<close> times the chunk size; \<open>inflight\<close> has the identifier last posted from each slot, 0 for none.  The
  chunk size is at least one in every call.\<close>

definition wait_slot :: "(u64 \<Rightarrow> 's \<Rightarrow> (bool \<times> 's) run) \<Rightarrow> u64 \<Rightarrow> 's \<Rightarrow> (bool \<times> 's) run" where
  "wait_slot wait_id wid s = (if wid = 0 then Ret (True, s) else wait_id wid s)"

definition stage_round ::
  "(addr \<Rightarrow> addr \<Rightarrow> size_t \<Rightarrow> 's \<Rightarrow> status_t \<times> 's) \<Rightarrow> (size_t \<Rightarrow> size_t \<Rightarrow> size_t \<Rightarrow> 's \<Rightarrow> ((status_t \<times> u64) \<times> 's) run)
     \<Rightarrow> (u64 \<Rightarrow> 's \<Rightarrow> (bool \<times> 's) run) \<Rightarrow> addr \<Rightarrow> addr \<Rightarrow> size_t \<Rightarrow> size_t \<Rightarrow> size_t \<Rightarrow> u64 \<Rightarrow> 's \<Rightarrow> (u64 option \<times> 's) run" where
  "stage_round copy post wait_id buf src off src_off step old s =
    run_bind (wait_slot wait_id old s) (\<lambda>(ok, s1).
    if \<not> ok then Ret (None, s1)
    else case copy (buf + off) (src + src_off) step s1 of (st, s2) \<Rightarrow>
    if st \<noteq> SUCCESS then Ret (None, s2)
    else run_bind (post off off step s2) (\<lambda>((st2, wid), s3). Ret (if st2 \<noteq> SUCCESS then None else Some wid, s3)))"

function stage_loop ::
  "(addr \<Rightarrow> addr \<Rightarrow> size_t \<Rightarrow> 's \<Rightarrow> status_t \<times> 's) \<Rightarrow> (size_t \<Rightarrow> size_t \<Rightarrow> size_t \<Rightarrow> 's \<Rightarrow> ((status_t \<times> u64) \<times> 's) run)
     \<Rightarrow> (u64 \<Rightarrow> 's \<Rightarrow> (bool \<times> 's) run) \<Rightarrow> addr \<Rightarrow> addr \<Rightarrow> size_t \<Rightarrow> size_t \<Rightarrow> size_t \<Rightarrow> size_t \<Rightarrow> size_t \<Rightarrow> size_t \<Rightarrow> u64 list
     \<Rightarrow> 's \<Rightarrow> ((bool \<times> u64 list) \<times> 's) run" where
  "stage_loop copy post wait_id buf src c slots src_window len sent idx inflight s =
    (if sent < len
     then
       let chunk = max 1 c; slot = idx mod slots; step = min (len - sent) chunk
       in run_bind (stage_round copy post wait_id buf src (slot * chunk) (sent mod src_window) step (inflight ! unat slot) s)
         (\<lambda>(r, s1). case r of
              None \<Rightarrow> Ret ((False, inflight), s1)
            | Some wid \<Rightarrow> stage_loop copy post wait_id buf src c slots src_window len (sent + step) (idx + 1)
                (inflight[unat slot := wid]) s1)
     else Ret ((True, inflight), s))"
  by pat_completeness auto
termination
proof (relation "measure (\<lambda>(copy, post, wait_id, buf, src, c, slots, src_window, len, sent, idx, inflight, s).
    unat (len - sent))", simp, goal_cases)
  case (1 copy post wait_id buf src c slots src_window len sent idx inflight s)
  then have "unat (len - (sent + min (len - sent) (max 1 c))) < unat (len - sent)"
    using remaining_decreases [of "len - sent" "max 1 c"] by (simp add: max_one_nonzero diff_diff_eq [symmetric])
  with 1 show ?case by simp
qed

declare stage_loop.simps [simp del]

primrec drain_slots :: "(u64 \<Rightarrow> 's \<Rightarrow> (bool \<times> 's) run) \<Rightarrow> u64 list \<Rightarrow> 's \<Rightarrow> (bool \<times> 's) run" where
  "drain_slots wait_id [] s = Ret (True, s)"
| "drain_slots wait_id (i # is) s =
    run_bind (wait_slot wait_id i s) (\<lambda>(ok, s1). if ok then drain_slots wait_id is s1 else Ret (False, s1))"

text \<open>Chunk size and number of slots for a buffer of at least two bytes.\<close>

definition stage_chunk :: "app_settings \<Rightarrow> size_t \<Rightarrow> size_t" where
  "stage_chunk f buf_size = max 1 (min (stage_chunk_size f) (buf_size div 2))"

definition stage_slot_count :: "app_settings \<Rightarrow> size_t \<Rightarrow> size_t" where
  "stage_slot_count f buf_size =
    (let slots_by_buf = max 1 (buf_size div stage_chunk f buf_size)
     in max 1 (if stage_slots f = 0 then slots_by_buf else min (stage_slots f) slots_by_buf))"

text \<open>Both loops, from an empty table.\<close>

definition staged_transfer where
  "staged_transfer copy post wait_id buf src chunk slots src_window len s =
    run_bind (stage_loop copy post wait_id buf src chunk slots src_window len 0 0 (replicate (unat slots) 0) s)
      (\<lambda>((ok, inflight), s1). if \<not> ok then Ret (False, s1) else drain_slots wait_id inflight s1)"

definition stage_copy :: "('e, 'w, 'hw) host \<Rightarrow> addr \<Rightarrow> addr \<Rightarrow> size_t \<Rightarrow> 'e app \<times> 'w \<Rightarrow> status_t \<times> 'e app \<times> 'w" where
  "stage_copy H dest src n s =
    (case s of (a, w) \<Rightarrow>
       (case on_machine H (Memory_copyDeviceToHost (h_platform H) (gpu_mem_op a) dest src n) w of (st, w1) \<Rightarrow> (st, a, w1)))"

definition stage_post ::
  "('e, 'w, 'hw) host \<Rightarrow> size_t \<Rightarrow> size_t \<Rightarrow> size_t \<Rightarrow> 'e app \<times> 'w \<Rightarrow> ((status_t \<times> u64) \<times> 'e app \<times> 'w) run" where
  "stage_post H local_off remote_off n s =
    (case s of (a, w) \<Rightarrow> on_comm (putNB (h_class H) (server_ip (conf a)) g_port local_off remote_off n RDMA) a w)"

definition stage_wait :: "('e, 'w, 'hw) host \<Rightarrow> u64 \<Rightarrow> 'e app \<times> 'w \<Rightarrow> (bool \<times> 'e app \<times> 'w) run" where
  "stage_wait H wid s =
    (case s of (a, w) \<Rightarrow>
       run_bind (on_comm (wait_all (h_class H) (h_order H) [wid]) a w) (\<lambda>((st, _), s1). Ret (st = SUCCESS, s1)))"

definition send_channel_slice_write_stage ::
  "('e, 'w, 'hw) host \<Rightarrow> transfer_ctx \<Rightarrow> 'e app \<Rightarrow> 'w \<Rightarrow> ('e app \<times> 'w) run" where
  "send_channel_slice_write_stage H x a w =
    (let a0 = a\<lparr> total_time := 0, g_last_transfer_ok := False \<rparr>; b = app_buffer a in
     if gpu_data_ptr x = 0 \<or> ctx_size x = 0 then finished H a0 w
     else if ptr b = 0 \<or> buffer_size b < 2 then finished H a0 w
     else
       let chunk = stage_chunk (conf a) (buffer_size b); slots = stage_slot_count (conf a) (buffer_size b);
           src_window = max 1 (min (ctx_size x) (stage_src_window (conf a)))
       in case h_now H w of (t0, w1) \<Rightarrow>
          run_bind (staged_transfer (stage_copy H) (stage_post H) (stage_wait H) (ptr b) (gpu_data_ptr x) chunk slots
              src_window (ctx_size x) (a0, w1)) (\<lambda>(ok, a2, w2).
          if \<not> ok then finished H a2 w2
          else case h_now H w2 of (t1, w3) \<Rightarrow>
            finished H (a2\<lparr> total_time := elapsed_us t0 t1, g_last_transfer_ok := True \<rparr>) w3))"

section \<open>Settings\<close>

definition DEFAULT_IP :: string where "DEFAULT_IP = ''192.168.2.243''"

definition app_modes :: "string list" where
  "app_modes = [''uhm'', ''serial'', ''g2h2g'', ''rdma_cpu'', ''ucx'', ''pipeline'', ''write'', ''write_cpu'', ''write_stage'']"

text \<open>The arguments after the program's name.\<close>

fun get_mode_from_args :: "string list \<Rightarrow> string outcome" where
  "get_mode_from_args (x # y # rest) =
    (if x = ''--mode'' then if y \<in> set app_modes then Return y else Exit 1 else get_mode_from_args (y # rest))"
| "get_mode_from_args _ = Return ''uhm''"

definition cpu_buffer_modes :: "string list" where
  "cpu_buffer_modes = [''g2h2g'', ''ucx'', ''write_cpu'', ''write_stage'']"

definition pipeline_modes :: "string list" where
  "pipeline_modes = [''pipeline'', ''write'', ''write_cpu'', ''write_stage'']"

definition one_MB :: size_t where "one_MB = 1048576"

definition buffer_size_setting :: "environ \<Rightarrow> string \<Rightarrow> size_t" where
  "buffer_size_setting env mode =
    (let default_buf_mb = (if mode \<in> set cpu_buffer_modes then 128 else 32);
         mb = get_env_u32_or_default env ''BUFFER_SIZE_MB'' default_buf_mb
     in ucast (if mb = 0 then default_buf_mb else mb) * one_MB)"

text \<open>The client's settings; \<open>self\<close> and \<open>peer\<close> are the default ranks, 1 and 0 here, 0 and 1 in the
  server, which reads the same variables except those of the staged mode.  The number of channels is only
  handed on to the RDMA client and server, which are behind \<open>h_class\<close>.\<close>

definition read_settings :: "environ \<Rightarrow> string \<Rightarrow> CtrlId \<Rightarrow> CtrlId \<Rightarrow> app_settings" where
  "read_settings env mode self peer =
    (let addr_of = (\<lambda>name dflt. get_env_or_default env name (get_env_or_default env dflt DEFAULT_IP));
         sip = addr_of ''SERVER_IP'' ''DEFAULT_SERVER_IP''; cip = addr_of ''CLIENT_IP'' ''DEFAULT_CLIENT_IP'';
         me = get_env_u32_or_default env ''SELF_RANK'' self;
         pipe = mode \<in> set pipeline_modes; stage = mode = ''write_stage'';
         src_mb = get_env_u32_or_default env ''STAGE_SRC_WINDOW_MB'' 32
     in \<lparr> server_ip = sip, client_ip = cip, tcp_server_ip = addr_of ''TCP_SERVER_IP'' ''DEFAULT_TCP_IP'',
          self_rank = me, peer_rank = get_env_u32_or_default env ''PEER_RANK'' peer,
          device_id = (if sip = cip then sint me else 0),
          num_channels = get_env_u32_or_default env ''NUM_CHANNELS'' 1,
          pipeline_chunk_size = (if pipe then ucast (get_env_u32_or_default env ''PIPELINE_CHUNK'' 4194304) else 4194304),
          pipeline_max_inflight = (if pipe then ucast (get_env_u32_or_default env ''PIPELINE_INFLIGHT'' 64) else 64),
          stage_chunk_size = (if stage then ucast (get_env_u32_or_default env ''STAGE_CHUNK'' 8388608) else 8388608),
          stage_slots = (if stage then ucast (get_env_u32_or_default env ''STAGE_SLOTS'' 0) else 0),
          stage_src_window = (if stage then ucast (if src_mb = 0 then 32 else src_mb) * one_MB else 33554432),
          app_buffer_size = buffer_size_setting env mode \<rparr>)"

definition client_settings :: "environ \<Rightarrow> string \<Rightarrow> app_settings" where
  "client_settings env mode = read_settings env mode 1 0"

text \<open>The powers of two the sizes run through, in \<^verbatim>\<open>int\<close>.\<close>

definition power_range :: "environ \<Rightarrow> string \<Rightarrow> int list" where
  "power_range env mode =
    (let lo = max 1 (sint (get_env_u32_or_default env ''MIN_POWER'' 5));
         hi = sint (get_env_u32_or_default env ''MAX_POWER'' (if mode \<in> set pipeline_modes then 29 else 26))
     in [lo..max lo hi])"

section \<open>Start and connection\<close>

text \<open>A C++ exception that nothing catches, or an exit, ends the program.\<close>

definition make_memory :: "('e, 'w, 'hw) host \<Rightarrow> int \<Rightarrow> MemoryType \<Rightarrow> 'w \<Rightarrow> Memory outcome \<times> 'w" where
  "make_memory H dev t w =
    (case on_machine H (setDeviceIdAndMemoryType (h_platform H) dev t) w of
       (Return (_, mo), w1) \<Rightarrow> (Return mo, w1)
     | (Throw e, w1) \<Rightarrow> (Throw e, w1)
     | (Exit n, w1) \<Rightarrow> (Exit n, w1))"

definition outcome_bind :: "'a outcome \<times> 'w \<Rightarrow> ('a \<Rightarrow> 'w \<Rightarrow> 'b outcome \<times> 'w) \<Rightarrow> 'b outcome \<times> 'w" where
  "outcome_bind r f = (case r of (Return x, w) \<Rightarrow> f x w | (Throw e, w) \<Rightarrow> (Throw e, w) | (Exit n, w) \<Rightarrow> (Exit n, w))"

text \<open>The communication buffer of a mode, and the second one that only the UCX client has.\<close>

definition make_buffer :: "('e, 'w, 'hw) host \<Rightarrow> app_settings \<Rightarrow> string \<Rightarrow> 'w \<Rightarrow> ConnBuffer outcome \<times> 'w" where
  "make_buffer H f mode w =
    (if mode \<in> set cpu_buffer_modes then on_machine H (new_ConnBuffer (h_platform H) 0 (app_buffer_size f) CPU) w
     else on_machine H (new_ConnBuffer (h_platform H) (device_id f) (app_buffer_size f) DEFAULT) w)"

definition client_start :: "('e, 'w, 'hw) host \<Rightarrow> string \<Rightarrow> CtrlSocketManager \<Rightarrow> 'w \<Rightarrow> 'e app outcome \<times> 'w" where
  "client_start H mode m w =
    (let f = client_settings (h_env H) mode in
     outcome_bind (make_memory H (device_id f) DEFAULT w) (\<lambda>gpu w.
     outcome_bind (make_memory H 0 CPU w) (\<lambda>_ w.
     outcome_bind (make_buffer H f mode w) (\<lambda>b w.
     outcome_bind (if mode = ''ucx''
         then (case on_machine H (new_ConnBuffer (h_platform H) (device_id f) (app_buffer_size f) DEFAULT) w of
                 (r, w1) \<Rightarrow> (case r of Return g \<Rightarrow> Return (Some g) | Throw e \<Rightarrow> Throw e | Exit n \<Rightarrow> Exit n, w1))
         else (Return None, w)) (\<lambda>g w.
       (Return \<lparr> conf = f, comm = new_Communicator b, ctrl_mgr = m, ctrl_sock = - 1, app_buffer = b, gpu_buffer = g,
          gpu_mem_op = gpu, total_time = 0, g_last_transfer_ok = True \<rparr>, w))))))"

definition conn_type_of :: "string \<Rightarrow> ConnType" where
  "conn_type_of mode = (if mode = ''ucx'' then UCX else RDMA)"

text \<open>\<open>n\<close> attempts to reach the control server, a second apart.\<close>

primrec connect_control_retry :: "nat \<Rightarrow> ('e, 'w, 'hw) host \<Rightarrow> 'e app \<Rightarrow> 'w \<Rightarrow> bool \<times> 'e app \<times> 'w" where
  "connect_control_retry 0 H a w = (False, a, w)"
| "connect_control_retry (Suc n) H a w =
    (case connect_control_server H (tcp_server_ip (conf a)) ctrl_port a w of (ok, a1, w1) \<Rightarrow>
       if ok then (True, a1, w1) else connect_control_retry n H a1 w1)"

definition uds_path_of :: "environ \<Rightarrow> CtrlId \<Rightarrow> string" where
  "uds_path_of env rank = udsPathFor (get_env_or_default env ''CTRL_UDS_DIR'' ''/tmp'') rank"

text \<open>The memory type announced to \<^verbatim>\<open>connectP2p\<close>.\<close>

definition p2p_mem_type :: "ConnBuffer \<Rightarrow> MemoryType" where
  "p2p_mem_type b = (case mem_ops b of None \<Rightarrow> DEFAULT | Some mo \<Rightarrow> Memory_getMemoryType mo)"

text \<open>The same-host branch of both programs after the peer has been heard of: the control link over a
  Unix socket and the exchange of memory handles, whose results are ignored.\<close>

definition link_same_host :: "(any_endpoint, 'w, 'hw) host \<Rightarrow> any_endpoint app \<Rightarrow> 'w \<Rightarrow> any_endpoint app \<times> 'w" where
  "link_same_host H a w =
    (let f = conf a;
         link = \<lparr> l_transport = UDS, l_ip = [], l_port = 0, l_uds_path = uds_path_of (h_env H) (peer_rank f) \<rparr>
     in case connectCtrl (h_sockets H) (peer_rank f) (self_rank f) link (ctrl_mgr a) w of (_, m1, w1) \<Rightarrow>
        case connectP2p (h_p2p H) (h_class H) (h_sockets H) (peer_rank f) (self_rank f) (device_id f)
            (p2p_mem_type (app_buffer a)) (comm a, m1, w1) of (_, c, m2, w2) \<Rightarrow>
          (a\<lparr> comm := c, ctrl_mgr := m2 \<rparr>, w2))"

definition client_link ::
  "(any_endpoint, 'w, 'hw) host \<Rightarrow> string \<Rightarrow> any_endpoint app \<Rightarrow> 'w \<Rightarrow> (bool \<times> any_endpoint app \<times> 'w) run" where
  "client_link H mode a w =
    (let f = conf a in
     if server_ip f = client_ip f
     then (case initCtrlServer (h_sockets H) ''127.0.0.1'' 0 (uds_path_of (h_env H) (self_rank f)) (ctrl_mgr a) w of
             (_, m1, w1) \<Rightarrow>
           (case connect_control_server H (tcp_server_ip f) ctrl_port (a\<lparr> ctrl_mgr := m1 \<rparr>) w1 of (ok, a2, w2) \<Rightarrow>
             if \<not> ok then Ret (False, a2, w2)
             else Ret (True, link_same_host H a2 (snd (send_control_message H ''START'' a2 w2)))))
     else
       let link = \<lparr> l_transport = TCP, l_ip = server_ip f, l_port = ctrl_port + 1, l_uds_path = [] \<rparr>
       in run_bind (connectTo (h_class H) (h_sockets H) (peer_rank f) (self_rank f) (server_ip f) g_port link
              (conn_type_of mode) (comm a, ctrl_mgr a, w)) (\<lambda>(st, c, m1, w1).
          let a1 = a\<lparr> comm := c, ctrl_mgr := m1 \<rparr>
          in if st \<noteq> SUCCESS then Ret (False, a1, w1) else Ret (connect_control_retry 7 H a1 w1)))"

section \<open>The measuring loop\<close>

definition fill_bytes :: "addr \<Rightarrow> size_t \<Rightarrow> u8 \<Rightarrow> memory \<Rightarrow> memory" where
  "fill_bytes dest n v mem = (\<lambda>x. if x - dest < n then v else mem x)"

definition new_vector :: "('e, 'w, 'hw) host \<Rightarrow> size_t \<Rightarrow> u8 \<Rightarrow> 'w \<Rightarrow> addr \<times> 'w" where
  "new_vector H n v = on_machine H (\<lambda>m. case op_new (lc (h_platform H)) n m of (p, m1) \<Rightarrow>
     (p, m1\<lparr> ram := fill_bytes p n v (ram m1) \<rparr>))"

definition delete_vector :: "('e, 'w, 'hw) host \<Rightarrow> addr \<Rightarrow> 'w \<Rightarrow> 'w" where
  "delete_vector H p w = snd (on_machine H (\<lambda>m. ((), op_delete (lc (h_platform H)) p m)) w)"

definition send_func :: "('e, 'w, 'hw) host \<Rightarrow> string \<Rightarrow> transfer_ctx \<Rightarrow> 'e app \<Rightarrow> 'w \<Rightarrow> ('e app \<times> 'w) run" where
  "send_func H mode =
    (if mode = ''serial'' then send_channel_slice_serial H
     else if mode = ''g2h2g'' then send_channel_slice_g2h2g H
     else if mode = ''rdma_cpu'' then send_channel_slice_rdma_cpu H
     else if mode = ''ucx'' then send_channel_slice_ucx H
     else if mode = ''pipeline'' \<or> mode = ''write'' \<or> mode = ''write_cpu'' then send_channel_slice_pipeline H
     else if mode = ''write_stage'' then send_channel_slice_write_stage H
     else send_channel_slice_uhm H)"

text \<open>How much of the data of a transfer the client keeps in memory.\<close>

definition source_size :: "app_settings \<Rightarrow> ConnBuffer \<Rightarrow> string \<Rightarrow> size_t \<Rightarrow> size_t" where
  "source_size f b mode total_size =
    (if mode = ''write_stage'' then min total_size (stage_src_window f)
     else if mode = ''write'' \<or> mode = ''pipeline'' \<or> mode = ''write_cpu'' then min total_size (buffer_size b)
     else total_size)"

text \<open>The device memory of a round: its address, null in mode \<^verbatim>\<open>write_cpu\<close>, or nothing when the round
  ends here.\<close>

definition device_source ::
  "('e, 'w, 'hw) host \<Rightarrow> string \<Rightarrow> addr \<Rightarrow> size_t \<Rightarrow> 'e app \<Rightarrow> 'w \<Rightarrow> addr option \<times> 'e app \<times> 'w" where
  "device_source H mode host_data n a w =
    (if mode = ''write_cpu'' then (Some 0, a, w)
     else case on_machine H (Memory_allocateBuffer (h_platform H) (gpu_mem_op a) n) w of ((st, p, mo), w1) \<Rightarrow>
     let a1 = a\<lparr> gpu_mem_op := mo \<rparr>; dev = (case p of None \<Rightarrow> 0 | Some q \<Rightarrow> q) in
     if st \<noteq> SUCCESS \<or> dev = 0 then (None, a1, w1)
     else case on_machine H (Memory_copyHostToDevice (h_platform H) mo dev host_data n) w1 of (st2, w2) \<Rightarrow>
     if st2 \<noteq> SUCCESS then (None, a1, snd (on_machine H (Memory_freeBuffer (h_platform H) mo dev) w2))
     else (Some dev, a1, w2))"

text \<open>One size; \<open>False\<close> ends the loop.  A shift by the width of \<^verbatim>\<open>size_t\<close> or more is undefined.\<close>

definition client_round :: "('e, 'w, 'hw) host \<Rightarrow> string \<Rightarrow> int \<Rightarrow> 'e app \<Rightarrow> 'w \<Rightarrow> (bool \<times> 'e app \<times> 'w) run" where
  "client_round H mode e2 a w =
    (if 64 \<le> e2 then Fault else
     let total_size = push_bit (nat e2) 1; src_size = source_size (conf a) (app_buffer a) mode total_size in
     case new_vector H src_size 65 w of (host_data, w1) \<Rightarrow>
     case device_source H mode host_data src_size a w1 of
       (None, a2, w2) \<Rightarrow> Ret (False, a2, delete_vector H host_data w2)
     | (Some dev, a2, w2) \<Rightarrow>
         run_bind (send_func H mode \<lparr> cpu_data_ptr = host_data, gpu_data_ptr = dev, ctx_size = total_size \<rparr>
            (a2\<lparr> g_last_transfer_ok := True \<rparr>) w2) (\<lambda>(a3, w3).
         Ret ((g_last_transfer_ok a3 \<and> 0 < total_time a3), a3, delete_vector H host_data
            (if dev = 0 then w3 else snd (on_machine H (Memory_freeBuffer (h_platform H) (gpu_mem_op a3) dev) w3)))))"

primrec client_rounds :: "('e, 'w, 'hw) host \<Rightarrow> string \<Rightarrow> int list \<Rightarrow> 'e app \<Rightarrow> 'w \<Rightarrow> ('e app \<times> 'w) run" where
  "client_rounds H mode [] a w = Ret (a, w)"
| "client_rounds H mode (p # ps) a w =
    run_bind (client_round H mode p a w) (\<lambda>(go, a1, w1). if go then client_rounds H mode ps a1 w1 else Ret (a1, w1))"

text \<open>The program: its exit code.  \<open>order\<close> is the order in which the destructor walks the tables.\<close>

definition client_main ::
  "(any_endpoint, 'w, 'hw) host \<Rightarrow> string list \<Rightarrow> ptr list \<Rightarrow> CtrlSocketManager \<Rightarrow> 'w \<Rightarrow> (int outcome \<times> 'w) run" where
  "client_main H args order m w =
    (case get_mode_from_args args of
       Throw e \<Rightarrow> Ret (Throw e, w)
     | Exit n \<Rightarrow> Ret (Exit n, w)
     | Return mode \<Rightarrow>
         (case client_start H mode m w of
            (Throw e, w1) \<Rightarrow> Ret (Throw e, w1)
          | (Exit n, w1) \<Rightarrow> Ret (Exit n, w1)
          | (Return a, w1) \<Rightarrow>
              run_bind (client_link H mode a w1) (\<lambda>(ok, a2, w2).
              if \<not> ok then Ret (Return (- 1), w2)
              else run_bind (client_rounds H mode (power_range (h_env H) mode) a2 w2) (\<lambda>(a3, w3).
              run_bind (disConnect (h_class H) (server_ip (conf a3)) g_port (conn_type_of mode) (comm a3) w3)
                (\<lambda>(_, c, w4).
              case close_control_connection H (a3\<lparr> comm := c \<rparr>) w4 of (a5, w5) \<Rightarrow>
              case delete_Communicator (h_class H) order (comm a5) w5 of (_, w6) \<Rightarrow> Ret (Return 0, w6))))))"

end
