(* ===== verification/Hmc_AppServer.thy ===== *)
theory Hmc_AppServer
  imports Hmc_App "HOL-Library.Sublist"
begin

text \<open>
  The benchmark server apps/uhm_app/server.cpp: the control socket it accepts, what it does in each mode
  while the client transfers, and the check of the received bytes.  It shares its globals, settings and
  parameters with the client (theory \<open>Hmc_App\<close>); the stage settings are the client's only.  The verdicts
  it prints are the results of the rounds.
\<close>

section \<open>The control socket\<close>

text \<open>Every failure exits the program with \<^verbatim>\<open>EXIT_FAILURE\<close>.\<close>

definition setup_tcp_control_socket :: "('e, 'w, 'hw) host \<Rightarrow> u16 \<Rightarrow> string \<Rightarrow> 'w \<Rightarrow> int outcome \<times> 'w" where
  "setup_tcp_control_socket H port bind_addr w =
    (case sys_socket (h_sockets H) AF_INET w of (fd, w1) \<Rightarrow>
     if fd = - 1 then (Exit 1, w1)
     else if \<not> inet_pton_ok (h_sockets H) bind_addr then (Exit 1, w1)
     else case sys_bind (h_sockets H) fd (Inet bind_addr port) w1 of (rc, w2) \<Rightarrow>
     if rc < 0 then (Exit 1, w2)
     else case sys_listen (h_sockets H) fd w2 of (rc2, w3) \<Rightarrow>
     if rc2 < 0 then (Exit 1, w3)
     else case sys_accept (h_sockets H) fd w3 of (new_socket, w4) \<Rightarrow>
     if new_socket < 0 then (Exit 1, w4) else (Return new_socket, sys_close (h_sockets H) fd w4))"

text \<open>The bytes up to the first zero, when there is one.\<close>

definition c_string :: "u8 list \<Rightarrow> u8 list option" where
  "c_string bs = (if 0 \<in> set bs then Some (takeWhile (\<lambda>b. b \<noteq> 0) bs) else None)"

text \<open>The sixteen bytes are cleared before they are read into.  Without a zero among them the string
  constructor runs past their end, which is \<open>Fault\<close>.\<close>

definition wait_for_control_message :: "('e, 'w, 'hw) host \<Rightarrow> int \<Rightarrow> 'w \<Rightarrow> (bool \<times> 'w) run" where
  "wait_for_control_message H fd w =
    (case sys_recv (h_sockets H) fd 16 w of ((valread, bs), w1) \<Rightarrow>
       if valread \<le> 0 then Ret (False, w1)
       else case c_string (bs @ replicate (16 - length bs) 0) of
         None \<Rightarrow> Fault
       | Some s \<Rightarrow> Ret (sublist (ascii ''Finished'') s, w1))"

text \<open>The last statement of a mode, whose result is ignored.\<close>

definition await_finished :: "('e, 'w, 'hw) host \<Rightarrow> 'e app \<Rightarrow> 'w \<Rightarrow> ('e app \<times> 'w) run" where
  "await_finished H a w = run_bind (wait_for_control_message H (ctrl_sock a) w) (\<lambda>(_, w1). Ret (a, w1))"

definition close_control_socket :: "('e, 'w, 'hw) host \<Rightarrow> 'e app \<Rightarrow> 'w \<Rightarrow> 'e app \<times> 'w" where
  "close_control_socket H a w =
    (if ctrl_sock a \<ge> 0 then (a\<lparr> ctrl_sock := - 1 \<rparr>, sys_close (h_sockets H) (ctrl_sock a) w) else (a, w))"

section \<open>Receiving\<close>

text \<open>\<open>flag\<close> is the address of the local variable the result flag is stored in.\<close>

definition recv_channel_slice_uhm :: "('e, 'w, 'hw) host \<Rightarrow> addr \<Rightarrow> transfer_ctx \<Rightarrow> 'e app \<Rightarrow> 'w \<Rightarrow> ('e app \<times> 'w) run" where
  "recv_channel_slice_uhm H flag x a w =
    (if server_ip (conf a) = client_ip (conf a) then await_finished H a w
     else run_bind (on_comm (recvDataFrom (h_class H) (client_ip (conf a)) 0 (gpu_data_ptr x) (ctx_size x) DEFAULT flag RDMA) a w)
       (\<lambda>(_, a1, w1). await_finished H a1 w1))"

text \<open>One control message with tag 1 per chunk; \<open>False\<close> when one fails to come.\<close>

primrec recv_tags :: "('e, 'w, 'hw) host \<Rightarrow> nat \<Rightarrow> 'e app \<Rightarrow> 'w \<Rightarrow> bool \<times> 'w" where
  "recv_tags H 0 a w = (True, w)"
| "recv_tags H (Suc n) a w =
    (case ctrlRecv (h_sockets H) (ctrl_mgr a) (peer_rank (conf a)) w of ((st, tag), w1) \<Rightarrow>
       if st \<noteq> SUCCESS \<or> tag \<noteq> Some 1 then (False, w1) else recv_tags H n a w1)"

definition recv_slices :: "('e, 'w, 'hw) host \<Rightarrow> transfer_ctx \<Rightarrow> 'e app \<Rightarrow> 'w \<Rightarrow> ('e app \<times> 'w) run" where
  "recv_slices H x a w =
    (case slice_count (app_buffer_size (conf a)) (ctx_size x) of
       None \<Rightarrow> Fault
     | Some n \<Rightarrow> (case recv_tags H n a w of (ok, w1) \<Rightarrow> if \<not> ok then Ret (a, w1) else await_finished H a w1))"

definition recv_channel_slice_serial :: "('e, 'w, 'hw) host \<Rightarrow> transfer_ctx \<Rightarrow> 'e app \<Rightarrow> 'w \<Rightarrow> ('e app \<times> 'w) run" where
  "recv_channel_slice_serial H x a w = recv_slices H x a w"

definition recv_channel_slice_g2h2g :: "('e, 'w, 'hw) host \<Rightarrow> transfer_ctx \<Rightarrow> 'e app \<Rightarrow> 'w \<Rightarrow> ('e app \<times> 'w) run" where
  "recv_channel_slice_g2h2g H x a w = recv_slices H x a w"

definition recv_channel_slice_rdma_cpu :: "('e, 'w, 'hw) host \<Rightarrow> transfer_ctx \<Rightarrow> 'e app \<Rightarrow> 'w \<Rightarrow> ('e app \<times> 'w) run" where
  "recv_channel_slice_rdma_cpu H x a w = await_finished H a w"

definition recv_channel_slice_ucx :: "('e, 'w, 'hw) host \<Rightarrow> transfer_ctx \<Rightarrow> 'e app \<Rightarrow> 'w \<Rightarrow> ('e app \<times> 'w) run" where
  "recv_channel_slice_ucx H x a w =
    run_bind (wait_for_control_message H (ctrl_sock a) w) (\<lambda>(ok, w1).
    if \<not> ok then Ret (a, w1)
    else case on_machine H (readToCpu (h_platform H) (app_buffer a) (cpu_data_ptr x) (ctx_size x) 0) w1 of (st, w2) \<Rightarrow>
      if st \<noteq> SUCCESS then Ret (a, w2)
      else Ret (a, snd (on_machine H (Memory_copyHostToDevice (h_platform H) (gpu_mem_op a) (gpu_data_ptr x)
        (cpu_data_ptr x) (ctx_size x)) w2)))"

definition recv_channel_slice_pipeline :: "('e, 'w, 'hw) host \<Rightarrow> transfer_ctx \<Rightarrow> 'e app \<Rightarrow> 'w \<Rightarrow> ('e app \<times> 'w) run" where
  "recv_channel_slice_pipeline H x a w = await_finished H a w"

definition recv_func :: "('e, 'w, 'hw) host \<Rightarrow> addr \<Rightarrow> string \<Rightarrow> transfer_ctx \<Rightarrow> 'e app \<Rightarrow> 'w \<Rightarrow> ('e app \<times> 'w) run" where
  "recv_func H flag mode =
    (if mode = ''serial'' then recv_channel_slice_serial H
     else if mode = ''g2h2g'' then recv_channel_slice_g2h2g H
     else if mode = ''rdma_cpu'' then recv_channel_slice_rdma_cpu H
     else if mode = ''ucx'' then recv_channel_slice_ucx H
     else if mode \<in> set pipeline_modes then recv_channel_slice_pipeline H
     else recv_channel_slice_uhm H flag)"

section \<open>Start and link\<close>

definition server_settings :: "environ \<Rightarrow> string \<Rightarrow> app_settings" where
  "server_settings env mode = read_settings env mode 0 1"

definition server_start :: "('e, 'w, 'hw) host \<Rightarrow> string \<Rightarrow> CtrlSocketManager \<Rightarrow> 'w \<Rightarrow> 'e app outcome \<times> 'w" where
  "server_start H mode m w =
    (let f = server_settings (h_env H) mode in
     outcome_bind (make_memory H (device_id f) DEFAULT w) (\<lambda>gpu w.
     outcome_bind (make_memory H 0 CPU w) (\<lambda>_ w.
     outcome_bind (make_buffer H f mode w) (\<lambda>b w.
       (Return \<lparr> conf = f, comm = new_Communicator b, ctrl_mgr = m, ctrl_sock = - 1, app_buffer = b, gpu_buffer = None,
          gpu_mem_op = gpu, total_time = 0, g_last_transfer_ok = True \<rparr>, w)))))"

text \<open>\<^verbatim>\<open>ip\<close> is where the control server of the same-host branch would listen; with port 0 it does not.\<close>

definition server_link ::
  "(any_endpoint, 'w, 'hw) host \<Rightarrow> string \<Rightarrow> any_endpoint app \<Rightarrow> 'w \<Rightarrow> (bool \<times> any_endpoint app) outcome \<times> 'w" where
  "server_link H mode a w =
    (let f = conf a; sk = h_sockets H in
     if server_ip f = client_ip f
     then (case initCtrlServer sk (server_ip f) 0 (uds_path_of (h_env H) (self_rank f)) (ctrl_mgr a) w of (_, m1, w1) \<Rightarrow>
       outcome_bind (setup_tcp_control_socket H ctrl_port (tcp_server_ip f) w1) (\<lambda>fd w2.
       case sys_recv sk fd 8 w2 of (_, w3) \<Rightarrow>
       case link_same_host H (a\<lparr> ctrl_mgr := m1, ctrl_sock := fd \<rparr>) w3 of (a4, w4) \<Rightarrow> (Return (True, a4), w4)))
     else case initServer sk (server_ip f) g_port (ctrl_port + 1) (uds_path_of (h_env H) (self_rank f))
         (conn_type_of mode) (comm a, ctrl_mgr a, w) of
       Throw e \<Rightarrow> (Throw e, w)
     | Exit n \<Rightarrow> (Exit n, w)
     | Return (st, c, m1, w1) \<Rightarrow>
         let a1 = a\<lparr> comm := c, ctrl_mgr := m1 \<rparr>
         in if st \<noteq> SUCCESS then (Return (False, a1), w1)
            else outcome_bind (setup_tcp_control_socket H ctrl_port (tcp_server_ip f) w1) (\<lambda>fd w2.
              (Return (True, a1\<lparr> ctrl_sock := fd \<rparr>), w2)))"

section \<open>The measuring loop\<close>

definition verify_from_buffer :: "app_settings \<Rightarrow> string \<Rightarrow> bool" where
  "verify_from_buffer f mode \<longleftrightarrow> mode = ''g2h2g'' \<or> mode \<in> set pipeline_modes \<or> server_ip f = client_ip f"

definition check_size :: "'e app \<Rightarrow> string \<Rightarrow> size_t \<Rightarrow> size_t" where
  "check_size a mode total_size =
    (let window = (if buffer_size (app_buffer a) > 0 then buffer_size (app_buffer a) else app_buffer_size (conf a))
     in if verify_from_buffer (conf a) mode then min total_size window else total_size)"

text \<open>The first ten bytes, or all when there are fewer.\<close>

definition data_valid :: "addr \<Rightarrow> size_t \<Rightarrow> memory \<Rightarrow> bool" where
  "data_valid host_data n mem \<longleftrightarrow> list_all (\<lambda>i. mem (host_data + of_nat i) = 65) [0..<unat (min 10 n)]"

text \<open>One size: the verdict, none in mode \<^verbatim>\<open>rdma_cpu\<close>; no result at all when the allocation fails.\<close>

definition server_round ::
  "('e, 'w, 'hw) host \<Rightarrow> addr \<Rightarrow> string \<Rightarrow> int \<Rightarrow> 'e app \<Rightarrow> 'w \<Rightarrow> (bool option option \<times> 'e app \<times> 'w) run" where
  "server_round H flag mode e2 a w =
    (if 64 \<le> e2 then Fault else
     let total_size = push_bit (nat e2) 1; n = check_size a mode total_size; P = h_platform H in
     case new_vector H n 0 w of (host_data, w1) \<Rightarrow>
     case (if verify_from_buffer (conf a) mode then ((SUCCESS, Some 0), a, w1)
           else case on_machine H (Memory_allocateBuffer P (gpu_mem_op a) total_size) w1 of ((st, p, mo), w2) \<Rightarrow>
             ((st, p), a\<lparr> gpu_mem_op := mo \<rparr>, w2)) of ((st, p), a2, w2) \<Rightarrow>
     let gpu_ptr = (case p of None \<Rightarrow> 0 | Some q \<Rightarrow> q) in
     if \<not> verify_from_buffer (conf a) mode \<and> (st \<noteq> SUCCESS \<or> gpu_ptr = 0)
     then Ret (None, a2, delete_vector H host_data w2)
     else run_bind (recv_func H flag mode \<lparr> cpu_data_ptr = host_data, gpu_data_ptr = gpu_ptr, ctx_size = total_size \<rparr> a2 w2)
       (\<lambda>(a3, w3).
       let release = (\<lambda>w. delete_vector H host_data
             (if gpu_ptr = 0 then w else snd (on_machine H (Memory_freeBuffer P (gpu_mem_op a3) gpu_ptr) w)))
       in if mode = ''rdma_cpu'' then Ret (Some None, a3, release w3)
          else
            let w4 = (if verify_from_buffer (conf a3) mode
                      then snd (on_machine H (readToCpu P (app_buffer a3) host_data n 0) w3)
                      else snd (on_machine H (Memory_copyDeviceToHost P (gpu_mem_op a3) host_data gpu_ptr n) w3))
            in Ret (Some (Some (data_valid host_data n (ram (h_machine H w4)))), a3, release w4)))"

primrec server_rounds ::
  "('e, 'w, 'hw) host \<Rightarrow> addr \<Rightarrow> string \<Rightarrow> int list \<Rightarrow> 'e app \<Rightarrow> 'w \<Rightarrow> (bool option list \<times> 'e app \<times> 'w) run" where
  "server_rounds H flag mode [] a w = Ret ([], a, w)"
| "server_rounds H flag mode (p # ps) a w =
    run_bind (server_round H flag mode p a w) (\<lambda>(r, a1, w1).
    case r of
      None \<Rightarrow> Ret ([], a1, w1)
    | Some v \<Rightarrow> run_bind (server_rounds H flag mode ps a1 w1) (\<lambda>(vs, a2, w2). Ret (v # vs, a2, w2)))"

text \<open>The program: its exit code and its verdicts.  \<open>peers\<close> and \<open>types\<close> are the orders in which the
  control connections and the servers are closed.  Stopping an RDMA server raises \<^verbatim>\<open>SIGINT\<close>, whose
  handler exits with -1 (\<open>stopListen_exits\<close> in theory \<open>Hmc_RdmaConnect\<close>), so in the modes over RDMA the
  program ends inside \<^verbatim>\<open>closeServer\<close>, after the control plane has been closed.\<close>

definition server_main ::
  "(any_endpoint, 'w, 'hw) host \<Rightarrow> string list \<Rightarrow> addr \<Rightarrow> CtrlId list \<Rightarrow> ConnType list \<Rightarrow> ptr list \<Rightarrow> CtrlSocketManager
     \<Rightarrow> 'w \<Rightarrow> ((int \<times> bool option list) outcome \<times> 'w) run" where
  "server_main H args flag peers types order m w =
    (case get_mode_from_args args of
       Throw e \<Rightarrow> Ret (Throw e, w)
     | Exit n \<Rightarrow> Ret (Exit n, w)
     | Return mode \<Rightarrow>
         (case outcome_bind (server_start H mode m w) (\<lambda>a w. server_link H mode a w) of
            (Throw e, w1) \<Rightarrow> Ret (Throw e, w1)
          | (Exit n, w1) \<Rightarrow> Ret (Exit n, w1)
          | (Return (ok, a), w1) \<Rightarrow>
              if \<not> ok then Ret (Return (- 1, []), w1)
              else run_bind (server_rounds H flag mode (power_range (h_env H) mode) a w1) (\<lambda>(vs, a2, w2).
              if RDMA \<in> servers (conn_manager (comm a2))
              then (case closeCtrl (h_sockets H) peers (ctrl_mgr a2) w2 of (_, _, w3) \<Rightarrow> Ret (Exit (- 1), w3))
              else
              case closeServer (h_class H) (h_sockets H) peers types (comm a2, ctrl_mgr a2, w2) of (_, c, m3, w3) \<Rightarrow>
              case close_control_socket H (a2\<lparr> comm := c, ctrl_mgr := m3 \<rparr>) w3 of (a4, w4) \<Rightarrow>
              case delete_Communicator (h_class H) order (comm a4) w4 of (_, w5) \<Rightarrow> Ret (Return (0, vs), w5))))"

end
