(* ===== verification/Hmc_AppProps.thy ===== *)
theory Hmc_AppProps
  imports Hmc_AppServer
begin

text \<open>
  Properties of the benchmark programs.  The calls a staged transfer makes are recorded in a log and
  shown to be exactly those of a reference script over natural numbers, from which one reads that a
  slot of the buffer is filled again only after the put posted from it has been waited for.
\<close>

section \<open>The calls of a staged transfer\<close>

datatype stage_event = Copied addr addr size_t | Posted size_t size_t size_t u64 | Waited u64

definition log_copy :: "(addr \<Rightarrow> addr \<Rightarrow> size_t \<Rightarrow> 's \<Rightarrow> status_t \<times> 's) \<Rightarrow> addr \<Rightarrow> addr \<Rightarrow> size_t
     \<Rightarrow> 's \<times> stage_event list \<Rightarrow> status_t \<times> 's \<times> stage_event list" where
  "log_copy copy d a n sl = (case copy d a n (fst sl) of (st, s1) \<Rightarrow> (st, s1, snd sl @ [Copied d a n]))"

definition log_post :: "(size_t \<Rightarrow> size_t \<Rightarrow> size_t \<Rightarrow> 's \<Rightarrow> ((status_t \<times> u64) \<times> 's) run) \<Rightarrow> size_t \<Rightarrow> size_t \<Rightarrow> size_t
     \<Rightarrow> 's \<times> stage_event list \<Rightarrow> ((status_t \<times> u64) \<times> 's \<times> stage_event list) run" where
  "log_post post lo ro n sl =
    run_bind (post lo ro n (fst sl)) (\<lambda>((st, i), s1). Ret ((st, i), s1, snd sl @ [Posted lo ro n i]))"

definition log_wait :: "(u64 \<Rightarrow> 's \<Rightarrow> (bool \<times> 's) run) \<Rightarrow> u64
     \<Rightarrow> 's \<times> stage_event list \<Rightarrow> (bool \<times> 's \<times> stage_event list) run" where
  "log_wait wait_id i sl = run_bind (wait_id i (fst sl)) (\<lambda>(ok, s1). Ret (ok, s1, snd sl @ [Waited i]))"

text \<open>Keeping a log does not change a run.\<close>

lemma log_wait_slot:
  "wait_slot wait_id i s = Ret (ok, s1) \<Longrightarrow> \<exists>l1. wait_slot (log_wait wait_id) i (s, l) = Ret (ok, s1, l1)"
  by (auto simp: wait_slot_def log_wait_def)

lemma stage_round_logged:
  assumes "stage_round copy post wait_id buf src off so n old s = Ret (r, s')"
  shows "\<exists>l'. stage_round (log_copy copy) (log_post post) (log_wait wait_id) buf src off so n old (s, l) = Ret (r, s', l')"
proof -
  obtain ok s1 where w: "wait_slot wait_id old s = Ret (ok, s1)"
    using assms by (auto simp: stage_round_def run_bind_Ret_iff)
  obtain l1 where "wait_slot (log_wait wait_id) old (s, l) = Ret (ok, s1, l1)" using log_wait_slot [OF w] by blast
  then show ?thesis using assms w
    by (auto simp: stage_round_def run_bind_Ret_iff log_copy_def log_post_def split: prod.splits if_splits)
qed

lemma stage_loop_logged:
  "stage_loop copy post wait_id buf src c slots win len sent idx inflight s = Ret (r, s') \<Longrightarrow>
    \<exists>l'. stage_loop (log_copy copy) (log_post post) (log_wait wait_id) buf src c slots win len sent idx inflight (s, l)
      = Ret (r, s', l')"
proof (induction copy post wait_id buf src c slots win len sent idx inflight s arbitrary: l rule: stage_loop.induct)
  case (1 copy post wait_id buf src c slots win len sent idx inflight s)
  note unf = stage_loop.simps [of copy post wait_id buf src c slots win len sent idx inflight s]
    and unfl = stage_loop.simps [of "log_copy copy" "log_post post" "log_wait wait_id" buf src c slots win len sent idx
      inflight "(s, l)"]
  show ?case
  proof (cases "sent < len")
    case True
    let ?rd = "stage_round copy post wait_id buf src (idx mod slots * max 1 c) (sent mod win) (min (len - sent) (max 1 c))
      (inflight ! unat (idx mod slots)) s"
    obtain q s1 where rd: "?rd = Ret (q, s1)" using "1.prems" True by (auto simp: unf Let_def run_bind_Ret_iff)
    obtain l1 where "stage_round (log_copy copy) (log_post post) (log_wait wait_id) buf src (idx mod slots * max 1 c)
        (sent mod win) (min (len - sent) (max 1 c)) (inflight ! unat (idx mod slots)) (s, l) = Ret (q, s1, l1)"
      using stage_round_logged [OF rd] by blast
    then show ?thesis
      using "1.prems" "1.IH" [OF True refl refl refl rd refl, of _ l1] True rd
      by (cases q) (auto simp: unf unfl Let_def)
  next
    case False
    then have "r = (True, inflight)" "s' = s" using "1.prems" by (auto simp: unf)
    then show ?thesis using False by (simp add: unfl)
  qed
qed

lemma drain_logged:
  "drain_slots wait_id is s = Ret (ok, s') \<Longrightarrow> \<exists>l'. drain_slots (log_wait wait_id) is (s, l) = Ret (ok, s', l')"
proof (induction "is" arbitrary: s l)
  case (Cons i "is")
  then obtain ok1 s1 where w: "wait_slot wait_id i s = Ret (ok1, s1)" by (auto simp: run_bind_Ret_iff)
  obtain l1 where "wait_slot (log_wait wait_id) i (s, l) = Ret (ok1, s1, l1)" using log_wait_slot [OF w] by blast
  then show ?case using Cons w by (cases ok1) auto
qed simp

subsection \<open>The reference script\<close>

text \<open>The identifier last posted from slot \<open>i\<close> of \<open>m\<close>, when \<open>is\<close> are those of all puts so far.\<close>

definition pending :: "nat \<Rightarrow> u64 list \<Rightarrow> nat \<Rightarrow> u64" where
  "pending m is i = (if i < length is then is ! (length is - 1 - (length is - 1 - i) mod m) else 0)"

definition slot_table :: "nat \<Rightarrow> u64 list \<Rightarrow> u64 list" where
  "slot_table m is = map (pending m is) [0..<m]"

definition wait_calls :: "u64 \<Rightarrow> stage_event list" where
  "wait_calls i = (if i = 0 then [] else [Waited i])"

text \<open>The calls for chunk \<open>k\<close> of \<open>n\<close> bytes in chunks of \<open>c\<close> over \<open>m\<close> slots: wait for the put posted \<open>m\<close>
  chunks before, copy, post.\<close>

definition chunk_calls :: "addr \<Rightarrow> addr \<Rightarrow> nat \<Rightarrow> nat \<Rightarrow> nat \<Rightarrow> nat \<Rightarrow> u64 list \<Rightarrow> nat \<Rightarrow> stage_event list" where
  "chunk_calls buf src c m win n is k =
    (let off = of_nat (k mod m * c); len = of_nat (min c (n - k * c))
     in wait_calls (if m \<le> k then is ! (k - m) else 0)
        @ [Copied (buf + off) (src + of_nat (k * c mod win)) len, Posted off off len (is ! k)])"

definition stage_script :: "addr \<Rightarrow> addr \<Rightarrow> nat \<Rightarrow> nat \<Rightarrow> nat \<Rightarrow> nat \<Rightarrow> u64 list \<Rightarrow> stage_event list" where
  "stage_script buf src c m win n is =
    concat (map (chunk_calls buf src c m win n is) [0..<length is]) @ concat (map wait_calls (slot_table m is))"

lemma pending_oldest: "0 < m \<Longrightarrow> pending m is (length is mod m) = (if m \<le> length is then is ! (length is - m) else 0)"
proof (cases "m \<le> length is")
  case True
  assume m: "0 < m"
  let ?k = "length is"
  obtain d where d: "?k = m * Suc d + ?k mod m"
    using True m by (metis Suc_pred' div_greater_zero_iff mult_div_mod_eq)
  then have "?k - 1 - ?k mod m = m * d + (m - 1)" using m by (simp add: algebra_simps)
  moreover have "(m * d + (m - 1)) mod m = m - 1" using m by (simp only: mod_mult_self4) simp
  ultimately have "(?k - 1 - ?k mod m) mod m = m - 1" by simp
  moreover have "?k mod m < ?k" using True m by (metis mod_less_divisor order_less_le_trans)
  ultimately show ?thesis using True m by (simp add: pending_def Suc_diff_Suc)
qed (simp add: pending_def)

lemma pending_snoc:
  assumes "i < m"
  shows "pending m (is @ [x]) i = (if i = length is mod m then x else pending m is i)"
proof (cases "i = length is mod m")
  case True
  let ?k = "length is"
  have "(?k - ?k mod m) mod m = 0" by (simp add: minus_mod_eq_mult_div)
  moreover have "?k mod m < Suc ?k" by (simp add: le_imp_less_Suc)
  ultimately show ?thesis using True by (simp add: pending_def nth_append)
next
  case False
  let ?k = "length is"
  show ?thesis
  proof (cases "i < ?k")
    case True
    then have e: "?k - i = Suc (?k - 1 - i)" by simp
    have "(?k - i) mod m \<noteq> 0"
    proof
      assume "(?k - i) mod m = 0"
      then have "(i + (?k - i)) mod m = i" using assms by (metis add.right_neutral mod_add_right_eq mod_less)
      then show False using False True by simp
    qed
    then have "(?k - i) mod m = Suc ((?k - 1 - i) mod m)" unfolding e by (simp add: mod_Suc split: if_splits)
    moreover have "?k - Suc ((?k - Suc i) mod m) < ?k" using True by simp
    ultimately show ?thesis using False True by (simp add: pending_def nth_append)
  next
    case outside: False
    then have "i \<noteq> ?k" using False assms by auto
    then show ?thesis using outside False by (simp add: pending_def)
  qed
qed

lemma slot_table_snoc: "0 < m \<Longrightarrow> slot_table m (is @ [x]) = (slot_table m is)[length is mod m := x]"
  by (rule nth_equalityI) (auto simp: slot_table_def pending_snoc nth_list_update)

lemma slot_table_nth: "0 < m \<Longrightarrow>
    slot_table m is ! (length is mod m) = (if m \<le> length is then is ! (length is - m) else 0)"
  by (simp add: slot_table_def pending_oldest)

lemma slot_table_Nil: "slot_table m [] = replicate m 0"
  by (rule nth_equalityI) (simp_all add: slot_table_def pending_def)

lemma chunk_calls_append: "k < length is \<Longrightarrow> chunk_calls buf src c m win n (is @ js) k = chunk_calls buf src c m win n is k"
  by (simp add: chunk_calls_def nth_append less_imp_diff_less)

text \<open>One round leaves exactly its calls in the log.\<close>

lemma stage_round_calls:
  assumes "stage_round (log_copy copy) (log_post post) (log_wait wait_id) buf src off so n old (s, l) = Ret (Some i, s', l')"
  shows "l' = l @ wait_calls old @ [Copied (buf + off) (src + so) n, Posted off off n i]"
  using assms
  by (auto simp: stage_round_def wait_slot_def log_copy_def log_post_def log_wait_def wait_calls_def run_bind_Ret_iff
      split: prod.splits if_splits)

lemma wait_slot_calls: "wait_slot (log_wait wait_id) i (s, l) = Ret (ok, s1, l1) \<Longrightarrow> l1 = l @ wait_calls i"
  by (auto simp: wait_slot_def log_wait_def wait_calls_def run_bind_Ret_iff split: if_splits)

lemma drain_calls:
  "drain_slots (log_wait wait_id) is (s, l) = Ret (True, s', l') \<Longrightarrow> l' = l @ concat (map wait_calls is)"
proof (induction "is" arbitrary: s l)
  case (Cons i "is")
  then obtain s1 l1 where w: "wait_slot (log_wait wait_id) i (s, l) = Ret (True, s1, l1)"
    and d: "drain_slots (log_wait wait_id) is (s1, l1) = Ret (True, s', l')"
    by (auto simp: run_bind_Ret_iff split: if_splits)
  from Cons.IH [OF d] wait_slot_calls [OF w] show ?case by simp
qed simp

subsection \<open>The loop follows the script\<close>

definition chunk_count :: "nat \<Rightarrow> nat \<Rightarrow> nat" where
  "chunk_count n c = (n + c - 1) div c"

lemma less_chunk_count: "0 < c \<Longrightarrow> k < chunk_count n c \<longleftrightarrow> k * c < n"
proof -
  assume c: "0 < c"
  have "k < chunk_count n c \<longleftrightarrow> Suc k * c \<le> n + c - 1"
    using c by (simp add: chunk_count_def Suc_le_eq [symmetric] less_eq_div_iff_mult_less_eq)
  then show ?thesis using c by auto
qed

lemma word_of_unat: "unat (x :: size_t) = n \<Longrightarrow> x = of_nat n"
  by (auto simp: of_nat_unat)

text \<open>The words of round \<open>k\<close> are the numbers of the script.\<close>

lemma round_words:
  fixes C M W N :: size_t
  assumes "C \<noteq> 0" and "k * unat C < unat N"
  shows "min (N - of_nat (k * unat C)) (max 1 C) = of_nat (min (unat C) (unat N - k * unat C))"
    and "of_nat k mod M * max 1 C = of_nat (k mod unat M * unat C)"
    and "unat (of_nat k mod M :: size_t) = k mod unat M"
    and "of_nat (k * unat C) mod W = of_nat (k * unat C mod unat W)"
    and "of_nat (k * unat C) < N"
    and "(of_nat (k * unat C) :: size_t) + of_nat (min (unat C) (unat N - k * unat C)) = of_nat (min (Suc k * unat C) (unat N))"
proof -
  have one: "max 1 C = C" using assms(1) by (metis max.absorb2 word_less_1 not_less)
  have kc: "k * unat C < 18446744073709551616" using assms(2) unat_u64_bound [of N] by linarith
  have "0 < unat C" using assms(1) by (simp add: unat_gt_0)
  then have "k \<le> k * unat C" by simp
  then have k: "k < 18446744073709551616" using kc by linarith
  show lt: "of_nat (k * unat C) < N" using assms(2) kc by (simp only: word_less_nat_alt unat_of_nat_u64)
  have ukc: "unat (of_nat (k * unat C) :: size_t) = k * unat C" using kc by (rule unat_of_nat_u64)
  have "unat (N - of_nat (k * unat C)) = unat N - k * unat C"
    using lt ukc by (simp add: unat_sub order.strict_implies_order)
  then have "unat (min (N - of_nat (k * unat C)) C) = min (unat C) (unat N - k * unat C)"
    by (simp add: min_def word_le_nat_alt)
  then show s: "min (N - of_nat (k * unat C)) (max 1 C) = of_nat (min (unat C) (unat N - k * unat C))"
    unfolding one by (rule word_of_unat)
  show m: "unat (of_nat k mod M :: size_t) = k mod unat M" using k by (simp add: unat_mod unat_of_nat_u64)
  then show "of_nat k mod M * max 1 C = of_nat (k mod unat M * unat C)"
    unfolding one by (metis of_nat_mult word_of_unat)
  show "of_nat (k * unat C) mod W = of_nat (k * unat C mod unat W)"
    by (metis ukc unat_mod word_of_unat)
  show "(of_nat (k * unat C) :: size_t) + of_nat (min (unat C) (unat N - k * unat C)) = of_nat (min (Suc k * unat C) (unat N))"
    unfolding of_nat_add [symmetric] using assms(2) by (intro arg_cong [where f = of_nat]) auto
qed

lemma stage_loop_script:
  fixes C M W N :: size_t and copy :: "addr \<Rightarrow> addr \<Rightarrow> size_t \<Rightarrow> 's \<Rightarrow> status_t \<times> 's"
  defines "K \<equiv> chunk_count (unat N) (unat C)"
  assumes C: "C \<noteq> 0" and M: "M \<noteq> 0"
  shows "length is \<le> K \<Longrightarrow>
    stage_loop (log_copy copy) (log_post post) (log_wait wait_id) buf src C M W N (of_nat (min (length is * unat C) (unat N)))
      (of_nat (length is)) (slot_table (unat M) is) (s, l) = Ret ((True, t), s', l') \<Longrightarrow>
    \<exists>js. length (is @ js) = K \<and> t = slot_table (unat M) (is @ js)
      \<and> l' = l @ concat (map (chunk_calls buf src (unat C) (unat M) (unat W) (unat N) (is @ js)) [length is..<K])"
proof (induction "K - length is" arbitrary: "is" s l)
  case 0
  then have "length is = K" by simp
  then have "unat N \<le> length is * unat C" using less_chunk_count [of "unat C" K "unat N"] C
    by (simp add: K_def unat_gt_0 flip: not_less)
  then have "\<not> of_nat (min (length is * unat C) (unat N)) < N" by (simp add: min_def of_nat_unat)
  then show ?case using "0.prems" \<open>length is = K\<close> by (intro exI [of _ "[]"]) (simp add: stage_loop.simps)
next
  case (Suc d)
  let ?k = "length is" and ?c = "unat C" and ?m = "unat M" and ?n = "unat N"
  have "?k < K" using Suc.hyps(2) by simp
  then have k: "?k * ?c < ?n" using less_chunk_count C by (simp add: K_def unat_gt_0)
  have m: "0 < ?m" using M by (simp add: unat_gt_0)
  note rw = round_words(1,5,6) [OF C k] round_words(2,3) [OF C k, of M] round_words(4) [OF C k, of W]
  have sent: "min (?k * ?c) ?n = ?k * ?c" using k by simp
  let ?off = "of_nat (?k mod ?m * ?c)" and ?len = "of_nat (min ?c (?n - ?k * ?c))"
    and ?old = "if ?m \<le> ?k then is ! (?k - ?m) else 0"
  note loop = Suc.prems(2) [unfolded sent stage_loop.simps [of "log_copy copy" "log_post post" "log_wait wait_id" buf src
    C M W N "of_nat (?k * ?c)" "of_nat ?k" "slot_table ?m is" "(s, l)"]]
  from loop obtain r s1 l1 where
    rd: "stage_round (log_copy copy) (log_post post) (log_wait wait_id) buf src ?off (of_nat (?k * ?c mod unat W)) ?len ?old (s, l)
      = Ret (r, s1, l1)"
    and rest: "(case r of None \<Rightarrow> Ret ((False, slot_table ?m is), s1, l1)
      | Some wid \<Rightarrow> stage_loop (log_copy copy) (log_post post) (log_wait wait_id) buf src C M W N
          (of_nat (min (Suc ?k * ?c) ?n)) (of_nat ?k + 1) ((slot_table ?m is)[?k mod ?m := wid]) (s1, l1))
      = Ret ((True, t), s', l')"
    by (simp only: Let_def rw slot_table_nth [OF m] if_True run_bind_Ret_iff) (elim exE conjE, simp only: split_paired_all prod.case)
  from rest obtain wid where r: "r = Some wid" by (cases r) auto
  have calls: "l1 = l @ wait_calls ?old @ [Copied (buf + ?off) (src + of_nat (?k * ?c mod unat W)) ?len, Posted ?off ?off ?len wid]"
    by (rule stage_round_calls [OF rd [unfolded r]])
  have "stage_loop (log_copy copy) (log_post post) (log_wait wait_id) buf src C M W N
      (of_nat (min (length (is @ [wid]) * ?c) ?n)) (of_nat (length (is @ [wid]))) (slot_table ?m (is @ [wid])) (s1, l1)
      = Ret ((True, t), s', l')"
    using rest r by (simp add: slot_table_snoc [OF m] add.commute)
  moreover have "d = K - length (is @ [wid])" "length (is @ [wid]) \<le> K" using Suc.hyps(2) by simp_all
  ultimately obtain js where js: "length (is @ [wid] @ js) = K" "t = slot_table ?m (is @ [wid] @ js)"
    "l' = l1 @ concat (map (chunk_calls buf src ?c ?m (unat W) ?n (is @ [wid] @ js)) [Suc ?k..<K])"
    using Suc.hyps(1) [of "is @ [wid]" s1 l1] by auto
  have "l1 = l @ chunk_calls buf src ?c ?m (unat W) ?n (is @ [wid] @ js) ?k"
  proof (cases "?m \<le> ?k")
    case True
    then have "?k - ?m < ?k" using m by linarith
    then show ?thesis unfolding calls chunk_calls_def Let_def using True by (simp add: nth_append)
  next
    case False
    then show ?thesis unfolding calls chunk_calls_def Let_def by (simp add: nth_append)
  qed
  then show ?case using js \<open>?k < K\<close> by (intro exI [of _ "wid # js"]) (simp add: upt_conv_Cons)
qed

subsection \<open>The slots fit the buffer\<close>

lemma unat_max_min [simp]:
  "unat (max a b :: size_t) = max (unat a) (unat b)" "unat (min a b :: size_t) = min (unat a) (unat b)"
  by (simp_all add: max_def min_def word_le_nat_alt)

lemma stage_fits:
  assumes "2 \<le> bs"
  shows "stage_chunk f bs \<noteq> 0" "stage_slot_count f bs \<noteq> 0"
    "unat (stage_slot_count f bs) * unat (stage_chunk f bs) \<le> unat bs"
proof -
  have b: "2 \<le> unat bs" using assms by (simp add: word_le_nat_alt)
  show c: "stage_chunk f bs \<noteq> 0" and "stage_slot_count f bs \<noteq> 0"
    by (simp_all add: stage_chunk_def stage_slot_count_def Let_def max_one_nonzero)
  have cb: "unat (stage_chunk f bs) \<le> unat bs" using b by (simp add: stage_chunk_def unat_div)
  have "1 \<le> unat bs div unat (stage_chunk f bs)"
    using cb c by (simp add: Suc_le_eq div_greater_zero_iff unat_gt_0)
  then have "unat (stage_slot_count f bs) \<le> unat bs div unat (stage_chunk f bs)"
    by (simp add: stage_slot_count_def Let_def unat_div)
  then have "unat (stage_slot_count f bs) * unat (stage_chunk f bs)
      \<le> unat bs div unat (stage_chunk f bs) * unat (stage_chunk f bs)" by (rule mult_le_mono1)
  also have "\<dots> \<le> unat bs" by simp
  finally show "unat (stage_slot_count f bs) * unat (stage_chunk f bs) \<le> unat bs" .
qed

lemma slot_in_buffer:
  assumes "0 < m" and "m * c \<le> b"
  shows "k mod m * c + min c (n - k * c) \<le> (b :: nat)"
proof -
  have "Suc (k mod m) * c \<le> m * c" using assms(1) by (intro mult_le_mono1) (simp add: Suc_le_eq)
  then show ?thesis using assms(2) by simp
qed

lemma staged_transfer_parts:
  assumes "staged_transfer copy post wait_id buf src c m win len s = Ret (True, s')"
  shows "\<exists>t s1. stage_loop copy post wait_id buf src c m win len 0 0 (replicate (unat m) 0) s = Ret ((True, t), s1)
    \<and> drain_slots wait_id t s1 = Ret (True, s')"
proof (cases "stage_loop copy post wait_id buf src c m win len 0 0 (replicate (unat m) 0) s")
  case (Ret r)
  then show ?thesis using assms by (cases r) (auto simp: staged_transfer_def split: if_splits)
qed (use assms in \<open>simp_all add: staged_transfer_def\<close>)

text \<open>C16: A staged transfer that succeeds has made exactly the calls of the reference script, for some
  identifiers of its puts: for each chunk in order it waits for the put that last used the slot, copies
  the chunk into the slot and posts it to the same place at the peer, and in the end it waits for what
  is left in the slots.  The chunks cover the data, and with the chunk size and slot count the client
  computes each slot lies in the buffer.\<close>

theorem staged_transfer_script:
  fixes copy :: "addr \<Rightarrow> addr \<Rightarrow> size_t \<Rightarrow> 's \<Rightarrow> status_t \<times> 's"
  assumes "staged_transfer copy post wait_id buf src (stage_chunk f bs) (stage_slot_count f bs) win len s = Ret (True, s')"
    and "2 \<le> bs"
  defines "c \<equiv> unat (stage_chunk f bs)" and "m \<equiv> unat (stage_slot_count f bs)"
  shows "\<exists>is. length is = chunk_count (unat len) c
    \<and> staged_transfer (log_copy copy) (log_post post) (log_wait wait_id) buf src (stage_chunk f bs) (stage_slot_count f bs)
        win len (s, []) = Ret (True, s', stage_script buf src c m (unat win) (unat len) is)
    \<and> (\<Sum>k < length is. min c (unat len - k * c)) = unat len
    \<and> (\<forall>k. k mod m * c + min c (unat len - k * c) \<le> unat bs)"
proof -
  let ?C = "stage_chunk f bs" and ?M = "stage_slot_count f bs"
  note fits = stage_fits [OF assms(2), of f]
  obtain t s1 where
    lp: "stage_loop copy post wait_id buf src ?C ?M win len 0 0 (replicate (unat ?M) 0) s = Ret ((True, t), s1)"
    and d: "drain_slots wait_id t s1 = Ret (True, s')"
    using staged_transfer_parts [OF assms(1)] by (elim exE conjE)
  obtain l1 where l: "stage_loop (log_copy copy) (log_post post) (log_wait wait_id) buf src ?C ?M win len 0 0
      (replicate (unat ?M) 0) (s, []) = Ret ((True, t), s1, l1)" using stage_loop_logged [OF lp, of "[]"] by (rule exE)
  obtain l2 where l2: "drain_slots (log_wait wait_id) t (s1, l1) = Ret (True, s', l2)"
    using drain_logged [OF d, of l1] by (rule exE)
  have le: "length ([] :: u64 list) \<le> chunk_count (unat len) (unat ?C)" by simp
  have "stage_loop (log_copy copy) (log_post post) (log_wait wait_id) buf src ?C ?M win len
      (of_nat (min (length ([] :: u64 list) * unat ?C) (unat len))) (of_nat (length ([] :: u64 list))) (slot_table (unat ?M) [])
      (s, []) = Ret ((True, t), s1, l1)" using l by (simp only: slot_table_Nil list.size mult_0 min_0L semiring_1_class.of_nat_0)
  from stage_loop_script [OF fits(1,2) le this] obtain "is" where "length ([] @ is) = chunk_count (unat len) c" "t = slot_table m ([] @ is)"
    "l1 = [] @ concat (map (chunk_calls buf src c m (unat win) (unat len) ([] @ is)) [length ([] :: u64 list)..<chunk_count (unat len) c])"
    unfolding c_def m_def by (elim exE conjE)
  then have k: "length is = chunk_count (unat len) c" and t: "t = slot_table m is"
    and l1: "l1 = concat (map (chunk_calls buf src c m (unat win) (unat len) is) [0..<length is])" by simp_all
  have "staged_transfer (log_copy copy) (log_post post) (log_wait wait_id) buf src ?C ?M win len (s, [])
      = Ret (True, s', stage_script buf src c m (unat win) (unat len) is)"
    using l l2 drain_calls [OF l2] by (simp add: staged_transfer_def stage_script_def l1 t)
  moreover have "(\<Sum>k < chunk_count n c. min c (n - k * c)) = n" for n
  proof -
    have c: "0 < c" using fits(1) by (simp add: c_def unat_gt_0)
    have "(\<Sum>k < j. min c (n - k * c)) = min (j * c) n" for j by (induction j) auto
    moreover have "n \<le> chunk_count n c * c" using less_chunk_count [OF c, of "chunk_count n c" n] by simp
    ultimately show ?thesis by simp
  qed
  moreover have "k mod m * c + min c (unat len - k * c) \<le> unat bs" for k
    using fits by (intro slot_in_buffer) (simp_all add: c_def m_def unat_gt_0)
  ultimately show ?thesis using k by (intro exI [of _ "is"] conjI) simp_all
qed

text \<open>A run of three chunks over two slots.\<close>

definition small_stage :: app_settings where
  "small_stage = \<lparr> server_ip = ''a'', client_ip = ''b'', tcp_server_ip = ''a'', self_rank = 1, peer_rank = 0, device_id = 0,
     num_channels = 1, pipeline_chunk_size = 4, pipeline_max_inflight = 4, stage_chunk_size = 8, stage_slots = 0,
     stage_src_window = 4, app_buffer_size = 4 \<rparr>"

definition count_post :: "size_t \<Rightarrow> size_t \<Rightarrow> size_t \<Rightarrow> nat \<Rightarrow> ((status_t \<times> u64) \<times> nat) run" where
  "count_post lo ro n s = Ret ((SUCCESS, of_nat (Suc s)), Suc s)"

lemma small_stage_run:
  "stage_chunk small_stage 4 = 2" "stage_slot_count small_stage 4 = 2"
  "staged_transfer (\<lambda>d a n s. (SUCCESS, s)) count_post (\<lambda>i s. Ret (True, s)) 100 200 2 2 4 5 0 = Ret (True, 3)"
  by code_simp+

theorem staged_transfer_script_witness:
  "\<exists>is. length is = chunk_count 5 2
    \<and> staged_transfer (log_copy (\<lambda>d a n s. (SUCCESS, s))) (log_post count_post) (log_wait (\<lambda>i s. Ret (True, s))) 100 200 2 2
        4 5 (0, []) = Ret (True, 3, stage_script 100 200 2 2 4 5 is)"
  using staged_transfer_script [of "\<lambda>d a n s. (SUCCESS, s)" count_post "\<lambda>i s. Ret (True, s)" 100 200 small_stage 4 4 5 0 3]
    small_stage_run by auto

subsection \<open>The source window\<close>

text \<open>The client keeps only \<open>win\<close> bytes of the data.  A chunk is read inside them when the chunk size divides
  the window; otherwise a read can cross its end.\<close>

lemma source_in_window: "c dvd win \<Longrightarrow> 0 < win \<Longrightarrow> k * c mod win + min c (n - k * c) \<le> (win :: nat)"
proof -
  assume d: "c dvd win" and w: "0 < win"
  then have "c dvd win - k * c mod win" by (simp add: dvd_diff_nat dvd_mod)
  moreover have "0 < win - k * c mod win" using w by simp
  ultimately have "c \<le> win - k * c mod win" by (rule dvd_imp_le)
  then show ?thesis using mod_less_divisor [OF w, of "k * c"] by linarith
qed

lemma source_crosses_window:
  "Copied (buf + 2) (src + 2) 2 \<in> set (chunk_calls buf src 2 2 3 6 [7, 8, 9] 1)" "\<not> 2 + 2 \<le> (3 :: nat)"
  by (simp_all add: chunk_calls_def wait_calls_def)

section \<open>The closing message\<close>

text \<open>The server recognises the message every mode of the client ends with; two of them read together
  leave no room for the terminator.\<close>

lemma finished_recognised:
  assumes "sys_recv (h_sockets H) fd 16 w = ((8, ascii ''Finished''), w1)"
  shows "wait_for_control_message H fd w = Ret (True, w1)"
  using assms by (simp add: wait_for_control_message_def c_string_def ascii_def of_char_def)

lemma two_finished_fault:
  assumes "sys_recv (h_sockets H) fd 16 w = ((16, ascii ''FinishedFinished''), w1)"
  shows "wait_for_control_message H fd w = Fault"
  using assms by (simp add: wait_for_control_message_def c_string_def ascii_def of_char_def)

end
