(* ===== verification/Hmc_AppSlices.thy ===== *)
theory Hmc_AppSlices
  imports Hmc_AppServer Hmc_CommProps
begin

text \<open>
  The chunked modes of the two benchmark programs together.  For each chunk the client puts data and sends
  a control message; the server computes the number of chunks for itself and waits for that many.
\<close>

section \<open>The control messages of a transfer\<close>

definition chunk_msg :: ctrl_msg where
  "chunk_msg = \<lparr> m_type = CTRL_INT, m_flags = 0, m_payload = le_bytes 8 (1 :: u64) \<rparr>"

text \<open>What the client does beside sending them leaves their stream alone: storing to the buffers, reading
  the clock, sending on the other control connection \<open>fd\<close>, and a put that returns.\<close>

definition same_stream :: "('w \<Rightarrow> u8 list) \<Rightarrow> ('w \<Rightarrow> bool) \<Rightarrow> 'w \<Rightarrow> 'w \<Rightarrow> bool" where
  "same_stream buf live w w' \<longleftrightarrow> (live w \<longrightarrow> live w' \<and> buf w' = buf w)"

definition stream_apart :: "('e, 'w, 'hw) host \<Rightarrow> int \<Rightarrow> ('w \<Rightarrow> u8 list) \<Rightarrow> ('w \<Rightarrow> bool) \<Rightarrow> bool" where
  "stream_apart H fd buf live \<longleftrightarrow>
     (\<forall>m w. same_stream buf live w (h_store H m w)) \<and> (\<forall>w. same_stream buf live w (snd (h_now H w)))
     \<and> (\<forall>bs w. same_stream buf live w (snd (sys_send (h_sockets H) fd bs w)))
     \<and> (\<forall>ip n c w r c' w'. put (h_class H) ip g_port 0 0 n RDMA c w = Ret (r, c', w') \<longrightarrow> same_stream buf live w w')"

lemma same_stream_trans: "same_stream buf live w w1 \<Longrightarrow> same_stream buf live w1 w2 \<Longrightarrow> same_stream buf live w w2"
  by (auto simp: same_stream_def)

lemma same_stream_refl: "same_stream buf live w w"
  by (simp add: same_stream_def)

lemma on_machine_apart: "stream_apart H fd buf live \<Longrightarrow> same_stream buf live w (snd (on_machine H f w))"
  by (simp add: on_machine_def stream_apart_def split: prod.split)

lemma now_apart: "stream_apart H fd buf live \<Longrightarrow> h_now H w = (t, w') \<Longrightarrow> same_stream buf live w w'"
  unfolding stream_apart_def by (metis snd_conv)

text \<open>A put changes the communicator of the program at most.\<close>

lemma put_apart:
  assumes "stream_apart H fd buf live" and "on_comm (put (h_class H) ip g_port 0 0 n RDMA) a w = Ret (r, a', w')"
  shows "same_stream buf live w w' \<and> (\<exists>c. a' = a\<lparr> comm := c \<rparr>)"
proof -
  from assms(2) obtain c' where "put (h_class H) ip g_port 0 0 n RDMA (comm a) w = Ret (r, c', w')" "a' = a\<lparr> comm := c' \<rparr>"
    by (auto simp: on_comm_def run_bind_Ret_iff)
  with assms(1) show ?thesis unfolding stream_apart_def by blast
qed

lemma finished_apart:
  assumes "stream_apart H (ctrl_sock a) buf live" and "finished H a w = Ret (a', w')"
  shows "same_stream buf live w w'"
proof -
  have "same_stream buf live w (snd (sys_send (h_sockets H) (ctrl_sock a) bs w))" for bs
    using assms(1) by (simp add: stream_apart_def)
  from this [of "ascii ''Finished''"] show ?thesis
    using assms(2) by (auto simp: finished_def send_control_message_def same_stream_refl split: prod.splits if_splits)
qed

text \<open>The state between the steps: the same settings and connections.\<close>

definition same_links :: "'e app \<Rightarrow> 'e app \<Rightarrow> bool" where
  "same_links a a' \<longleftrightarrow> conf a' = conf a \<and> ctrl_mgr a' = ctrl_mgr a \<and> ctrl_sock a' = ctrl_sock a"

lemma slice_loop_tags:
  assumes bs: "byte_stream (h_sockets H) skr x y buf live" and ap: "stream_apart H fd buf live" and x: "0 \<le> x"
    and fill: "\<And>a off n w. same_stream buf live w (fill a off n w)"
  shows "slice_loop H fill timed True c len n sent a w = Ret (a1, w1) \<Longrightarrow> live w \<Longrightarrow>
    fdOf (ctrl_mgr a) (peer_rank (conf a)) = x \<Longrightarrow>
    live w1 \<and> buf w1 = buf w @ frames (replicate n chunk_msg) \<and> same_links a a1"
proof (induction n arbitrary: sent a w)
  case 0
  then show ?case by (simp add: same_links_def)
next
  case (Suc n)
  let ?size = "min c (len - sent)"
  obtain t0 w2 where t0: "(if timed then (case h_now H w of (t, w') \<Rightarrow> (t, fill a sent ?size w'))
      else h_now H (fill a sent ?size w)) = (t0, w2)" by (metis surj_pair)
  have s2: "same_stream buf live w w2"
  proof (cases timed)
    case True
    then obtain w' where "h_now H w = (t0, w')" "w2 = fill a sent ?size w'" using t0 by (auto split: prod.splits)
    then show ?thesis using same_stream_trans [OF now_apart [OF ap] fill] by blast
  next
    case False
    then show ?thesis using t0 same_stream_trans [OF fill now_apart [OF ap]] by simp
  qed
  obtain r a3 w3 where put: "on_comm (put (h_class H) (server_ip (conf a)) g_port 0 0 ?size RDMA) a w2 = Ret (r, a3, w3)"
    and rest: "(case h_now H w3 of (t1, w4) \<Rightarrow> slice_loop H fill timed True c len n (sent + ?size)
       (a3\<lparr> total_time := total_time a3 + elapsed_us t0 t1 \<rparr>)
       (snd (ctrlSend (h_sockets H) (ctrl_mgr a3) (peer_rank (conf a3)) 1 w4))) = Ret (a1, w1)"
    using Suc.prems(1) by (auto simp: t0 Let_def run_bind_Ret_iff simp del: split_paired_All split_paired_Ex)
  obtain k where s3: "same_stream buf live w2 w3" and a3: "a3 = a\<lparr> comm := k \<rparr>" using put_apart [OF ap put] by blast
  obtain t1 w4 where n4: "h_now H w3 = (t1, w4)" by (metis surj_pair)
  have s4: "same_stream buf live w w4"
    using same_stream_trans [OF s2 same_stream_trans [OF s3 now_apart [OF ap n4]]] .
  then have l4: "live w4" "buf w4 = buf w" using Suc.prems(2) by (simp_all add: same_stream_def)
  have fd: "fdOf (ctrl_mgr a3) (peer_rank (conf a3)) = x" using Suc.prems(3) a3 by simp
  obtain w5 where c: "sendU64 (h_sockets H) (ctrl_mgr a3) (peer_rank (conf a3)) 1 w4 = (True, w5)"
    "buf w5 = buf w4 @ frame chunk_msg" "live w5"
    using byte_stream.ctrl_send_enqueues [OF bs l4(1) fd x, of chunk_msg] by (auto simp: sendU64_def chunk_msg_def)
  let ?a4 = "a3\<lparr> total_time := total_time a3 + elapsed_us t0 t1 \<rparr>"
  have "slice_loop H fill timed True c len n (sent + ?size) ?a4 w5 = Ret (a1, w1)"
    using rest n4 c(1) by (simp add: ctrlSend_def)
  from Suc.IH [OF this c(3)] fd show ?case using c(2) l4 a3 by (simp add: same_links_def)
qed

text \<open>The server takes them.\<close>

lemma recv_tags_all:
  assumes bs: "byte_stream sks (h_sockets H) x y buf live" and y: "0 \<le> y"
    and fd: "fdOf (ctrl_mgr b) (peer_rank (conf b)) = y"
  shows "live w \<Longrightarrow> buf w = frames (replicate n chunk_msg) @ rest \<Longrightarrow>
    \<exists>w'. recv_tags H n b w = (True, w') \<and> buf w' = rest \<and> live w'"
proof (induction n arbitrary: w)
  case (Suc n)
  have "sendable chunk_msg" by (simp add: sendable_def chunk_msg_def CTRL_INT_def CTRL_STRUCT_def)
  with byte_stream.ctrl_recv_dequeues [OF bs Suc.prems(1) fd y, of chunk_msg "frames (replicate n chunk_msg) @ rest"]
  obtain w1 where "ctrl_recv (h_sockets H) (ctrl_mgr b) (peer_rank (conf b)) w = (Some (msg_header chunk_msg, m_payload chunk_msg), w1)"
    "buf w1 = frames (replicate n chunk_msg) @ rest" "live w1" using Suc.prems(2) by auto
  moreover from this have "ctrlRecv (h_sockets H) (ctrl_mgr b) (peer_rank (conf b)) w = ((SUCCESS, Some 1), w1)"
    by (simp add: ctrlRecv_def recvU64_def recv_typed_def chunk_msg_def msg_header_def)
  ultimately show ?case using Suc.IH [of w1] by simp
qed simp

text \<open>C17: In the modes \<^verbatim>\<open>serial\<close> and \<^verbatim>\<open>g2h2g\<close> the two programs agree on the control messages.  If the client's
  side of a transfer returns, over any stream that delivers bytes in order, the server's side of the same
  transfer receives every message it waits for and goes on to await the closing message, and nothing is
  left in the stream.\<close>

theorem slices_acknowledged:
  assumes "byte_stream (h_sockets Hc) (h_sockets Hs) x y buf live" and "live w" and "buf w = []"
    and "fdOf (ctrl_mgr a) (peer_rank (conf a)) = x" and "0 \<le> x" and "fdOf (ctrl_mgr b) (peer_rank (conf b)) = y" and "0 \<le> y"
    and "stream_apart Hc (ctrl_sock a) buf live"
    and "app_buffer_size (conf b) = app_buffer_size (conf a)" and "ctx_size xs = ctx_size xc"
    and run: "send_channel_slice_serial Hc xc a w = Ret (a1, w1) \<or> send_channel_slice_g2h2g Hc xc a w = Ret (a1, w1)"
  shows "\<exists>w2. recv_channel_slice_serial Hs xs b w1 = await_finished Hs b w2
    \<and> recv_channel_slice_g2h2g Hs xs b w1 = await_finished Hs b w2 \<and> buf w2 = [] \<and> live w2"
proof -
  from run obtain fill where fill: "\<And>a off n w. same_stream buf live w (fill a off n w)"
    and send: "send_slices Hc fill True True xc a w = Ret (a1, w1)"
  proof (elim disjE)
    assume s: "send_channel_slice_serial Hc xc a w = Ret (a1, w1)"
    show thesis by (rule that [OF _ s [unfolded send_channel_slice_serial_def]]) (rule on_machine_apart [OF assms(8)])
  next
    assume s: "send_channel_slice_g2h2g Hc xc a w = Ret (a1, w1)"
    show thesis by (rule that [OF _ s [unfolded send_channel_slice_g2h2g_def]]) (rule on_machine_apart [OF assms(8)])
  qed
  from send obtain n a2 w2 where n: "slice_count (app_buffer_size (conf a)) (ctx_size xc) = Some n"
    and loop: "slice_loop Hc fill True True (app_buffer_size (conf a) div 2) (ctx_size xc) n 0 (a\<lparr> total_time := 0 \<rparr>) w
      = Ret (a2, w2)" and fin: "finished Hc a2 w2 = Ret (a1, w1)"
    by (auto simp: send_slices_def run_bind_Ret_iff split: option.splits)
  have "live w2 \<and> buf w2 = frames (replicate n chunk_msg) \<and> same_links a a2"
    using slice_loop_tags [OF assms(1,8,5) fill loop assms(2)] assms(3,4) by (simp add: same_links_def)
  then have l2: "live w2" "buf w2 = frames (replicate n chunk_msg)" and "ctrl_sock a2 = ctrl_sock a"
    by (simp_all add: same_links_def)
  then have "same_stream buf live w2 w1"
    using finished_apart [OF _ fin] assms(8) by simp
  then have "live w1" "buf w1 = frames (replicate n chunk_msg) @ []" using l2 by (simp_all add: same_stream_def)
  from recv_tags_all [OF assms(1,7,6) this] show ?thesis
    using n assms(9,10) by (auto simp: recv_channel_slice_serial_def recv_channel_slice_g2h2g_def recv_slices_def)
qed

text \<open>A run of two chunks.  The client's process 0 has the control plane's connection 11 and the control
  connection 13, the server's process 1 their other ends 12 and 14; the client's calls to the
  communicator find no endpoint.\<close>

definition pair_net :: net where
  "pair_net = demo_net\<lparr> n_open := (\<lambda>p. if p = 0 then [11, 13] else [12, 14]),
     n_peer := (\<lambda>fd. if fd = 11 then 12 else if fd = 12 then 11 else if fd = 13 then 14 else 13), n_seg := 9 \<rparr>"

definition idle_ipc :: "net ipc_rt" where
  "idle_ipc = \<lparr> ipc_setDevice = (\<lambda>d w. (1, w)), ipc_handle = (\<lambda>p w. ((1, []), w)), ipc_open = (\<lambda>h f w. ((1, 0), w)),
     ipc_close = (\<lambda>p w. w), ipc_memcpy = (\<lambda>d s n w. (1, w)), ipc_sync = (\<lambda>w. (1, w)) \<rparr>"

definition pair_host :: "nat \<Rightarrow> (RDMAEndpoint, net, unit) host" where
  "pair_host p = \<lparr> h_platform = demo_platform, h_machine = (\<lambda>w. demo_machine), h_store = (\<lambda>m w. w),
     h_class = refusing_class\<lparr> m_writeData := (\<lambda>e lo ro n w. Some (SUCCESS, e, w)) \<rparr>, h_verbs = idle_verbs, h_sockets = net_sockets p,
     h_p2p = \<lparr> p2p_build = cpu_build, cnrt = idle_ipc, hiprt = idle_ipc \<rparr>, h_env = (\<lambda>x. None), h_order = id,
     h_now = (\<lambda>w. (0, w)) \<rparr>"

definition pair_app :: "CtrlId \<Rightarrow> int \<Rightarrow> int \<Rightarrow> RDMAEndpoint app" where
  "pair_app peer fd ctrl = \<lparr>
     conf = \<lparr> server_ip = ''s'', client_ip = ''c'', tcp_server_ip = ''s'', self_rank = 1 - peer, peer_rank = peer,
       device_id = 0, num_channels = 1, pipeline_chunk_size = 4, pipeline_max_inflight = 4, stage_chunk_size = 4,
       stage_slots = 0, stage_src_window = 4, app_buffer_size = 16 \<rparr>,
     comm = new_Communicator demo_buffer, ctrl_mgr = demo_mgr peer fd, ctrl_sock = ctrl, app_buffer = demo_buffer,
     gpu_buffer = None, gpu_mem_op = the_ops demo_buffer, total_time = 0, g_last_transfer_ok = True \<rparr>"

definition pair_live :: "net \<Rightarrow> bool" where
  "pair_live w \<longleftrightarrow> net_live 0 1 11 12 w \<and> n_peer w 13 = 14"

lemma pair_stream: "byte_stream (net_sockets 0) (net_sockets 1) 11 12 (\<lambda>w. n_inbox w 12) pair_live"
proof -
  note b = net_stream.send_prefix [of 0 1 11 12] net_stream.recv_prefix [of 0 1 11 12]
  have keep: "n_peer (snd (net_send 0 11 bs w)) = n_peer w" "n_peer (snd (net_recv 1 12 n w)) = n_peer w" for bs n w
    by (simp_all add: net_send_def net_recv_def Let_def)
  show ?thesis
  proof unfold_locales
    fix w :: net and bs :: "u8 list"
    assume "pair_live w" "bs \<noteq> []"
    with b(1) [of w bs] keep(1) [of bs w] show "\<exists>k w'. sys_send (net_sockets 0) 11 bs w = (int k, w') \<and> 0 < k \<and> k \<le> length bs
        \<and> n_inbox w' 12 = n_inbox w 12 @ take k bs \<and> pair_live w'"
      by (auto simp: pair_live_def net_sockets_def)
  next
    fix w :: net and n :: nat
    assume "pair_live w" "0 < n" "n_inbox w 12 \<noteq> []"
    with b(2) [of w n] keep(2) [of n w] show "\<exists>k w'. sys_recv (net_sockets 1) 12 n w = ((int k, take k (n_inbox w 12)), w')
        \<and> 0 < k \<and> k \<le> n \<and> k \<le> length (n_inbox w 12) \<and> n_inbox w' 12 = drop k (n_inbox w 12) \<and> pair_live w'"
      by (auto simp: pair_live_def net_sockets_def)
  qed
qed

lemma with_conn_world:
  assumes "\<And>p e w r e' w'. f p e w = Some (r, e', w') \<Longrightarrow> w' = w" and "with_conn ip port t d f c w = Ret (r, c', w')"
  shows "w' = w"
  using assms by (auto simp: with_conn_def checkConn_def withEndpoint_def deref_def split: option.splits run.splits if_splits)

lemma pair_apart: "stream_apart (pair_host 0) 13 (\<lambda>w. n_inbox w 12) pair_live"
  by (auto simp: stream_apart_def same_stream_def pair_host_def net_sockets_def net_send_def pair_live_def net_live_def
      put_def plain_def Let_def dest!: with_conn_world [rotated])

lemma new_put: "conn_manager c = new_ConnManager \<Longrightarrow> put C ip port lo ro n RDMA c w = Ret ((NOT_FOUND, ()), c, w)"
  by (simp add: put_def with_conn_def checkConn_def withEndpoint_def endpointMapFor_def new_ConnManager_def)

lemma new_slice_loop:
  "conn_manager (comm a) = new_ConnManager \<Longrightarrow> \<exists>a1 w1. slice_loop H fill timed notify c len n sent a w = Ret (a1, w1)"
  by (cases timed; cases notify; induction n arbitrary: sent a w) (simp_all add: Let_def on_comm_def new_put split: prod.split)

lemma pair_run: "\<exists>a1 w1. send_channel_slice_g2h2g (pair_host 0) \<lparr> cpu_data_ptr = 512, gpu_data_ptr = 512, ctx_size = 12 \<rparr>
    (pair_app 1 11 13) pair_net = Ret (a1, w1)"
proof -
  have n: "slice_count 16 12 = Some 2" by code_simp
  define fill where "fill = (\<lambda>(a :: RDMAEndpoint app) sent n w. snd (on_machine (pair_host 0) (Memory_copyDeviceToHost
    (h_platform (pair_host 0)) (gpu_mem_op a) (ptr (app_buffer a)) (512 + sent) n) w))"
  have cm: "conn_manager (comm ((pair_app 1 11 13)\<lparr> total_time := 0 \<rparr>)) = new_ConnManager"
    by (simp add: pair_app_def new_Communicator_def)
  obtain a1 w1 where "slice_loop (pair_host 0) fill True True (16 div 2) 12 2 0 ((pair_app 1 11 13)\<lparr> total_time := 0 \<rparr>) pair_net
      = Ret (a1, w1)"
    using new_slice_loop [OF cm, of "pair_host 0" fill True True "16 div 2" 12 2 0 pair_net] by blast
  then show ?thesis
    using n by (simp add: send_channel_slice_g2h2g_def send_slices_def fill_def finished_def pair_app_def)
qed

theorem slices_acknowledged_witness:
  "\<exists>a1 w1 w2. send_channel_slice_g2h2g (pair_host 0) \<lparr> cpu_data_ptr = 512, gpu_data_ptr = 512, ctx_size = 12 \<rparr>
      (pair_app 1 11 13) pair_net = Ret (a1, w1)
    \<and> recv_channel_slice_g2h2g (pair_host 1) \<lparr> cpu_data_ptr = 768, gpu_data_ptr = 0, ctx_size = 12 \<rparr> (pair_app 0 12 14) w1
      = await_finished (pair_host 1) (pair_app 0 12 14) w2"
proof -
  let ?x = "\<lparr> cpu_data_ptr = 512, gpu_data_ptr = 512, ctx_size = 12 \<rparr>"
    and ?y = "\<lparr> cpu_data_ptr = 768, gpu_data_ptr = 0, ctx_size = 12 \<rparr>"
  obtain a1 w1 where r: "send_channel_slice_g2h2g (pair_host 0) ?x (pair_app 1 11 13) pair_net = Ret (a1, w1)"
    using pair_run by blast
  have "\<exists>w2. recv_channel_slice_serial (pair_host 1) ?y (pair_app 0 12 14) w1 = await_finished (pair_host 1) (pair_app 0 12 14) w2
    \<and> recv_channel_slice_g2h2g (pair_host 1) ?y (pair_app 0 12 14) w1 = await_finished (pair_host 1) (pair_app 0 12 14) w2
    \<and> n_inbox w2 12 = [] \<and> pair_live w2"
  proof (rule slices_acknowledged)
    show "byte_stream (h_sockets (pair_host 0)) (h_sockets (pair_host 1)) 11 12 (\<lambda>w. n_inbox w 12) pair_live"
      using pair_stream by (simp add: pair_host_def)
    show "send_channel_slice_serial (pair_host 0) ?x (pair_app 1 11 13) pair_net = Ret (a1, w1) \<or>
      send_channel_slice_g2h2g (pair_host 0) ?x (pair_app 1 11 13) pair_net = Ret (a1, w1)" using r by simp
    show "stream_apart (pair_host 0) (ctrl_sock (pair_app 1 11 13)) (\<lambda>w. n_inbox w 12) pair_live"
      using pair_apart by (simp add: pair_app_def)
  qed (simp_all add: pair_app_def pair_live_def net_live_def pair_net_def demo_net_def demo_mgr_def fdOf_def)
  with r show ?thesis by blast
qed

end
