(* ===== verification/Hmc_Python.thy ===== *)
theory Hmc_Python
  imports Hmc_Communicator
begin

text \<open>
  The bindings python/hmc_py.cpp where they do more than hand their arguments on: blocks of memory owned
  by a Python object, the checked copies of a connection buffer, and results returned as pairs.  An
  exception is \<open>Throw\<close>; a view of a Python buffer is what \<^verbatim>\<open>request\<close> returns.
\<close>

section \<open>Owned blocks\<close>

text \<open>The wrapper keeps a reference to the \<^verbatim>\<open>Memory\<close> object that made its block, which it does not own:
  the objects that exist are a table, and to use a reference to a deleted one is \<open>Fault\<close>.\<close>

record PyBufferWrapper =
  pw_ptr :: addr
  pw_size :: size_t
  pw_self :: nat

definition py_wrap :: "nat \<Rightarrow> size_t \<Rightarrow> status_t \<times> addr option \<times> Memory \<Rightarrow> (nat \<rightharpoonup> Memory)
    \<Rightarrow> (status_t \<times> PyBufferWrapper option) \<times> (nat \<rightharpoonup> Memory)" where
  "py_wrap self n r objs =
    (case r of (st, a, mo) \<Rightarrow>
       ((st, if st \<noteq> SUCCESS then None
             else Some \<lparr> pw_ptr = (case a of None \<Rightarrow> 0 | Some q \<Rightarrow> q), pw_size = n, pw_self = self \<rparr>),
        objs(self \<mapsto> mo)))"

definition py_allocateBuffer :: "'hw platform \<Rightarrow> nat \<Rightarrow> Memory \<Rightarrow> size_t \<Rightarrow> (nat \<rightharpoonup> Memory)
    \<Rightarrow> ('hw, (status_t \<times> PyBufferWrapper option) \<times> (nat \<rightharpoonup> Memory)) call" where
  "py_allocateBuffer P self mo n objs m =
    (case Memory_allocateBuffer P mo n m of (r, m1) \<Rightarrow> (py_wrap self n r objs, m1))"

definition py_allocatePeerableBuffer :: "'hw platform \<Rightarrow> nat \<Rightarrow> Memory \<Rightarrow> size_t \<Rightarrow> (nat \<rightharpoonup> Memory)
    \<Rightarrow> ('hw, (status_t \<times> PyBufferWrapper option) \<times> (nat \<rightharpoonup> Memory)) call" where
  "py_allocatePeerableBuffer P self mo n objs m =
    (case Memory_allocatePeerableBuffer P mo n m of (r, m1) \<Rightarrow> (py_wrap self n r objs, m1))"

definition delete_PyBufferWrapper :: "'hw platform \<Rightarrow> (nat \<rightharpoonup> Memory) \<Rightarrow> PyBufferWrapper \<Rightarrow> 'hw machine \<Rightarrow> 'hw machine run" where
  "delete_PyBufferWrapper P objs b m =
    (if pw_ptr b = 0 then Ret m
     else case objs (pw_self b) of
       None \<Rightarrow> Fault
     | Some mo \<Rightarrow> Ret (snd (Memory_freeBuffer P mo (pw_ptr b) m)))"

text \<open>\<^verbatim>\<open>size\<close> and \<^verbatim>\<open>itemsize\<close> are signed 64-bit numbers; their product is read as \<^verbatim>\<open>size_t\<close>.\<close>

record buffer_info =
  bi_ptr :: addr
  bi_size :: u64
  bi_itemsize :: u64
  bi_readonly :: bool

definition py_view :: "PyBufferWrapper \<Rightarrow> buffer_info" where
  "py_view b = \<lparr> bi_ptr = pw_ptr b, bi_size = pw_size b, bi_itemsize = 1, bi_readonly = False \<rparr>"

section \<open>Checked copies\<close>

definition py_result :: "('hw, 'r) call \<Rightarrow> ('hw, 'r outcome) call" where
  "py_result f m = apfst Return (f m)"

definition py_writeFromCpu ::
  "'hw platform \<Rightarrow> ConnBuffer \<Rightarrow> buffer_info \<Rightarrow> size_t \<Rightarrow> size_t \<Rightarrow> ('hw, status_t outcome) call" where
  "py_writeFromCpu P b src n bias m =
    (if n + bias > buffer_size b then (Throw ''Buffer overflow'', m)
     else if bi_size src * bi_itemsize src < n then (Throw ''Source buffer too small'', m)
     else py_result (writeFromCpu P b (bi_ptr src) n bias) m)"

definition py_readToCpu ::
  "'hw platform \<Rightarrow> ConnBuffer \<Rightarrow> buffer_info \<Rightarrow> size_t \<Rightarrow> size_t \<Rightarrow> ('hw, status_t outcome) call" where
  "py_readToCpu P b dest n bias m =
    (if n + bias > buffer_size b then (Throw ''Buffer overflow'', m)
     else if bi_size dest * bi_itemsize dest < n then (Throw ''Destination buffer too small'', m)
     else if bi_readonly dest then (Throw ''Destination buffer must be writeable'', m)
     else py_result (readToCpu P b (bi_ptr dest) n bias) m)"

definition py_writeFromGpu ::
  "'hw platform \<Rightarrow> ConnBuffer \<Rightarrow> addr \<Rightarrow> size_t \<Rightarrow> size_t \<Rightarrow> ('hw, status_t outcome) call" where
  "py_writeFromGpu P b src n bias m =
    (if n + bias > buffer_size b then (Throw ''Buffer overflow'', m)
     else py_result (writeFromGpu P b src n bias) m)"

definition py_readToGpu ::
  "'hw platform \<Rightarrow> ConnBuffer \<Rightarrow> addr \<Rightarrow> size_t \<Rightarrow> size_t \<Rightarrow> ('hw, status_t outcome) call" where
  "py_readToGpu P b dest n bias m =
    (if n + bias > buffer_size b then (Throw ''Buffer overflow'', m)
     else py_result (readToGpu P b dest n bias) m)"

definition py_copyWithin ::
  "'hw platform \<Rightarrow> ConnBuffer \<Rightarrow> size_t \<Rightarrow> size_t \<Rightarrow> size_t \<Rightarrow> ('hw, status_t outcome) call" where
  "py_copyWithin P b dst_bias src_bias n m =
    (if dst_bias + n > buffer_size b \<or> src_bias + n > buffer_size b then (Throw ''Buffer overflow'', m)
     else py_result (copyWithin P b dst_bias src_bias n) m)"

section \<open>Results as pairs\<close>

text \<open>The pair has 0 for an identifier or a tag that was not stored.\<close>

definition py_putNB where
  "py_putNB C ip port local_off remote_off n t c w = putNB C ip port local_off remote_off n t c w"

definition py_getNB where
  "py_getNB C ip port local_off remote_off n t c w = getNB C ip port local_off remote_off n t c w"

definition py_ctrlRecv :: "'w sockets \<Rightarrow> CtrlSocketManager \<Rightarrow> CtrlId \<Rightarrow> 'w \<Rightarrow> (status_t \<times> u64) \<times> 'w" where
  "py_ctrlRecv sk m peer w =
    (case ctrlRecv sk m peer w of ((st, tag), w1) \<Rightarrow> ((st, case tag of None \<Rightarrow> 0 | Some t \<Rightarrow> t), w1))"

section \<open>The checks\<close>

text \<open>An access that raised no exception passes the check of the library.\<close>

lemma py_check: "n + bias > buffer_size b \<longleftrightarrow> range_rejected bias n (buffer_size b)"
  by (simp add: range_rejected_def add.commute)

lemmas py_copy_defs = py_writeFromCpu_def py_readToCpu_def py_writeFromGpu_def py_readToGpu_def py_copyWithin_def

lemma py_result_eq [simp]: "py_result f m = (Return r, m') \<longleftrightarrow> f m = (r, m')" "fst (py_result f m) \<noteq> Throw e"
  by (cases "f m"; simp add: py_result_def)+

text \<open>A copy between a block made here and a connection buffer raises exactly for a range the buffer or
  the block does not have, with a block of the size that was asked for.\<close>

lemma py_view_fits: "bi_size (py_view b) * bi_itemsize (py_view b) = pw_size b"
  by (simp add: py_view_def)

text \<open>Through the bindings bytes survive a write and a read.  When both calls return a status of
  success, with any range that fits the connection buffer, the destination has the bytes of the source;
  both Python buffers are at least as large as the range, the destination is writable, and the write has
  changed nothing outside the connection buffer.\<close>

lemma python_round_trip:
  assumes "conforming_copies p" and "range_fits bias n (buffer_size b)"
    and w: "py_writeFromCpu p b src n bias m = (Return SUCCESS, m1)"
    and "copy_reliable p b HostToDevice (ptr b + bias) (bi_ptr src) n m"
    and r: "py_readToCpu p b dest n bias m1 = (Return SUCCESS, m2)"
    and "copy_reliable p b DeviceToHost (bi_ptr dest) (ptr b + bias) n m1"
  shows "read_bytes (ram m2) (bi_ptr dest) (unat n) = read_bytes (ram m) (bi_ptr src) (unat n)
    \<and> n \<le> bi_size src * bi_itemsize src \<and> n \<le> bi_size dest * bi_itemsize dest \<and> \<not> bi_readonly dest
    \<and> (\<forall>a. \<not> in_range a (ptr b) (buffer_size b) \<longrightarrow> ram m1 a = ram m a)"
proof -
  have w': "writeFromCpu p b (bi_ptr src) n bias m = (SUCCESS, m1)" and n: "n \<le> bi_size src * bi_itemsize src"
    using w by (auto simp: py_writeFromCpu_def not_less split: if_splits)
  have r': "readToCpu p b (bi_ptr dest) n bias m1 = (SUCCESS, m2)" and d: "n \<le> bi_size dest * bi_itemsize dest"
    and "\<not> bi_readonly dest"
    using r by (auto simp: py_readToCpu_def not_less split: if_splits)
  moreover have "ram m1 a = ram m a" if "\<not> in_range a (ptr b) (buffer_size b)" for a
    using writeFromCpu_success [OF assms(1) w' assms(4)] fits_in_buffer [OF assms(2)] that
    by (auto simp: memcpy_def in_range_def)
  moreover have "read_bytes (ram m2) (bi_ptr dest) (unat n) = read_bytes (ram m) (bi_ptr src) (unat n)"
    using writeFromCpu_success [OF assms(1) w' assms(4)] readToCpu_success [OF assms(1) r' assms(6)]
    by (simp add: read_memcpy)
  ultimately show ?thesis using n by blast
qed

text \<open>A block is given back to the object that made it, which has to be alive then.\<close>

lemma python_block_freed:
  assumes "py_allocateBuffer P self mo n objs m = (((SUCCESS, Some b), objs'), m1)" and "pw_ptr b \<noteq> 0"
  shows "\<exists>mo'. objs' self = Some mo' \<and> delete_PyBufferWrapper P objs' b m1 = Ret (snd (Memory_freeBuffer P mo' (pw_ptr b) m1))
    \<and> delete_PyBufferWrapper P (objs'(self := None)) b m1 = Fault \<and> pw_size b = n"
  using assms by (auto simp: py_allocateBuffer_def py_wrap_def delete_PyBufferWrapper_def split: prod.splits if_splits)

end
