(* ===== verification/Hmc_P2pData.thy ===== *)
theory Hmc_P2pData
  imports Hmc_Communicator
begin

text \<open>
  What a transfer between two processes of one host does to their memories.  The locale \<open>ipc_memory\<close> is the
  contract of exporting, opening and copying through a memory handle as the run times document it; from it
  follows that \<^verbatim>\<open>putP2p\<close> and \<^verbatim>\<open>getP2p\<close> move bytes between the two communication buffers.
\<close>

section \<open>Memory behind a handle\<close>

text \<open>\<open>rt\<close> is the run time of the process that opens a handle, \<open>rtx\<close> that of the one that exported it.  \<open>view\<close>
  is the memory as the first sees it, \<open>peer\<close> that of the second; \<open>denotes h b\<close>: the bytes \<open>h\<close> are a handle of
  the peer's block at \<open>b\<close>, which has \<open>block b\<close> bytes; \<open>window w p = Some b\<close>: that block is open at \<open>p\<close>.\<close>

locale ipc_memory =
  fixes rt rtx :: "'w ipc_rt" and width :: nat and view peer :: "'w \<Rightarrow> memory"
    and window :: "'w \<Rightarrow> addr \<Rightarrow> addr option" and denotes :: "u8 list \<Rightarrow> addr \<Rightarrow> bool" and block :: "addr \<Rightarrow> nat"
  assumes handle_denotes: "ipc_handle rtx b w = ((0, h), w') \<Longrightarrow> length h = width \<and> denotes h b"
    and open_window: "ipc_open rt h fl w = ((0, p), w') \<Longrightarrow> denotes h b \<Longrightarrow> window w' p = Some b"
    and copy_out: "window w p = Some b \<Longrightarrow> unat off + unat n \<le> block b \<Longrightarrow> ipc_memcpy rt (p + off) s n w = (0, w') \<Longrightarrow>
      peer w' = (\<lambda>x. if x - (b + off) < n then view w (s + (x - (b + off))) else peer w x)"
    and copy_in: "window w p = Some b \<Longrightarrow> unat off + unat n \<le> block b \<Longrightarrow> ipc_memcpy rt d (p + off) n w = (0, w') \<Longrightarrow>
      read_bytes (view w') d (unat n) = read_bytes (peer w) (b + off) (unat n)"
    and sync_keeps: "ipc_sync rt w = (0, w') \<Longrightarrow> view w' = view w \<and> peer w' = peer w"
begin

text \<open>The copy of both transports.\<close>

lemma synced_copy:
  assumes "(case ipc_memcpy rt d s n w of (r, w1) \<Rightarrow> if r \<noteq> 0 then (ERROR, w1)
      else case ipc_sync rt w1 of (r2, w2) \<Rightarrow> (if r2 \<noteq> 0 then ERROR else SUCCESS, w2)) = (SUCCESS, w')"
  obtains w1 where "ipc_memcpy rt d s n w = (0, w1)" "view w' = view w1" "peer w' = peer w1"
  using assms sync_keeps by (auto split: prod.splits if_splits)

lemma synced_out:
  assumes "(case ipc_memcpy rt (p + off) s n w of (r, w1) \<Rightarrow> if r \<noteq> 0 then (ERROR, w1)
      else case ipc_sync rt w1 of (r2, w2) \<Rightarrow> (if r2 \<noteq> 0 then ERROR else SUCCESS, w2)) = (SUCCESS, w')"
    and "window w p = Some b" and "unat off + unat n \<le> block b"
  shows "peer w' = (\<lambda>x. if x - (b + off) < n then view w (s + (x - (b + off))) else peer w x)"
  using assms(1) by (rule synced_copy) (simp add: copy_out [OF assms(2,3)])

lemma synced_in:
  assumes "(case ipc_memcpy rt d (p + off) n w of (r, w1) \<Rightarrow> if r \<noteq> 0 then (ERROR, w1)
      else case ipc_sync rt w1 of (r2, w2) \<Rightarrow> (if r2 \<noteq> 0 then ERROR else SUCCESS, w2)) = (SUCCESS, w')"
    and "window w p = Some b" and "unat off + unat n \<le> block b"
  shows "read_bytes (view w') d (unat n) = read_bytes (peer w) (b + off) (unat n)"
  using assms(1) by (rule synced_copy) (simp add: copy_in [OF assms(2,3)])

end

section \<open>A reference pair of processes\<close>

text \<open>Two memories and one window of 4096 bytes at a fixed address; a copy goes into the window, or from
  anywhere to an address below it.\<close>

record two_mem =
  tm_own :: memory
  tm_peer :: memory
  tm_open :: "addr option"

definition two_base :: addr where
  "two_base = 0x4000000000000000"

definition two_view :: "two_mem \<Rightarrow> memory" where
  "two_view w x = (case tm_open w of
       Some b \<Rightarrow> if x - two_base < 4096 then tm_peer w (b + (x - two_base)) else tm_own w x
     | None \<Rightarrow> tm_own w x)"

definition two_copy :: "addr \<Rightarrow> addr \<Rightarrow> size_t \<Rightarrow> two_mem \<Rightarrow> int \<times> two_mem" where
  "two_copy d s n w =
    (case tm_open w of
       Some b \<Rightarrow>
         let off = d - two_base; moved = (\<lambda>at old x. if x - at < n then two_view w (s + (x - at)) else old x)
         in if off < 4096
            then if s - two_base < 4096 \<or> 4096 < unat off + unat n then (1, w)
                 else (0, w\<lparr> tm_peer := moved (b + off) (tm_peer w) \<rparr>)
            else if unat two_base < unat d + unat n then (1, w) else (0, w\<lparr> tm_own := moved d (tm_own w) \<rparr>)
     | None \<Rightarrow> (1, w))"

definition two_rt :: "nat \<Rightarrow> two_mem ipc_rt" where
  "two_rt k = \<lparr> ipc_setDevice = (\<lambda>d w. (0, w)), ipc_handle = (\<lambda>b w. ((0, le_bytes 8 b @ replicate k 0), w)),
     ipc_open = (\<lambda>h fl w. if tm_open w = None then ((0, two_base), w\<lparr> tm_open := Some (le_word (take 8 h)) \<rparr>) else ((1, 0), w)),
     ipc_close = (\<lambda>p w. w\<lparr> tm_open := None \<rparr>), ipc_memcpy = two_copy, ipc_sync = (\<lambda>w. (0, w)) \<rparr>"

definition two_window :: "two_mem \<Rightarrow> addr \<Rightarrow> addr option" where
  "two_window w p = (if p = two_base then tm_open w else None)"

definition two_denotes :: "u8 list \<Rightarrow> addr \<Rightarrow> bool" where
  "two_denotes h b \<longleftrightarrow> le_word (take 8 h) = b"

lemma below_window: "unat x < unat two_base \<Longrightarrow> \<not> x - two_base < 4096"
  by (simp add: two_base_def word_less_nat_alt unat_sub_if')

lemma window_read: "tm_open w = Some b \<Longrightarrow> unat off < 4096 \<Longrightarrow> two_view w (two_base + off) = tm_peer w (b + off)"
  by (simp add: two_view_def word_less_nat_alt)

interpretation two: ipc_memory "two_rt k" "two_rt k" "8 + k" two_view tm_peer two_window two_denotes "\<lambda>b. 4096"
  for k
proof unfold_locales
  fix w w' :: two_mem and p b off s d :: addr and n :: size_t
  assume win: "two_window w p = Some b" and fit: "unat off + unat n \<le> 4096"
  then have p: "p = two_base" "tm_open w = Some b" by (simp_all add: two_window_def split: if_splits)
  have off: "off < 4096 \<or> n = 0"
    using fit unat_gt_0 [of n] by (auto simp: word_less_nat_alt)
  have far: "unat two_base < unat (two_base + off) + unat n" if "\<not> off < 4096"
  proof -
    have "unat off = 4096" using fit that by (simp add: word_less_nat_alt)
    then have "off = 4096" by (simp add: word_unat_eq_iff)
    then show ?thesis by (simp add: two_base_def)
  qed
  show "tm_peer w' = (\<lambda>x. if x - (b + off) < n then two_view w (s + (x - (b + off))) else tm_peer w x)"
    if "ipc_memcpy (two_rt k) (p + off) s n w = (0, w')"
    using that p far by (auto simp: two_rt_def two_copy_def Let_def split: if_splits)
  show "read_bytes (two_view w') d (unat n) = read_bytes (tm_peer w) (b + off) (unat n)"
    if "ipc_memcpy (two_rt k) d (p + off) n w = (0, w')"
  proof (rule read_bytes_cong)
    fix i assume i: "i < unat n"
    then have o: "off < 4096" using off by auto
    then have cp: "unat d + unat n \<le> unat two_base" "w' = w\<lparr> tm_own := (\<lambda>x. if x - d < n
        then two_view w (p + off + (x - d)) else tm_own w x) \<rparr>" "\<not> d - two_base < 4096"
      using that p by (auto simp: two_rt_def two_copy_def Let_def not_less split: if_splits)
    have ui: "unat (of_nat i :: size_t) = i" using i by (simp add: unat_of_nat_u64 less_trans [OF _ unat_u64_bound])
    have "unat (d + of_nat i) = unat d + i"
      using cp(1) i ui by (subst unat_add_no_wrap) (simp_all add: two_base_def)
    then have "\<not> d + of_nat i - two_base < 4096" using below_window cp(1) i by simp
    moreover have "tm_open w' = Some b" using cp(2) p by simp
    ultimately have "two_view w' (d + of_nat i) = tm_own w' (d + of_nat i)" by (simp add: two_view_def)
    also have "\<dots> = two_view w (two_base + (off + of_nat i))"
      using cp(2) i p(1) by (simp add: of_nat_less_u64 add.assoc)
    finally have "two_view w' (d + of_nat i) = two_view w (two_base + (off + of_nat i))" .
    moreover have "unat (off + of_nat i) < 4096"
      using fit i ui by (subst unat_add_no_wrap) simp_all
    ultimately show "two_view w' (d + of_nat i) = tm_peer w (b + off + of_nat i)"
      using window_read [OF p(2)] by (simp add: add.assoc)
  qed
qed (auto simp: two_rt_def two_window_def two_denotes_def split: if_splits)

section \<open>Transports\<close>

fun tr_buffer :: "P2pTransport \<Rightarrow> addr" where
  "tr_buffer (Cambricon t) = ct_buf t"
| "tr_buffer (Rocm t) = rt_buf t"

fun same_kind :: "P2pTransport \<Rightarrow> P2pTransport \<Rightarrow> bool" where
  "same_kind (Cambricon t) (Cambricon u) = True"
| "same_kind (Rocm t) (Rocm u) = True"
| "same_kind _ _ = False"

text \<open>Both run times of both processes.\<close>

definition p2p_memory where
  "p2p_memory E F view peer window denotes block \<longleftrightarrow>
     ipc_memory (cnrt E) (cnrt F) 8 view peer window denotes block
   \<and> ipc_memory (hiprt E) (hiprt F) 64 view peer window denotes block"

text \<open>A handle survives its way through the 64 bytes that are exchanged.\<close>

lemma imported_window:
  assumes mem: "p2p_memory E F view peer window denotes block"
    and ex: "tr_export F hb X w0 = ((SUCCESS, h), w1)" and k: "same_kind X T"
    and im: "tr_import E h out dev T w = ((SUCCESS, p), T', w2)"
  shows "window w2 p = Some (tr_buffer X) \<and> same_kind X T'"
proof (cases X)
  case (Cambricon x)
  then obtain t where T: "T = Cambricon t" using k by (cases T) auto
  note m = mem [unfolded p2p_memory_def, THEN conjunct1]
  obtain g where g: "ipc_handle (cnrt F) (ct_buf x) w0 = ((0, g), w1)" "h = take 8 g @ drop 8 hb"
    using ex Cambricon by (auto simp: tr_export_def Cambricon_exportHandle_def split: if_splits prod.splits)
  note d = ipc_memory.handle_denotes [OF m g(1)]
  then have "take 8 h = g" using g(2) by simp
  then show ?thesis
    using im T Cambricon ipc_memory.open_window [OF m] d
    by (fastforce simp: tr_import_def Cambricon_importHandle_def Let_def split: if_splits prod.splits)
next
  case (Rocm x)
  then obtain t where T: "T = Rocm t" using k by (cases T) auto
  note m = mem [unfolded p2p_memory_def, THEN conjunct2]
  obtain g where g: "ipc_handle (hiprt F) (rt_buf x) w0 = ((0, g), w1)" "h = take 64 g @ drop 64 hb"
    using ex Rocm by (auto simp: tr_export_def Rocm_exportHandle_def split: if_splits prod.splits)
  note d = ipc_memory.handle_denotes [OF m g(1)]
  then have "take 64 h = g" using g(2) by simp
  then show ?thesis
    using im T Rocm ipc_memory.open_window [OF m] d
    by (fastforce simp: tr_import_def Rocm_importHandle_def Let_def split: if_splits prod.splits)
qed

lemma transport_out:
  assumes mem: "p2p_memory E F view peer window denotes block"
    and "tr_copy E (p + off) s n T w = (SUCCESS, w')" and win: "window w p = Some b" "unat off + unat n \<le> block b"
  shows "peer w' = (\<lambda>x. if x - (b + off) < n then view w (s + (x - (b + off))) else peer w x)"
proof (cases T)
  case (Cambricon t)
  then show ?thesis
    using assms(2) ipc_memory.synced_out [OF mem [unfolded p2p_memory_def, THEN conjunct1] _ win]
    by (auto simp: tr_copy_def Cambricon_copy_def split: if_splits)
next
  case (Rocm t)
  then show ?thesis
    using assms(2) ipc_memory.synced_out [OF mem [unfolded p2p_memory_def, THEN conjunct2] _ win]
    by (auto simp: tr_copy_def Rocm_copy_def split: if_splits)
qed

lemma transport_in:
  assumes mem: "p2p_memory E F view peer window denotes block"
    and "tr_copy E d (p + off) n T w = (SUCCESS, w')" and win: "window w p = Some b" "unat off + unat n \<le> block b"
  shows "read_bytes (view w') d (unat n) = read_bytes (peer w) (b + off) (unat n)"
proof (cases T)
  case (Cambricon t)
  then show ?thesis
    using assms(2) ipc_memory.synced_in [OF mem [unfolded p2p_memory_def, THEN conjunct1] _ win]
    by (auto simp: tr_copy_def Cambricon_copy_def split: if_splits)
next
  case (Rocm t)
  then show ?thesis
    using assms(2) ipc_memory.synced_in [OF mem [unfolded p2p_memory_def, THEN conjunct2] _ win]
    by (auto simp: tr_copy_def Rocm_copy_def split: if_splits)
qed

section \<open>Through the communicator\<close>

lemma added_p2p:
  assumes "p2p_endpoint_map (conn_manager c) r = None" and "addP2pEndpoint C r (Some e) c w = (st, c1, w1)"
  shows "w1 = w" "heap (conn_manager c1) (next_ptr (conn_manager c)) = Some e"
    "withP2pEndpoint r d f (conn_manager c1) v = deref (next_ptr (conn_manager c)) (f (next_ptr (conn_manager c))) (conn_manager c1) v"
  using assms
  by (auto simp: addP2pEndpoint_def initiateP2pConnection_def addP2pEndpoint_cm_def alloc_def reset_ptr_def Let_def
      withP2pEndpoint_def)

lemma p2p_call_added:
  assumes "p2p_endpoint_map (conn_manager c) r = None" and "addP2pEndpoint C r (Some (AsP2p q)) c w = (st, c1, w1)"
    and "p2p_call r (\<lambda>p e w. plain (on_any f g h e w)) c1 w1 = Ret ((SUCCESS, u), c2, w2)"
  shows "w1 = w \<and> h q w = (SUCCESS, w2)"
  using assms(3) added_p2p(1) [OF assms(1,2)]
  by (auto simp: p2p_call_def added_p2p(2,3) [OF assms(1,2)] deref_def on_any_def plain_def split: prod.splits)

text \<open>C34: Same-host transfers move the bytes.  When one process has imported the handle that the other
  exported of its buffer, through either run time, and has registered the endpoint, a successful \<^verbatim>\<open>putP2p\<close>
  stores the local range at the remote offset of the peer's buffer and changes nothing else there, and a
  successful \<^verbatim>\<open>getP2p\<close> brings the remote range to the local offset.\<close>

theorem p2p_transfer_delivers:
  assumes "p2p_memory E F view peer window denotes block"
    and "tr_export F hb X w0 = ((SUCCESS, h), w1)" and "same_kind X T"
    and "tr_import E h out dev T w1 = ((SUCCESS, p), T', w2)"
    and "p2p_endpoint_map (conn_manager c) r = None"
    and "addP2pEndpoint (hmc_class R Y E) r (Some (AsP2p \<lparr> transport = Some T', local_ptr = a, peer_ptr = p, peer_rank = r \<rparr>)) c w2
      = (st, c1, w3)"
    and "unat ro + unat n \<le> block (tr_buffer X)"
  shows "(putP2p (hmc_class R Y E) r lo ro n c1 w3 = Ret ((SUCCESS, u), c2, w4) \<longrightarrow>
        peer w4 = (\<lambda>x. if x - (tr_buffer X + ro) < n then view w3 (a + lo + (x - (tr_buffer X + ro))) else peer w3 x))
    \<and> (getP2p (hmc_class R Y E) r lo ro n c1 w3 = Ret ((SUCCESS, u), c2, w4) \<longrightarrow>
        read_bytes (view w4) (a + lo) (unat n) = read_bytes (peer w3) (tr_buffer X + ro) (unat n))"
proof -
  let ?q = "\<lparr> transport = Some T', local_ptr = a, peer_ptr = p, peer_rank = r \<rparr>"
  have win: "window w2 p = Some (tr_buffer X)" using imported_window [OF assms(1-4)] by blast
  note call = p2p_call_added [OF assms(5,6)]
  have "peer w4 = (\<lambda>x. if x - (tr_buffer X + ro) < n then view w3 (a + lo + (x - (tr_buffer X + ro))) else peer w3 x)"
    if "putP2p (hmc_class R Y E) r lo ro n c1 w3 = Ret ((SUCCESS, u), c2, w4)"
  proof -
    have "w3 = w2 \<and> p2p_writeData E ?q lo ro n w2 = (SUCCESS, w4)"
      using that unfolding putP2p_def hmc_class_def Endpoint.simps by (rule call)
    then show ?thesis
      using transport_out [OF assms(1) _ win assms(7)] by (auto simp: p2p_writeData_def split: if_splits)
  qed
  moreover have "read_bytes (view w4) (a + lo) (unat n) = read_bytes (peer w3) (tr_buffer X + ro) (unat n)"
    if "getP2p (hmc_class R Y E) r lo ro n c1 w3 = Ret ((SUCCESS, u), c2, w4)"
  proof -
    have "w3 = w2 \<and> p2p_readData E ?q lo ro n w2 = (SUCCESS, w4)"
      using that unfolding getP2p_def hmc_class_def Endpoint.simps by (rule call)
    then show ?thesis
      using transport_in [OF assms(1) _ win assms(7)] by (auto simp: p2p_readData_def split: if_splits)
  qed
  ultimately show ?thesis by blast
qed

text \<open>The second process exports its buffer at 8192; the first opens it, registers the endpoint and puts 16
  bytes.\<close>

definition two_env :: "two_mem p2p_env" where
  "two_env = \<lparr> p2p_build = cpu_build\<lparr> enable_neuware := True, enable_rocm := True \<rparr>, cnrt = two_rt 0, hiprt = two_rt 56 \<rparr>"

lemma two_memory: "p2p_memory two_env two_env two_view tm_peer two_window two_denotes (\<lambda>b. 4096)"
  using two.ipc_memory_axioms [of 0] two.ipc_memory_axioms [of 56] by (simp add: p2p_memory_def two_env_def)

definition two_start :: two_mem where
  "two_start = \<lparr> tm_own = ucast, tm_peer = (\<lambda>x. 0), tm_open = None \<rparr>"

definition two_link :: "P2pTransport" where
  "two_link = Cambricon \<lparr> ct_device = 0, ct_buf = 512, ct_peer_ptr = two_base \<rparr>"

lemma two_export: "tr_export two_env (replicate 64 0) (Cambricon \<lparr> ct_device = 1, ct_buf = 8192, ct_peer_ptr = 0 \<rparr>) two_start
    = ((SUCCESS, le_bytes 8 (8192 :: u64) @ replicate 56 0), two_start)"
  by (simp add: tr_export_def Cambricon_exportHandle_def two_env_def two_rt_def cpu_build_def)

lemma two_import: "tr_import two_env (le_bytes 8 (8192 :: u64) @ replicate 56 0) 0 1
    (Cambricon \<lparr> ct_device = 0, ct_buf = 512, ct_peer_ptr = 0 \<rparr>) two_start
    = ((SUCCESS, two_base), two_link, two_start\<lparr> tm_open := Some 8192 \<rparr>)"
  by (simp add: tr_import_def Cambricon_importHandle_def two_env_def two_rt_def cpu_build_def two_start_def two_link_def)

theorem p2p_transfer_delivers_witness:
  "\<forall>R Y. \<exists>c1 c2 w3 w4. addP2pEndpoint (hmc_class R Y two_env) 1 (Some (AsP2p \<lparr> transport = Some two_link, local_ptr = 512,
      peer_ptr = two_base, peer_rank = 1 \<rparr>)) (new_Communicator demo_buffer) (two_start\<lparr> tm_open := Some 8192 \<rparr>) = (SUCCESS, c1, w3)
    \<and> putP2p (hmc_class R Y two_env) 1 4 8 16 c1 w3 = Ret ((SUCCESS, ()), c2, w4) \<and> tm_peer w4 8201 = 5"
proof (intro allI)
  fix R Y
  let ?q = "\<lparr> transport = Some two_link, local_ptr = 512, peer_ptr = two_base, peer_rank = 1 \<rparr>"
    and ?c = "new_Communicator demo_buffer :: any_endpoint Communicator" and ?w = "two_start\<lparr> tm_open := Some 8192 \<rparr>"
  obtain st c1 w3 where a: "addP2pEndpoint (hmc_class R Y two_env) 1 (Some (AsP2p ?q)) ?c ?w = (st, c1, w3)"
    by (metis surj_pair)
  have n: "p2p_endpoint_map (conn_manager ?c) 1 = None" by (simp add: new_Communicator_def new_ConnManager_def)
  have st: "st = SUCCESS" using a by (auto simp: addP2pEndpoint_def initiateP2pConnection_def split: prod.splits)
  note add = added_p2p [OF n a]
  obtain w4 where wr: "p2p_writeData two_env ?q 4 8 16 w3 = (SUCCESS, w4)"
    using add(1) by (simp add: p2p_writeData_def two_link_def tr_copy_def Cambricon_copy_def two_env_def cpu_build_def two_rt_def
        two_copy_def two_start_def two_base_def Let_def)
  obtain c2 where p: "putP2p (hmc_class R Y two_env) 1 4 8 16 c1 w3 = Ret ((SUCCESS, ()), c2, w4)"
    using wr add(2) by (simp add: putP2p_def p2p_call_def add(3) deref_def hmc_class_def on_any_def plain_def)
  have "tm_peer w4 8201 = 5"
    using p2p_transfer_delivers [OF two_memory two_export _ two_import n a, of 8 16 4 "()" c2 w4] p add(1)
    by (simp add: two_view_def two_start_def two_base_def)
  then show "\<exists>c1 c2 w3 w4. addP2pEndpoint (hmc_class R Y two_env) 1 (Some (AsP2p ?q)) ?c ?w = (SUCCESS, c1, w3)
    \<and> putP2p (hmc_class R Y two_env) 1 4 8 16 c1 w3 = Ret ((SUCCESS, ()), c2, w4) \<and> tm_peer w4 8201 = 5"
    using a st p by blast
qed

end
