(* ===== verification/Hmc_UcxShare.thy ===== *)
theory Hmc_UcxShare
  imports Hmc_UcxProps
begin

text \<open>
  Who owns the UCP objects of a process's clients: the \<^verbatim>\<open>UCXContext\<close> that \<^verbatim>\<open>UCXClient\<close> objects share through
  \<^verbatim>\<open>global_ctx_\<close> (src/network/ucx_client.cpp), the endpoints that keep it alive, and the objects each of them
  holds.  The locale \<open>ucp_objects\<close> is the contract of the UCP calls that make and release objects.
\<close>

section \<open>The shared context\<close>

text \<open>The control blocks of \<^verbatim>\<open>std::shared_ptr<UCXContext>\<close>: an object with the number of its owners.  An object
  without owners is destroyed; \<open>global_ctx\<close> is a \<^verbatim>\<open>weak_ptr\<close> and owns nothing.\<close>

record ctx_table =
  objects :: "nat \<rightharpoonup> UCXContext \<times> nat"
  next_object :: nat
  global_ctx :: "nat option"

definition new_ctx_table :: ctx_table where
  "new_ctx_table = \<lparr> objects = Map.empty, next_object = 1, global_ctx = None \<rparr>"

definition ctx_copy :: "nat \<Rightarrow> ctx_table \<Rightarrow> ctx_table" where
  "ctx_copy p t = (case objects t p of None \<Rightarrow> t | Some (c, n) \<Rightarrow> t\<lparr> objects := (objects t)(p \<mapsto> (c, Suc n)) \<rparr>)"

definition ctx_lock :: "ctx_table \<Rightarrow> nat option \<times> ctx_table" where
  "ctx_lock t = (case global_ctx t of
       None \<Rightarrow> (None, t)
     | Some p \<Rightarrow> if objects t p = None then (None, t) else (Some p, ctx_copy p t))"

definition ctx_release :: "'w ucp_api \<Rightarrow> nat \<Rightarrow> ctx_table \<Rightarrow> 'w \<Rightarrow> ctx_table \<times> 'w" where
  "ctx_release U p t w = (case objects t p of
       None \<Rightarrow> (t, w)
     | Some (c, n) \<Rightarrow>
         if n \<le> 1 then (t\<lparr> objects := (objects t)(p := None) \<rparr>, snd (finalize U c w))
         else (t\<lparr> objects := (objects t)(p \<mapsto> (c, n - 1)) \<rparr>, w))"

definition new_UCXClient :: "ctx_table \<Rightarrow> nat \<times> ctx_table" where
  "new_UCXClient t = (case ctx_lock t of
       (Some p, t1) \<Rightarrow> (p, t1)
     | (None, t1) \<Rightarrow>
         let p = next_object t1
         in (p, t1\<lparr> objects := (objects t1)(p \<mapsto> (new_UCXContext, 1)), next_object := Suc p, global_ctx := Some p \<rparr>))"

definition delete_UCXClient :: "'w ucp_api \<Rightarrow> nat \<Rightarrow> ctx_table \<Rightarrow> 'w \<Rightarrow> ctx_table \<times> 'w" where
  "delete_UCXClient U p t w = ctx_release U p t w"

text \<open>A connected endpoint has a copy of the pointer.\<close>

definition UCXClient_connect :: "'w ucp_api \<Rightarrow> u16 \<Rightarrow> ConnBuffer \<Rightarrow> string \<Rightarrow> u16 \<Rightarrow> nat \<Rightarrow> ctx_table \<Rightarrow> 'w
    \<Rightarrow> ((nat \<times> UCXEndpoint) option \<times> ctx_table \<times> 'w) option" where
  "UCXClient_connect U listen_port b ip port p t w = (case objects t p of
       None \<Rightarrow> Some (None, t, w)
     | Some (c, n) \<Rightarrow>
         (case ucx_connect U listen_port b ip port c w of
            None \<Rightarrow> None
          | Some (None, c1, w1) \<Rightarrow> Some (None, t\<lparr> objects := (objects t)(p \<mapsto> (c1, n)) \<rparr>, w1)
          | Some (Some e, c1, w1) \<Rightarrow> Some (Some (p, e), ctx_copy p (t\<lparr> objects := (objects t)(p \<mapsto> (c1, n)) \<rparr>), w1)))"

text \<open>The destructor of an endpoint, and the release of its pointer after it.\<close>

definition drop_UCXEndpoint :: "'w ucp_api \<Rightarrow> nat \<Rightarrow> UCXEndpoint \<Rightarrow> ctx_table \<Rightarrow> 'w \<Rightarrow> (ctx_table \<times> 'w) option" where
  "drop_UCXEndpoint U p e t w = (case objects t p of
       None \<Rightarrow> None
     | Some (c, n) \<Rightarrow> map_option (ctx_release U p t) (delete_UCXEndpoint U c e w))"

section \<open>UCP objects\<close>

datatype ucp_obj = Context nat | Worker nat | Ep nat | Region nat | Rkey nat

definition ucp_made :: "ucs_status_t \<Rightarrow> ucp_obj \<Rightarrow> ucp_obj set \<Rightarrow> ucp_obj set \<Rightarrow> bool" where
  "ucp_made st x L L' \<longleftrightarrow> (if st = UCS_OK then x \<notin> L \<and> L' = insert x L else L' = L)"

locale ucp_objects =
  fixes U :: "'w ucp_api" and objs :: "'w \<Rightarrow> ucp_obj set"
  assumes make_context: "ucp_init U w = ((st, x), w') \<Longrightarrow> ucp_made st (Context x) (objs w) (objs w')"
    and make_worker: "ucp_worker_create U c w = ((st, x), w') \<Longrightarrow> ucp_made st (Worker x) (objs w) (objs w')"
    and make_ep: "ucp_ep_create U k tg w = ((st, x), w') \<Longrightarrow> ucp_made st (Ep x) (objs w) (objs w')"
    and make_region: "ucp_mem_map U c a n w = ((st, x), w') \<Longrightarrow> ucp_made st (Region x) (objs w) (objs w')"
    and make_rkey: "ucp_ep_rkey_unpack U ep bs w = ((st, x), w') \<Longrightarrow> ucp_made st (Rkey x) (objs w) (objs w')"
    and free_context: "objs (ucp_cleanup U x w) = objs w - {Context x}"
    and free_worker: "objs (ucp_worker_destroy U x w) = objs w - {Worker x}"
    and free_ep: "ucp_ep_close_nbx U x w = (r, w') \<Longrightarrow> objs w' = objs w - {Ep x}"
    and free_region: "objs (ucp_mem_unmap U c x w) = objs w - {Region x}"
    and free_rkey: "objs (ucp_rkey_destroy U x w) = objs w - {Rkey x}"
    and config_keeps: "ucp_config_read U w = (st, w') \<Longrightarrow> objs w' = objs w"
    and pack_keeps: "ucp_rkey_pack U c m w = (key, w') \<Longrightarrow> objs w' = objs w"
    and send_keeps: "ucp_tag_send_nbx U ep bs tag w = (r, w') \<Longrightarrow> objs w' = objs w"
    and recv_keeps: "ucp_tag_recv_nbx U k cap tag msk w = (br, w') \<Longrightarrow> objs w' = objs w"
    and put_keeps: "ucp_put_nbx U ep a l d rk w = (r, w') \<Longrightarrow> objs w' = objs w"
    and get_keeps: "ucp_get_nbx U ep a l d rk w = (r, w') \<Longrightarrow> objs w' = objs w"
    and progress_keeps [simp]: "objs (ucp_worker_progress U k w) = objs w"
    and request_keeps [simp]: "objs (ucp_request_free U q w) = objs w"
    and now_keeps: "ucx_now U w = (t, w') \<Longrightarrow> objs w' = objs w"

text \<open>What a context and an endpoint hold.\<close>

definition ctx_objs :: "UCXContext \<Rightarrow> ucp_obj set" where
  "ctx_objs c = Context ` set_option (uc_context c) \<union> Worker ` set_option (uc_worker c)"

definition ep_objs :: "UCXEndpoint \<Rightarrow> ucp_obj set" where
  "ep_objs e = Ep ` set_option (ue_ep e) \<union> Region ` set_option (local_mem e) \<union> Rkey ` set_option (remote_rkey e)"

text \<open>A context of clients never listens.\<close>

definition ctx_sound :: "UCXContext \<Rightarrow> bool" where
  "ctx_sound c \<longleftrightarrow> uc_listener c = None \<and> uc_initialized c = (uc_context c \<noteq> None)
     \<and> uc_initialized c = (uc_worker c \<noteq> None)"

definition ep_sound :: "UCXEndpoint \<Rightarrow> bool" where
  "ep_sound e \<longleftrightarrow> local_mem_ready e = (local_mem e \<noteq> None)"

text \<open>Beside \<open>B\<close> exactly the objects of the endpoint are live.\<close>

definition holds_beside :: "ucp_obj set \<Rightarrow> UCXEndpoint \<Rightarrow> ucp_obj set \<Rightarrow> bool" where
  "holds_beside B e L \<longleftrightarrow> ep_sound e \<and> B \<inter> ep_objs e = {} \<and> L = B \<union> ep_objs e"

definition ctx_beside :: "ucp_obj set \<Rightarrow> UCXContext \<Rightarrow> ucp_obj set \<Rightarrow> bool" where
  "ctx_beside B c L \<longleftrightarrow> ctx_sound c \<and> B \<inter> ctx_objs c = {} \<and> L = B \<union> ctx_objs c"

lemmas ctx_beside_defs = ctx_beside_def ctx_sound_def ctx_objs_def

definition keeps_beside :: "('w \<Rightarrow> ucp_obj set) \<Rightarrow> ucp_obj set \<Rightarrow> ('r \<times> UCXEndpoint \<times> 'w) option \<Rightarrow> bool" where
  "keeps_beside objs B z \<longleftrightarrow> (\<forall>r e w. z = Some (r, e, w) \<longrightarrow> holds_beside B e (objs w))"

lemma keeps_beside_simps [simp]:
  "keeps_beside objs B None" "keeps_beside objs B (Some (r, e, w)) = holds_beside B e (objs w)"
  by (auto simp: keeps_beside_def)

lemmas beside_defs = holds_beside_def ep_sound_def ep_objs_def

text \<open>Any transfer or wait of an endpoint.\<close>

inductive link_call :: "'w ucp_api \<Rightarrow> UCXContext \<Rightarrow> UCXEndpoint \<times> 'w \<Rightarrow> UCXEndpoint \<times> 'w \<Rightarrow> bool" for U c where
  call_write: "ucx_writeData U c e lo ro n w = Some (st, w') \<Longrightarrow> link_call U c (e, w) (e, w')"
| call_read: "ucx_readData U c e lo ro n w = Some (st, w') \<Longrightarrow> link_call U c (e, w) (e, w')"
| call_writeNB: "ucx_writeDataNB U e lo ro n w = (r, e', w') \<Longrightarrow> link_call U c (e, w) (e', w')"
| call_readNB: "ucx_readDataNB U e lo ro n w = (r, e', w') \<Longrightarrow> link_call U c (e, w) (e', w')"
| call_wait: "ucx_waitWrId U c i e w = Some (st, e', w') \<Longrightarrow> link_call U c (e, w) (e', w')"
| call_multi: "ucx_waitWrIdMulti U c tmo wids e w = Some (st, e', w') \<Longrightarrow> link_call U c (e, w) (e', w')"

context ucp_objects
begin

lemma ucx_progress_keeps [simp]: "objs (ucx_progress U c w) = objs w"
  by (simp add: ucx_progress_def split: option.splits)

lemma wait_rma_keeps: "wait_rma U c r w = Some (st, w') \<Longrightarrow> objs w' = objs w"
  by (drule wait_rma.raw_induct [where P = "\<lambda>V c r w z. V = U \<longrightarrow> objs (snd z) = objs w", rotated])
    (auto split: if_splits)

lemma wait_tag_keeps: "wait_tag U c r w = Some (m, w') \<Longrightarrow> objs w' = objs w"
  by (drule wait_tag.raw_induct [where P = "\<lambda>V c r w z. V = U \<longrightarrow> objs (snd z) = objs w", rotated])
    (auto simp: Let_def split: if_splits option.splits)

lemma finish_rma_keeps: "finish_rma U c z = Some (st, w') \<Longrightarrow> objs w' = objs (snd z)"
  by (auto simp: finish_rma_def dest: wait_rma_keeps split: ucs_status_ptr.splits prod.splits)

lemma put_get_keeps [simp]: "objs (snd (ucp_put_nbx U ep a l d k w)) = objs w" "objs (snd (ucp_get_nbx U ep a l d k w)) = objs w"
  by (metis put_keeps surj_pair snd_conv, metis get_keeps surj_pair snd_conv)

text \<open>Messages and the metadata.\<close>

lemma tagSend_keeps:
  assumes "tagSend U c e buf ch sn w = Some (st, e', w')" and "holds_beside B e (objs w)"
  shows "holds_beside B e' (objs w')"
  using assms
  by (auto simp: tagSend_def tagSendAsync_def waitRequest_def Let_def beside_defs dest!: send_keeps wait_tag_keeps
      split: option.splits prod.splits if_splits ucs_status_ptr.splits tag_req.splits)

lemma tagRecv_keeps: "tagRecv U c ok cap ch sn w = Some (r, w') \<Longrightarrow> objs w' = objs w"
  by (auto simp: tagRecv_def tagRecvAsync_def dest!: recv_keeps wait_tag_keeps
      split: option.splits prod.splits if_splits ucs_status_ptr.splits tag_req.splits)

lemma export_keeps:
  assumes "exportLocalMemInfo U c e hdr w = (r, e', w')" and "holds_beside B e (objs w)"
  shows "holds_beside B e' (objs w')"
  using assms
  by (auto simp: exportLocalMemInfo_def ensureLocalMemRegistered_def beside_defs ucp_made_def dest!: pack_keeps make_region
      split: prod.splits if_splits)

lemma set_remote_keeps:
  assumes "setRemoteMemInfo U e hdr bs w = (r, e', w')" and "holds_beside B e (objs w)"
  shows "holds_beside B e' (objs w')"
  using assms
  by (auto simp: setRemoteMemInfo_def Let_def beside_defs ucp_made_def free_rkey dest!: make_rkey
      split: option.splits prod.splits if_splits)

lemma then_send:
  assumes "holds_beside B e (objs w)" and "\<And>s e1 w1. holds_beside B e1 (objs w1) \<Longrightarrow> keeps_beside objs B (k s e1 w1)"
  shows "keeps_beside objs B (case tagSend U c e buf ch sn w of None \<Rightarrow> None | Some (s, e1, w1) \<Rightarrow> k s e1 w1)"
  using assms by (auto dest: tagSend_keeps split: option.split)

lemma then_recv:
  assumes "holds_beside B e (objs w)" and "\<And>s got bs w1. holds_beside B e (objs w1) \<Longrightarrow> keeps_beside objs B (k s got bs w1)"
  shows "keeps_beside objs B (case tagRecv U c ok cap ch sn w of None \<Rightarrow> None | Some ((s, got, bs), w1) \<Rightarrow> k s got bs w1)"
  using assms by (auto dest: tagRecv_keeps split: option.split)

lemma then_set:
  assumes "holds_beside B e (objs w)" and "\<And>s e1 w1. holds_beside B e1 (objs w1) \<Longrightarrow> keeps_beside objs B (k s e1 w1)"
  shows "keeps_beside objs B (case setRemoteMemInfo U e hdr bs w of (s, e1, w1) \<Rightarrow> k s e1 w1)"
  using assms by (auto dest: set_remote_keeps split: prod.split)

lemma then_export:
  assumes "holds_beside B e (objs w)" and "\<And>s hdr key e1 w1. holds_beside B e1 (objs w1) \<Longrightarrow> keeps_beside objs B (k s hdr key e1 w1)"
  shows "keeps_beside objs B (case exportLocalMemInfo U c e h0 w of ((s, hdr, key), e1, w1) \<Rightarrow> k s hdr key e1 w1)"
  using assms by (auto dest: export_keeps split: prod.split)

lemma either_way: "keeps_beside objs B x \<Longrightarrow> keeps_beside objs B y \<Longrightarrow> keeps_beside objs B (if P then x else y)"
  by simp

lemma client_handshake_keeps:
  "holds_beside B e (objs w) \<Longrightarrow> keeps_beside objs B (client_handshake U c port e w)"
  unfolding client_handshake_def
  by (assumption | rule then_export then_send then_recv then_set either_way | simp only: keeps_beside_simps)+

text \<open>Making, closing and deleting an endpoint.\<close>

lemma new_endpoint_holds:
  "ucp_ep_create U k tg w = ((UCS_OK, x), w') \<Longrightarrow> holds_beside (objs w) (new_UCXEndpoint x b rl) (objs w')"
  by (drule make_ep) (auto simp: beside_defs ucp_made_def new_UCXEndpoint_def)

lemma close_keeps:
  assumes "ucx_closeEndpoint U c e w = Some (st, e', w')" and "holds_beside B e (objs w)"
  shows "holds_beside B e' (objs w') \<and> ue_ep e' = None"
proof (cases "ue_ep e")
  case None
  then show ?thesis using assms by (simp add: ucx_closeEndpoint_def)
next
  case (Some ep)
  obtain r w1 where cl: "ucp_ep_close_nbx U ep w = (r, w1)" by (metis surj_pair)
  have "e' = e\<lparr> ue_ep := None \<rparr>" "objs w' = objs w1"
    using assms(1) Some cl by (auto simp: ucx_closeEndpoint_def dest: wait_rma_keeps split: ucs_status_ptr.splits)
  then show ?thesis using assms(2) Some free_ep [OF cl] by (auto simp: beside_defs)
qed

lemma delete_endpoint_frees:
  assumes "delete_UCXEndpoint U c e w = Some w'" and "holds_beside B e (objs w)"
  shows "objs w' = B"
proof -
  obtain st e1 w1 where cl: "ucx_closeEndpoint U c e w = Some (st, e1, w1)"
    using assms(1) by (auto simp: delete_UCXEndpoint_def)
  show ?thesis
    using close_keeps [OF cl assms(2)] assms(1) cl
    by (auto simp: delete_UCXEndpoint_def Let_def beside_defs free_region free_rkey split: option.splits)
qed

text \<open>Contexts.\<close>

lemma init_keeps:
  assumes "ucx_init U c w = (s, c1, w1)" and "ctx_beside B c (objs w)"
  shows "ctx_beside B c1 (objs w1) \<and> (s = SUCCESS \<longrightarrow> uc_initialized c1)"
proof (cases "uc_initialized c")
  case True
  then show ?thesis using assms by (simp add: ucx_init_def)
next
  case False
  then have e: "ctx_objs c = {}" "objs w = B" using assms(2) by (auto simp: ctx_beside_defs)
  have st: "ucs_to_status st \<noteq> SUCCESS" if "st \<noteq> UCS_OK" for st
    using that by (cases st) (simp_all add: ucs_to_status_def)
  obtain st1 v1 where 1: "ucp_config_read U w = (st1, v1)" by (metis surj_pair)
  obtain st2 x v2 where 2: "ucp_init U v1 = ((st2, x), v2)" by (metis surj_pair)
  obtain st3 k v3 where 3: "ucp_worker_create U x v2 = ((st3, k), v3)" by (metis surj_pair)
  have s: "ctx_sound c" using assms(2) by (simp add: ctx_beside_def)
  consider "c1 = c" "objs w1 = B" "s \<noteq> SUCCESS"
    | "st2 = UCS_OK" "c1 = c\<lparr> uc_context := Some x, uc_worker := Some k, uc_initialized := True \<rparr>" "w1 = v3" "st3 = UCS_OK"
      "objs v1 = B"
  proof (cases "st1 = UCS_OK \<and> st2 = UCS_OK")
    case no: False
    then have "c1 = c \<and> objs w1 = objs v1 \<and> s \<noteq> SUCCESS"
      using assms(1) False make_context [OF 2] by (auto simp: ucx_init_def 1 2 st ucp_made_def split: if_splits)
    then show ?thesis using that(1) config_keeps [OF 1] e(2) by simp
  next
    case yes: True
    have v1: "objs v1 = B" using config_keeps [OF 1] e(2) by simp
    show ?thesis
    proof (cases "st3 = UCS_OK")
      case True
      then show ?thesis using that(2) assms(1) False yes v1 by (simp add: ucx_init_def 1 2 3)
    next
      case bad: False
      then have "c1 = c" "w1 = ucp_cleanup U x v3" "s \<noteq> SUCCESS"
        using assms(1) False yes by (auto simp: ucx_init_def 1 2 3 st)
      moreover have "objs v3 = insert (Context x) B" "Context x \<notin> B"
        using bad yes make_context [OF 2] make_worker [OF 3] v1 by (simp_all add: ucp_made_def)
      ultimately show ?thesis using that(1) by (simp add: free_context)
    qed
  qed
  then show ?thesis
  proof cases
    case 1
    then show ?thesis using s e(1) by (simp add: ctx_beside_def)
  next
    case two: 2
    have v2: "Context x \<notin> B" "objs v2 = insert (Context x) B" using make_context [OF 2] two by (simp_all add: ucp_made_def)
    have "Worker k \<notin> objs v2" "objs v3 = insert (Worker k) (objs v2)"
      using make_worker [OF 3] two by (simp_all add: ucp_made_def)
    then show ?thesis using two v2 s by (auto simp: ctx_beside_defs)
  qed
qed

lemma finalize_frees: "ctx_beside B c (objs w) \<Longrightarrow> objs (snd (finalize U c w)) = B"
  by (cases "uc_worker c"; cases "uc_context c")
    (auto simp: finalize_def stopListener_def Let_def ctx_beside_defs free_worker free_context)

lemma connect_keeps:
  assumes "ucx_connect U g b ip port c w = Some (r, c1, w1)" and "ctx_beside B c (objs w)"
  shows "case r of
      None \<Rightarrow> ctx_beside B c1 (objs w1) \<and> (uc_initialized c \<longrightarrow> uc_initialized c1)
    | Some e \<Rightarrow> ctx_beside B c1 (B \<union> ctx_objs c1) \<and> uc_initialized c1 \<and> holds_beside (B \<union> ctx_objs c1) e (objs w1)"
proof -
  obtain s c2 w2 where i: "ucx_init U c w = (s, c2, w2)" by (metis surj_pair)
  note k = init_keeps [OF i assms(2)]
  have stays: "uc_initialized c \<longrightarrow> uc_initialized c2" using i by (auto simp: ucx_init_def)
  show ?thesis
  proof (cases "s \<noteq> SUCCESS \<or> \<not> inet_pton_v4 U ip")
    case True
    then show ?thesis using assms(1) k stays by (auto simp: ucx_connect_def i)
  next
    case False
    obtain st ep w3 where ep: "ucp_ep_create U (the (uc_worker c2)) (ToSockaddr ip port) w2 = ((st, ep), w3)"
      by (metis surj_pair)
    show ?thesis
    proof (cases "st = UCS_OK")
      case bad: False
      then show ?thesis
        using assms(1) k stays False make_ep [OF ep] by (auto simp: ucx_connect_def i ep ucp_made_def)
    next
      case True
      have new: "holds_beside (objs w2) (new_UCXEndpoint ep b Client) (objs w3)"
        using new_endpoint_holds ep True by blast
      obtain ok e w4 where hs: "client_handshake U c2 g (new_UCXEndpoint ep b Client) w3 = Some (ok, e, w4)"
        using assms(1) False True by (auto simp: ucx_connect_def i ep split: option.splits prod.splits)
      have h: "holds_beside (objs w2) e (objs w4)"
        using client_handshake_keeps [OF new, of c2 g] by (simp add: hs)
      have b2: "objs w2 = B \<union> ctx_objs c2" "ctx_beside B c2 (objs w2)" using k by (auto simp: ctx_beside_def)
      show ?thesis
      proof (cases ok)
        case okay: True
        then have "r = Some e" "c1 = c2" "w1 = w4" using assms(1) False True by (auto simp: ucx_connect_def i ep hs)
        then show ?thesis using h b2 k False by simp
      next
        case not_ok: False
        then have "(case ucx_closeEndpoint U c2 e w4 of None \<Rightarrow> None
            | Some (_, e4, w5) \<Rightarrow> map_option (\<lambda>w6. (None, c2, w6)) (delete_UCXEndpoint U c2 e4 w5)) = Some (r, c1, w1)"
          using assms(1) False True by (simp add: ucx_connect_def i ep hs)
        then obtain st2 e4 w5 where cl: "ucx_closeEndpoint U c2 e w4 = Some (st2, e4, w5)"
          and del: "delete_UCXEndpoint U c2 e4 w5 = Some w1" "r = None" "c1 = c2"
          by (auto split: option.splits)
        have "objs w1 = objs w2" using delete_endpoint_frees [OF del(1)] close_keeps [OF cl h] by simp
        then show ?thesis using b2(2) del(2,3) stays by simp
      qed
    qed
  qed
qed

text \<open>Calls make and release nothing.\<close>

lemma sweep_keeps: "sweep U i rs w = (rs', w') \<Longrightarrow> objs w' = objs w"
proof (induction "length rs - i" arbitrary: i rs w rule: less_induct)
  case less
  have run: "(if length rs \<le> i then (rs, w)
      else if ucp_request_check_status U (rs ! i) w = UCS_INPROGRESS then sweep U (Suc i) rs w
      else sweep U i (butlast (rs[i := last rs])) (ucp_request_free U (rs ! i) w)) = (rs', w')"
    using less.prems by (simp add: sweep.simps [of U i rs w])
  show ?case
  proof (cases "length rs \<le> i")
    case False
    then have m: "length rs - Suc i < length rs - i" "length (butlast (rs[i := last rs])) - i < length rs - i" by simp_all
    show ?thesis
    proof (cases "ucp_request_check_status U (rs ! i) w = UCS_INPROGRESS")
      case True
      then show ?thesis using less.hyps [OF m(1)] run False by simp
    next
      case no: False
      then show ?thesis using less.hyps [OF m(2)] run False by fastforce
    qed
  qed (use run in simp)
qed

lemma uw_run_keeps: "uw_run U c t0 tmo rs w r \<Longrightarrow> objs (snd r) = objs w"
  by (induction rule: uw_run.induct) (auto dest!: sweep_keeps now_keeps)

lemma keep_request_keeps:
  "keep_request e z = (r, e', w') \<Longrightarrow> w' = snd z \<and> ep_objs e' = ep_objs e \<and> ep_sound e' = ep_sound e"
  by (auto simp: keep_request_def Let_def ep_objs_def ep_sound_def split: ucs_status_ptr.splits prod.splits)

lemma blocking_keeps:
  "ucx_writeData U c e lo ro n w = Some (st, w') \<Longrightarrow> objs w' = objs w"
  "ucx_readData U c e lo ro n w = Some (st, w') \<Longrightarrow> objs w' = objs w"
  by (cases "rma_target e lo ro n"; force simp: ucx_writeData_def ucx_readData_def dest: finish_rma_keeps)+

lemma nonblocking_keeps:
  "ucx_writeDataNB U e lo ro n w = (r, e', w') \<Longrightarrow> objs w' = objs w \<and> ep_objs e' = ep_objs e \<and> ep_sound e' = ep_sound e"
  "ucx_readDataNB U e lo ro n w = (r, e', w') \<Longrightarrow> objs w' = objs w \<and> ep_objs e' = ep_objs e \<and> ep_sound e' = ep_sound e"
  by (cases "rma_target e lo ro n"; force simp: ucx_writeDataNB_def ucx_readDataNB_def dest: keep_request_keeps)+

lemma wait_keeps:
  "ucx_waitWrId U c i e w = Some (st, e', w') \<Longrightarrow> objs w' = objs w \<and> ep_objs e' = ep_objs e \<and> ep_sound e' = ep_sound e"
  by (cases "inflight_reqs e i") (force simp: ucx_waitWrId_def ep_objs_def ep_sound_def dest: wait_rma_keeps)+

lemma multi_keeps:
  assumes "ucx_waitWrIdMulti U c tmo wids e w = Some (st, e', w')"
  shows "objs w' = objs w \<and> ep_objs e' = ep_objs e \<and> ep_sound e' = ep_sound e"
proof -
  have loop: "objs v' = objs v" if "multi_loop U c t0 tmo rs v = Some (st, v')" for t0 rs v v' st
    using uw_run_keeps [OF multi_loop_run [OF that]] by simp
  obtain rso f where tk: "take_inflight wids (inflight_reqs e) = (rso, f)" by (metis surj_pair)
  obtain t0 w1 where nw: "ucx_now U w = (t0, w1)" by (metis surj_pair)
  have "(e' = e \<or> e' = e\<lparr> inflight_reqs := f \<rparr>) \<and> (w' = w \<or> (\<exists>rs. multi_loop U c t0 tmo rs w1 = Some (st, w')))"
    using assms by (cases "wids = []"; cases rso) (auto simp: ucx_waitWrIdMulti_def tk nw Let_def split: if_splits)
  then have "ep_objs e' = ep_objs e \<and> ep_sound e' = ep_sound e" "objs w' = objs w"
    using loop [where v = w1 and v' = w'] now_keeps [OF nw] by (auto simp: ep_objs_def ep_sound_def)
  then show ?thesis by simp
qed

lemma link_call_keeps:
  "link_call U c (e, w) (e', w') \<Longrightarrow> objs w' = objs w \<and> ep_objs e' = ep_objs e \<and> ep_sound e' = ep_sound e"
  by (cases rule: link_call.cases) (auto dest: blocking_keeps nonblocking_keeps wait_keeps multi_keeps)

end

section \<open>A process with clients\<close>

text \<open>The clients by the context they point to, the endpoints they made with theirs.\<close>

record ucx_process =
  tab :: ctx_table
  clients :: "nat list"
  links :: "(nat \<times> UCXEndpoint) list"

definition new_process :: ucx_process where
  "new_process = \<lparr> tab = new_ctx_table, clients = [], links = [] \<rparr>"

definition owners :: "ucx_process \<Rightarrow> nat list" where
  "owners s = clients s @ map fst (links s)"

definition links_objs :: "(nat \<times> UCXEndpoint) list \<Rightarrow> ucp_obj set" where
  "links_objs ls = (\<Union>q \<in> set ls. ep_objs (snd q))"

inductive up_step :: "'w ucp_api \<Rightarrow> u16 \<Rightarrow> ConnBuffer \<Rightarrow> ucx_process \<times> 'w \<Rightarrow> ucx_process \<times> 'w \<Rightarrow> bool" for U g b where
  up_new: "new_UCXClient (tab s) = (p, t) \<Longrightarrow>
    up_step U g b (s, w) (s\<lparr> tab := t, clients := p # clients s \<rparr>, w)"
| up_connect: "p \<in> set (clients s) \<Longrightarrow> UCXClient_connect U g b ip port p (tab s) w = Some (r, t, w') \<Longrightarrow>
    up_step U g b (s, w) (s\<lparr> tab := t, links := (case r of None \<Rightarrow> links s | Some q \<Rightarrow> q # links s) \<rparr>, w')"
| up_call: "links s = xs @ (p, e) # ys \<Longrightarrow> objects (tab s) p = Some (c, n) \<Longrightarrow> link_call U c (e, w) (e', w') \<Longrightarrow>
    up_step U g b (s, w) (s\<lparr> links := xs @ (p, e') # ys \<rparr>, w')"
| up_delete_client: "clients s = xs @ p # ys \<Longrightarrow> delete_UCXClient U p (tab s) w = (t, w') \<Longrightarrow>
    up_step U g b (s, w) (s\<lparr> tab := t, clients := xs @ ys \<rparr>, w')"
| up_delete_link: "links s = xs @ (p, e) # ys \<Longrightarrow> drop_UCXEndpoint U p e (tab s) w = Some (t, w') \<Longrightarrow>
    up_step U g b (s, w) (s\<lparr> tab := t, links := xs @ ys \<rparr>, w')"

text \<open>Endpoints share no object.\<close>

fun links_apart :: "(nat \<times> UCXEndpoint) list \<Rightarrow> bool" where
  "links_apart [] = True"
| "links_apart (q # qs) \<longleftrightarrow> ep_sound (snd q) \<and> ep_objs (snd q) \<inter> links_objs qs = {} \<and> links_apart qs"

lemma links_objs_simps [simp]:
  "links_objs [] = {}" "links_objs (q # qs) = ep_objs (snd q) \<union> links_objs qs"
  "links_objs (xs @ ys) = links_objs xs \<union> links_objs ys"
  by (auto simp: links_objs_def)

lemma links_apart_middle:
  "links_apart (xs @ q # ys) \<longleftrightarrow> ep_sound (snd q) \<and> ep_objs (snd q) \<inter> links_objs (xs @ ys) = {} \<and> links_apart (xs @ ys)"
  by (induction xs) (auto simp: Int_Un_distrib Int_commute)

lemma ctx_ep_apart [simp]: "ctx_objs c \<inter> ep_objs e = {}" "ctx_objs c \<inter> links_objs ls = {}"
  by (auto simp: ctx_objs_def ep_objs_def links_objs_def)

text \<open>Either there is no owner, or all own one context that counts them.\<close>

definition ctx_shared :: "ucp_obj set \<Rightarrow> ucx_process \<Rightarrow> ucp_obj set \<Rightarrow> bool" where
  "ctx_shared B s L \<longleftrightarrow> links_apart (links s) \<and> B \<inter> links_objs (links s) = {}
   \<and> (if owners s = [] then objects (tab s) = Map.empty \<and> L = B
      else \<exists>p c. set (owners s) = {p} \<and> global_ctx (tab s) = Some p \<and> objects (tab s) = [p \<mapsto> (c, length (owners s))]
        \<and> ctx_beside (B \<union> links_objs (links s)) c L \<and> (links s \<noteq> [] \<longrightarrow> uc_initialized c))"

lemma new_UCXContext_beside: "ctx_beside B new_UCXContext B"
  by (simp add: ctx_beside_defs new_UCXContext_def)

lemma shared_owner:
  assumes "ctx_shared B s L" and "p \<in> set (owners s)"
  obtains c where "set (owners s) = {p}" "global_ctx (tab s) = Some p" "objects (tab s) = [p \<mapsto> (c, length (owners s))]"
    "ctx_beside (B \<union> links_objs (links s)) c L" "links s \<noteq> [] \<longrightarrow> uc_initialized c"
    "links_apart (links s)" "B \<inter> links_objs (links s) = {}"
proof -
  have o: "owners s \<noteq> []" using assms(2) by auto
  then obtain q c where "set (owners s) = {q}" "global_ctx (tab s) = Some q" "objects (tab s) = [q \<mapsto> (c, length (owners s))]"
    "ctx_beside (B \<union> links_objs (links s)) c L" "links s \<noteq> [] \<longrightarrow> uc_initialized c"
    using assms(1) by (auto simp: ctx_shared_def)
  moreover have "q = p" using assms(2) calculation(1) by simp
  ultimately show ?thesis using that assms(1) by (simp add: ctx_shared_def)
qed

lemma ctx_sharedI:
  assumes "set (clients s) \<union> fst ` set (links s) = {p}" and "global_ctx (tab s) = Some p"
    and "objects (tab s) = [p \<mapsto> (c, length (clients s) + length (links s))]"
    and "ctx_beside (B \<union> links_objs (links s)) c L" and "links s \<noteq> [] \<longrightarrow> uc_initialized c"
    and "links_apart (links s)" and "B \<inter> links_objs (links s) = {}"
  shows "ctx_shared B s L"
proof -
  have "set (owners s) = {p}" using assms(1) by (simp add: owners_def)
  moreover then have "owners s \<noteq> []" by auto
  moreover have "objects (tab s) = [p \<mapsto> (c, length (owners s))]" using assms(3) by (simp add: owners_def)
  ultimately show ?thesis using assms unfolding ctx_shared_def by simp blast
qed

lemma new_client_shared:
  assumes sh: "ctx_shared B s L" and new: "new_UCXClient (tab s) = (p, t)"
  shows "ctx_shared B (s\<lparr> tab := t, clients := p # clients s \<rparr>) L"
proof (cases "owners s = []")
  case True
  then have e: "clients s = []" "links s = []" "objects (tab s) = Map.empty" "L = B"
    using sh by (simp_all add: ctx_shared_def owners_def)
  then have "objects t = [p \<mapsto> (new_UCXContext, 1)]" "global_ctx t = Some p"
    using new by (auto simp: new_UCXClient_def ctx_lock_def Let_def split: option.splits)
  then show ?thesis using e by (intro ctx_sharedI [of _ p new_UCXContext]) (simp_all add: new_UCXContext_beside)
next
  case False
  then obtain q where "q \<in> set (owners s)" by (cases "owners s") auto
  with sh obtain c where c: "set (owners s) = {q}" "global_ctx (tab s) = Some q" "objects (tab s) = [q \<mapsto> (c, length (owners s))]"
    "ctx_beside (B \<union> links_objs (links s)) c L" "links s \<noteq> [] \<longrightarrow> uc_initialized c"
    "links_apart (links s)" "B \<inter> links_objs (links s) = {}"
    by (rule shared_owner)
  then have t: "p = q" "objects t = [q \<mapsto> (c, Suc (length (owners s)))]" "global_ctx t = Some q"
    using new by (auto simp: new_UCXClient_def ctx_lock_def ctx_copy_def)
  show ?thesis
  proof (rule ctx_sharedI)
    show "set (clients (s\<lparr> tab := t, clients := p # clients s \<rparr>)) \<union> fst ` set (links (s\<lparr> tab := t, clients := p # clients s \<rparr>)) = {q}"
      using c(1) t(1) by (auto simp: owners_def)
  qed (use c t in \<open>simp_all add: owners_def\<close>)
qed

context ucp_objects
begin

lemma connect_shared:
  assumes sh: "ctx_shared B s (objs w)" and p: "p \<in> set (clients s)"
    and cn: "UCXClient_connect U g b ip port p (tab s) w = Some (r, t, w')"
  shows "ctx_shared B (s\<lparr> tab := t, links := (case r of None \<Rightarrow> links s | Some q \<Rightarrow> q # links s) \<rparr>) (objs w')"
proof -
  have "p \<in> set (owners s)" using p by (simp add: owners_def)
  with sh obtain c where c: "set (owners s) = {p}" "global_ctx (tab s) = Some p" "objects (tab s) = [p \<mapsto> (c, length (owners s))]"
    "ctx_beside (B \<union> links_objs (links s)) c (objs w)" "links s \<noteq> [] \<longrightarrow> uc_initialized c"
    "links_apart (links s)" "B \<inter> links_objs (links s) = {}"
    by (rule shared_owner)
  obtain eo c1 where uc: "ucx_connect U g b ip port c w = Some (eo, c1, w')"
    and rt: "r = map_option (Pair p) eo" "global_ctx t = Some p"
      "objects t = [p \<mapsto> (c1, case eo of None \<Rightarrow> length (owners s) | Some e \<Rightarrow> Suc (length (owners s)))]"
    using cn c(2,3) by (auto simp: UCXClient_connect_def ctx_copy_def split: option.splits)
  have own: "owners s \<noteq> []" using p by (auto simp: owners_def)
  note k = connect_keeps [OF uc c(4)]
  show ?thesis
  proof (cases eo)
    case None
    then show ?thesis using k c rt by (intro ctx_sharedI [of _ p c1]) (auto simp: owners_def)
  next
    case (Some e)
    then have e: "ctx_beside (B \<union> links_objs (links s)) c1 (B \<union> links_objs (links s) \<union> ctx_objs c1)" "uc_initialized c1"
      "holds_beside (B \<union> links_objs (links s) \<union> ctx_objs c1) e (objs w')"
      using k by simp_all
    then have "ep_sound e" "ep_objs e \<inter> links_objs (links s) = {}" "B \<inter> ep_objs e = {}"
      "ctx_beside (B \<union> links_objs ((p, e) # links s)) c1 (objs w')"
      by (auto simp: holds_beside_def ctx_beside_def)
    then show ?thesis
      using c(1,6,7) rt e(2) Some by (intro ctx_sharedI [of _ p c1]) (auto simp: owners_def)
  qed
qed

lemma call_shared:
  assumes sh: "ctx_shared B s (objs w)" and ls: "links s = xs @ (p, e) # ys" and "link_call U c (e, w) (e', w')"
  shows "ctx_shared B (s\<lparr> links := xs @ (p, e') # ys \<rparr>) (objs w')"
proof -
  note k = link_call_keeps [OF assms(3)]
  have "links_objs (xs @ (p, e') # ys) = links_objs (links s)" "links_apart (xs @ (p, e') # ys) = links_apart (links s)"
    "owners (s\<lparr> links := xs @ (p, e') # ys \<rparr>) = owners s"
    using k ls by (simp_all add: links_apart_middle owners_def)
  then show ?thesis using sh k ls by (simp add: ctx_shared_def cong: if_cong)
qed

text \<open>One owner fewer.\<close>

lemma release_shared:
  assumes rel: "ctx_release U p (tab s) w = (t, w')" and o: "objects (tab s) = [p \<mapsto> (c, Suc (length cs + length ls))]"
    and "global_ctx (tab s) = Some p" and "set cs \<subseteq> {p}" and "fst ` set ls \<subseteq> {p}"
    and b: "ctx_beside (B \<union> links_objs ls) c (objs w)"
    and "links_apart ls" and "B \<inter> links_objs ls = {}" and "ls \<noteq> [] \<longrightarrow> uc_initialized c"
  shows "ctx_shared B (s\<lparr> tab := t, clients := cs, links := ls \<rparr>) (objs w')"
proof (cases "cs = [] \<and> ls = []")
  case True
  then have "t = (tab s)\<lparr> objects := Map.empty \<rparr>" "w' = snd (finalize U c w)"
    using rel o by (auto simp: ctx_release_def)
  then show ?thesis using True finalize_frees [of B c w] b by (simp add: ctx_shared_def owners_def)
next
  case False
  then have t: "t = (tab s)\<lparr> objects := [p \<mapsto> (c, length cs + length ls)] \<rparr>" "w' = w"
    using rel o by (auto simp: ctx_release_def split: if_splits)
  have "set cs \<union> fst ` set ls = {p}" using assms(4,5) False by (cases cs; cases ls) auto
  then show ?thesis using assms t by (intro ctx_sharedI [of _ p c]) simp_all
qed

lemma delete_client_shared:
  assumes sh: "ctx_shared B s (objs w)" and cl: "clients s = xs @ p # ys" and del: "delete_UCXClient U p (tab s) w = (t, w')"
  shows "ctx_shared B (s\<lparr> tab := t, clients := xs @ ys \<rparr>) (objs w')"
proof -
  have "p \<in> set (owners s)" using cl by (simp add: owners_def)
  with sh obtain c where c: "set (owners s) = {p}" "global_ctx (tab s) = Some p" "objects (tab s) = [p \<mapsto> (c, length (owners s))]"
    "ctx_beside (B \<union> links_objs (links s)) c (objs w)" "links s \<noteq> [] \<longrightarrow> uc_initialized c"
    "links_apart (links s)" "B \<inter> links_objs (links s) = {}"
    by (rule shared_owner)
  have "ctx_shared B (s\<lparr> tab := t, clients := xs @ ys, links := links s \<rparr>) (objs w')"
    using c cl by (intro release_shared [OF del [unfolded delete_UCXClient_def]]) (auto simp: owners_def)
  then show ?thesis by simp
qed

lemma drop_link_shared:
  assumes sh: "ctx_shared B s (objs w)" and ls: "links s = xs @ (p, e) # ys"
    and drop: "drop_UCXEndpoint U p e (tab s) w = Some (t, w')"
  shows "ctx_shared B (s\<lparr> tab := t, links := xs @ ys \<rparr>) (objs w')"
proof -
  have "p \<in> set (owners s)" using ls by (simp add: owners_def)
  with sh obtain c where c: "set (owners s) = {p}" "global_ctx (tab s) = Some p" "objects (tab s) = [p \<mapsto> (c, length (owners s))]"
    "ctx_beside (B \<union> links_objs (links s)) c (objs w)" "links s \<noteq> [] \<longrightarrow> uc_initialized c"
    "links_apart (links s)" "B \<inter> links_objs (links s) = {}"
    by (rule shared_owner)
  obtain w1 where del: "delete_UCXEndpoint U c e w = Some w1" and rel: "ctx_release U p (tab s) w1 = (t, w')"
    using drop c(3) by (auto simp: drop_UCXEndpoint_def)
  have apart: "ep_sound e" "ep_objs e \<inter> links_objs (xs @ ys) = {}" "links_apart (xs @ ys)"
    using c(6) ls by (auto simp: links_apart_middle)
  have cb: "ctx_sound c" "(B \<union> links_objs (links s)) \<inter> ctx_objs c = {}" "objs w = B \<union> links_objs (links s) \<union> ctx_objs c"
    using c(4) by (simp_all add: ctx_beside_def)
  have lo: "links_objs (links s) = links_objs (xs @ ys) \<union> ep_objs e" using ls by auto
  have "B \<inter> ep_objs e = {}" using c(7) lo by blast
  then have "holds_beside (B \<union> links_objs (xs @ ys) \<union> ctx_objs c) e (objs w)"
    using apart ctx_ep_apart(1) [of c e] cb(3) lo unfolding holds_beside_def by blast
  then have "objs w1 = B \<union> links_objs (xs @ ys) \<union> ctx_objs c" using delete_endpoint_frees [OF del] by blast
  then have "ctx_beside (B \<union> links_objs (xs @ ys)) c (objs w1)" using cb lo unfolding ctx_beside_def by blast
  moreover have "B \<inter> links_objs (xs @ ys) = {}" using c(7) lo by blast
  ultimately have "ctx_shared B (s\<lparr> tab := t, clients := clients s, links := xs @ ys \<rparr>) (objs w')"
    using c ls apart by (intro release_shared [OF rel]) (auto simp: owners_def)
  then show ?thesis by simp
qed

lemma up_step_shared:
  assumes "up_step U g b x y" and "ctx_shared B (fst x) (objs (snd x))"
  shows "ctx_shared B (fst y) (objs (snd y))"
  using assms
  by (cases rule: up_step.cases)
    (auto intro: new_client_shared connect_shared call_shared delete_client_shared drop_link_shared)

lemma up_run_shared:
  assumes "(up_step U g b)\<^sup>*\<^sup>* (new_process, w0) x"
  shows "ctx_shared (objs w0) (fst x) (objs (snd x))"
  using assms
proof (induction rule: rtranclp_induct)
  case base
  then show ?case by (simp add: ctx_shared_def owners_def new_process_def new_ctx_table_def)
next
  case (step y z)
  then show ?case by (blast intro: up_step_shared)
qed

end


section \<open>A reference library\<close>

text \<open>Handles are never reused while live, and messages that have arrived are received in order.\<close>

record ucp_host =
  uh_live :: "ucp_obj list"
  uh_inbox :: "u8 list list"

primrec ucp_id :: "ucp_obj \<Rightarrow> nat" where
  "ucp_id (Context n) = n"
| "ucp_id (Worker n) = n"
| "ucp_id (Ep n) = n"
| "ucp_id (Region n) = n"
| "ucp_id (Rkey n) = n"

definition uh_new :: "(nat \<Rightarrow> ucp_obj) \<Rightarrow> ucp_host \<Rightarrow> (ucs_status_t \<times> nat) \<times> ucp_host" where
  "uh_new mk w = (let n = Suc (sum_list (map ucp_id (uh_live w))) in ((UCS_OK, n), w\<lparr> uh_live := mk n # uh_live w \<rparr>))"

definition uh_free :: "ucp_obj \<Rightarrow> ucp_host \<Rightarrow> ucp_host" where
  "uh_free x w = w\<lparr> uh_live := removeAll x (uh_live w) \<rparr>"

definition uh_api :: "ucp_host ucp_api" where
  "uh_api = \<lparr>
     ucp_config_read = (\<lambda>w. (UCS_OK, w)), ucp_init = uh_new Context, ucp_cleanup = (\<lambda>x. uh_free (Context x)),
     ucp_worker_create = (\<lambda>x. uh_new Worker), ucp_worker_destroy = (\<lambda>k. uh_free (Worker k)),
     ucp_worker_progress = (\<lambda>k w. w), ucp_worker_get_address = (\<lambda>k w. ((UCS_OK, [1]), w)),
     inet_pton_v4 = (\<lambda>s. s \<noteq> []), ucp_listener_create = (\<lambda>k ip port w. ((UCS_ERR 1, 0), w)),
     ucp_listener_destroy = (\<lambda>l w. w), ucp_conn_request_query = (\<lambda>cr w. ((UCS_OK, Inet4 ''10.0.0.1''), w)),
     ucp_ep_create = (\<lambda>k t. uh_new Ep), ucp_ep_close_nbx = (\<lambda>ep w. (PtrNull, uh_free (Ep ep) w)),
     ucp_mem_map = (\<lambda>x a n. uh_new Region), ucp_mem_unmap = (\<lambda>x m. uh_free (Region m)),
     ucp_rkey_pack = (\<lambda>x m w. ((UCS_OK, [7]), w)), ucp_ep_rkey_unpack = (\<lambda>ep bs. uh_new Rkey),
     ucp_rkey_destroy = (\<lambda>k. uh_free (Rkey k)),
     ucp_put_nbx = (\<lambda>ep a n d k w. (PtrNull, w)), ucp_get_nbx = (\<lambda>ep a n d k w. (PtrNull, w)),
     ucp_tag_send_nbx = (\<lambda>ep bs tag w. (PtrNull, w)),
     ucp_tag_recv_nbx = (\<lambda>k cap tag msk w. ((PtrReq 0, []), w)),
     ucp_request_check_status = (\<lambda>r w. UCS_OK), ucp_request_free = (\<lambda>r w. w\<lparr> uh_inbox := tl (uh_inbox w) \<rparr>),
     callback = (\<lambda>r w. Some (UCS_OK, hd (uh_inbox w))), ucx_now = (\<lambda>w. (0, w)) \<rparr>"

lemma id_le_sum: "x \<in> set xs \<Longrightarrow> ucp_id x \<le> sum_list (map ucp_id xs)"
  by (induction xs) auto

lemma uh_fresh: "ucp_id x = Suc (sum_list (map ucp_id xs)) \<Longrightarrow> x \<notin> set xs"
  using id_le_sum [of x xs] by auto

lemma uh_new_made:
  assumes "uh_new mk w = ((st, x), w')" and "\<And>n. ucp_id (mk n) = n"
  shows "ucp_made st (mk x) (set (uh_live w)) (set (uh_live w'))"
  using assms uh_fresh [of "mk x" "uh_live w"] by (auto simp: uh_new_def ucp_made_def Let_def)

interpretation uh: ucp_objects uh_api "\<lambda>w. set (uh_live w)"
  by unfold_locales (auto simp: uh_api_def uh_free_def intro: uh_new_made)

definition uh_inbox0 :: "u8 list list" where
  "uh_inbox0 = [mem_info_bytes \<lparr> mi_base_addr = 4096, mi_size = 64, mi_rkey_len = 1, mi_listen_port = 0, mi_reserved = 0 \<rparr>, [9]]"


end
