(* ===== verification/Hmc_PipelineData.thy ===== *)
theory Hmc_PipelineData
  imports Hmc_Pipeline "HOL-Library.Multiset"
begin

text \<open>
  What a pipelined transfer does to the two memories.  The locale \<open>rdma_memory\<close> states what a reliable
  connection promises: requests of one queue pair are executed in posting order, an executed request copies its
  range, and a request whose completion has been handed out has been executed.  From it follows that a transfer
  that reports success has moved the bytes, when one queue pair is used or every chunk is signaled; without
  either it need not have (lemma \<open>pipeline_multi_qp_gap\<close>).
\<close>

section \<open>Adapters and memories\<close>

text \<open>The effect of one request on the local and the remote memory.\<close>

definition rdma_effect :: "qp option \<times> ibv_send_wr \<Rightarrow> memory \<times> memory \<Rightarrow> memory \<times> memory" where
  "rdma_effect x m = (let wr = snd x in case opcode wr of
       IBV_WR_RDMA_WRITE \<Rightarrow> (fst m, dma_copy (fst m) (sge_addr wr) (snd m) (remote_addr wr) (ucast (sge_length wr)))
     | IBV_WR_RDMA_READ \<Rightarrow> (dma_copy (snd m) (remote_addr wr) (fst m) (sge_addr wr) (ucast (sge_length wr)), snd m)
     | IBV_WR_SEND \<Rightarrow> m)"

abbreviation wrid :: "qp option \<times> ibv_send_wr \<Rightarrow> u64" where
  "wrid x \<equiv> wr_id (snd x)"

text \<open>The identifiers of which a completion is due.\<close>

definition due :: "(qp option \<times> ibv_send_wr) list \<Rightarrow> u64 list" where
  "due xs = map (\<lambda>x. wrid x) (filter (\<lambda>x. signaled_flag (snd x)) xs)"

lemma due_append [simp]: "due (xs @ ys) = due xs @ due ys"
  by (simp add: due_def)

text \<open>\<open>did w\<close> lists the requests executed so far, \<open>mem w\<close> the two memories; \<open>ok\<close> holds of the states of an
  adapter that has met no failed completion.\<close>

locale rdma_memory = verbs_log v H L
  for v :: "'w verbs" and H :: "'w \<Rightarrow> u64 list" and L :: "'w \<Rightarrow> (qp option \<times> ibv_send_wr) list" +
  fixes mem :: "'w \<Rightarrow> memory \<times> memory" and did :: "'w \<Rightarrow> (qp option \<times> ibv_send_wr) list" and ok :: "'w \<Rightarrow> bool"
  assumes post_does: "ok w \<Longrightarrow> ibv_post_send v q wr w = (rc, w') \<Longrightarrow>
      ok w' \<and> (\<exists>ds. did w' = did w @ ds \<and> mem w' = fold rdma_effect ds (mem w))"
    and clock_does: "ok w \<Longrightarrow> steady_now v w = (t, w') \<Longrightarrow>
      ok w' \<and> (\<exists>ds. did w' = did w @ ds \<and> mem w' = fold rdma_effect ds (mem w))"
    and poll_does: "ok w \<Longrightarrow> ibv_poll_cq v c n w = (Some wcs, w') \<Longrightarrow> \<forall>wc \<in> set wcs. wc_status wc = 0 \<Longrightarrow>
      ok w' \<and> (\<exists>ds. did w' = did w @ ds \<and> mem w' = fold rdma_effect ds (mem w))"
    and in_order: "ok w \<Longrightarrow> \<exists>rest. filter (\<lambda>x. fst x = q) (L w) = filter (\<lambda>x. fst x = q) (did w) @ rest"
    and handed_out: "ok w \<Longrightarrow> mset (H w) \<subseteq># mset (due (did w))"
begin

definition advances :: "'w \<Rightarrow> 'w \<Rightarrow> bool" where
  "advances w w' \<longleftrightarrow> (ok w \<longrightarrow> ok w' \<and> (\<exists>ds. did w' = did w @ ds \<and> mem w' = fold rdma_effect ds (mem w)))"

lemma advances_refl [simp]: "advances w w"
  by (auto simp: advances_def)

lemma advances_trans:
  assumes "advances w w1" and "advances w1 w2"
  shows "advances w w2"
proof -
  have "\<exists>ds. did w2 = did w @ ds \<and> mem w2 = fold rdma_effect ds (mem w)" if ok: "ok w"
  proof -
    obtain d1 d2 where "did w1 = did w @ d1" "mem w1 = fold rdma_effect d1 (mem w)"
      "did w2 = did w1 @ d2" "mem w2 = fold rdma_effect d2 (mem w1)"
      using assms ok unfolding advances_def by blast
    then show ?thesis by (intro exI [of _ "d1 @ d2"]) simp
  qed
  then show ?thesis using assms by (auto simp: advances_def)
qed

lemma clock_advances: "advances w (snd (steady_now v w))"
  using clock_does [of w] by (cases "steady_now v w") (simp add: advances_def)

lemma scan_multi_statuses: "scan_multi wcs p d pr = (False, r) \<Longrightarrow> \<forall>wc \<in> set wcs. wc_status wc = 0"
  by (induction wcs arbitrary: p d pr) (auto split: if_splits)

lemma poll_advances:
  "ibv_poll_cq v c n w = (Some wcs, w') \<Longrightarrow> scan_multi wcs p d pr = (False, r) \<Longrightarrow> advances w w'"
  using poll_does [of w c n wcs w'] scan_multi_statuses [of wcs p d pr r] by (simp add: advances_def)

lemma multi_run_advances:
  assumes "multi_run v to ts p e w r" and "fst r = SUCCESS"
  shows "advances w (snd (snd r))"
  using assms
proof (induction rule: multi_run.induct)
  case (progress p e w wcs w1 p' d r)
  then show ?case by (meson advances_trans clock_advances poll_advances)
next
  case (idle p e w wcs w1 p' d now w2 r)
  have "advances w1 w2" using clock_advances [of w1] idle.hyps(4) by simp
  then show ?case using idle by (meson advances_trans poll_advances)
qed simp_all

lemma wait_advances:
  assumes "waitWrIdMulti v to ts e w = Some (SUCCESS, e', w')"
  shows "advances w w'"
proof -
  obtain t0 w1 where now: "steady_now v w = (t0, w1)" by fastforce
  then have "advances w w1" using clock_advances [of w] by simp
  then show ?thesis
    using assms now multi_run_advances [of to t0 _ _ w1]
    by (fastforce simp: waitWrIdMulti_def Let_def waitMulti_loop_run split: if_splits intro: advances_trans)
qed

end

section \<open>Identifiers and queue pairs of the posted requests\<close>

text \<open>The requests carry consecutive counters from \<open>k\<close>, each with the queue pair it went to.\<close>

fun numbered :: "RDMAEndpoint \<Rightarrow> u64 \<Rightarrow> (qp option \<times> ibv_send_wr) list \<Rightarrow> bool" where
  "numbered e k [] = True"
| "numbered e k (x # xs) \<longleftrightarrow>
     (\<exists>i. (if 1 < num_qps e then i < num_qps e else i = 0) \<and> fst x = getQP e i \<and> wrid x = encode_wr_id k i)
     \<and> numbered e (k + 1) xs"

lemma numbered_cong:
  "num_qps e' = num_qps e \<Longrightarrow> qps e' = qps e \<Longrightarrow> numbered e' k xs = numbered e k xs"
  by (induction xs arbitrary: k) (simp_all add: getQP_def)

lemma numbered_one_qp: "numbered e k xs \<Longrightarrow> num_qps e \<le> 1 \<Longrightarrow> \<forall>x \<in> set xs. fst x = getQP e 0"
  by (induction xs arbitrary: k) (auto split: if_splits)

lemma numbered_ids:
  assumes "numbered e k xs" and "num_qps e \<le> 256" and "unat k + length xs < 2 ^ 56"
  shows "distinct (map (\<lambda>x. wrid x) xs) \<and> (\<forall>x \<in> set xs. unat k * 256 \<le> unat (wrid x))"
  using assms
proof (induction xs arbitrary: k)
  case Nil
  then show ?case by simp
next
  case (Cons x xs)
  obtain i where i: "if 1 < num_qps e then i < num_qps e else i = 0" "wrid x = encode_wr_id k i"
    using Cons.prems(1) by auto
  have "i < 256" using i(1) Cons.prems(2) by (auto split: if_splits)
  moreover have "k < 2 ^ 56" using Cons.prems(3) by (simp add: word_less_nat_alt)
  ultimately have id: "unat (wrid x) = unat k * 256 + unat i" using i(2) by (simp add: unat_encode)
  have "unat i < 256" using \<open>i < 256\<close> by (simp add: word_less_nat_alt)
  moreover have k1: "unat (k + 1) = unat k + 1" using Cons.prems(3) by (simp add: unat_add_no_wrap)
  moreover have ih: "distinct (map (\<lambda>x. wrid x) xs) \<and> (\<forall>y \<in> set xs. unat (k + 1) * 256 \<le> unat (wrid y))"
    using Cons.IH [of "k + 1"] Cons.prems k1 by simp
  ultimately have "\<forall>y \<in> set xs. unat (wrid x) < unat (wrid y)" using id by fastforce
  then show ?case using ih id k1 by fastforce
qed

lemma nb_post_effect:
  assumes "verbs_log v H L" and "nb_post v mk e lo ro n sig w = ((SUCCESS, wid), e1, w1)"
  obtains q i j wr where "L w1 = L w @ [(q, wr)]" "wr = mk (ptr (ep_buffer e) + lo) (ra_address (remote_metadata_attr e) + ro) n
        (the (buffer_mr e)) (ra_key (remote_metadata_attr e)) (encode_wr_id (next_wr_id e) i) sig"
    "if 1 < num_qps e then i < num_qps e else i = 0" "q = getQP e i" "ibv_post_send v q wr w = (0, w1)"
    "e1 = e\<lparr>next_qp_idx := j, next_wr_id := next_wr_id e + 1\<rparr>"
proof -
  obtain i e0 where pq: "pick_qp e = (i, e0)" by fastforce
  then obtain j where e0: "e0 = e\<lparr>next_qp_idx := j\<rparr>" by (rule pick_qp_keeps)
  have i: "if 1 < num_qps e then i < num_qps e else i = 0"
    using pq by (auto simp: pick_qp_def word_less_nat_alt unat_mod split: if_splits)
  let ?e2 = "e\<lparr>next_qp_idx := j, next_wr_id := next_wr_id e + 1\<rparr>"
  let ?wr = "mk (ptr (ep_buffer e) + lo) (ra_address (remote_metadata_attr e) + ro) n
      (the (buffer_mr e)) (ra_key (remote_metadata_attr e)) (encode_wr_id (next_wr_id e) i) sig"
  have q: "getQP ?e2 i = getQP e i" by (simp add: getQP_def)
  obtain rc w2 where ps: "ibv_post_send v (getQP e i) ?wr w = (rc, w2)" by fastforce
  have r: "rc = 0" "e1 = ?e2" "w1 = w2"
    using assms(2) pq ps e0 q by (auto simp: nb_post_def Let_def split: if_splits)
  have ps0: "ibv_post_send v (getQP e i) ?wr w = (0, w1)" using ps r by simp
  then have "L w1 = L w @ [(getQP e i, ?wr)]"
    using post_log.post_ok [of v L] assms(1) by (simp add: verbs_log_def)
  then show ?thesis by (rule that [OF _ refl i refl ps0 r(2)])
qed

context rdma_memory
begin

lemma loop_advances:
  assumes "pipeline_loop post v P off k since pend e w = Some (SUCCESS, e', w')" and "off \<le> pl_size P" and "pl_chunk P \<noteq> 0"
    and post: "\<And>e lo ro n sig w r. post e lo ro n sig w = ((SUCCESS, fst r), snd r) \<Longrightarrow> nb_post v mk e lo ro n sig w = ((SUCCESS, fst r), snd r)"
    and mk: "\<And>a b n mr rk i s. wr_id (mk a b n mr rk i s) = i \<and> signaled_flag (mk a b n mr rk i s) = s"
  shows "\<exists>log. L w' = L w @ log \<and> numbered e (next_wr_id e) log
    \<and> (pl_signal P \<le> 1 \<longrightarrow> (\<forall>x \<in> set log. signaled_flag (snd x))) \<and> advances w w'"
  using assms(1,2)
proof (induction "unat (pl_size P - off)" arbitrary: off k since pend e w rule: less_induct)
  case less
  show ?case
  proof (cases "off < pl_size P")
    case False
    then have "w' = w" using less.prems(1) by (simp add: pipeline_loop.simps [of post v P off])
    then show ?thesis by (intro exI [of _ "[]"]) simp
  next
    case True
    note c = chunk_step [OF True assms(3)]
    obtain sig wid e1 w1 e2 w2 k2 since2 pend1 pend2 where
      p: "post e (pl_local P + off) (pl_remote P + off) (min (pl_chunk P) (pl_size P - off)) sig w
            = ((SUCCESS, wid), e1, w1)"
      and sg: "pl_signal P \<le> 1 \<longrightarrow> sig"
      and r: "pipeline_loop post v P (off + min (pl_chunk P) (pl_size P - off)) k2 since2 pend2 e2 w2
           = Some (SUCCESS, e', w')"
      and x: "(off + min (pl_chunk P) (pl_size P - off) < pl_size P \<and> pend2 = pend1 \<and> e2 = e1 \<and> w2 = w1)
        \<or> (pend1 = [] \<and> pend2 = [] \<and> e2 = e1 \<and> w2 = w1)
        \<or> (pend2 = [] \<and> waitWrIdMulti v default_timeout pend1 e1 w1 = Some (SUCCESS, e2, w2))"
      by (rule pipeline_round [OF less.prems(1) True])
    have nb: "nb_post v mk e (pl_local P + off) (pl_remote P + off) (min (pl_chunk P) (pl_size P - off)) sig w
        = ((SUCCESS, wid), e1, w1)"
      using post [of e _ _ _ sig w "(wid, e1, w1)"] p by simp
    obtain q i j wr where f: "L w1 = L w @ [(q, wr)]"
      "wr = mk (ptr (ep_buffer e) + (pl_local P + off)) (ra_address (remote_metadata_attr e) + (pl_remote P + off))
        (min (pl_chunk P) (pl_size P - off)) (the (buffer_mr e)) (ra_key (remote_metadata_attr e)) (encode_wr_id (next_wr_id e) i) sig"
      "if 1 < num_qps e then i < num_qps e else i = 0" "q = getQP e i" "ibv_post_send v q wr w = (0, w1)"
      "e1 = e\<lparr>next_qp_idx := j, next_wr_id := next_wr_id e + 1\<rparr>"
      by (rule nb_post_effect [OF verbs_log_axioms nb])
    have wr: "wr_id wr = encode_wr_id (next_wr_id e) i" "signaled_flag wr = sig" using f(2) mk by simp_all
    have a1: "advances w w1" using post_does [OF _ f(5)] by (simp add: advances_def)
    have w2: "advances w1 w2 \<and> L w2 = L w1 \<and> num_qps e2 = num_qps e \<and> qps e2 = qps e \<and> next_wr_id e2 = next_wr_id e + 1"
    proof (cases "waitWrIdMulti v default_timeout pend1 e1 w1 = Some (SUCCESS, e2, w2)")
      case True
      then have e2: "e2 = e1\<lparr>completed_wr_ids := completed_wr_ids e2\<rparr>" using multi_conserves by blast
      have "num_qps e2 = num_qps e1" "qps e2 = qps e1" "next_wr_id e2 = next_wr_id e1"
        by (subst e2, simp)+
      then show ?thesis using wait_advances [OF True] multi_log [OF True] f(6) by simp
    next
      case False
      then have "e2 = e1" "w2 = w1" using x by auto
      then show ?thesis using f(6) by simp
    qed
    obtain log where l: "L w' = L w2 @ log" "numbered e2 (next_wr_id e2) log"
      "pl_signal P \<le> 1 \<longrightarrow> (\<forall>x \<in> set log. signaled_flag (snd x))" "advances w2 w'"
      using less.hyps [OF _ r] c(3,4,5,6) by fastforce
    have "numbered e (next_wr_id e + 1) log" using l(2) w2 numbered_cong [of e2 e] by simp
    then have "numbered e (next_wr_id e) ((q, wr) # log)" using f(3,4) wr(1) unfolding numbered.simps fst_conv snd_conv by blast
    moreover have "advances w w'" using a1 w2 l(4) by (blast intro: advances_trans)
    ultimately show ?thesis using f(1) wr(2) l(1,3) sg w2 by (intro exI [of _ "(q, wr) # log"]) simp
  qed
qed

end

section \<open>Copying in pieces\<close>

text \<open>Pieces that keep their offset, copied in any order, from a memory that does not change.\<close>

lemma fold_copies:
  assumes "\<forall>x \<in> set xs. src x - sb = dst x - db"
  shows "fold (\<lambda>x m. dma_copy from (src x) m (dst x) (len x)) xs m
    = (\<lambda>a. if \<exists>x \<in> set xs. a - dst x < len x then from (sb + (a - db)) else m a)"
  using assms
proof (induction xs arbitrary: m)
  case Nil
  then show ?case by simp
next
  case (Cons x xs)
  then have e: "src x - sb = dst x - db" by simp
  have k: "src x + (a - dst x) = sb + (a - db)" for a
  proof -
    have "src x + (a - dst x) = sb + (src x - sb) + (a - dst x)" by simp
    also have "\<dots> = sb + (a - db)" unfolding e by simp
    finally show ?thesis .
  qed
  have "fold (\<lambda>x m. dma_copy from (src x) m (dst x) (len x)) (x # xs) m
      = (\<lambda>a. if \<exists>x \<in> set xs. a - dst x < len x then from (sb + (a - db)) else dma_copy from (src x) m (dst x) (len x) a)"
    using Cons by simp
  then show ?case by (auto simp: dma_copy_def k)
qed

lemma in_piece:
  fixes a b d len :: "64 word"
  assumes "unat (d - b) = p" and "unat len = l" and "p + l < 2 ^ 64"
  shows "a - d < len \<longleftrightarrow> p \<le> unat (a - b) \<and> unat (a - b) < p + l"
proof -
  have "unat (a - d) = unat ((a - b) - (d - b))" by simp
  also have "\<dots> = (if p \<le> unat (a - b) then unat (a - b) - p else unat (a - b) + 2 ^ 64 - p)"
    unfolding unat_sub_if' [of "a - b" "d - b"] assms(1) by simp
  finally have "unat (a - d) = (if p \<le> unat (a - b) then unat (a - b) - p else unat (a - b) + 2 ^ 64 - p)" .
  then show ?thesis using assms(2,3) by (auto simp: word_less_nat_alt)
qed

lemma chunk_list_length: "length (chunk_list off n c) \<le> n"
  by (induction off n c rule: chunk_list.induct) (subst chunk_list.simps, auto simp: min_def)

lemma chunk_list_within: "(p, l) \<in> set (chunk_list off n c) \<Longrightarrow> p + l \<le> off + n"
  by (induction off n c arbitrary: p l rule: chunk_list.induct) (subst (asm) (2) chunk_list.simps, auto split: if_splits)

lemma chunks_cover:
  assumes "0 < c"
  shows "(\<exists>(p, l) \<in> set (chunk_list 0 n c). p \<le> j \<and> j < p + l) \<longleftrightarrow> j < n"
proof -
  have "j \<in> set (concat (map (\<lambda>(p, l). [p..<p + l]) (chunk_list 0 n c))) \<longleftrightarrow> j < n"
    by (simp only: chunk_list_covers [OF assms]) auto
  then show ?thesis by auto
qed

section \<open>A transfer that succeeds has moved the bytes\<close>

context rdma_memory
begin

text \<open>When the adapter was idle, all requests of a waited-for transfer have been executed, in some order.\<close>

lemma all_executed:
  assumes idle: "ok w" "did w = L w" "mset (H w) = mset (due (L w))"
    and run: "advances w w'" "L w' = L w @ log" "H w' = H w @ d"
    and num: "numbered e k log" "num_qps e \<le> 256" "unat k + length log < 2 ^ 56"
    and waited: "signaled_ids log \<subseteq> D \<union> set d" "\<forall>i \<in> D. unat i < unat k * 256" "log \<noteq> [] \<longrightarrow> signaled_flag (snd (last log))"
    and one: "num_qps e \<le> 1 \<or> (\<forall>x \<in> set log. signaled_flag (snd x))"
  obtains ds where "set ds = set log" "mem w' = fold rdma_effect ds (mem w)"
proof -
  obtain ds where ok': "ok w'" and ds: "did w' = did w @ ds" "mem w' = fold rdma_effect ds (mem w)"
    using run(1) idle(1) by (auto simp: advances_def)
  have order: "\<exists>rest. filter (\<lambda>x. fst x = q) log = filter (\<lambda>x. fst x = q) ds @ rest" for q
    using in_order [OF ok', of q] ds(1) idle(2) run(2) by auto
  have sub: "set ds \<subseteq> set log"
  proof
    fix x assume "x \<in> set ds"
    then have "x \<in> set (filter (\<lambda>y. fst y = fst x) ds)" by simp
    then have "x \<in> set (filter (\<lambda>y. fst y = fst x) log)" using order [of "fst x"] by (metis Un_iff set_append)
    then show "x \<in> set log" by simp
  qed
  have "mset d \<subseteq># mset (due ds)" using handed_out [OF ok'] ds(1) idle(2,3) run(3) by simp
  then have d: "set d \<subseteq> set (due ds)" using set_mset_mono by fastforce
  note ids = numbered_ids [OF num]
  have same: "y = x" if "x \<in> set log" "y \<in> set log" "wrid y = wrid x" for x y
    using ids that by (metis (no_types, lifting) distinct_map inj_on_def)
  have done_sig: "x \<in> set ds" if x: "x \<in> set log" and s: "signaled_flag (snd x)" for x
  proof -
    have "wrid x \<in> D \<union> set d" using waited(1) x s by (cases x) (auto simp: signaled_ids_def)
    moreover have "wrid x \<notin> D" using waited(2) ids x by fastforce
    ultimately obtain y where "y \<in> set ds" "wrid y = wrid x" using d by (auto simp: due_def)
    moreover have "y = x" using same [OF x _ calculation(2)] sub calculation(1) by blast
    ultimately show ?thesis by simp
  qed
  have "set log \<subseteq> set ds"
  proof (cases "num_qps e \<le> 1 \<and> log \<noteq> []")
    case True
    then have q: "\<forall>x \<in> set log. fst x = getQP e 0" using numbered_one_qp [OF num(1)] by simp
    then have "filter (\<lambda>x. fst x = getQP e 0) log = log" "filter (\<lambda>x. fst x = getQP e 0) ds = ds"
      using sub by (auto intro: filter_True)
    then obtain rest where r: "log = ds @ rest" using order [of "getQP e 0"] by auto
    have "distinct log" using ids by (simp add: distinct_map)
    moreover have "last log \<in> set ds" using done_sig [of "last log"] waited(3) True by simp
    ultimately have "rest = []" using r by (cases rest rule: rev_cases) auto
    then show ?thesis using r by simp
  next
    case False
    then show ?thesis using one done_sig by auto
  qed
  then show ?thesis using that [of ds] sub ds(2) by auto
qed

end

lemma fold_rdma_write:
  "\<forall>x \<in> set xs. opcode (snd x) = IBV_WR_RDMA_WRITE \<Longrightarrow> fold rdma_effect xs m = (fst m,
     fold (\<lambda>x r. dma_copy (fst m) (sge_addr (snd x)) r (remote_addr (snd x)) (ucast (sge_length (snd x)))) xs (snd m))"
  by (induction xs arbitrary: m) (simp_all add: rdma_effect_def Let_def)

lemma fold_rdma_read:
  "\<forall>x \<in> set xs. opcode (snd x) = IBV_WR_RDMA_READ \<Longrightarrow> fold rdma_effect xs m =
     (fold (\<lambda>x r. dma_copy (snd m) (remote_addr (snd x)) r (sge_addr (snd x)) (ucast (sge_length (snd x)))) xs (fst m), snd m)"
  by (induction xs arbitrary: m) (simp_all add: rdma_effect_def Let_def)

text \<open>The pieces of a transfer tile both ranges.\<close>

lemma pieces_tile:
  fixes n c :: size_t
  assumes sp: "map (span e P) log = map (\<lambda>(p, l). (p, p, l)) (chunk_list 0 (unat n) (unat c))" and "c \<noteq> 0"
  defines "lb \<equiv> ptr (ep_buffer e) + pl_local P" and "rb \<equiv> ra_address (remote_metadata_attr e) + pl_remote P"
  shows "\<forall>x \<in> set log. sge_addr (snd x) - lb = remote_addr (snd x) - rb"
    and "(\<exists>x \<in> set log. a - remote_addr (snd x) < ucast (sge_length (snd x))) \<longleftrightarrow> a - rb < n"
    and "(\<exists>x \<in> set log. a - sge_addr (snd x) < ucast (sge_length (snd x))) \<longleftrightarrow> a - lb < n"
proof -
  let ?cs = "chunk_list 0 (unat n) (unat c)"
  have pc: "\<exists>p l. (p, l) \<in> set ?cs \<and> span e P x = (p, p, l)" if "x \<in> set log" for x
  proof -
    have "span e P x \<in> set (map (span e P) log)" using that by simp
    then show ?thesis unfolding sp by auto
  qed
  have cp: "\<exists>x \<in> set log. span e P x = (p, p, l)" if "(p, l) \<in> set ?cs" for p l
  proof -
    have "(p, p, l) \<in> set (map (span e P) log)" unfolding sp using that by force
    then show ?thesis by auto
  qed
  show "\<forall>x \<in> set log. sge_addr (snd x) - lb = remote_addr (snd x) - rb"
    using pc by (fastforce simp: span_def lb_def rb_def word_unat_eq_iff)
  have small: "p + l < 2 ^ 64" if "(p, l) \<in> set ?cs" for p l
    using order.strict_trans1 [OF chunk_list_within [OF that], of "2 ^ 64"] by simp
  have len: "unat (ucast k :: size_t) = unat k" for k :: u32
    using unsigned_less [of k, where ?'a = nat] by (simp add: unsigned_ucast_eq take_bit_nat_eq_self)
  have c0: "0 < unat c" using assms(2) by (simp add: unat_gt_0)
  have tile: "(\<exists>x \<in> set log. a - f x < ucast (sge_length (snd x))) \<longleftrightarrow> a - b < n"
    if f: "\<And>x p l. span e P x = (p, p, l) \<Longrightarrow> unat (f x - b) = p" for f b
  proof -
    have "a - f x < ucast (sge_length (snd x)) \<longleftrightarrow> p \<le> unat (a - b) \<and> unat (a - b) < p + l"
      if "(p, l) \<in> set ?cs" "span e P x = (p, p, l)" for x p l
      using in_piece [OF f [OF that(2)] _ small [OF that(1)]] len that(2) by (simp add: span_def)
    then have "(\<exists>x \<in> set log. a - f x < ucast (sge_length (snd x)))
        \<longleftrightarrow> (\<exists>(p, l) \<in> set ?cs. p \<le> unat (a - b) \<and> unat (a - b) < p + l)"
      using pc cp by (fast)
    then show ?thesis by (simp add: chunks_cover [OF c0] word_less_nat_alt)
  qed
  show "(\<exists>x \<in> set log. a - remote_addr (snd x) < ucast (sge_length (snd x))) \<longleftrightarrow> a - rb < n"
    by (rule tile) (simp add: span_def rb_def)
  show "(\<exists>x \<in> set log. a - sge_addr (snd x) < ucast (sge_length (snd x))) \<longleftrightarrow> a - lb < n"
    by (rule tile) (simp add: span_def lb_def)
qed

lemma pieces_copied:
  fixes n c :: size_t
  assumes sp: "map (span e P) log = map (\<lambda>(p, l). (p, p, l)) (chunk_list 0 (unat n) (unat c))" and "c \<noteq> 0"
    and ds: "set ds = set log"
  defines "lb \<equiv> ptr (ep_buffer e) + pl_local P" and "rb \<equiv> ra_address (remote_metadata_attr e) + pl_remote P"
  shows "fold (\<lambda>x r. dma_copy from (sge_addr (snd x)) r (remote_addr (snd x)) (ucast (sge_length (snd x)))) ds m = dma_copy from lb m rb n"
    and "fold (\<lambda>x r. dma_copy from (remote_addr (snd x)) r (sge_addr (snd x)) (ucast (sge_length (snd x)))) ds m = dma_copy from rb m lb n"
proof -
  note tile = pieces_tile [OF assms(1,2), folded lb_def rb_def, folded ds]
  show "fold (\<lambda>x r. dma_copy from (sge_addr (snd x)) r (remote_addr (snd x)) (ucast (sge_length (snd x)))) ds m = dma_copy from lb m rb n"
    by (subst fold_copies [where sb = lb and db = rb]) (use tile(1) in \<open>simp_all add: tile(2) dma_copy_def\<close>)
  show "fold (\<lambda>x r. dma_copy from (remote_addr (snd x)) r (sge_addr (snd x)) (ucast (sge_length (snd x)))) ds m = dma_copy from rb m lb n"
    by (subst fold_copies [where sb = rb and db = lb]) (use tile(1) in \<open>simp_all add: tile(3) dma_copy_def\<close>)
qed

context rdma_memory
begin

text \<open>Both directions at once: \<open>transferred\<close> is what is known of the posted requests.\<close>

lemma transfer_executed:
  assumes idle: "ok w" "did w = L w" "mset (H w) = mset (due (L w))"
    and loop: "pipeline_loop post v P 0 0 0 [] e w = Some (SUCCESS, e', w')" "pl_chunk P \<noteq> 0"
    and post: "\<And>e lo ro n sig w r. post e lo ro n sig w = ((SUCCESS, fst r), snd r) \<Longrightarrow> nb_post v mk e lo ro n sig w = ((SUCCESS, fst r), snd r)"
    and mk: "\<And>a b n mr rk i s. wr_id (mk a b n mr rk i s) = i \<and> signaled_flag (mk a b n mr rk i s) = s"
    and tr: "pipeline_poster.transferred H L opc P 0 [] e w w' log d" "pipeline_poster v H L post opc"
    and ids: "num_qps e \<le> 256" "unat (next_wr_id e) + unat (pl_size P) < 2 ^ 56"
      "\<forall>i \<in> completed_wr_ids e. unat i < unat (next_wr_id e) * 256"
    and one: "num_qps e \<le> 1 \<or> pl_signal P \<le> 1"
  obtains ds where "set ds = set log" "mem w' = fold rdma_effect ds (mem w)"
proof -
  note tr1 = tr(1) [unfolded pipeline_poster.transferred_def [OF tr(2)]]
  have t: "L w' = L w @ log" "H w' = H w @ d" "signaled_ids log \<subseteq> completed_wr_ids e \<union> set d"
    "map (span e P) log = map (\<lambda>(p, l). (p, p, l)) (chunk_list 0 (unat (pl_size P)) (unat (pl_chunk P)))"
    "0 < pl_size P \<longrightarrow> log \<noteq> [] \<and> signaled_flag (snd (last log))"
    using tr1 by simp_all
  obtain log' where l: "L w' = L w @ log'" "numbered e (next_wr_id e) log'"
    "pl_signal P \<le> 1 \<longrightarrow> (\<forall>x \<in> set log'. signaled_flag (snd x))" "advances w w'"
    using loop_advances [OF loop(1) _ loop(2) post mk] by auto
  have log: "log' = log" using l(1) t(1) by simp
  have "length log \<le> unat (pl_size P)"
    using chunk_list_length [of 0 "unat (pl_size P)" "unat (pl_chunk P)"] map_eq_imp_length_eq [OF t(4)] by simp
  then have len: "unat (next_wr_id e) + length log < 2 ^ 56" using ids(2) by simp
  have last: "log \<noteq> [] \<longrightarrow> signaled_flag (snd (last log))"
    using t(4,5) by (cases "pl_size P = 0") (auto simp: word_gt_0)
  show ?thesis
    by (rule all_executed [OF idle l(4) t(1,2) l(2) [unfolded log] ids(1) len t(3) ids(3) last])
      (use one l(3) log that in auto)
qed

end

text \<open>The transfers of both directions, for all that build on them.\<close>

lemma pipeline_moved:
  assumes "rdma_memory v H L mem did ok" and "ok w" and "did w = L w" and "mset (H w) = mset (due (L w))"
    and "num_qps e \<le> 1 \<or> num_qps e \<le> 256 \<and> pl_signal (pipe_of env e lo ro n c k) \<le> 1"
    and "range_fits ro n (ucast (ra_length (remote_metadata_attr e)))"
    and "next_wr_id e \<noteq> 0" and "unat (next_wr_id e) + unat n < 2 ^ 56"
    and "\<forall>i \<in> completed_wr_ids e. unat i < unat (next_wr_id e) * 256"
  shows "(writeDataPipeline v env e lo ro n c k w = Some (SUCCESS, e', w') \<longrightarrow>
        mem w' = (fst (mem w), dma_copy (fst (mem w)) (ptr (ep_buffer e) + lo) (snd (mem w)) (ra_address (remote_metadata_attr e) + ro) n))
    \<and> (readDataPipeline v env e lo ro n c k w = Some (SUCCESS, e', w') \<longrightarrow>
        mem w' = (dma_copy (snd (mem w)) (ra_address (remote_metadata_attr e) + ro) (fst (mem w)) (ptr (ep_buffer e) + lo) n, snd (mem w)))"
proof -
  let ?P = "pipe_of env e lo ro n c k" and ?lb = "ptr (ep_buffer e) + lo" and ?rb = "ra_address (remote_metadata_attr e) + ro"
  have vl: "verbs_log v H L" using assms(1) by (simp add: rdma_memory_def)
  have q: "num_qps e \<le> 256" using assms(5) order.trans [of "num_qps e" 1 256] by auto
  have ids: "unat (next_wr_id e) + unat (pl_size ?P) < 2 ^ 56" "num_qps e \<le> 1 \<or> pl_signal ?P \<le> 1" "pl_chunk ?P \<noteq> 0"
    using assms(5,8) by auto
  have W: "mem w' = (fst (mem w), dma_copy (fst (mem w)) ?lb (snd (mem w)) ?rb n)"
    if run: "writeDataPipeline v env e lo ro n c k w = Some (SUCCESS, e', w')"
  proof -
    have loop: "pipeline_loop (write_poster v) v ?P 0 0 0 [] e w = Some (SUCCESS, e', w')"
      using run by (simp add: writeDataPipeline_def split: if_splits)
    obtain log d where t: "pipeline_poster.transferred H L IBV_WR_RDMA_WRITE ?P 0 [] e w w' log d"
      using write_pipeline_transferred [OF vl run assms(6-8)] by blast
    obtain ds where ds: "set ds = set log" "mem w' = fold rdma_effect ds (mem w)"
      by (rule rdma_memory.transfer_executed [OF assms(1-4) loop ids(3) _ _ t write_is_poster [OF vl] q ids(1) assms(9) ids(2), where mk = write_wr])
        (auto simp: NB_nb_post write_wr_def split: if_splits)
    have sp: "map (span e ?P) log = map (\<lambda>(p, l). (p, p, l)) (chunk_list 0 (unat n) (unat (pl_chunk ?P)))"
      "\<forall>x \<in> set log. opcode (snd x) = IBV_WR_RDMA_WRITE"
      using t by (auto simp: transferred_defs [OF vl])
    show ?thesis using ds sp(2) by (simp add: fold_rdma_write pieces_copied [OF sp(1) ids(3) ds(1)])
  qed
  have R: "mem w' = (dma_copy (snd (mem w)) ?rb (fst (mem w)) ?lb n, snd (mem w))"
    if run: "readDataPipeline v env e lo ro n c k w = Some (SUCCESS, e', w')"
  proof -
    have loop: "pipeline_loop (read_poster v) v ?P 0 0 0 [] e w = Some (SUCCESS, e', w')"
      using run by (simp add: readDataPipeline_def split: if_splits)
    obtain log d where t: "pipeline_poster.transferred H L IBV_WR_RDMA_READ ?P 0 [] e w w' log d"
      using read_pipeline_transferred [OF vl run assms(6-8)] by blast
    obtain ds where ds: "set ds = set log" "mem w' = fold rdma_effect ds (mem w)"
      by (rule rdma_memory.transfer_executed [OF assms(1-4) loop ids(3) _ _ t read_is_poster [OF vl] q ids(1) assms(9) ids(2), where mk = read_wr])
        (auto simp: NB_nb_post read_wr_def split: if_splits)
    have sp: "map (span e ?P) log = map (\<lambda>(p, l). (p, p, l)) (chunk_list 0 (unat n) (unat (pl_chunk ?P)))"
      "\<forall>x \<in> set log. opcode (snd x) = IBV_WR_RDMA_READ"
      using t by (auto simp: transferred_defs [OF vl])
    show ?thesis using ds sp(2) by (simp add: fold_rdma_read pieces_copied [OF sp(1) ids(3) ds(1)])
  qed
  show ?thesis using W R by blast
qed

text \<open>C2: A pipelined transfer that reports success has moved the bytes.  On an idle adapter with the guarantees of
  a reliable connection, when the endpoint uses one queue pair or every chunk is signaled, a successful
  \<^verbatim>\<open>writeDataPipeline\<close> has copied the local range to the remote range and changed nothing else in either memory,
  and a successful \<^verbatim>\<open>readDataPipeline\<close> the other way, whatever the order in which the adapter executed the chunks.\<close>

theorem pipeline_moves_bytes:
  assumes "rdma_memory v H L mem did ok" and "ok w" and "did w = L w" and "mset (H w) = mset (due (L w))"
    and "num_qps e \<le> 1 \<or> num_qps e \<le> 256 \<and> pl_signal (pipe_of env e lo ro n c k) \<le> 1"
    and "range_fits ro n (ucast (ra_length (remote_metadata_attr e)))"
    and "next_wr_id e \<noteq> 0" and "unat (next_wr_id e) + unat n < 2 ^ 56"
    and "\<forall>i \<in> completed_wr_ids e. unat i < unat (next_wr_id e) * 256"
  shows "(writeDataPipeline v env e lo ro n c k w = Some (SUCCESS, e', w') \<longrightarrow>
        mem w' = (fst (mem w), dma_copy (fst (mem w)) (ptr (ep_buffer e) + lo) (snd (mem w)) (ra_address (remote_metadata_attr e) + ro) n))
    \<and> (readDataPipeline v env e lo ro n c k w = Some (SUCCESS, e', w') \<longrightarrow>
        mem w' = (dma_copy (snd (mem w)) (ra_address (remote_metadata_attr e) + ro) (fst (mem w)) (ptr (ep_buffer e) + lo) n, snd (mem w)))"
  using pipeline_moved [OF assms] .

section \<open>The reference adapter\<close>

definition nic_mem :: "nic \<Rightarrow> memory \<times> memory" where
  "nic_mem n = (lmem n, rmem n)"

text \<open>Per queue pair the accepted requests are those executed and those queued; completions are handed out or waiting.\<close>

definition nic_sound :: "nic \<Rightarrow> bool" where
  "nic_sound n \<longleftrightarrow> (\<forall>q. filter (\<lambda>x. fst x = q) (posted n)
       = filter (\<lambda>x. fst x = q) (performed n @ map (\<lambda>(q', wr). (Some q', wr)) (sq n)))
     \<and> mset (delivered n) + mset (map wc_wr_id (cqes n)) = mset (due (performed n))"

lemma filter_find:
  "find (\<lambda>(q', wr). q' = q) xs = Some (q', wr) \<Longrightarrow> q' = q
   \<and> filter (\<lambda>x. fst x = q) xs = (q, wr) # filter (\<lambda>x. fst x = q) (remove1 (q, wr) xs)
   \<and> (\<forall>k. k \<noteq> q \<longrightarrow> filter (\<lambda>x. fst x = k) (remove1 (q, wr) xs) = filter (\<lambda>x. fst x = k) xs)"
  by (induction xs) (auto split: if_splits)

lemma nic_exec_does:
  assumes "nic_sound n"
  shows "nic_sound (nic_exec q n) \<and> (\<exists>ds. performed (nic_exec q n) = performed n @ ds
    \<and> nic_mem (nic_exec q n) = fold rdma_effect ds (nic_mem n))"
proof (cases "find (\<lambda>(q', wr). q' = q) (sq n)")
  case None
  then show ?thesis using assms by (auto simp: nic_exec_def)
next
  case (Some p)
  obtain q' wr where p: "p = (q', wr)" by (cases p)
  note ff = filter_find [OF Some [unfolded p]]
  let ?n = "nic_exec q n"
  have f: "performed ?n = performed n @ [(Some q, wr)]" "sq ?n = remove1 (q, wr) (sq n)" "posted ?n = posted n"
    "nic_mem ?n = rdma_effect (Some q, wr) (nic_mem n)" "delivered ?n = delivered n"
    "map wc_wr_id (cqes ?n) = map wc_wr_id (cqes n) @ (if signaled_flag wr then [wr_id wr] else [])"
    using Some ff by (auto simp: p nic_exec_def nic_effect_def nic_complete_def nic_mem_def rdma_effect_def Let_def
        split: ibv_opcode.splits)
  have fm: "filter (\<lambda>x. fst x = k) (map (\<lambda>(q', wr). (Some q', wr)) xs)
      = map (\<lambda>(q', wr). (Some q', wr)) (filter (\<lambda>x. Some (fst x) = k) xs)" for k and xs :: "(qp \<times> ibv_send_wr) list"
    by (induction xs) auto
  have "filter (\<lambda>x. fst x = k) (performed ?n @ map (\<lambda>(q', wr). (Some q', wr)) (sq ?n))
      = filter (\<lambda>x. fst x = k) (performed n @ map (\<lambda>(q', wr). (Some q', wr)) (sq n))" for k
    by (cases k) (use ff in \<open>auto simp: f(1,2) fm\<close>)
  then have "nic_sound ?n" using assms f by (auto simp: nic_sound_def due_def)
  then show ?thesis using f(1,4) by auto
qed

definition nic_step :: "nic \<Rightarrow> nic \<Rightarrow> bool" where
  "nic_step n n' \<longleftrightarrow> (nic_sound n \<longrightarrow> nic_sound n' \<and> (\<exists>ds. performed n' = performed n @ ds
     \<and> nic_mem n' = fold rdma_effect ds (nic_mem n)))"

lemma nic_step_trans:
  assumes "nic_step a b" and "nic_step b c"
  shows "nic_step a c"
proof (unfold nic_step_def, intro impI)
  assume a: "nic_sound a"
  then obtain ds where 1: "nic_sound b" "performed b = performed a @ ds" "nic_mem b = fold rdma_effect ds (nic_mem a)"
    using assms(1) by (auto simp: nic_step_def)
  then obtain es where "nic_sound c" "performed c = performed b @ es" "nic_mem c = fold rdma_effect es (nic_mem b)"
    using assms(2) by (auto simp: nic_step_def)
  then show "nic_sound c \<and> (\<exists>ds. performed c = performed a @ ds \<and> nic_mem c = fold rdma_effect ds (nic_mem a))"
    using 1 by (intro conjI exI [of _ "ds @ es"]) simp_all
qed

lemma nic_step_exec: "nic_step n (nic_exec q n)"
  using nic_exec_does by (simp add: nic_step_def)

lemma nic_step_same:
  "posted n' = posted n \<Longrightarrow> sq n' = sq n \<Longrightarrow> performed n' = performed n \<Longrightarrow> nic_mem n' = nic_mem n
   \<Longrightarrow> mset (delivered n') + mset (map wc_wr_id (cqes n')) = mset (delivered n) + mset (map wc_wr_id (cqes n))
   \<Longrightarrow> nic_step n n'"
  by (auto simp: nic_step_def nic_sound_def intro: exI [of _ "[]"])

lemma nic_step_execs: "nic_step n (fold nic_exec qs n)"
proof (induction qs arbitrary: n)
  case Nil
  then show ?case by (simp add: nic_step_same)
next
  case (Cons q qs)
  then show ?case using nic_step_trans [OF nic_step_exec Cons.IH] by simp
qed

lemma nic_step_progress: "nic_step n (nic_progress n)"
proof (cases "sched n")
  case Nil
  then show ?thesis by (auto simp: nic_progress_def nic_step_same nic_step_exec split: list.split)
next
  case (Cons qs rest)
  have "nic_step n (n\<lparr>sched := rest\<rparr>)" by (simp add: nic_step_same nic_mem_def)
  then show ?thesis using nic_step_trans [OF _ nic_step_execs] Cons by (simp add: nic_progress_def)
qed

lemma nic_step_poll: "nic_poll c cap n = (r, n') \<Longrightarrow> nic_step n n'"
proof -
  assume p: "nic_poll c cap n = (r, n')"
  let ?n = "nic_progress n"
  have n': "n' = ?n\<lparr>cqes := drop cap (cqes ?n), delivered := delivered ?n @ map wc_wr_id (take cap (cqes ?n))\<rparr>"
    using p by (auto simp: nic_poll_def Let_def)
  have "mset (map wc_wr_id (take cap (cqes ?n))) + mset (map wc_wr_id (drop cap (cqes ?n))) = mset (map wc_wr_id (cqes ?n))"
    by (metis append_take_drop_id map_append mset_append)
  then have "nic_step ?n n'" unfolding n' by (intro nic_step_same) (simp_all add: nic_mem_def union_assoc)
  then show ?thesis using nic_step_trans [OF nic_step_progress] by blast
qed

lemma nic_step_post:
  assumes "nic_post q wr n = (rc, n')"
  shows "nic_step n n'"
proof (cases q)
  case None
  then show ?thesis using assms by (auto simp: nic_post_def nic_step_same)
next
  case (Some q')
  then have n': "n' = n\<lparr>sq := sq n @ [(q', wr)], posted := posted n @ [(q, wr)]\<rparr>"
    using assms by (simp add: nic_post_def)
  have "nic_sound n'" if "nic_sound n"
    using that Some unfolding n' by (simp add: nic_sound_def)
  then show ?thesis unfolding n' by (auto simp: nic_step_def nic_mem_def intro: exI [of _ "[]"])
qed

interpretation nic_data: rdma_memory nic_verbs delivered posted nic_mem performed nic_sound
proof unfold_locales
  fix n n' q wr rc t c cap wcs
  show "nic_sound n' \<and> (\<exists>ds. performed n' = performed n @ ds \<and> nic_mem n' = fold rdma_effect ds (nic_mem n))"
    if "nic_sound n" "ibv_post_send nic_verbs q wr n = (rc, n')"
    using nic_step_post [of q wr n rc n'] that by (simp add: nic_verbs_def nic_step_def)
  show "nic_sound n' \<and> (\<exists>ds. performed n' = performed n @ ds \<and> nic_mem n' = fold rdma_effect ds (nic_mem n))"
    if "nic_sound n" "steady_now nic_verbs n = (t, n')"
    using nic_step_same [of n' n] that by (auto simp: nic_verbs_def nic_now_def nic_step_def nic_mem_def)
  show "nic_sound n' \<and> (\<exists>ds. performed n' = performed n @ ds \<and> nic_mem n' = fold rdma_effect ds (nic_mem n))"
    if "nic_sound n" "ibv_poll_cq nic_verbs c cap n = (Some wcs, n')"
    using nic_step_poll [of c cap n "Some wcs" n'] that by (simp add: nic_verbs_def nic_step_def)
  show "\<exists>rest. filter (\<lambda>x. fst x = q) (posted n) = filter (\<lambda>x. fst x = q) (performed n) @ rest" if "nic_sound n"
    using that by (auto simp: nic_sound_def)
  show "mset (delivered n) \<subseteq># mset (due (performed n))" if "nic_sound n"
    using that unfolding nic_sound_def by (metis mset_subset_eq_add_left)
qed

text \<open>Two chunks of four bytes, from local address 4096 to remote address 8192.\<close>

theorem pipeline_moves_bytes_witness:
  "\<exists>e' w'. writeDataPipeline nic_verbs (\<lambda>_. None) demo_endpoint 0 0 8 4 64 demo_nic = Some (SUCCESS, e', w')
     \<and> rmem w' = dma_copy (lmem demo_nic) 4096 (rmem demo_nic) 8192 8"
proof -
  obtain e' w' where r: "writeDataPipeline nic_verbs (\<lambda>_. None) demo_endpoint 0 0 8 4 64 demo_nic
      = Some (SUCCESS, e', w')"
    using demo_write_ok by (auto split: option.splits prod.splits)
  have i: "nic_sound demo_nic" "performed demo_nic = posted demo_nic" "mset (delivered demo_nic) = mset (due (posted demo_nic))"
    by (simp_all add: nic_sound_def demo_nic_def due_def)
  have e: "num_qps demo_endpoint \<le> 1 \<or> num_qps demo_endpoint \<le> 256 \<and> pl_signal (pipe_of (\<lambda>_. None) demo_endpoint 0 0 8 4 64) \<le> 1"
    "\<forall>i \<in> completed_wr_ids demo_endpoint. unat i < unat (next_wr_id demo_endpoint) * 256"
    "ptr (ep_buffer demo_endpoint) = 4096" "ra_address (remote_metadata_attr demo_endpoint) = 8192"
    by (simp_all add: demo_endpoint_def new_RDMAEndpoint_def Let_def demo_buffer_def empty_attr_def)
  note m = pipeline_moves_bytes [OF nic_data.rdma_memory_axioms i e(1) demo_fits e(2), of e' w', THEN conjunct1, rule_format, OF r]
  have "rmem w' = dma_copy (lmem demo_nic) 4096 (rmem demo_nic) 8192 8"
    using arg_cong [OF m, of snd] unfolding e(3,4) nic_mem_def by simp
  with r show ?thesis by blast
qed

end
