(* ===== verification/Hmc_Session.thy ===== *)
theory Hmc_Session
  imports Hmc_Python
begin

text \<open>
  The class \<^verbatim>\<open>Session\<close> of the Python package (src/hmc/__init__.py) over the communicator: numbers of
  Python are unbounded and are checked when they are handed to the library, a status other than success is
  an exception.  The state is that of the communicator and the control plane; the session's own members
  are a record.
\<close>

section \<open>Exceptions and numbers\<close>

text \<open>The exceptions raised by the package, without their texts.\<close>

datatype py_exc = ValueError | TypeError | RuntimeError | HMCStatusError status_t

definition ensure_ok :: "status_t \<Rightarrow> py_exc + unit" where
  "ensure_ok st = (if st = SUCCESS then Inr () else Inl (HMCStatusError st))"

definition require_port :: "int \<Rightarrow> py_exc + u16" where
  "require_port p = (if 0 < p \<and> p < 65536 then Inr (word_of_int p) else Inl ValueError)"

text \<open>An unbounded number handed to a parameter of an unsigned type of the library.\<close>

definition as_unsigned :: "int \<Rightarrow> py_exc + 'a::len word" where
  "as_unsigned x = (if 0 \<le> x \<and> x < 2 ^ LENGTH('a) then Inr (word_of_int x) else Inl TypeError)"

section \<open>Choosing the control link\<close>

text \<open>\<^verbatim>\<open>str.strip\<close> and \<^verbatim>\<open>str.lower\<close> on characters below 128.\<close>

definition py_space :: "char \<Rightarrow> bool" where
  "py_space c \<longleftrightarrow> (let n = (of_char c :: nat) in 9 \<le> n \<and> n \<le> 13 \<or> 28 \<le> n \<and> n \<le> 32)"

definition normalize_ip :: "string \<Rightarrow> string" where
  "normalize_ip s = rev (dropWhile py_space (rev (dropWhile py_space s)))"

definition py_lower :: "string \<Rightarrow> string" where
  "py_lower s = map (\<lambda>c. let n = (of_char c :: nat) in if 65 \<le> n \<and> n \<le> 90 then char_of (n + 32) else c) s"

definition env_str :: "environ \<Rightarrow> string \<Rightarrow> string \<Rightarrow> string" where
  "env_str env name dflt = (case env name of None \<Rightarrow> dflt | Some v \<Rightarrow> if v = [] then dflt else v)"

definition pick_ctrl_transport :: "environ \<Rightarrow> string \<Rightarrow> string \<Rightarrow> CtrlTransport" where
  "pick_ctrl_transport env local_addr peer_addr =
    (let t = py_lower (normalize_ip (env_str env ''CTRL_TRANSPORT'' []))
     in if t \<noteq> [] then (if t = ''uds'' then UDS else TCP)
        else let li = normalize_ip local_addr; pi = normalize_ip peer_addr
        in if li \<noteq> [] \<and> li \<noteq> ''0.0.0.0'' \<and> pi \<noteq> [] \<and> li = pi then UDS else TCP)"

definition build_ctrl_link :: "CtrlTransport \<Rightarrow> CtrlId \<Rightarrow> string \<Rightarrow> u16 \<Rightarrow> string \<Rightarrow> CtrlLink" where
  "build_ctrl_link how peer_id ip_addr port_nr uds_dir =
    (if how = UDS
     then \<lparr> l_transport = UDS, l_ip = [], l_port = 0, l_uds_path = udsPathFor uds_dir peer_id \<rparr>
     else \<lparr> l_transport = TCP, l_ip = ip_addr, l_port = port_nr, l_uds_path = [] \<rparr>)"

section \<open>Sessions\<close>

record Session =
  local_addr :: string
  ctrl_uds_dir :: string
  sess_id :: "int option"

definition new_Session :: "string \<Rightarrow> string \<Rightarrow> Session" where
  "new_Session ip dir = \<lparr> local_addr = normalize_ip ip, ctrl_uds_dir = dir, sess_id = None \<rparr>"

definition set_local_ip :: "string \<Rightarrow> Session \<Rightarrow> Session" where
  "set_local_ip ip S = S\<lparr> local_addr := normalize_ip ip \<rparr>"

definition set_ctrl_uds_dir :: "string \<Rightarrow> Session \<Rightarrow> Session" where
  "set_ctrl_uds_dir d S = S\<lparr> ctrl_uds_dir := d \<rparr>"

type_synonym ('e, 'w, 'r) py_run = "((py_exc + 'r) \<times> ('e, 'w) both) run"

text \<open>A call of the communicator that ends with a status, and one that also has a value.\<close>

definition py_value :: "('e Communicator \<Rightarrow> 'w \<Rightarrow> ('e, 'w, 'r) comm_run) \<Rightarrow> ('e, 'w) both \<Rightarrow> ('e, 'w, 'r) py_run" where
  "py_value f s =
    (case s of (c, m, w) \<Rightarrow>
       (case f c w of
          Ret ((st, r), c1, w1) \<Rightarrow> Ret (map_sum id (\<lambda>_. r) (ensure_ok st), (c1, m, w1))
        | Diverge \<Rightarrow> Diverge
        | Fault \<Rightarrow> Fault))"

definition session_check_conn ::
  "string \<Rightarrow> int \<Rightarrow> ConnType \<Rightarrow> ('e, 'w) both \<Rightarrow> ('e, 'w, bool) py_run" where
  "session_check_conn ip port conn s =
    (case require_port port of
       Inl x \<Rightarrow> Ret (Inl x, s)
     | Inr p \<Rightarrow>
         (case s of (c, m, w) \<Rightarrow>
            (case checkConn ip p conn c w of
               Ret ((st, _), c1, w1) \<Rightarrow> Ret (Inr (st = SUCCESS), (c1, m, w1))
             | Diverge \<Rightarrow> Diverge
             | Fault \<Rightarrow> Fault)))"

text \<open>\<^verbatim>\<open>connect\<close>: the directory of the session when none is given; nothing is done when the data connection
  exists.\<close>

definition session_connect ::
  "('e, 'w) Endpoint \<Rightarrow> 'w sockets \<Rightarrow> environ \<Rightarrow> Session \<Rightarrow> int \<Rightarrow> int \<Rightarrow> string \<Rightarrow> int \<Rightarrow> int \<Rightarrow> string option \<Rightarrow> ConnType
     \<Rightarrow> ('e, 'w) both \<Rightarrow> ('e, 'w, unit) py_run" where
  "session_connect C sk env S peer_id self_id peer_ip data_port ctrl_tcp_port uds_dir conn s =
    (let ip = normalize_ip peer_ip in
     case require_port data_port of
       Inl x \<Rightarrow> Ret (Inl x, s)
     | Inr p \<Rightarrow>
         (case session_check_conn ip data_port conn s of
            Diverge \<Rightarrow> Diverge
          | Fault \<Rightarrow> Fault
          | Ret (Inl x, s1) \<Rightarrow> Ret (Inl x, s1)
          | Ret (Inr connected, s1) \<Rightarrow>
              if connected then Ret (Inr (), s1)
              else let how = pick_ctrl_transport env (local_addr S) ip in
                (case (as_unsigned peer_id, as_unsigned self_id, if how = UDS then Inr 0 else as_unsigned ctrl_tcp_port) of
                  (Inr peer, Inr self, Inr cport) \<Rightarrow>
                    (let link = build_ctrl_link how peer ip cport
                                  (case uds_dir of None \<Rightarrow> ctrl_uds_dir S | Some d \<Rightarrow> d)
                     in case connectTo C sk peer self ip p link conn s1 of
                          Ret (st, s2) \<Rightarrow> Ret (ensure_ok st, s2)
                        | Diverge \<Rightarrow> Diverge
                        | Fault \<Rightarrow> Fault)
                | _ \<Rightarrow> Ret (Inl TypeError, s1))))"

text \<open>\<^verbatim>\<open>init_server\<close>: the RDMA server and then the UCX server; the address becomes the session's when both have
  started.\<close>

definition py_initServer ::
  "'w sockets \<Rightarrow> string \<Rightarrow> int \<Rightarrow> int \<Rightarrow> string \<Rightarrow> ConnType \<Rightarrow> ('e, 'w) both \<Rightarrow> ('e, 'w, unit) py_run" where
  "py_initServer sk ip port cport path conn s =
    (case (as_unsigned port, as_unsigned cport) of
       (Inr p, Inr cp) \<Rightarrow>
         (case initServer sk ip p cp path conn s of
            Return (st, s1) \<Rightarrow> Ret (ensure_ok st, s1)
          | Throw _ \<Rightarrow> Ret (Inl ValueError, s)
          | Exit _ \<Rightarrow> Diverge)
     | _ \<Rightarrow> Ret (Inl TypeError, s))"

definition session_init_server ::
  "'w sockets \<Rightarrow> Session \<Rightarrow> string \<Rightarrow> int \<Rightarrow> int \<Rightarrow> int \<Rightarrow> int \<Rightarrow> string option \<Rightarrow> ('e, 'w) both
     \<Rightarrow> ((py_exc + unit) \<times> Session \<times> ('e, 'w) both) run" where
  "session_init_server sk S srv_ip ucx_port rdma_port ctrl_tcp_port self_id uds_dir s =
    (let ip = normalize_ip srv_ip; dir = (case uds_dir of None \<Rightarrow> ctrl_uds_dir S | Some d \<Rightarrow> d);
         S1 = S\<lparr> ctrl_uds_dir := dir, sess_id := Some self_id \<rparr>
     in case as_unsigned self_id of
          Inl x \<Rightarrow> Ret (Inl x, S1, s)
        | Inr me \<Rightarrow>
            (case py_initServer sk ip rdma_port ctrl_tcp_port (udsPathFor dir me) RDMA s of
               Diverge \<Rightarrow> Diverge
             | Fault \<Rightarrow> Fault
             | Ret (Inl x, s1) \<Rightarrow> Ret (Inl x, S1, s1)
             | Ret (Inr _, s1) \<Rightarrow>
                 (case py_initServer sk ip ucx_port ctrl_tcp_port (udsPathFor dir me) UCX s1 of
                    Diverge \<Rightarrow> Diverge
                  | Fault \<Rightarrow> Fault
                  | Ret (Inl x, s2) \<Rightarrow> Ret (Inl x, S1, s2)
                  | Ret (Inr _, s2) \<Rightarrow> Ret (Inr (), S1\<lparr> local_addr := ip \<rparr>, s2))))"

definition session_close_server ::
  "('e, 'w) Endpoint \<Rightarrow> 'w sockets \<Rightarrow> CtrlId list \<Rightarrow> ConnType list \<Rightarrow> ('e, 'w) both \<Rightarrow> ('e, 'w, unit) py_run" where
  "session_close_server C sk peers order s = (case closeServer C sk peers order s of (st, s1) \<Rightarrow> Ret (ensure_ok st, s1))"

definition session_disconnect ::
  "('e, 'w) Endpoint \<Rightarrow> string \<Rightarrow> int \<Rightarrow> ConnType \<Rightarrow> ('e, 'w) both \<Rightarrow> ('e, 'w, unit) py_run" where
  "session_disconnect C ip port conn s =
    (case require_port port of
       Inl x \<Rightarrow> Ret (Inl x, s)
     | Inr p \<Rightarrow> (case s of (c, m, w) \<Rightarrow>
         (case disConnect C ip p conn c w of
            Ret (st, c1, w1) \<Rightarrow> Ret (ensure_ok st, (c1, m, w1))
          | Diverge \<Rightarrow> Diverge
          | Fault \<Rightarrow> Fault)))"

section \<open>Transfers\<close>

text \<open>The arguments of a transfer: the port is checked first, then the three numbers are converted.\<close>

definition with_range ::
  "int \<Rightarrow> int \<Rightarrow> int \<Rightarrow> int \<Rightarrow> (u16 \<Rightarrow> size_t \<Rightarrow> size_t \<Rightarrow> size_t \<Rightarrow> 's \<Rightarrow> ((py_exc + 'r) \<times> 's) run) \<Rightarrow> 's \<Rightarrow> ((py_exc + 'r) \<times> 's) run" where
  "with_range port local_off remote_off nbytes f s =
    (case require_port port of
       Inl x \<Rightarrow> Ret (Inl x, s)
     | Inr p \<Rightarrow>
         (case (as_unsigned local_off, as_unsigned remote_off, as_unsigned nbytes) of
            (Inr lo, Inr ro, Inr n) \<Rightarrow> f p lo ro n s
          | _ \<Rightarrow> Ret (Inl TypeError, s)))"

definition put_remote where
  "put_remote C ip port local_off remote_off nbytes conn =
    with_range port local_off remote_off nbytes (\<lambda>p lo ro n. py_value (put C ip p lo ro n conn))"

definition get_remote where
  "get_remote C ip port local_off remote_off nbytes conn =
    with_range port local_off remote_off nbytes (\<lambda>p lo ro n. py_value (get C ip p lo ro n conn))"

definition put_nb where
  "put_nb C ip port local_off remote_off nbytes conn =
    with_range port local_off remote_off nbytes (\<lambda>p lo ro n. py_value (py_putNB C ip p lo ro n conn))"

definition get_nb where
  "get_nb C ip port local_off remote_off nbytes conn =
    with_range port local_off remote_off nbytes (\<lambda>p lo ro n. py_value (py_getNB C ip p lo ro n conn))"

definition put_pipeline where
  "put_pipeline C v env ip port local_off remote_off nbytes chunk_size max_inflight conn =
    with_range port local_off remote_off nbytes (\<lambda>p lo ro n s.
      case (as_unsigned chunk_size, as_unsigned max_inflight) of
        (Inr cs, Inr mi) \<Rightarrow> py_value (putPipeline C v env ip p lo ro n cs mi conn) s
      | _ \<Rightarrow> Ret (Inl TypeError, s))"

definition get_pipeline where
  "get_pipeline C v env ip port local_off remote_off nbytes chunk_size max_inflight conn =
    with_range port local_off remote_off nbytes (\<lambda>p lo ro n s.
      case (as_unsigned chunk_size, as_unsigned max_inflight) of
        (Inr cs, Inr mi) \<Rightarrow> py_value (getPipeline C v env ip p lo ro n cs mi conn) s
      | _ \<Rightarrow> Ret (Inl TypeError, s))"

text \<open>\<^verbatim>\<open>wait\<close> takes one identifier or a list of them.\<close>

definition session_wait where
  "session_wait C order reqs s =
    (case reqs of
       Inl i \<Rightarrow> (case as_unsigned i of Inl x \<Rightarrow> Ret (Inl x, s) | Inr j \<Rightarrow> py_value (wait_one C j) s)
     | Inr is \<Rightarrow>
         (if \<forall>i \<in> set is. 0 \<le> i \<and> i < 2 ^ 64 then py_value (wait_all C order (map word_of_int is)) s
          else Ret (Inl TypeError, s)))"

definition session_ctrl_send ::
  "'w sockets \<Rightarrow> int \<Rightarrow> int \<Rightarrow> ('e, 'w) both \<Rightarrow> ('e, 'w, unit) py_run" where
  "session_ctrl_send sk peer tag s =
    (case (as_unsigned peer, as_unsigned tag) of
       (Inr p, Inr t) \<Rightarrow> (case s of (c, m, w) \<Rightarrow>
          (case ctrlSend sk m p t w of (st, w1) \<Rightarrow> Ret (ensure_ok st, (c, m, w1))))
     | _ \<Rightarrow> Ret (Inl TypeError, s))"

definition session_ctrl_recv :: "'w sockets \<Rightarrow> int \<Rightarrow> ('e, 'w) both \<Rightarrow> ('e, 'w, int) py_run" where
  "session_ctrl_recv sk peer s =
    (case as_unsigned peer of
       Inl x \<Rightarrow> Ret (Inl x, s)
     | Inr p \<Rightarrow> (case s of (c, m, w) \<Rightarrow>
          (case py_ctrlRecv sk m p w of ((st, tag), w1) \<Rightarrow>
             Ret (map_sum id (\<lambda>_. uint tag) (ensure_ok st), (c, m, w1)))))"

text \<open>The transport between processes of one host is reached by calls of its own.\<close>

definition session_connect_p2p ::
  "'w p2p_env \<Rightarrow> (any_endpoint, 'w) Endpoint \<Rightarrow> 'w sockets \<Rightarrow> int \<Rightarrow> int \<Rightarrow> int \<Rightarrow> MemoryType
     \<Rightarrow> (any_endpoint, 'w) both \<Rightarrow> (any_endpoint, 'w, unit) py_run" where
  "session_connect_p2p E C sk peer_id self_id device mt s =
    (case (as_unsigned peer_id, as_unsigned self_id) of
       (Inr p, Inr me) \<Rightarrow> (case connectP2p E C sk p me device mt s of (st, s1) \<Rightarrow> Ret (ensure_ok st, s1))
     | _ \<Rightarrow> Ret (Inl TypeError, s))"

definition with_offsets ::
  "int \<Rightarrow> int \<Rightarrow> int \<Rightarrow> (size_t \<Rightarrow> size_t \<Rightarrow> size_t \<Rightarrow> 's \<Rightarrow> ((py_exc + 'r) \<times> 's) run) \<Rightarrow> 's \<Rightarrow> ((py_exc + 'r) \<times> 's) run" where
  "with_offsets local_off remote_off nbytes f s =
    (case (as_unsigned local_off, as_unsigned remote_off, as_unsigned nbytes) of
       (Inr lo, Inr ro, Inr n) \<Rightarrow> f lo ro n s
     | _ \<Rightarrow> Ret (Inl TypeError, s))"

definition put_p2p where
  "put_p2p C rank local_off remote_off nbytes =
    with_offsets local_off remote_off nbytes (\<lambda>lo ro n. py_value (putP2p C rank lo ro n))"

definition get_p2p where
  "get_p2p C rank local_off remote_off nbytes =
    with_offsets local_off remote_off nbytes (\<lambda>lo ro n. py_value (getP2p C rank lo ro n))"

text \<open>The double-buffered transfer.  The receiver's port is converted and not checked.\<close>

definition send_data_to where
  "send_data_to C ip port send_buf_addr buf_size buf_type conn s =
    (case require_port port of
       Inl x \<Rightarrow> Ret (Inl x, s)
     | Inr p \<Rightarrow>
         (case (as_unsigned send_buf_addr, as_unsigned buf_size) of
            (Inr a, Inr n) \<Rightarrow> py_value (sendDataTo C ip p a n buf_type conn) s
          | _ \<Rightarrow> Ret (Inl TypeError, s)))"

definition recv_data_from where
  "recv_data_from C ip port recv_buf_addr buf_size buf_type flag_addr conn s =
    (case (as_unsigned port, as_unsigned recv_buf_addr, as_unsigned buf_size, as_unsigned flag_addr) of
       (Inr p, Inr a, Inr n, Inr fl) \<Rightarrow> py_value (recvDataFrom C ip p a n buf_type fl conn) s
     | _ \<Rightarrow> Ret (Inl TypeError, s))"

section \<open>The input and output buffer\<close>

text \<open>What can be handed to \<^verbatim>\<open>IOBuffer\<close>: a host object with a buffer (an array, a tensor on the CPU or a
  bytes-like object) and whether it is contiguous, a CUDA tensor with its address, size and the same flag, a
  number, or anything else.  Making a contiguous copy is the business of NumPy and torch: \<open>dense_host\<close> and
  \<open>dense_cuda\<close> return the copy, and \<open>new_bytes\<close> a new byte array of the interpreter.  NumPy is taken to be
  installed: the detour through a byte array for a tensor without it is not modelled.\<close>

datatype py_data = HostData buffer_info bool | CudaTensor addr int bool | PyInt int | OtherData

record 'hw py_libs =
  dense_host :: "buffer_info \<Rightarrow> 'hw machine \<Rightarrow> buffer_info \<times> 'hw machine"
  dense_cuda :: "addr \<Rightarrow> int \<Rightarrow> 'hw machine \<Rightarrow> addr \<times> 'hw machine"
  new_bytes :: "int \<Rightarrow> 'hw machine \<Rightarrow> buffer_info \<times> 'hw machine"

definition view_len :: "buffer_info \<Rightarrow> int" where
  "view_len b = uint (bi_size b) * uint (bi_itemsize b)"

text \<open>An exception thrown by the bindings is a \<^verbatim>\<open>RuntimeError\<close>.\<close>

definition py_status :: "status_t outcome \<times> 'hw machine \<Rightarrow> (py_exc + unit) \<times> 'hw machine" where
  "py_status r = (case r of (Return st, m) \<Rightarrow> (ensure_ok st, m) | (_, m) \<Rightarrow> (Inl RuntimeError, m))"

definition with_span ::
  "int \<Rightarrow> int \<Rightarrow> (size_t \<Rightarrow> size_t \<Rightarrow> ('hw, status_t outcome) call) \<Rightarrow> ('hw, py_exc + unit) call" where
  "with_span nbytes offset f m =
    (case (as_unsigned nbytes, as_unsigned offset) of
       (Inr n, Inr off) \<Rightarrow> py_status (f n off m)
     | _ \<Rightarrow> (Inl TypeError, m))"

definition buffer_put_cpu ::
  "'hw platform \<Rightarrow> 'hw py_libs \<Rightarrow> ConnBuffer \<Rightarrow> py_data \<Rightarrow> int option \<Rightarrow> int \<Rightarrow> ('hw, py_exc + int) call" where
  "buffer_put_cpu P L b src nbytes offset m =
    (case src of
       HostData v dense \<Rightarrow>
         (case (if dense then (v, m) else dense_host L v m) of (mv, m1) \<Rightarrow>
            let n = (case nbytes of None \<Rightarrow> view_len mv | Some k \<Rightarrow> k)
            in apfst (map_sum id (\<lambda>_. n)) (with_span n offset (py_writeFromCpu P b mv) m1))
     | CudaTensor _ _ _ \<Rightarrow> (Inl ValueError, m)
     | _ \<Rightarrow> (Inl TypeError, m))"

definition buffer_get_cpu_into ::
  "'hw platform \<Rightarrow> ConnBuffer \<Rightarrow> py_data \<Rightarrow> int \<Rightarrow> int \<Rightarrow> ('hw, py_exc + unit) call" where
  "buffer_get_cpu_into P b dst nbytes offset m =
    (case dst of
       HostData v dense \<Rightarrow>
         if \<not> dense \<or> bi_readonly v then (Inl ValueError, m)
         else if view_len v < nbytes then (Inl ValueError, m)
         else with_span nbytes offset (py_readToCpu P b v) m
     | CudaTensor _ _ _ \<Rightarrow> (Inl ValueError, m)
     | _ \<Rightarrow> (Inl TypeError, m))"

definition buffer_get_cpu ::
  "'hw platform \<Rightarrow> 'hw py_libs \<Rightarrow> ConnBuffer \<Rightarrow> int \<Rightarrow> int \<Rightarrow> ('hw, py_exc + buffer_info) call" where
  "buffer_get_cpu P L b nbytes offset m =
    (if nbytes < 0 then (Inl ValueError, m)
     else case new_bytes L nbytes m of (out, m1) \<Rightarrow>
       apfst (map_sum id (\<lambda>_. out)) (with_span nbytes offset (py_readToCpu P b out) m1))"

definition buffer_put_gpu_ptr ::
  "'hw platform \<Rightarrow> ConnBuffer \<Rightarrow> int \<Rightarrow> int \<Rightarrow> int \<Rightarrow> ('hw, py_exc + unit) call" where
  "buffer_put_gpu_ptr P b src nbytes offset m =
    (case as_unsigned src of Inl x \<Rightarrow> (Inl x, m) | Inr a \<Rightarrow> with_span nbytes offset (py_writeFromGpu P b a) m)"

definition buffer_get_gpu_ptr ::
  "'hw platform \<Rightarrow> ConnBuffer \<Rightarrow> int \<Rightarrow> int \<Rightarrow> int \<Rightarrow> ('hw, py_exc + unit) call" where
  "buffer_get_gpu_ptr P b dst nbytes offset m =
    (case as_unsigned dst of Inl x \<Rightarrow> (Inl x, m) | Inr a \<Rightarrow> with_span nbytes offset (py_readToGpu P b a) m)"

text \<open>The address of a tensor.  That of a tensor which is not contiguous is the address of a copy, which is
  dropped when the function returns.\<close>

definition torch_cuda_ptr_and_nbytes ::
  "'hw py_libs \<Rightarrow> py_data \<Rightarrow> int option \<Rightarrow> ('hw, py_exc + int \<times> int) call" where
  "torch_cuda_ptr_and_nbytes L t nbytes m =
    (case t of
       CudaTensor a sz dense \<Rightarrow>
         (case (if dense then (a, m) else dense_cuda L a sz m) of (p, m1) \<Rightarrow>
            (Inr (uint p, case nbytes of None \<Rightarrow> sz | Some k \<Rightarrow> k), m1))
     | HostData _ _ \<Rightarrow> (Inl ValueError, m)
     | _ \<Rightarrow> (Inl TypeError, m))"

definition buffer_put_cuda where
  "buffer_put_cuda P L b t nbytes offset m =
    (case torch_cuda_ptr_and_nbytes L t nbytes m of
       (Inl x, m1) \<Rightarrow> (Inl x, m1)
     | (Inr (p, n), m1) \<Rightarrow> apfst (map_sum id (\<lambda>_. n)) (buffer_put_gpu_ptr P b p n offset m1))"

definition buffer_get_cuda where
  "buffer_get_cuda P L b t nbytes offset m =
    (case torch_cuda_ptr_and_nbytes L t nbytes m of
       (Inl x, m1) \<Rightarrow> (Inl x, m1)
     | (Inr (p, n), m1) \<Rightarrow> apfst (map_sum id (\<lambda>_. n)) (buffer_get_gpu_ptr P b p n offset m1))"

definition buffer_copy_within :: "'hw platform \<Rightarrow> ConnBuffer \<Rightarrow> int \<Rightarrow> int \<Rightarrow> int \<Rightarrow> ('hw, py_exc + unit) call" where
  "buffer_copy_within P b dst_offset src_offset nbytes m =
    (case as_unsigned dst_offset of
       Inl x \<Rightarrow> (Inl x, m)
     | Inr d \<Rightarrow> with_span nbytes src_offset (\<lambda>n so. py_copyWithin P b d so n) m)"

datatype device_hint = HintCpu | HintCuda | HintPtr

fun cuda_data :: "py_data \<Rightarrow> bool" where
  "cuda_data (CudaTensor _ _ _) = True"
| "cuda_data _ = False"

definition iobuffer_put ::
  "'hw platform \<Rightarrow> 'hw py_libs \<Rightarrow> ConnBuffer \<Rightarrow> py_data \<Rightarrow> int option \<Rightarrow> int \<Rightarrow> device_hint option \<Rightarrow> ('hw, py_exc + int) call" where
  "iobuffer_put P L b data nbytes offset device m =
    (if device = Some HintPtr then
       (case (data, nbytes) of
          (PyInt p, Some n) \<Rightarrow> apfst (map_sum id (\<lambda>_. n)) (buffer_put_gpu_ptr P b p n offset m)
        | (PyInt p, None) \<Rightarrow> (Inl ValueError, m)
        | _ \<Rightarrow> (Inl TypeError, m))
     else if device = Some HintCuda \<or> device = None \<and> cuda_data data then buffer_put_cuda P L b data nbytes offset m
     else buffer_put_cpu P L b data nbytes offset m)"

definition iobuffer_get_into ::
  "'hw platform \<Rightarrow> 'hw py_libs \<Rightarrow> ConnBuffer \<Rightarrow> py_data \<Rightarrow> int \<Rightarrow> int \<Rightarrow> device_hint option \<Rightarrow> ('hw, py_exc + unit) call" where
  "iobuffer_get_into P L b dst nbytes offset device m =
    (if device = Some HintPtr then
       (case dst of PyInt p \<Rightarrow> buffer_get_gpu_ptr P b p nbytes offset m | _ \<Rightarrow> (Inl TypeError, m))
     else if device = Some HintCuda \<or> device = None \<and> cuda_data dst
     then apfst (map_sum id (\<lambda>_. ())) (buffer_get_cuda P L b dst (Some nbytes) offset m)
     else buffer_get_cpu_into P b dst nbytes offset m)"

text \<open>A copy into the buffer followed by a put of the same range, and a get followed by a copy out.\<close>

definition buffer_put_then_put where
  "buffer_put_then_put P L C b ip port data local_off remote_off conn nbytes device m s =
    (case iobuffer_put P L b data nbytes local_off device m of
       (Inl x, m1) \<Rightarrow> Ret (Inl x, m1, s)
     | (Inr n, m1) \<Rightarrow>
         (case put_remote C ip port local_off remote_off n conn s of
            Ret (r, s1) \<Rightarrow> Ret (map_sum id (\<lambda>_. n) r, m1, s1)
          | Diverge \<Rightarrow> Diverge
          | Fault \<Rightarrow> Fault))"

definition data_len :: "py_data \<Rightarrow> py_exc + int" where
  "data_len d = (case d of HostData v _ \<Rightarrow> Inr (view_len v) | CudaTensor _ n _ \<Rightarrow> Inr n | _ \<Rightarrow> Inl TypeError)"

definition get_then_buffer_get_into where
  "get_then_buffer_get_into P L C b ip port dst local_off remote_off nbytes conn device m s =
    (case (case nbytes of None \<Rightarrow> data_len dst | Some n \<Rightarrow> Inr n) of
       Inl x \<Rightarrow> Ret (Inl x, m, s)
     | Inr n \<Rightarrow>
         (case get_remote C ip port local_off remote_off n conn s of
            Ret (Inl x, s1) \<Rightarrow> Ret (Inl x, m, s1)
          | Ret (Inr _, s1) \<Rightarrow>
              (case iobuffer_get_into P L b dst n local_off device m of
                 (r, m1) \<Rightarrow> Ret (map_sum id (\<lambda>_. n) r, m1, s1))
          | Diverge \<Rightarrow> Diverge
          | Fault \<Rightarrow> Fault))"

text \<open>The kind of memory of a tensor, from the type of its device (\<open>None\<close>: it has none), its flag, and the versions
  torch was built with.\<close>

definition memory_type_from_torch_tensor ::
  "string option \<Rightarrow> bool \<Rightarrow> string option \<Rightarrow> string option \<Rightarrow> MemoryType option \<Rightarrow> MemoryType" where
  "memory_type_from_torch_tensor dev cuda_flag hip_v cuda_v dflt =
    (let d = (case dflt of None \<Rightarrow> DEFAULT | Some t \<Rightarrow> t); given = (\<lambda>v. v \<noteq> None \<and> v \<noteq> Some [])
     in if dev = Some ''cpu'' \<or> \<not> cuda_flag \<and> dev = None then CPU
        else if dev = Some ''cuda'' \<or> cuda_flag
        then (if given hip_v then AMD_GPU else if given cuda_v then NVIDIA_GPU else d)
        else if dev = Some ''mlu'' then CAMBRICON_MLU
        else if dev = Some ''musa'' then MOORE_GPU
        else d)"

section \<open>What the checks give\<close>

text \<open>A port is handed on unchanged, and numbers survive the conversion.\<close>

lemma require_port_exact:
  assumes "require_port p = Inr q"
  shows "uint q = p \<and> q \<noteq> 0"
proof -
  have p: "0 < p" "p < 65536" "q = word_of_int p" using assms by (simp_all add: require_port_def split: if_splits)
  then have "uint q = p" by (simp add: uint_word_of_int)
  then show ?thesis using p(1) by auto
qed

lemma as_unsigned_exact: "as_unsigned x = Inr (y :: 'a::len word) \<Longrightarrow> uint y = x"
  by (auto simp: as_unsigned_def uint_word_of_int take_bit_int_eq_self_iff split: if_splits)

text \<open>No session connects over the same-host transport: the tables of the connection manager have no place for
  it, so \<^verbatim>\<open>connect\<close> raises or does not return, whatever the state, and a put raises.\<close>

lemma checkConn_P2P: "checkConn ip p P2P c w = Ret ((INVALID_CONFIG, ()), c, w)"
  by (simp add: checkConn_def withEndpoint_def endpointMapFor_def)

lemma connectTo_P2P:
  assumes "connectTo C sk pe se ip p link P2P s = Ret (st, s')"
  shows "st \<noteq> SUCCESS"
  using assms by (auto simp: connectTo_def checkConn_P2P initiateConnectionAsClient_def split: prod.splits if_splits)

lemma session_connect_P2P:
  assumes run: "session_connect C sk env S pe se ip dp cp dir P2P s = Ret (r, s')"
  shows "\<exists>x. r = Inl x"
proof (cases "require_port dp")
  case (Inl x)
  then show ?thesis using run by (auto simp: session_connect_def)
next
  case (Inr p)
  obtain c m w where s: "s = (c, m, w)" by (cases s)
  have chk: "session_check_conn (normalize_ip ip) dp P2P s = Ret (Inr False, s)"
    by (simp add: session_check_conn_def Inr checkConn_P2P s)
  show ?thesis
  proof (cases r)
    case (Inr u)
    then obtain st s2 pe' se' p' link where "connectTo C sk pe' se' (normalize_ip ip) p' link P2P s = Ret (st, s2)" "ensure_ok st = Inr u"
      using run \<open>require_port dp = Inr p\<close>
      by (auto simp: session_connect_def chk Let_def split: sum.split_asm run.split_asm)
    then show ?thesis using connectTo_P2P by (metis ensure_ok_def sum.distinct(1))
  qed simp
qed

lemma put_remote_P2P: "\<exists>x. put_remote C ip port lo ro n P2P s = Ret (Inl x, s)"
  by (auto simp: put_remote_def with_range_def py_value_def put_def with_conn_def checkConn_P2P ensure_ok_def
      split: prod.splits sum.splits)

text \<open>A read into a CUDA tensor that is not contiguous fills a copy: the call is the one for the copy.\<close>

lemma get_cuda_fills_copy:
  assumes "dense_cuda L a sz m = (p, m1)"
  shows "buffer_get_cuda P L b (CudaTensor a sz False) (Some n) off m
    = apfst (map_sum id (\<lambda>_. n)) (buffer_get_gpu_ptr P b (uint p) n off m1)"
  using assms by (simp add: buffer_get_cuda_def torch_cuda_ptr_and_nbytes_def)

lemma map_sum_Inr:
  assumes "apfst (map_sum id (\<lambda>_. n)) r = (Inr k, m)"
  shows "r = (Inr (), m)" "k = n"
proof -
  obtain x m1 where r: "r = (x, m1)" by (cases r)
  show "r = (Inr (), m)" "k = n" using assms unfolding r by (cases x; simp)+
qed

text \<open>A successful write through \<^verbatim>\<open>IOBuffer.put\<close> is one of the library with the same range, and returns its size.\<close>

lemma iobuffer_put_host:
  assumes "iobuffer_put P L b (HostData v True) nbytes offset None m = (Inr k, m')"
  shows "\<exists>n off. uint n = k \<and> uint off = offset \<and> k = (case nbytes of None \<Rightarrow> view_len v | Some j \<Rightarrow> j)
    \<and> py_writeFromCpu P b v n off m = (Return SUCCESS, m')"
proof -
  let ?k = "case nbytes of None \<Rightarrow> view_len v | Some j \<Rightarrow> j"
  have w: "with_span ?k offset (py_writeFromCpu P b v) m = (Inr (), m')" "k = ?k"
    using assms by (auto simp: iobuffer_put_def buffer_put_cpu_def Let_def dest: map_sum_Inr)
  then obtain n off where "as_unsigned ?k = Inr n" "as_unsigned offset = Inr off"
    "py_writeFromCpu P b v n off m = (Return SUCCESS, m')"
    by (auto simp: with_span_def py_status_def ensure_ok_def split: sum.splits prod.splits outcome.splits if_splits)
  then show ?thesis using w(2) by (metis as_unsigned_exact)
qed

end
