(* ===== verification/Hmc_Collective.thy ===== *)
theory Hmc_Collective
  imports Hmc_Session "HOL-Library.Sublist"
begin

text \<open>
  Groups and the all-to-all exchange of the Python package (src/hmc/collective.py).  What one rank does is
  the list of the calls it makes, computed from the group and the arguments as the code computes them; the
  ranks run their lists in any interleaving over their connection buffers, with one step per call.  A step
  that raises ends the rank.
\<close>

section \<open>Groups\<close>

text \<open>\<^verbatim>\<open>mem_type\<close> is the number of a kind of memory, and stands for it.\<close>

record GroupMember =
  gm_rank :: int
  gm_world :: int
  gm_ip :: string
  gm_port_ucx :: int
  gm_port_rdma :: int
  gm_port_ctrl :: int
  gm_mem_type :: MemoryType
  gm_device_id :: int
  gm_buffer_size :: int

definition port_for :: "GroupMember \<Rightarrow> ConnType \<Rightarrow> int" where
  "port_for m conn = (if conn = UCX then gm_port_ucx m else gm_port_rdma m)"

record Group =
  g_members :: "GroupMember list"
  g_rank :: int
  g_world :: int

definition new_Group :: "GroupMember list \<Rightarrow> int \<Rightarrow> py_exc + Group" where
  "new_Group members rank =
    (let ms = sort_key gm_rank members; world = int (length ms)
     in if world \<le> 0 then Inl ValueError
        else if \<not> (0 \<le> rank \<and> rank < world) then Inl ValueError
        else if \<not> list_all (\<lambda>(i, m). gm_rank m = int i \<and> gm_world m = world) (enumerate 0 ms) then Inl ValueError
        else Inr \<lparr> g_members = ms, g_rank = rank, g_world = world \<rparr>)"

definition peer :: "Group \<Rightarrow> int \<Rightarrow> GroupMember" where
  "peer g r = g_members g ! nat r"

definition right_of :: "Group \<Rightarrow> GroupMember" where
  "right_of g = peer g ((g_rank g + 1) mod g_world g)"

definition left_of :: "Group \<Rightarrow> GroupMember" where
  "left_of g = peer g ((g_rank g - 1 + g_world g) mod g_world g)"

text \<open>\<^verbatim>\<open>init_group\<close>: every rank contributes its member, \<open>gather\<close> is what the process group returns to this rank, and
  the servers are started after the members have been checked.  The barrier at the end has no effect here.\<close>

definition init_group ::
  "'w sockets \<Rightarrow> bool \<Rightarrow> int \<Rightarrow> int \<Rightarrow> (GroupMember \<Rightarrow> GroupMember list) \<Rightarrow> ConnBuffer \<Rightarrow> Session \<Rightarrow> string \<Rightarrow> int \<Rightarrow> int
     \<Rightarrow> int \<Rightarrow> int option \<Rightarrow> string \<Rightarrow> bool \<Rightarrow> ('e, 'w) both \<Rightarrow> ((py_exc + Group) \<times> Session \<times> ('e, 'w) both) run" where
  "init_group sk dist_ready rank world gather b S my_ip port_ucx port_rdma port_ctrl ctrl_tcp uds_dir start_servers s =
    (if \<not> dist_ready then Ret (Inl RuntimeError, S, s)
     else
       let me = \<lparr> gm_rank = rank, gm_world = world, gm_ip = my_ip, gm_port_ucx = port_ucx, gm_port_rdma = port_rdma,
                  gm_port_ctrl = port_ctrl, gm_mem_type = cb_mem_type b, gm_device_id = cb_device_id b,
                  gm_buffer_size = uint (buffer_size b) \<rparr>
       in case new_Group (gather me) rank of
            Inl x \<Rightarrow> Ret (Inl x, S, s)
          | Inr g \<Rightarrow>
              if \<not> start_servers then Ret (Inr g, S, s)
              else (case session_init_server sk (set_local_ip my_ip S) my_ip port_ucx port_rdma
                          (case ctrl_tcp of None \<Rightarrow> port_ctrl | Some p \<Rightarrow> p) rank (Some uds_dir) s of
                      Ret (r, S1, s1) \<Rightarrow> Ret (map_sum id (\<lambda>_. g) r, S1, s1)
                    | Diverge \<Rightarrow> Diverge
                    | Fault \<Rightarrow> Fault))"

text \<open>Which kind of connection two ranks use.\<close>

definition UCX_GPU :: "MemoryType set" where
  "UCX_GPU = {NVIDIA_GPU, AMD_GPU}"

definition RDMA_GPU :: "MemoryType set" where
  "RDMA_GPU = {CAMBRICON_MLU, MOORE_GPU}"

definition pick_conn :: "MemoryType \<Rightarrow> MemoryType \<Rightarrow> bool \<Rightarrow> ConnType" where
  "pick_conn a b same_node =
    (if same_node \<and> a = b \<and> a = CAMBRICON_MLU then P2P
     else if a = b then
       (if a = CPU then UCX else if a \<in> UCX_GPU then UCX else if a \<in> RDMA_GPU then RDMA else UCX)
     else if a = CPU \<or> b = CPU then
       (let other = (if a = CPU then b else a) in if other \<in> RDMA_GPU then RDMA else UCX)
     else if a \<in> UCX_GPU \<union> RDMA_GPU \<and> b \<in> UCX_GPU \<union> RDMA_GPU then RDMA
     else UCX)"

text \<open>\<open>None\<close> stands for \<^verbatim>\<open>"auto"\<close>.\<close>

definition conn_for_pair :: "Group \<Rightarrow> int \<Rightarrow> int \<Rightarrow> ConnType option \<Rightarrow> ConnType" where
  "conn_for_pair g a b conn =
    (case conn of
       Some c \<Rightarrow> c
     | None \<Rightarrow> pick_conn (gm_mem_type (peer g a)) (gm_mem_type (peer g b)) (gm_ip (peer g a) = gm_ip (peer g b)))"

section \<open>The calls of a rank\<close>

text \<open>\<open>DoBufPut\<close> and \<open>DoBufGet\<close> copy between the arrays of the caller and the connection buffer; \<open>DoConnect\<close>,
  \<open>DoPut\<close>, \<open>DoGet\<close>, \<open>DoCtrlSend\<close> and \<open>DoCtrlRecv\<close> are calls of the session; \<open>DoCtrlRecv p t\<close> is the receipt of a
  tag with the check that it is \<open>t\<close>; \<open>DoBarrier\<close> is the barrier of the process group.\<close>

datatype act =
    DoBufPut int int
  | DoBufGet int int
  | DoConnect int string int int ConnType
  | DoBarrier
  | DoCopyWithin int int int
  | DoPut string int int int int ConnType
  | DoGet string int int int int ConnType
  | DoCtrlSend int int
  | DoCtrlRecv int int
  | DoRaise py_exc

definition connect_peer :: "Group \<Rightarrow> int \<Rightarrow> ConnType \<Rightarrow> act" where
  "connect_peer g r conn =
    (let m = peer g r in DoConnect (gm_rank m) (gm_ip m) (port_for m conn) (gm_port_ctrl m) conn)"

definition copy_self_if_needed :: "Group \<Rightarrow> int \<Rightarrow> int \<Rightarrow> int \<Rightarrow> bool \<Rightarrow> act list" where
  "copy_self_if_needed g send_base recv_base bpp do_self_copy =
    (if \<not> do_self_copy \<or> bpp \<le> 0 then []
     else [DoCopyWithin (recv_base + g_rank g * bpp) (send_base + g_rank g * bpp) bpp])"

text \<open>The loop over chunks; \<open>None\<close>: it never ends, which happens for a chunk size of 0.  With a negative
  size the first call raises, because the size cannot be converted, so nothing follows it.\<close>

partial_function (option) chunked :: "(int \<Rightarrow> int \<Rightarrow> act list) \<Rightarrow> int \<Rightarrow> int \<Rightarrow> int \<Rightarrow> act list option" where
  "chunked step nbytes chunk moved =
    (if moved < nbytes
     then let n = min chunk (nbytes - moved)
          in if n < 0 then Some (step moved n)
             else Option.bind (chunked step nbytes chunk (moved + n)) (\<lambda>rest. Some (step moved n @ rest))
     else Some [])"

declare chunked.simps [code]

definition put_chunked :: "string \<Rightarrow> int \<Rightarrow> int \<Rightarrow> int \<Rightarrow> int \<Rightarrow> int \<Rightarrow> ConnType \<Rightarrow> act list option" where
  "put_chunked ip port local_off remote_off nbytes chunk conn =
    chunked (\<lambda>moved n. [DoPut ip port (local_off + moved) (remote_off + moved) n conn]) nbytes chunk 0"

definition get_chunked :: "string \<Rightarrow> int \<Rightarrow> int \<Rightarrow> int \<Rightarrow> int \<Rightarrow> int \<Rightarrow> ConnType \<Rightarrow> act list option" where
  "get_chunked ip port local_off remote_off nbytes chunk conn =
    chunked (\<lambda>moved n. [DoGet ip port (local_off + moved) (remote_off + moved) n conn]) nbytes chunk 0"

section \<open>The two algorithms\<close>

definition connect_round :: "Group \<Rightarrow> ConnType option \<Rightarrow> int \<Rightarrow> act list" where
  "connect_round g conn s =
    (let r = g_rank g; p = (r + s) mod g_world g
     in (if r < p then [connect_peer g p (conn_for_pair g r p conn)] else []) @ [DoBarrier])"

definition put_block :: "Group \<Rightarrow> int \<Rightarrow> int \<Rightarrow> int \<Rightarrow> int \<Rightarrow> ConnType option \<Rightarrow> int \<Rightarrow> act list option" where
  "put_block g send_base recv_base bpp chunk conn dst =
    (let r = g_rank g in
     if dst = r then Some []
     else let c = conn_for_pair g r dst conn
          in put_chunked (gm_ip (peer g dst)) (port_for (peer g dst) c) (send_base + dst * bpp) (recv_base + r * bpp)
               bpp chunk c)"

definition direct_alltoall_core :: "Group \<Rightarrow> int \<Rightarrow> int \<Rightarrow> int \<Rightarrow> int \<Rightarrow> bool \<Rightarrow> ConnType option \<Rightarrow> act list option" where
  "direct_alltoall_core g send_base recv_base bpp chunk do_self_copy conn =
    (let w = g_world g; copy = copy_self_if_needed g send_base recv_base bpp do_self_copy
     in if w \<le> 1 then Some copy
        else map_option (\<lambda>puts. concat (map (connect_round g conn) [1..w - 1]) @ copy @ concat puts @ [DoBarrier])
               (those (map (put_block g send_base recv_base bpp chunk conn) [0..w - 1])))"

definition ring_step :: "Group \<Rightarrow> int \<Rightarrow> int \<Rightarrow> int \<Rightarrow> int \<Rightarrow> ConnType option \<Rightarrow> int \<Rightarrow> act list option" where
  "ring_step g send_base recv_base bpp chunk conn s =
    (let r = g_rank g; w = g_world g; right = right_of g; left = left_of g;
         conn_right = conn_for_pair g r (gm_rank right) conn; conn_left = conn_for_pair g r (gm_rank left) conn;
         send_peer = (r - s + w) mod w; recv_peer = (r + s) mod w;
         send_off = send_base + send_peer * bpp; dst_off_on_right = recv_base + recv_peer * bpp;
         src_off_on_left = send_base + recv_peer * bpp; my_recv_off = recv_base + recv_peer * bpp
     in map_option (\<lambda>moves. moves @ [DoCtrlSend (gm_rank right) s, DoCtrlRecv (gm_rank left) s])
          (chunked (\<lambda>moved n.
             [DoGet (gm_ip left) (port_for left conn_left) (my_recv_off + moved) (src_off_on_left + moved) n conn_left,
              DoPut (gm_ip right) (port_for right conn_right) (send_off + moved) (dst_off_on_right + moved) n conn_right])
             bpp chunk 0))"

definition ring_alltoall_core :: "Group \<Rightarrow> int \<Rightarrow> int \<Rightarrow> int \<Rightarrow> int \<Rightarrow> bool \<Rightarrow> ConnType option \<Rightarrow> act list option" where
  "ring_alltoall_core g send_base recv_base bpp chunk do_self_copy conn =
    (let w = g_world g; copy = copy_self_if_needed g send_base recv_base bpp do_self_copy; right = gm_rank (right_of g)
     in if w \<le> 1 then Some copy
        else map_option (\<lambda>steps. [connect_peer g right (conn_for_pair g (g_rank g) right conn), DoBarrier] @ copy @ concat steps)
               (those (map (ring_step g send_base recv_base bpp chunk conn) [1..w - 1])))"

text \<open>The call: an exception before anything is done, or the list of calls, \<open>None\<close> for one without end.\<close>

definition pick_algo :: "int \<Rightarrow> string \<Rightarrow> string" where
  "pick_algo w algo = normalize_ip (py_lower (if algo = ''auto'' then if w \<le> 8 then ''direct'' else ''ring'' else algo))"

definition alltoall ::
  "Group \<Rightarrow> int \<Rightarrow> int \<Rightarrow> int \<Rightarrow> string \<Rightarrow> ConnType option \<Rightarrow> int \<Rightarrow> int option \<Rightarrow> int \<Rightarrow> bool \<Rightarrow> py_exc + act list option" where
  "alltoall g have n_send n_recv algo conn send_bias recv_bias chunk do_self_copy =
    (let w = g_world g in
     if n_send \<noteq> n_recv then Inl ValueError
     else if w \<le> 0 then Inl ValueError
     else if n_send mod w \<noteq> 0 then Inl ValueError
     else
       let total = n_send; bpp = total div w; recv_base = (case recv_bias of None \<Rightarrow> send_bias + total | Some b \<Rightarrow> b)
       in if recv_base + total > have then Inl ValueError
          else
            let a = pick_algo w algo;
                core = (if a = ''direct'' then direct_alltoall_core g send_bias recv_base bpp chunk do_self_copy conn
                        else if a = ''ring'' then ring_alltoall_core g send_bias recv_base bpp chunk do_self_copy conn
                        else Some [DoRaise ValueError])
            in Inr (map_option (\<lambda>as. DoBufPut send_bias total # as @ [DoBufGet recv_base total]) core))"

section \<open>Running the ranks together\<close>

text \<open>\<open>cbuf s r\<close>: the connection buffer of rank \<open>r\<close> by offset; \<open>usend s r\<close> and \<open>urecv s r\<close>: the arrays of its
  caller; \<open>todo s r\<close>: the calls it has left; \<open>mail s a b\<close>: the tags sent from \<open>a\<close> to \<open>b\<close> and not yet received.\<close>

record coll_state =
  cbuf :: "int \<Rightarrow> int \<Rightarrow> u8"
  usend :: "int \<Rightarrow> int \<Rightarrow> u8"
  urecv :: "int \<Rightarrow> int \<Rightarrow> u8"
  todo :: "int \<Rightarrow> act list"
  mail :: "int \<Rightarrow> int \<Rightarrow> int list"
  raised :: "int set"

text \<open>The rank a connection leads to: connections are kept under the address and port of the peer.\<close>

definition member_at :: "GroupMember list \<Rightarrow> string \<Rightarrow> int \<Rightarrow> ConnType \<Rightarrow> int option" where
  "member_at ms ip port conn = map_option gm_rank (find (\<lambda>m. gm_ip m = ip \<and> port_for m conn = port) ms)"

definition move :: "int \<Rightarrow> int \<Rightarrow> int \<Rightarrow> int \<Rightarrow> int \<Rightarrow> (int \<Rightarrow> int \<Rightarrow> u8) \<Rightarrow> int \<Rightarrow> int \<Rightarrow> u8" where
  "move src so dst d n b = (\<lambda>p x. if p = dst \<and> d \<le> x \<and> x < d + n then b src (so + (x - d)) else b p x)"

text \<open>A call that succeeds; \<open>None\<close>: it waits or raises.\<close>

fun do_act :: "GroupMember list \<Rightarrow> int \<Rightarrow> act \<Rightarrow> coll_state \<Rightarrow> coll_state option" where
  "do_act ms r (DoBufPut off n) s =
    (if 0 \<le> off \<and> 0 \<le> n
     then Some (s\<lparr> cbuf := (\<lambda>p x. if p = r \<and> off \<le> x \<and> x < off + n then usend s r (x - off) else cbuf s p x) \<rparr>)
     else None)"
| "do_act ms r (DoBufGet off n) s =
    (if 0 \<le> off \<and> 0 \<le> n
     then Some (s\<lparr> urecv := (\<lambda>p x. if p = r \<and> 0 \<le> x \<and> x < n then cbuf s r (off + x) else urecv s p x) \<rparr>)
     else None)"
| "do_act ms r (DoConnect p ip port cport conn) s = Some s"
| "do_act ms r DoBarrier s = None"
| "do_act ms r (DoCopyWithin d so n) s =
    (if 0 \<le> d \<and> 0 \<le> so \<and> 0 \<le> n then Some (s\<lparr> cbuf := move r so r d n (cbuf s) \<rparr>) else None)"
| "do_act ms r (DoPut ip port lo ro n conn) s =
    (if 0 \<le> lo \<and> 0 \<le> ro \<and> 0 \<le> n
     then map_option (\<lambda>p. s\<lparr> cbuf := move r lo p ro n (cbuf s) \<rparr>) (member_at ms ip port conn) else None)"
| "do_act ms r (DoGet ip port lo ro n conn) s =
    (if 0 \<le> lo \<and> 0 \<le> ro \<and> 0 \<le> n
     then map_option (\<lambda>p. s\<lparr> cbuf := move p ro r lo n (cbuf s) \<rparr>) (member_at ms ip port conn) else None)"
| "do_act ms r (DoCtrlSend p t) s = Some (s\<lparr> mail := (mail s)(r := (mail s r)(p := mail s r p @ [t])) \<rparr>)"
| "do_act ms r (DoCtrlRecv p t) s =
    (case mail s p r of
       [] \<Rightarrow> None
     | x # xs \<Rightarrow> if x = t then Some (s\<lparr> mail := (mail s)(p := (mail s p)(r := xs)) \<rparr>) else None)"
| "do_act ms r (DoRaise e) s = None"

definition ranks :: "GroupMember list \<Rightarrow> int set" where
  "ranks ms = {0..<int (length ms)}"

inductive coll_step :: "GroupMember list \<Rightarrow> coll_state \<Rightarrow> coll_state \<Rightarrow> bool" for ms where
  call: "r \<in> ranks ms \<Longrightarrow> todo s r = a # rest \<Longrightarrow> do_act ms r a s = Some s' \<Longrightarrow>
    coll_step ms s (s'\<lparr> todo := (todo s)(r := rest) \<rparr>)"
| barrier: "\<forall>r \<in> ranks ms. todo s r \<noteq> [] \<and> hd (todo s r) = DoBarrier \<Longrightarrow>
    coll_step ms s (s\<lparr> todo := (\<lambda>r. if r \<in> ranks ms then tl (todo s r) else todo s r) \<rparr>)"
| fails: "r \<in> ranks ms \<Longrightarrow> todo s r = a # rest \<Longrightarrow> a \<noteq> DoBarrier \<Longrightarrow>
    coll_step ms s (s\<lparr> todo := (todo s)(r := []), raised := insert r (raised s) \<rparr>)"

section \<open>Groups and addresses\<close>

lemma new_Group_facts:
  assumes "new_Group ms r = Inr g"
  shows "g_rank g = r" "g_world g = int (length ms)" "r \<in> ranks ms"
    and "i \<in> ranks ms \<Longrightarrow> gm_rank (peer g i) = i \<and> peer g i \<in> set ms"
proof -
  let ?L = "sort_key gm_rank ms"
  have g: "g = \<lparr> g_members = ?L, g_rank = r, g_world = int (length ms) \<rparr>"
    and r: "0 \<le> r" "r < int (length ms)"
    and chk: "list_all (\<lambda>(i, m). gm_rank m = int i \<and> gm_world m = int (length ms)) (enumerate 0 ?L)"
    using assms by (auto simp: new_Group_def Let_def split: if_splits)
  show "g_rank g = r" "g_world g = int (length ms)" "r \<in> ranks ms" using g r by (simp_all add: ranks_def)
  assume i: "i \<in> ranks ms"
  then have n: "nat i < length ?L" by (auto simp: ranks_def)
  have "enumerate 0 ?L ! nat i = (nat i, ?L ! nat i)" using n by (simp add: nth_enumerate_eq)
  then have "gm_rank (?L ! nat i) = int (nat i)"
    using chk n by (auto simp: list_all_length dest!: spec [of _ "nat i"])
  moreover have "?L ! nat i \<in> set ms" using nth_mem [OF n] by simp
  ultimately show "gm_rank (peer g i) = i \<and> peer g i \<in> set ms" using i g by (simp add: peer_def ranks_def)
qed

text \<open>No two members share an address and a port.\<close>

definition distinct_addresses :: "GroupMember list \<Rightarrow> bool" where
  "distinct_addresses ms \<longleftrightarrow>
    (\<forall>a \<in> set ms. \<forall>b \<in> set ms. \<forall>c. gm_ip a = gm_ip b \<and> port_for a c = port_for b c \<longrightarrow> a = b)"

lemma member_at_member:
  assumes "distinct_addresses ms" and "m \<in> set ms"
  shows "member_at ms (gm_ip m) (port_for m c) c = Some (gm_rank m)"
proof -
  let ?P = "\<lambda>x. gm_ip x = gm_ip m \<and> port_for x c = port_for m c"
  obtain y where y: "find ?P ms = Some y" using assms(2) by (cases "find ?P ms") (auto simp: find_None_iff)
  then have "y \<in> set ms" "?P y" by (auto simp: find_Some_iff)
  then have "y = m" using assms unfolding distinct_addresses_def by blast
  with y show ?thesis by (simp add: member_at_def)
qed

section \<open>Chunks\<close>

lemma chunked_total:
  assumes "0 < chunk"
  shows "\<exists>as. chunked f n chunk m = Some as
    \<and> (\<forall>x \<in> set as. \<exists>i k. m \<le> i \<and> 0 < k \<and> i + k \<le> n \<and> x \<in> set (f i k))
    \<and> (\<forall>j. m \<le> j \<and> j < n \<longrightarrow> (\<exists>i k. m \<le> i \<and> i \<le> j \<and> j < i + k \<and> i + k \<le> n \<and> set (f i k) \<subseteq> set as))"
proof (induction "nat (n - m)" arbitrary: m rule: less_induct)
  case less
  let ?k = "min chunk (n - m)"
  show ?case
  proof (cases "m < n")
    case False
    then show ?thesis by (subst chunked.simps) auto
  next
    case True
    then have k: "0 < ?k" "m + ?k \<le> n" using assms by auto
    then have "nat (n - (m + ?k)) < nat (n - m)" by auto
    from less [OF this] obtain as where as: "chunked f n chunk (m + ?k) = Some as"
      and each: "\<And>x. x \<in> set as \<Longrightarrow> \<exists>i k. m + ?k \<le> i \<and> 0 < k \<and> i + k \<le> n \<and> x \<in> set (f i k)"
      and cover: "\<And>j. m + ?k \<le> j \<Longrightarrow> j < n \<Longrightarrow>
        \<exists>i k. m + ?k \<le> i \<and> i \<le> j \<and> j < i + k \<and> i + k \<le> n \<and> set (f i k) \<subseteq> set as"
      by blast
    have run: "chunked f n chunk m = Some (f m ?k @ as)"
    proof -
      have "\<not> ?k < 0" using k(1) by (simp only: not_less less_imp_le)
      then show ?thesis using as by (subst chunked.simps) (simp only: Let_def True if_True if_False Option.bind.simps)
    qed
    have "\<exists>i k. m \<le> i \<and> 0 < k \<and> i + k \<le> n \<and> x \<in> set (f i k)" if "x \<in> set (f m ?k @ as)" for x
    proof (cases "x \<in> set as")
      case True
      from each [OF this] obtain i k where "m + ?k \<le> i" "0 < k" "i + k \<le> n" "x \<in> set (f i k)" by blast
      with k(1) show ?thesis by (intro exI [of _ i] exI [of _ k]) linarith
    next
      case False
      with that have "x \<in> set (f m ?k)" by simp
      with k show ?thesis by (intro exI [of _ m] exI [of _ ?k]) simp
    qed
    moreover have "\<exists>i k. m \<le> i \<and> i \<le> j \<and> j < i + k \<and> i + k \<le> n \<and> set (f i k) \<subseteq> set (f m ?k @ as)"
      if j: "m \<le> j" "j < n" for j
    proof (cases "j < m + ?k")
      case True
      with j k show ?thesis by (intro exI [of _ m] exI [of _ ?k]) simp
    next
      case False
      then have "m + ?k \<le> j" by (simp only: not_less)
      from cover [OF this j(2)] obtain i k where "m + ?k \<le> i" "i \<le> j" "j < i + k" "i + k \<le> n" "set (f i k) \<subseteq> set as" by blast
      moreover from this(1) k(1) have "m \<le> i" by linarith
      ultimately show ?thesis by (intro exI [of _ i] exI [of _ k]) auto
    qed
    ultimately show ?thesis using run by blast
  qed
qed

section \<open>What the calls of an exchange do\<close>

text \<open>Entry \<open>k\<close> of the array rank \<open>p\<close> should receive: block \<open>p\<close> of the rank whose number is that of the block.\<close>

definition wanted :: "int \<Rightarrow> (int \<Rightarrow> int \<Rightarrow> u8) \<Rightarrow> int \<Rightarrow> int \<Rightarrow> u8" where
  "wanted bpp U p k = U (k div bpp) (p * bpp + k mod bpp)"

text \<open>Where a call of rank \<open>r\<close> writes, and from which offset of its own buffer.\<close>

fun writes :: "GroupMember list \<Rightarrow> int \<Rightarrow> act \<Rightarrow> (int \<times> int \<times> int \<times> int) option" where
  "writes ms r (DoCopyWithin d so n) = Some (r, d, so, n)"
| "writes ms r (DoPut ip port lo ro n c) = map_option (\<lambda>p. (p, ro, lo, n)) (member_at ms ip port c)"
| "writes ms r _ = None"

text \<open>The regions of an exchange: its send and its receive region do not overlap.\<close>

record regions =
  send_at :: int
  recv_at :: int
  extent :: int
  block :: int

definition regions_ok :: "regions \<Rightarrow> bool" where
  "regions_ok R \<longleftrightarrow> 0 \<le> send_at R \<and> 0 \<le> recv_at R \<and> 0 \<le> extent R
    \<and> (send_at R + extent R \<le> recv_at R \<or> recv_at R + extent R \<le> send_at R)"

text \<open>A call that puts bytes where they belong: those of the sending rank into its block of the receiver.\<close>

definition lands :: "GroupMember list \<Rightarrow> regions \<Rightarrow> int \<Rightarrow> act \<Rightarrow> bool" where
  "lands ms R r x \<longleftrightarrow> (\<exists>p d so n. writes ms r x = Some (p, d, so, n) \<and> p \<in> ranks ms \<and> 0 < n
    \<and> send_at R \<le> so \<and> so + n \<le> send_at R + extent R \<and> recv_at R \<le> d \<and> d + n \<le> recv_at R + extent R
    \<and> (\<forall>i. 0 \<le> i \<and> i < n \<longrightarrow> (d + i - recv_at R) div block R = r
          \<and> p * block R + (d + i - recv_at R) mod block R = so + i - send_at R))"

definition idle :: "act \<Rightarrow> bool" where
  "idle x \<longleftrightarrow> x = DoBarrier \<or> (\<exists>p ip port cport c. x = DoConnect p ip port cport c)"

abbreviation load :: "regions \<Rightarrow> act" where
  "load R \<equiv> DoBufPut (send_at R) (extent R)"

abbreviation unload :: "regions \<Rightarrow> act" where
  "unload R \<equiv> DoBufGet (recv_at R) (extent R)"

definition loaded :: "regions \<Rightarrow> (int \<Rightarrow> int \<Rightarrow> u8) \<Rightarrow> (int \<Rightarrow> int \<Rightarrow> u8) \<Rightarrow> int \<Rightarrow> bool" where
  "loaded R U b r \<longleftrightarrow> (\<forall>x. 0 \<le> x \<and> x < extent R \<longrightarrow> b r (send_at R + x) = U r x)"

definition good :: "regions \<Rightarrow> (int \<Rightarrow> int \<Rightarrow> u8) \<Rightarrow> (int \<Rightarrow> int \<Rightarrow> u8) \<Rightarrow> int \<Rightarrow> int \<Rightarrow> bool" where
  "good R U b p x \<longleftrightarrow> b p (recv_at R + x) = wanted (block R) U p x"

lemma do_act_writes:
  assumes "do_act ms r x s = Some s'" and "writes ms r x = Some (p, d, so, n)"
  shows "s' = s\<lparr> cbuf := move r so p d n (cbuf s) \<rparr>"
  using assms by (cases x) (auto split: if_splits)

text \<open>Landing calls keep the send regions and the bytes that are right, and make right what they write.\<close>

lemma lands_effect:
  assumes "lands ms R r x" and "do_act ms r x s = Some s'" and "regions_ok R" and "loaded R U (cbuf s) r"
  shows "s' = s\<lparr> cbuf := cbuf s' \<rparr>" and "loaded R U (cbuf s) q \<Longrightarrow> loaded R U (cbuf s') q"
    and "good R U (cbuf s) q i \<Longrightarrow> good R U (cbuf s') q i"
    and "writes ms r x = Some (p, d, so, n) \<Longrightarrow> d \<le> recv_at R + i \<Longrightarrow> recv_at R + i < d + n \<Longrightarrow> good R U (cbuf s') p i"
proof -
  obtain p' d' so' n' where w: "writes ms r x = Some (p', d', so', n')"
    and rg: "send_at R \<le> so'" "so' + n' \<le> send_at R + extent R" "recv_at R \<le> d'" "d' + n' \<le> recv_at R + extent R"
    and val: "\<And>i. 0 \<le> i \<Longrightarrow> i < n' \<Longrightarrow> (d' + i - recv_at R) div block R = r
          \<and> p' * block R + (d' + i - recv_at R) mod block R = so' + i - send_at R"
    using assms(1) unfolding lands_def by blast
  have s': "s' = s\<lparr> cbuf := move r so' p' d' n' (cbuf s) \<rparr>" by (rule do_act_writes [OF assms(2) w])
  then show "s' = s\<lparr> cbuf := cbuf s' \<rparr>" by simp
  have new: "good R U (cbuf s') p' i" if i: "d' \<le> recv_at R + i" "recv_at R + i < d' + n'" for i
  proof -
    let ?j = "recv_at R + i - d'"
    have j: "0 \<le> ?j" "?j < n'" "d' + ?j - recv_at R = i" using i by auto
    have "0 \<le> so' + ?j - send_at R" "so' + ?j - send_at R < extent R" using rg j by auto
    then have "cbuf s r (so' + ?j) = U r (so' + ?j - send_at R)"
      using assms(4) unfolding loaded_def by (metis add.commute diff_add_cancel)
    moreover have "wanted (block R) U p' i = U r (so' + ?j - send_at R)"
      using val [OF j(1,2)] unfolding j(3) wanted_def by simp
    ultimately show ?thesis using i unfolding s' good_def by (simp add: move_def)
  qed
  show "loaded R U (cbuf s') q" if "loaded R U (cbuf s) q"
    using that rg assms(3) unfolding s' loaded_def regions_ok_def by (auto simp: move_def)
  show "good R U (cbuf s') q i" if g: "good R U (cbuf s) q i"
  proof (cases "q = p' \<and> d' \<le> recv_at R + i \<and> recv_at R + i < d' + n'")
    case True
    then show ?thesis using new by blast
  next
    case False
    then show ?thesis using g unfolding s' good_def by (auto simp: move_def)
  qed
  show "good R U (cbuf s') p i"
    if "writes ms r x = Some (p, d, so, n)" "d \<le> recv_at R + i" "recv_at R + i < d + n"
    using that w new by simp
qed

lemma load_effect:
  assumes "do_act ms r (load R) s = Some s'" and "regions_ok R"
  shows "s' = s\<lparr> cbuf := cbuf s' \<rparr>" and "loaded R (usend s) (cbuf s') r"
    and "loaded R U (cbuf s) q \<Longrightarrow> q \<noteq> r \<Longrightarrow> loaded R U (cbuf s') q"
    and "0 \<le> i \<Longrightarrow> i < extent R \<Longrightarrow> good R U (cbuf s) q i \<Longrightarrow> good R U (cbuf s') q i"
  using assms by (auto simp: loaded_def good_def regions_ok_def split: if_splits)

section \<open>Exchanges in any interleaving\<close>

definition closing :: "GroupMember list \<Rightarrow> regions \<Rightarrow> act list" where
  "closing ms R = (if length ms \<le> 1 then [] else [DoBarrier]) @ [unload R]"

text \<open>What makes the calls of the ranks an exchange: each rank loads its buffer, lands bytes and meets the
  others, as often as they do, before it unloads; and every wanted byte is landed by some rank.\<close>

definition exchanges :: "GroupMember list \<Rightarrow> regions \<Rightarrow> (int \<Rightarrow> act list) \<Rightarrow> (int \<Rightarrow> act list) \<Rightarrow> bool" where
  "exchanges ms R script mid \<longleftrightarrow> regions_ok R
    \<and> (\<forall>r \<in> ranks ms. script r = load R # mid r @ closing ms R
        \<and> (\<forall>x \<in> set (mid r). idle x \<or> lands ms R r x) \<and> count_list (mid r) DoBarrier = length ms - 1)
    \<and> (\<forall>p \<in> ranks ms. \<forall>k. 0 \<le> k \<and> k < extent R \<longrightarrow> (\<exists>r \<in> ranks ms. \<exists>x \<in> set (mid r). \<exists>d so n.
          writes ms r x = Some (p, d, so, n) \<and> d \<le> recv_at R + k \<and> recv_at R + k < d + n))"

definition rank_inv ::
  "GroupMember list \<Rightarrow> regions \<Rightarrow> (int \<Rightarrow> int \<Rightarrow> u8) \<Rightarrow> (int \<Rightarrow> act list) \<Rightarrow> (int \<Rightarrow> act list) \<Rightarrow> coll_state \<Rightarrow> int \<Rightarrow> bool" where
  "rank_inv ms R U script mid s r \<longleftrightarrow> suffix (todo s r) (script r)
    \<and> (load R \<notin> set (todo s r) \<longrightarrow> loaded R U (cbuf s) r)
    \<and> (\<forall>x \<in> set (mid r). x \<notin> set (todo s r) \<longrightarrow> (\<forall>p d so n i. writes ms r x = Some (p, d, so, n) \<longrightarrow>
          0 \<le> i \<longrightarrow> i < extent R \<longrightarrow> d \<le> recv_at R + i \<longrightarrow> recv_at R + i < d + n \<longrightarrow> good R U (cbuf s) p i))
    \<and> (unload R \<notin> set (todo s r) \<longrightarrow> (\<forall>k. 0 \<le> k \<longrightarrow> k < extent R \<longrightarrow> urecv s r k = wanted (block R) U r k))"

definition coll_inv ::
  "GroupMember list \<Rightarrow> regions \<Rightarrow> (int \<Rightarrow> int \<Rightarrow> u8) \<Rightarrow> (int \<Rightarrow> act list) \<Rightarrow> (int \<Rightarrow> act list) \<Rightarrow> coll_state \<Rightarrow> bool" where
  "coll_inv ms R U script mid s \<longleftrightarrow> usend s = U \<and> (\<exists>b. \<forall>r \<in> ranks ms. count_list (todo s r) DoBarrier = b)
    \<and> (\<forall>r \<in> ranks ms. rank_inv ms R U script mid s r)"

lemma mid_other:
  assumes "idle x \<or> lands ms R r x"
  shows "x \<noteq> load R" "x \<noteq> unload R"
  using assms by (auto simp: idle_def lands_def)

lemma suffix_tail:
  assumes "suffix ys (A @ z # B)" and "z \<notin> set ys"
  shows "suffix ys B"
  using assms by (auto simp: suffix_append suffix_Cons)

lemma suffix_head:
  assumes "suffix (y # ys) (A @ [y])" and "y \<notin> set A"
  shows "ys = []"
proof -
  from assms(1) obtain zs where "y # ys = zs @ [y]" "suffix zs A \<or> zs = []" by (auto simp: suffix_append suffix_Cons)
  then show ?thesis using assms(2) by (cases zs) (auto dest: set_mono_suffix)
qed

lemma exchange_todo:
  assumes "exchanges ms R script mid" and "r \<in> ranks ms" and "suffix (a # rest) (script r)"
  shows "a = load R \<or> a \<in> set (mid r) \<and> load R \<notin> set (a # rest) \<or> a = DoBarrier \<or> a = unload R \<and> rest = []"
proof -
  have sc: "script r = load R # mid r @ closing ms R" and m: "\<And>x. x \<in> set (mid r) \<Longrightarrow> idle x \<or> lands ms R r x"
    using assms(1,2) by (simp_all add: exchanges_def)
  have other: "load R \<notin> set (mid r)" "unload R \<notin> set (mid r)" using m mid_other by blast+
  have "a \<in> set (script r)" using assms(3) set_mono_suffix by fastforce
  moreover have "load R \<notin> set (a # rest)" if "a \<noteq> load R"
  proof -
    have "suffix (a # rest) (mid r @ closing ms R)" using assms(3) that by (simp add: sc suffix_Cons)
    from set_mono_suffix [OF this] show ?thesis using other by (auto simp: closing_def split: if_splits)
  qed
  moreover have "rest = []" if "a = unload R"
    using suffix_head [of a rest "load R # mid r @ butlast (closing ms R)"] assms(3) other
    by (simp add: sc closing_def that)
  ultimately show ?thesis by (auto simp: sc closing_def split: if_splits)
qed

text \<open>When a rank has only its last copy left, no rank has bytes left to land.\<close>

lemma exchange_done:
  assumes ex: "exchanges ms R script mid" and inv: "coll_inv ms R U script mid s"
    and r: "r \<in> ranks ms" "todo s r = unload R # rest" and q: "q \<in> ranks ms" "x \<in> set (mid q)" "writes ms q x \<noteq> None"
  shows "x \<notin> set (todo s q)"
proof -
  have sc: "script q = load R # mid q @ closing ms R" using ex q(1) by (simp add: exchanges_def)
  have suf: "\<And>q. q \<in> ranks ms \<Longrightarrow> suffix (todo s q) (script q)" using inv by (simp add: coll_inv_def rank_inv_def)
  have rest: "rest = []"
    using exchange_todo [OF ex r(1) suf [OF r(1), unfolded r(2)]] ex r(1) mid_other(2) [of "unload R" ms R r]
    by (auto simp: exchanges_def)
  have x: "x \<noteq> DoBarrier" "x \<noteq> unload R" using q(3) by auto
  show ?thesis
  proof (cases "length ms \<le> 1")
    case True
    then have "q = r" using q(1) r(1) by (auto simp: ranks_def)
    then show ?thesis using r(2) rest x by simp
  next
    case False
    have "count_list (todo s q) DoBarrier = count_list (todo s r) DoBarrier"
      using inv q(1) r(1) unfolding coll_inv_def by metis
    then have "DoBarrier \<notin> set (todo s q)" using r(2) rest by (simp add: count_list_0_iff)
    from suffix_tail [OF _ this, of "load R # mid q" "[unload R]"] suf [OF q(1)]
    have "suffix (todo s q) [unload R]" using False by (simp add: sc closing_def)
    then show ?thesis using x set_mono_suffix by fastforce
  qed
qed

text \<open>How the invariant of a rank survives a call of another rank, and a call of its own.\<close>

lemma rank_inv_other:
  assumes "rank_inv ms R U script mid s q" and "todo s' q = todo s q" and "urecv s' q = urecv s q"
    and "loaded R U (cbuf s) q \<Longrightarrow> loaded R U (cbuf s') q"
    and "\<And>p i. 0 \<le> i \<Longrightarrow> i < extent R \<Longrightarrow> good R U (cbuf s) p i \<Longrightarrow> good R U (cbuf s') p i"
  shows "rank_inv ms R U script mid s' q"
  using assms(1) unfolding rank_inv_def assms(2,3) using assms(4,5) by blast

lemma rank_inv_own:
  assumes inv: "rank_inv ms R U script mid s r" and t: "todo s r = a # rest" "todo s' r = rest"
    and load: "a \<noteq> load R \<Longrightarrow> loaded R U (cbuf s) r \<Longrightarrow> loaded R U (cbuf s') r" "a = load R \<Longrightarrow> loaded R U (cbuf s') r"
    and keep: "\<And>p i. 0 \<le> i \<Longrightarrow> i < extent R \<Longrightarrow> good R U (cbuf s) p i \<Longrightarrow> good R U (cbuf s') p i"
    and new: "\<And>p d so n i. a \<in> set (mid r) \<Longrightarrow> writes ms r a = Some (p, d, so, n) \<Longrightarrow> 0 \<le> i \<Longrightarrow> i < extent R \<Longrightarrow>
      d \<le> recv_at R + i \<Longrightarrow> recv_at R + i < d + n \<Longrightarrow> good R U (cbuf s') p i"
    and recv: "a \<noteq> unload R \<Longrightarrow> urecv s' r = urecv s r"
      "\<And>k. a = unload R \<Longrightarrow> 0 \<le> k \<Longrightarrow> k < extent R \<Longrightarrow> urecv s' r k = wanted (block R) U r k"
  shows "rank_inv ms R U script mid s' r"
proof -
  have "suffix rest (script r)" using inv unfolding rank_inv_def t(1) by (metis suffix_ConsD)
  moreover have "loaded R U (cbuf s') r" if "load R \<notin> set rest"
    using that inv load unfolding rank_inv_def t(1) by (cases "a = load R") auto
  moreover have "good R U (cbuf s') p i"
    if x: "x \<in> set (mid r)" "x \<notin> set rest" and w: "writes ms r x = Some (p, d, so, n)"
      and i: "0 \<le> i" "i < extent R" "d \<le> recv_at R + i" "recv_at R + i < d + n" for x p d so n i
  proof (cases "x = a")
    case True
    then show ?thesis using new x(1) w i by blast
  next
    case False
    then have "x \<notin> set (todo s r)" using x(2) t(1) by simp
    then have "good R U (cbuf s) p i" using inv x(1) w i unfolding rank_inv_def by metis
    then show ?thesis using keep i by blast
  qed
  moreover have "urecv s' r k = wanted (block R) U r k" if "unload R \<notin> set rest" "0 \<le> k" "k < extent R" for k
    using that inv recv unfolding rank_inv_def t(1) by (cases "a = unload R") auto
  ultimately show ?thesis unfolding rank_inv_def t(2) by blast
qed

lemma coll_inv_call:
  assumes ex: "exchanges ms R script mid" and inv: "coll_inv ms R U script mid s"
    and r: "r \<in> ranks ms" and t: "todo s r = a # rest" and act: "do_act ms r a s = Some s1"
  shows "coll_inv ms R U script mid (s1\<lparr> todo := (todo s)(r := rest) \<rparr>)" (is "coll_inv ms R U script mid ?s'")
proof -
  have ok: "regions_ok R" using ex by (simp add: exchanges_def)
  have U: "usend s = U" and ri: "\<And>q. q \<in> ranks ms \<Longrightarrow> rank_inv ms R U script mid s q" using inv by (simp_all add: coll_inv_def)
  have nb: "a \<noteq> DoBarrier" using act by auto
  have suf: "suffix (a # rest) (script r)" using ri [OF r] t by (simp add: rank_inv_def)
  obtain b where b: "\<And>q. q \<in> ranks ms \<Longrightarrow> count_list (todo s q) DoBarrier = b" using inv by (auto simp: coll_inv_def)
  have cnt: "count_list (todo ?s' q) DoBarrier = b" if "q \<in> ranks ms" for q using b [OF that] b [OF r] t nb by auto
  have all: "coll_inv ms R U script mid ?s'"
    if "usend s1 = U" "rank_inv ms R U script mid ?s' r" "\<And>q. q \<in> ranks ms \<Longrightarrow> q \<noteq> r \<Longrightarrow> rank_inv ms R U script mid ?s' q"
    using that cnt unfolding coll_inv_def by (metis coll_state.select_convs(2) coll_state.simps(2) coll_state.surjective coll_state.update_convs(4))
  consider (l) "a = load R" | (m) "a \<in> set (mid r)" "load R \<notin> set (a # rest)" | (u) "a = unload R"
    using exchange_todo [OF ex r suf] nb by blast
  then show ?thesis
  proof cases
    case l
    note e = load_effect [OF act [unfolded l] ok]
    have same: "urecv s1 = urecv s" "usend s1 = usend s" by (subst e(1), simp)+
    show ?thesis
    proof (rule all)
      show "rank_inv ms R U script mid ?s' r"
        by (rule rank_inv_own [OF ri [OF r] t]) (use l e(2,4) U same in \<open>auto\<close>)
      show "rank_inv ms R U script mid ?s' q" if "q \<in> ranks ms" "q \<noteq> r" for q
        by (rule rank_inv_other [OF ri [OF that(1)]]) (use e(3,4) that same in auto)
    qed (simp add: same U)
  next
    case m
    then have il: "idle a \<or> lands ms R r a" using ex r by (auto simp: exchanges_def)
    have ld: "loaded R U (cbuf s) r" using ri [OF r] m(2) t by (simp add: rank_inv_def)
    show ?thesis
    proof (cases "lands ms R r a")
      case True
      note e = lands_effect [OF True act ok ld]
      have same: "urecv s1 = urecv s" "usend s1 = usend s" by (subst e(1), simp)+
      show ?thesis
      proof (rule all)
        show "rank_inv ms R U script mid ?s' r"
          by (rule rank_inv_own [OF ri [OF r] t]) (use e(2,3,4) m(2) il mid_other(2) same in auto)
        show "rank_inv ms R U script mid ?s' q" if "q \<in> ranks ms" "q \<noteq> r" for q
          by (rule rank_inv_other [OF ri [OF that(1)]]) (use e(2,3) that same in auto)
      qed (simp add: same U)
    next
      case False
      then obtain p ip port cport c where a: "a = DoConnect p ip port cport c" using il nb by (auto simp: idle_def)
      then have s1: "s1 = s" using act by simp
      show ?thesis unfolding s1
      proof (rule all [unfolded s1])
        show "rank_inv ms R U script mid (s\<lparr>todo := (todo s)(r := rest)\<rparr>) r"
          by (rule rank_inv_own [OF ri [OF r] t]) (use a in auto)
        show "rank_inv ms R U script mid (s\<lparr>todo := (todo s)(r := rest)\<rparr>) q" if "q \<in> ranks ms" "q \<noteq> r" for q
          by (rule rank_inv_other [OF ri [OF that(1)]]) (use that in auto)
      qed (rule U)
    qed
  next
    case u
    have s1: "s1 = s\<lparr> urecv := (\<lambda>p x. if p = r \<and> 0 \<le> x \<and> x < extent R then cbuf s r (recv_at R + x) else urecv s p x) \<rparr>"
      using act u by (simp split: if_splits)
    have gd: "good R U (cbuf s) r k" if k: "0 \<le> k" "k < extent R" for k
    proof -
      obtain q x d so n where q: "q \<in> ranks ms" "x \<in> set (mid q)" "writes ms q x = Some (r, d, so, n)"
        "d \<le> recv_at R + k" "recv_at R + k < d + n"
        using ex r k unfolding exchanges_def by meson
      then have "x \<notin> set (todo s q)" using exchange_done [OF ex inv r t [unfolded u] q(1,2)] by simp
      then show ?thesis using ri [OF q(1)] q k unfolding rank_inv_def by metis
    qed
    show ?thesis
    proof (rule all)
      show "rank_inv ms R U script mid ?s' r"
        by (rule rank_inv_own [OF ri [OF r] t]) (use u s1 gd ex r mid_other(2) in \<open>auto simp: good_def exchanges_def\<close>)
      show "rank_inv ms R U script mid ?s' q" if "q \<in> ranks ms" "q \<noteq> r" for q
        by (rule rank_inv_other [OF ri [OF that(1)]]) (use that s1 in auto)
    qed (simp add: s1 U)
  qed
qed

lemma coll_inv_step:
  assumes ex: "exchanges ms R script mid" and inv: "coll_inv ms R U script mid s"
    and step: "coll_step ms s s'" and ok: "raised s' = {}"
  shows "coll_inv ms R U script mid s'"
  using step
proof cases
  case (call r a rest s1)
  then show ?thesis using coll_inv_call [OF ex inv] by simp
next
  case barrier
  have hd: "\<exists>rest. todo s r = DoBarrier # rest" if "r \<in> ranks ms" for r
    using barrier(2) that by (metis list.collapse)
  have "\<exists>b. \<forall>r \<in> ranks ms. count_list (todo s' r) DoBarrier = b"
  proof -
    obtain b where b: "\<forall>r \<in> ranks ms. count_list (todo s r) DoBarrier = b" using inv by (auto simp: coll_inv_def)
    have "count_list (todo s' r) DoBarrier = b - 1" if "r \<in> ranks ms" for r
      using b hd [OF that] that barrier(1) by force
    then show ?thesis by blast
  qed
  moreover have "rank_inv ms R U script mid s' r" if r: "r \<in> ranks ms" for r
  proof -
    obtain rest where t: "todo s r = DoBarrier # rest" using hd [OF r] by blast
    have "rank_inv ms R U script mid s r" using inv r by (simp add: coll_inv_def)
    then show ?thesis by (rule rank_inv_own [OF _ t]) (use r t barrier(1) in auto)
  qed
  ultimately show ?thesis using inv barrier(1) by (simp add: coll_inv_def)
next
  case (fails r a rest)
  then show ?thesis using ok by auto
qed

lemma do_act_raised: "do_act ms r a s = Some s' \<Longrightarrow> raised s' = raised s"
  by (cases a) (auto split: if_splits list.splits)

lemma coll_step_raised: "coll_step ms s s' \<Longrightarrow> raised s \<subseteq> raised s'"
  by (induction rule: coll_step.induct) (auto dest: do_act_raised)

lemma coll_steps_raised: "(coll_step ms)\<^sup>*\<^sup>* s s' \<Longrightarrow> raised s \<subseteq> raised s'"
  by (induction rule: rtranclp_induct) (auto dest: coll_step_raised)

lemma coll_inv_start:
  assumes "exchanges ms R script mid" and "\<forall>r \<in> ranks ms. todo s r = script r"
  shows "coll_inv ms R (usend s) script mid s"
proof -
  have "count_list (todo s r) DoBarrier = length ms - 1 + (if length ms \<le> 1 then 0 else 1)" if "r \<in> ranks ms" for r
    using assms that by (simp add: exchanges_def closing_def)
  then have "\<exists>b. \<forall>r \<in> ranks ms. count_list (todo s r) DoBarrier = b" by blast
  moreover have "rank_inv ms R (usend s) script mid s r" if "r \<in> ranks ms" for r
    using assms that by (auto simp: rank_inv_def exchanges_def closing_def)
  ultimately show ?thesis by (simp add: coll_inv_def)
qed

lemma coll_inv_steps:
  assumes "exchanges ms R script mid" and "(coll_step ms)\<^sup>*\<^sup>* s0 s" and "coll_inv ms R U script mid s0" and "raised s = {}"
  shows "coll_inv ms R U script mid s"
  using assms(2,4)
proof (induction rule: rtranclp_induct)
  case base
  then show ?case using assms(3) by simp
next
  case (step y z)
  then have "raised y = {}" using coll_step_raised by blast
  then show ?case using coll_inv_step [OF assms(1)] step by blast
qed

text \<open>An exchange that has ended has delivered every block.\<close>

lemma exchange_delivers:
  assumes "exchanges ms R script mid" and "coll_inv ms R U script mid s" and "r \<in> ranks ms" and "todo s r = []"
    and "0 \<le> k" and "k < extent R"
  shows "urecv s r k = wanted (block R) U r k"
  using assms unfolding coll_inv_def rank_inv_def by (metis empty_iff empty_set)

text \<open>An exchange in which no rank has raised can go on to its end.\<close>

definition work :: "GroupMember list \<Rightarrow> coll_state \<Rightarrow> nat" where
  "work ms s = (\<Sum>r \<in> ranks ms. length (todo s r))"

lemma work_less:
  assumes "\<And>r. r \<in> ranks ms \<Longrightarrow> length (todo s' r) \<le> length (todo s r)"
    and "r \<in> ranks ms" and "length (todo s' r) < length (todo s r)"
  shows "work ms s' < work ms s"
  unfolding work_def by (rule sum_strict_mono_ex1) (use assms in \<open>auto simp: ranks_def\<close>)

lemma exchange_act:
  assumes ex: "exchanges ms R script mid" and r: "r \<in> ranks ms" and suf: "suffix (a # rest) (script r)" and "a \<noteq> DoBarrier"
  shows "\<exists>s'. do_act ms r a s = Some s'"
proof -
  have ok: "regions_ok R" using ex by (simp add: exchanges_def)
  consider "a = load R \<or> a = unload R" | "a \<in> set (mid r)" using exchange_todo [OF ex r suf] assms(4) by blast
  then show ?thesis
  proof cases
    case 1
    then show ?thesis using ok by (auto simp: regions_ok_def)
  next
    case 2
    then have "idle a \<or> lands ms R r a" using ex r by (auto simp: exchanges_def)
    then show ?thesis using ok assms(4) by (cases a) (auto simp: idle_def lands_def regions_ok_def)
  qed
qed

lemma exchange_progress:
  assumes ex: "exchanges ms R script mid" and inv: "coll_inv ms R U script mid s"
    and q: "q \<in> ranks ms" "todo s q \<noteq> []"
  shows "\<exists>s'. coll_step ms s s' \<and> raised s' = raised s \<and> work ms s' < work ms s"
proof (cases "\<exists>r \<in> ranks ms. todo s r \<noteq> [] \<and> hd (todo s r) \<noteq> DoBarrier")
  case True
  then obtain r a rest where r: "r \<in> ranks ms" "todo s r = a # rest" "a \<noteq> DoBarrier" by (metis list.collapse)
  have "suffix (a # rest) (script r)" using inv r unfolding coll_inv_def rank_inv_def by metis
  then obtain s1 where s1: "do_act ms r a s = Some s1" using exchange_act [OF ex r(1) _ r(3)] by blast
  have "work ms (s1\<lparr> todo := (todo s)(r := rest) \<rparr>) < work ms s"
    by (rule work_less [of ms _ _ r]) (use r in auto)
  then show ?thesis using coll_step.call [of r ms s a rest s1] r s1 do_act_raised [OF s1] by fastforce
next
  case False
  obtain b where b: "\<And>r. r \<in> ranks ms \<Longrightarrow> count_list (todo s r) DoBarrier = b" using inv by (auto simp: coll_inv_def)
  have "hd (todo s q) = DoBarrier" using False q by blast
  then have "b \<noteq> 0" using b [OF q(1)] q(2) by (cases "todo s q") auto
  then have "\<forall>r \<in> ranks ms. todo s r \<noteq> [] \<and> hd (todo s r) = DoBarrier" using b False by fastforce
  from coll_step.barrier [OF this] show ?thesis
    using q by (intro exI conjI) (assumption, simp, rule work_less [of ms _ _ q], auto)
qed

lemma exchange_completes:
  assumes ex: "exchanges ms R script mid" and "coll_inv ms R U script mid s" and "raised s = {}"
  shows "\<exists>s'. (coll_step ms)\<^sup>*\<^sup>* s s' \<and> raised s' = {} \<and> (\<forall>r \<in> ranks ms. todo s' r = [])"
  using assms(2,3)
proof (induction "work ms s" arbitrary: s rule: less_induct)
  case less
  show ?case
  proof (cases "\<forall>r \<in> ranks ms. todo s r = []")
    case False
    then obtain s1 where s1: "coll_step ms s s1" "raised s1 = raised s" "work ms s1 < work ms s"
      using exchange_progress [OF ex less.prems(1)] by blast
    then have "coll_inv ms R U script mid s1" using coll_inv_step [OF ex less.prems(1) s1(1)] less.prems(2) by simp
    then show ?thesis using less.hyps [OF s1(3)] s1 less.prems(2) by (metis converse_rtranclp_into_rtranclp)
  qed (use less.prems in blast)
qed

section \<open>The direct algorithm is an exchange\<close>

lemma those_map:
  assumes "those (map f xs) = Some ys"
  shows "map f xs = map Some ys"
  using assms
proof (induction xs arbitrary: ys)
  case (Cons x xs)
  then show ?case by (cases "f x"; cases "those (map f xs)") auto
qed simp

lemma those_member: "those (map f xs) = Some ys \<Longrightarrow> y \<in> set ys \<Longrightarrow> \<exists>x \<in> set xs. f x = Some y"
proof -
  assume m: "those (map f xs) = Some ys" and y: "y \<in> set ys"
  have "Some y \<in> set (map f xs)" unfolding those_map [OF m] using y by simp
  then show ?thesis by auto
qed

lemma those_image: "those (map f xs) = Some ys \<Longrightarrow> x \<in> set xs \<Longrightarrow> \<exists>y \<in> set ys. f x = Some y"
proof -
  assume m: "those (map f xs) = Some ys" and x: "x \<in> set xs"
  have "f x \<in> set (map Some ys)" unfolding those_map [OF m, symmetric] using x by simp
  then show ?thesis by auto
qed

lemma those_total: "\<forall>x \<in> set xs. \<exists>y. f x = Some y \<Longrightarrow> \<exists>ys. those (map f xs) = Some ys"
  by (induction xs) fastforce+

text \<open>Bytes \<open>o\<close> to \<open>o + n\<close> of the block from \<open>r\<close> to \<open>p\<close>.\<close>

definition block_regions :: "int \<Rightarrow> int \<Rightarrow> int \<Rightarrow> int \<Rightarrow> regions" where
  "block_regions sb rb bpp w = \<lparr> send_at = sb, recv_at = rb, extent = w * bpp, block = bpp \<rparr>"

lemma block_end:
  fixes r w bpp j :: int
  assumes "0 \<le> r" "r < w" "j \<le> bpp" "0 \<le> bpp"
  shows "r * bpp + j \<le> w * bpp"
proof -
  have "(r + 1) * bpp \<le> w * bpp" using assms by (intro mult_right_mono) auto
  then show ?thesis using assms(3) by (simp add: algebra_simps)
qed

lemma block_lands:
  assumes r: "r \<in> ranks ms" and p: "p \<in> ranks ms" and i: "0 \<le> i" "0 < n" "i + n \<le> bpp"
    and w: "writes ms r x = Some (p, rb + r * bpp + i, sb + p * bpp + i, n)"
  shows "lands ms (block_regions sb rb bpp (int (length ms))) r x"
proof -
  have rp: "0 \<le> r" "r < int (length ms)" "0 \<le> p" "p < int (length ms)" using r p by (auto simp: ranks_def)
  have pos: "0 \<le> r * bpp" "0 \<le> p * bpp" using rp i by simp_all
  have ends: "r * bpp + (i + n) \<le> int (length ms) * bpp" "p * bpp + (i + n) \<le> int (length ms) * bpp"
    using block_end rp i by simp_all
  have "(rb + r * bpp + i + j - rb) div bpp = r \<and> p * bpp + (rb + r * bpp + i + j - rb) mod bpp = sb + p * bpp + i + j - sb"
    if "0 \<le> j" "j < n" for j
  proof -
    have e: "rb + r * bpp + i + j - rb = (i + j) + r * bpp" by simp
    show ?thesis unfolding e using that i by simp
  qed
  then have vals: "\<forall>j. 0 \<le> j \<and> j < n \<longrightarrow> (rb + r * bpp + i + j - rb) div bpp = r
      \<and> p * bpp + (rb + r * bpp + i + j - rb) mod bpp = sb + p * bpp + i + j - sb" by blast
  have bounds: "sb \<le> sb + p * bpp + i" "sb + p * bpp + i + n \<le> sb + int (length ms) * bpp"
    "rb \<le> rb + r * bpp + i" "rb + r * bpp + i + n \<le> rb + int (length ms) * bpp"
    using pos ends i(1) by linarith+
  show ?thesis unfolding lands_def block_regions_def regions.simps
    by (rule exI [of _ p], rule exI [of _ "rb + r * bpp + i"], rule exI [of _ "sb + p * bpp + i"], rule exI [of _ n])
      (intro conjI w p i(2) bounds vals)
qed

definition put_call :: "Group \<Rightarrow> int \<Rightarrow> int \<Rightarrow> int \<Rightarrow> ConnType \<Rightarrow> int \<Rightarrow> int \<Rightarrow> int \<Rightarrow> act" where
  "put_call g sb rb bpp c dst i n =
    DoPut (gm_ip (peer g dst)) (port_for (peer g dst) c) (sb + dst * bpp + i) (rb + g_rank g * bpp + i) n c"

lemma put_block_chunks:
  assumes "0 < chunk" and "dst \<noteq> g_rank g"
  shows "\<exists>as. put_block g sb rb bpp chunk conn dst = Some as
    \<and> (\<forall>x \<in> set as. \<exists>i n c. 0 \<le> i \<and> 0 < n \<and> i + n \<le> bpp \<and> x = put_call g sb rb bpp c dst i n)
    \<and> (\<forall>j. 0 \<le> j \<and> j < bpp \<longrightarrow> (\<exists>i n c. i \<le> j \<and> j < i + n \<and> put_call g sb rb bpp c dst i n \<in> set as))"
proof -
  let ?c = "conn_for_pair g (g_rank g) dst conn"
  let ?f = "\<lambda>i n. [put_call g sb rb bpp ?c dst i n]"
  obtain as where as: "chunked ?f bpp chunk 0 = Some as"
    and each: "\<forall>x \<in> set as. \<exists>i k. 0 \<le> i \<and> 0 < k \<and> i + k \<le> bpp \<and> x \<in> set (?f i k)"
    and cover: "\<forall>j. 0 \<le> j \<and> j < bpp \<longrightarrow> (\<exists>i k. 0 \<le> i \<and> i \<le> j \<and> j < i + k \<and> i + k \<le> bpp \<and> set (?f i k) \<subseteq> set as)"
    using chunked_total [OF assms(1), of ?f bpp 0] by blast
  have "put_block g sb rb bpp chunk conn dst = Some as"
    using assms(2) as by (simp add: put_block_def put_chunked_def put_call_def Let_def)
  moreover have "\<forall>x \<in> set as. \<exists>i n c. 0 \<le> i \<and> 0 < n \<and> i + n \<le> bpp \<and> x = put_call g sb rb bpp c dst i n"
  proof
    fix x assume "x \<in> set as"
    then obtain i k where "0 \<le> i" "0 < k" "i + k \<le> bpp" "x = put_call g sb rb bpp ?c dst i k" using each by auto
    then show "\<exists>i n c. 0 \<le> i \<and> 0 < n \<and> i + n \<le> bpp \<and> x = put_call g sb rb bpp c dst i n" by blast
  qed
  moreover have "\<forall>j. 0 \<le> j \<and> j < bpp \<longrightarrow> (\<exists>i n c. i \<le> j \<and> j < i + n \<and> put_call g sb rb bpp c dst i n \<in> set as)"
  proof (intro allI impI)
    fix j assume "0 \<le> j \<and> j < bpp"
    with cover obtain i k where "i \<le> j" "j < i + k" "put_call g sb rb bpp ?c dst i k \<in> set as" by auto
    then show "\<exists>i n c. i \<le> j \<and> j < i + n \<and> put_call g sb rb bpp c dst i n \<in> set as" by blast
  qed
  ultimately show ?thesis by blast
qed

lemma connect_rounds_idle:
  assumes "x \<in> set (concat (map (connect_round g conn) ss))"
  shows "idle x"
  using assms by (auto simp: connect_round_def connect_peer_def idle_def Let_def split: if_splits)

lemma connect_rounds_barriers: "count_list (concat (map (connect_round g conn) ss)) DoBarrier = length ss"
  by (induction ss) (auto simp: connect_round_def connect_peer_def Let_def)

definition direct_mid :: "Group \<Rightarrow> int \<Rightarrow> int \<Rightarrow> int \<Rightarrow> int \<Rightarrow> ConnType option \<Rightarrow> act list" where
  "direct_mid g sb rb bpp chunk conn =
    (let copy = copy_self_if_needed g sb rb bpp True in
     if g_world g \<le> 1 then copy
     else concat (map (connect_round g conn) [1..g_world g - 1]) @ copy
       @ concat (the (those (map (put_block g sb rb bpp chunk conn) [0..g_world g - 1]))))"

lemma put_blocks_some:
  assumes "0 < chunk"
  obtains puts where "those (map (put_block g sb rb bpp chunk conn) ds) = Some puts"
proof -
  have "\<exists>as. put_block g sb rb bpp chunk conn dst = Some as" for dst
  proof (cases "dst = g_rank g")
    case True
    then show ?thesis by (simp add: put_block_def)
  next
    case False
    from put_block_chunks [OF assms this, of sb rb bpp conn] show ?thesis by blast
  qed
  then have "\<forall>dst \<in> set ds. \<exists>as. put_block g sb rb bpp chunk conn dst = Some as" by blast
  from those_total [OF this] obtain puts where "those (map (put_block g sb rb bpp chunk conn) ds) = Some puts" ..
  then show thesis by (rule that)
qed

lemma direct_core_mid:
  assumes "0 < chunk" and "g_world g = int (length ms)"
  shows "map_option (\<lambda>as. load R # as @ [unload R]) (direct_alltoall_core g sb rb bpp chunk True conn)
    = Some (load R # direct_mid g sb rb bpp chunk conn @ closing ms R)"
proof -
  obtain puts where "those (map (put_block g sb rb bpp chunk conn) [0..g_world g - 1]) = Some puts"
    by (rule put_blocks_some [OF assms(1)])
  then show ?thesis using assms(2) by (auto simp: direct_alltoall_core_def direct_mid_def closing_def Let_def)
qed

text \<open>Every call between loading and unloading lands bytes or is idle; the self copy and the puts cover all.\<close>

lemma direct_mid_puts:
  assumes "0 < chunk" and "1 < g_world g" and "dst \<in> set [0..g_world g - 1]" and "put_block g sb rb bpp chunk conn dst = Some as"
  shows "set as \<subseteq> set (direct_mid g sb rb bpp chunk conn)"
proof -
  obtain puts where p: "those (map (put_block g sb rb bpp chunk conn) [0..g_world g - 1]) = Some puts"
    by (rule put_blocks_some [OF assms(1)])
  then have "as \<in> set puts" using those_image [OF p assms(3)] assms(4) by auto
  then show ?thesis using assms(2) p by (auto simp: direct_mid_def Let_def)
qed

lemma direct_mid_cases:
  assumes "0 < chunk" and "x \<in> set (direct_mid g sb rb bpp chunk conn)"
  obtains "idle x" | "0 < bpp" "x = DoCopyWithin (rb + g_rank g * bpp) (sb + g_rank g * bpp) bpp"
    | dst as where "dst \<in> set [0..g_world g - 1]" "dst \<noteq> g_rank g" "put_block g sb rb bpp chunk conn dst = Some as" "x \<in> set as"
proof -
  obtain puts where p: "those (map (put_block g sb rb bpp chunk conn) [0..g_world g - 1]) = Some puts"
    by (rule put_blocks_some [OF assms(1)])
  have copy: "0 < bpp \<and> x = DoCopyWithin (rb + g_rank g * bpp) (sb + g_rank g * bpp) bpp"
    if "x \<in> set (copy_self_if_needed g sb rb bpp True)"
    using that by (simp add: copy_self_if_needed_def split: if_splits)
  consider "x \<in> set (copy_self_if_needed g sb rb bpp True)" | "x \<in> set (concat (map (connect_round g conn) [1..g_world g - 1]))"
    | as where "as \<in> set puts" "x \<in> set as"
    using assms(2) p by (auto simp: direct_mid_def Let_def split: if_splits)
  then show thesis
  proof cases
    case 1
    then show ?thesis using copy that(2) by blast
  next
    case 2
    then show ?thesis using connect_rounds_idle that(1) by blast
  next
    case (3 as)
    then obtain dst where "dst \<in> set [0..g_world g - 1]" "put_block g sb rb bpp chunk conn dst = Some as"
      using those_member [OF p] by blast
    moreover from this 3 have "dst \<noteq> g_rank g" by (auto simp: put_block_def)
    ultimately show ?thesis using that(3) 3 by blast
  qed
qed

lemma direct_mid_barriers:
  assumes "0 < chunk" and "g_world g = int (length ms)"
  shows "count_list (direct_mid g sb rb bpp chunk conn) DoBarrier = length ms - 1"
proof -
  obtain puts where p: "those (map (put_block g sb rb bpp chunk conn) [0..g_world g - 1]) = Some puts"
    by (rule put_blocks_some [OF assms(1)])
  have "DoBarrier \<notin> set as" if y: "as \<in> set puts" for as
  proof -
    obtain dst where d: "put_block g sb rb bpp chunk conn dst = Some as" using those_member [OF p y] by blast
    show ?thesis
    proof (cases "dst = g_rank g")
      case True
      then show ?thesis using d by (auto simp: put_block_def)
    next
      case False
      from put_block_chunks [OF assms(1) this, of sb rb bpp conn] obtain as'
        where "put_block g sb rb bpp chunk conn dst = Some as'"
          and "\<forall>x \<in> set as'. \<exists>i n c. 0 \<le> i \<and> 0 < n \<and> i + n \<le> bpp \<and> x = put_call g sb rb bpp c dst i n" by blast
      with d show ?thesis by (auto simp: put_call_def)
    qed
  qed
  then have "count_list (concat puts) DoBarrier = 0" by (auto simp: count_list_0_iff)
  moreover have "count_list (copy_self_if_needed g sb rb bpp True) DoBarrier = 0" by (simp add: copy_self_if_needed_def)
  moreover have "nat (int (length ms) - 1) = length ms - Suc 0" by linarith
  ultimately show ?thesis using p assms(2) by (simp add: direct_mid_def Let_def connect_rounds_barriers)
qed

lemma direct_exchanges:
  assumes g: "\<forall>r \<in> ranks ms. new_Group ms r = Inr (g r)" and addr: "distinct_addresses ms" and c: "0 < chunk" "0 \<le> bpp"
    and R: "R = block_regions sb rb bpp (int (length ms))" "regions_ok R"
    and script: "\<forall>r \<in> ranks ms. script r = load R # direct_mid (g r) sb rb bpp chunk conn @ closing ms R"
  shows "exchanges ms R script (\<lambda>r. direct_mid (g r) sb rb bpp chunk conn)"
proof -
  let ?mid = "\<lambda>r. direct_mid (g r) sb rb bpp chunk conn"
  have gr: "g_rank (g r) = r" "g_world (g r) = int (length ms)" if "r \<in> ranks ms" for r
    using g that new_Group_facts by blast+
  have at: "writes ms r (put_call (g r) sb rb bpp c p i n) = Some (p, rb + r * bpp + i, sb + p * bpp + i, n)"
    if "r \<in> ranks ms" "p \<in> ranks ms" for r p i n c
  proof -
    have "gm_rank (peer (g r) p) = p" "peer (g r) p \<in> set ms" using g that new_Group_facts(4) by blast+
    then show ?thesis using member_at_member [OF addr, of "peer (g r) p" c] gr [OF that(1)] by (simp add: put_call_def)
  qed
  have dsts: "set [0..g_world (g r) - 1] = ranks ms" if "r \<in> ranks ms" for r using gr that by (auto simp: ranks_def)
  have lands: "idle x \<or> lands ms R r x" if r: "r \<in> ranks ms" and x: "x \<in> set (?mid r)" for r x
    using c(1) x
  proof (cases rule: direct_mid_cases)
    case 2
    then show ?thesis unfolding R(1) by (intro disjI2 block_lands [of r _ r 0 bpp]) (use r gr in auto)
  next
    case (3 dst as)
    have dst: "dst \<in> ranks ms" using 3(1) unfolding dsts [OF r] .
    from put_block_chunks [OF c(1) 3(2), of sb rb bpp conn] 3(3,4)
    obtain i n c where "0 \<le> i" "0 < n" "i + n \<le> bpp" "x = put_call (g r) sb rb bpp c dst i n" by auto
    with at [OF r dst] show ?thesis unfolding R(1) by (intro disjI2 block_lands [OF r dst]) auto
  qed simp
  moreover have "\<exists>r \<in> ranks ms. \<exists>x \<in> set (?mid r). \<exists>d so n.
      writes ms r x = Some (p, d, so, n) \<and> d \<le> recv_at R + k \<and> recv_at R + k < d + n"
    if p: "p \<in> ranks ms" and k: "0 \<le> k" "k < extent R" for p k
  proof -
    let ?r = "k div bpp" and ?j = "k mod bpp"
    have bpp: "0 < bpp" using k c(2) R(1) by (cases "bpp = 0") (auto simp: block_regions_def)
    have j: "0 \<le> ?j" "?j < bpp" "k = ?r * bpp + ?j" using bpp by simp_all
    have "?r < int (length ms)"
    proof (rule ccontr)
      assume "\<not> ?r < int (length ms)"
      then have "int (length ms) * bpp \<le> ?r * bpp" using bpp by (intro mult_right_mono) auto
      moreover have "k < int (length ms) * bpp" using k(2) R(1) by (simp add: block_regions_def)
      ultimately show False using j by linarith
    qed
    then have r: "?r \<in> ranks ms" using k bpp by (simp add: ranks_def pos_imp_zdiv_nonneg_iff)
    note grr = gr [OF r]
    show ?thesis
    proof (cases "?r = p")
      case True
      have "DoCopyWithin (rb + ?r * bpp) (sb + ?r * bpp) bpp \<in> set (?mid ?r)"
        using bpp grr by (simp add: direct_mid_def copy_self_if_needed_def Let_def)
      then show ?thesis using True j R(1) by (intro bexI [OF _ r] bexI) (auto simp: block_regions_def)
    next
      case False
      then have ne: "p \<noteq> g_rank (g ?r)" using grr by simp
      from put_block_chunks [OF c(1) ne, of sb rb bpp conn] j obtain as i n c
        where as: "put_block (g ?r) sb rb bpp chunk conn p = Some as" and i: "i \<le> ?j" "?j < i + n"
          and m: "put_call (g ?r) sb rb bpp c p i n \<in> set as" by auto
      have w: "1 < g_world (g ?r)" using False r p grr by (auto simp: ranks_def)
      have "p \<in> set [0..g_world (g ?r) - 1]" using dsts [OF r] p by simp
      from direct_mid_puts [OF c(1) w this as] m have x: "put_call (g ?r) sb rb bpp c p i n \<in> set (?mid ?r)" by blast
      have "?r * bpp + i \<le> k" "k < ?r * bpp + i + n" using i j(3) by linarith+
      then show ?thesis using at [OF r p] R(1)
        by (intro bexI [OF _ r] bexI [OF _ x]) (auto simp: block_regions_def)
    qed
  qed
  moreover have "count_list (?mid r) DoBarrier = length ms - 1" if "r \<in> ranks ms" for r
    by (rule direct_mid_barriers [OF c(1) gr(2) [OF that]])
  ultimately show ?thesis unfolding exchanges_def using R(2) script by simp
qed

text \<open>The arguments of a call, as the regions it uses.\<close>

definition recv_base :: "int \<Rightarrow> int option \<Rightarrow> int \<Rightarrow> int" where
  "recv_base sb rb tot = (case rb of None \<Rightarrow> sb + tot | Some b \<Rightarrow> b)"

lemma direct_script:
  assumes call: "alltoall g have tot tot algo conn sb rb chunk True = Inr (Some as)"
    and "pick_algo (g_world g) algo = ''direct''" and "0 < chunk" and "g_world g = int (length ms)"
    and R: "R = block_regions sb (recv_base sb rb tot) (tot div g_world g) (int (length ms))"
  shows "as = load R # direct_mid g sb (recv_base sb rb tot) (tot div g_world g) chunk conn @ closing ms R"
    and "extent R = tot" and "recv_base sb rb tot + tot \<le> have"
proof -
  let ?rb = "recv_base sb rb tot" and ?b = "tot div g_world g"
  have m: "tot mod g_world g = 0" and e: "?rb + tot \<le> have"
    and some: "map_option (\<lambda>as. DoBufPut sb tot # as @ [DoBufGet ?rb tot])
      (direct_alltoall_core g sb ?rb ?b chunk True conn) = Some as"
    using call assms(2) by (auto simp: alltoall_def recv_base_def Let_def split: if_splits)
  have "int (length ms) * (tot div int (length ms)) = tot"
    using mult_div_mod_eq [of "int (length ms)" tot] m unfolding assms(4) by linarith
  then show ext: "extent R = tot" using assms(4) R by (simp add: block_regions_def)
  have "load R = DoBufPut sb tot" "unload R = DoBufGet ?rb tot" using ext R by (simp_all add: block_regions_def)
  then show "as = load R # direct_mid g sb ?rb ?b chunk conn @ closing ms R"
    using some direct_core_mid [OF assms(3,4), of R sb ?rb ?b conn] by auto
  show "?rb + tot \<le> have" by (rule e)
qed

definition disjoint_regions :: "int \<Rightarrow> int \<Rightarrow> int \<Rightarrow> bool" where
  "disjoint_regions sb rb tot \<longleftrightarrow> 0 \<le> sb \<and> 0 \<le> rb \<and> (sb + tot \<le> rb \<or> rb + tot \<le> sb)"

lemma direct_ready:
  assumes g: "\<forall>r \<in> ranks ms. new_Group ms r = Inr (g r)" and "distinct_addresses ms"
    and call: "\<forall>r \<in> ranks ms. alltoall (g r) (have r) tot tot algo conn sb rb chunk True = Inr (Some (script r))"
    and algo: "pick_algo (int (length ms)) algo = ''direct''" and "0 < chunk" and "0 \<le> tot"
    and "disjoint_regions sb (recv_base sb rb tot) tot"
    and bpp: "bpp = tot div int (length ms)" and R: "R = block_regions sb (recv_base sb rb tot) bpp (int (length ms))"
    and ne: "ranks ms \<noteq> {}"
  shows "exchanges ms R script (\<lambda>r. direct_mid (g r) sb (recv_base sb rb tot) bpp chunk conn)" and "extent R = tot"
proof -
  have w: "g_world (g r) = int (length ms)" if "r \<in> ranks ms" for r using g that new_Group_facts(2) by blast
  have sc: "script r = load R # direct_mid (g r) sb (recv_base sb rb tot) bpp chunk conn @ closing ms R \<and> extent R = tot"
    if "r \<in> ranks ms" for r
    using direct_script [of "g r" "have r" tot algo conn sb rb chunk "script r" ms R] call that algo assms(5) w [OF that] bpp R by simp
  show ext: "extent R = tot" using sc ne by blast
  have "regions_ok R" using assms(6,7) ext R by (auto simp: regions_ok_def disjoint_regions_def block_regions_def)
  moreover have "0 \<le> bpp" using assms(6) bpp by (simp add: div_int_pos_iff)
  ultimately show "exchanges ms R script (\<lambda>r. direct_mid (g r) sb (recv_base sb rb tot) bpp chunk conn)"
    using direct_exchanges [OF g assms(2,5) _ R] sc by blast
qed



text \<open>In the direct algorithm the smaller of two ranks dials the other, and only it.\<close>

lemma direct_dials:
  assumes "new_Group ms r = Inr g" and p: "p \<in> ranks ms"
  shows "(\<exists>ip port cport c. DoConnect p ip port cport c \<in> set (concat (map (connect_round g conn) [1..g_world g - 1]))) \<longleftrightarrow> r < p"
proof -
  let ?w = "g_world g"
  have g: "g_rank g = r" "?w = int (length ms)" "0 \<le> r" "r < ?w" "0 \<le> p" "p < ?w"
    using new_Group_facts(1-3) [OF assms(1)] p by (auto simp: ranks_def)
  have peer: "gm_rank (peer g i) = i" if "0 \<le> i" "i < ?w" for i
    using new_Group_facts(4) [OF assms(1)] that g(2) by (simp add: ranks_def)
  have round: "(\<exists>ip port cport c. DoConnect p ip port cport c \<in> set (connect_round g conn s)) \<longleftrightarrow> r < p \<and> p = (r + s) mod ?w"
    for s using g(1) peer [of "(r + s) mod ?w"] g(3,4) by (auto simp: connect_round_def connect_peer_def Let_def)
  have "\<exists>s \<in> {1..?w - 1}. p = (r + s) mod ?w" if "r < p"
    using that g by (intro bexI [of _ "p - r"]) auto
  moreover have "(\<exists>ip port cport c. DoConnect p ip port cport c \<in> set (concat (map (connect_round g conn) [1..?w - 1])))
      \<longleftrightarrow> (\<exists>s \<in> {1..?w - 1}. \<exists>ip port cport c. DoConnect p ip port cport c \<in> set (connect_round g conn s))"
    unfolding set_concat set_map set_upto by blast
  ultimately show ?thesis unfolding round by blast
qed

section \<open>The ring\<close>

text \<open>What the calls of the ring touch: a put goes to the right neighbour and a get comes from the left one, from a
  send region into a receive region.\<close>

definition next_rank :: "GroupMember list \<Rightarrow> int \<Rightarrow> int" where
  "next_rank ms r = (r + 1) mod int (length ms)"

definition prev_rank :: "GroupMember list \<Rightarrow> int \<Rightarrow> int" where
  "prev_rank ms r = (r - 1 + int (length ms)) mod int (length ms)"

definition in_recv :: "regions \<Rightarrow> int \<Rightarrow> int \<Rightarrow> bool" where
  "in_recv R d n \<longleftrightarrow> recv_at R \<le> d \<and> d + n \<le> recv_at R + extent R"

definition in_send :: "regions \<Rightarrow> int \<Rightarrow> int \<Rightarrow> bool" where
  "in_send R d n \<longleftrightarrow> send_at R \<le> d \<and> d + n \<le> send_at R + extent R"

fun ring_call :: "GroupMember list \<Rightarrow> regions \<Rightarrow> int \<Rightarrow> act \<Rightarrow> bool" where
  "ring_call ms R r (DoBufPut off n) \<longleftrightarrow> DoBufPut off n = load R"
| "ring_call ms R r (DoCopyWithin d so n) \<longleftrightarrow> in_recv R d n"
| "ring_call ms R r (DoPut ip port lo ro n c) \<longleftrightarrow>
    member_at ms ip port c = Some (next_rank ms r) \<and> in_send R lo n \<and> in_recv R ro n"
| "ring_call ms R r (DoGet ip port lo ro n c) \<longleftrightarrow>
    member_at ms ip port c = Some (prev_rank ms r) \<and> in_send R ro n \<and> in_recv R lo n"
| "ring_call ms R r _ \<longleftrightarrow> True"

text \<open>The bytes rank \<open>q\<close> starts with, and the invariant: outside the receive region a buffer has bytes of its own
  rank, and nowhere any but those of its rank and the left neighbour.\<close>

definition own :: "coll_state \<Rightarrow> int \<Rightarrow> u8 set" where
  "own s q = range (cbuf s q) \<union> range (usend s q)"

definition ring_inv :: "GroupMember list \<Rightarrow> regions \<Rightarrow> coll_state \<Rightarrow> coll_state \<Rightarrow> bool" where
  "ring_inv ms R s0 s \<longleftrightarrow> usend s = usend s0 \<and> (\<forall>q \<in> ranks ms.
     (\<forall>x \<in> set (todo s q). ring_call ms R q x)
   \<and> (\<forall>x. \<not> in_recv R x 1 \<longrightarrow> cbuf s q x \<in> own s0 q)
   \<and> (\<forall>x. cbuf s q x \<in> own s0 q \<union> own s0 (prev_rank ms q))
   \<and> (\<forall>k. urecv s q k \<in> range (urecv s0 q) \<union> own s0 q \<union> own s0 (prev_rank ms q)))"

lemma neighbours:
  assumes "r \<in> ranks ms"
  shows "next_rank ms r \<in> ranks ms" "prev_rank ms r \<in> ranks ms" "prev_rank ms (next_rank ms r) = r"
proof -
  let ?w = "int (length ms)"
  have w: "0 < ?w" "0 \<le> r" "r < ?w" using assms by (auto simp: ranks_def)
  then show "next_rank ms r \<in> ranks ms" "prev_rank ms r \<in> ranks ms" by (simp_all add: ranks_def next_rank_def prev_rank_def)
  have "(r + 1) mod ?w - 1 + ?w = (r + 1) mod ?w + (?w - 1)" by simp
  then have "((r + 1) mod ?w - 1 + ?w) mod ?w = (r + 1 + (?w - 1)) mod ?w" by (metis mod_add_left_eq)
  then show "prev_rank ms (next_rank ms r) = r" using w by (simp add: prev_rank_def next_rank_def)
qed

lemma ring_inv_step:
  assumes inv: "ring_inv ms R s0 s" and ok: "regions_ok R" and step: "coll_step ms s s'"
  shows "ring_inv ms R s0 s'"
  using step
proof cases
  case (call r a rest s1)
  have a: "ring_call ms R r a" using inv call(2,3) by (auto simp: ring_inv_def)
  note nb = neighbours [OF call(2)]
  have buf: "\<not> in_recv R x 1 \<Longrightarrow> cbuf s q x \<in> own s0 q" "cbuf s q x \<in> own s0 q \<union> own s0 (prev_rank ms q)"
    "urecv s q x \<in> range (urecv s0 q) \<union> own s0 q \<union> own s0 (prev_rank ms q)" if "q \<in> ranks ms" for q x
    using inv that by (auto simp: ring_inv_def)
  have td: "\<forall>x \<in> set (((todo s)(r := rest)) q). ring_call ms R q x" if "q \<in> ranks ms" for q
    using inv that call(2,3) by (auto simp: ring_inv_def)
  have U: "usend s = usend s0" using inv by (simp add: ring_inv_def)
  have send: "\<not> in_recv R (so + (x - d)) 1" if "in_send R so n" "d \<le> x" "x < d + n" for so d n x
    using that ok by (auto simp: in_send_def in_recv_def regions_ok_def)
  have sub: "in_recv R x 1" if "in_recv R d n" "d \<le> x" "x < d + n" for d n x
    using that by (auto simp: in_recv_def)
  have "usend s1 = usend s0 \<and> (\<forall>q \<in> ranks ms. (\<forall>x. \<not> in_recv R x 1 \<longrightarrow> cbuf s1 q x \<in> own s0 q)
      \<and> (\<forall>x. cbuf s1 q x \<in> own s0 q \<union> own s0 (prev_rank ms q))
      \<and> (\<forall>k. urecv s1 q k \<in> range (urecv s0 q) \<union> own s0 q \<union> own s0 (prev_rank ms q)))"
  proof (cases "cbuf s1 = cbuf s \<and> urecv s1 = urecv s \<and> usend s1 = usend s")
    case True
    then have e: "cbuf s1 = cbuf s" "urecv s1 = urecv s" "usend s1 = usend s" by simp_all
    show ?thesis unfolding e using buf U by blast
  next
    case changed: False
    show ?thesis
    proof (cases a)
      case (DoBufPut off n)
      have s1: "s1 = s\<lparr> cbuf := (\<lambda>p x. if p = r \<and> off \<le> x \<and> x < off + n then usend s r (x - off) else cbuf s p x) \<rparr>"
        using call(4) DoBufPut by (simp split: if_splits)
      show ?thesis using buf U by (auto simp: s1 own_def)
    next
      case (DoBufGet off n)
      have s1: "s1 = s\<lparr> urecv := (\<lambda>p x. if p = r \<and> 0 \<le> x \<and> x < n then cbuf s r (off + x) else urecv s p x) \<rparr>"
        using call(4) DoBufGet by (simp split: if_splits)
      show ?thesis using buf U by (auto simp: s1)
    next
      case (DoCopyWithin d so n)
      have s1: "s1 = s\<lparr> cbuf := move r so r d n (cbuf s) \<rparr>" using call(4) DoCopyWithin by (simp split: if_splits)
      show ?thesis using buf U a DoCopyWithin sub by (auto simp: s1 move_def)
    next
      case (DoPut ip port lo ro n c)
      have s1: "s1 = s\<lparr> cbuf := move r lo (next_rank ms r) ro n (cbuf s) \<rparr>"
        using call(4) DoPut a by (auto split: if_splits)
      show ?thesis using buf U a DoPut sub send nb(3) call(2) by (auto simp: s1 move_def)
    next
      case (DoGet ip port lo ro n c)
      have s1: "s1 = s\<lparr> cbuf := move (prev_rank ms r) ro r lo n (cbuf s) \<rparr>"
        using call(4) DoGet a by (auto split: if_splits)
      show ?thesis using buf U a DoGet sub send nb(2) by (auto simp: s1 move_def)
    qed (use call(4) changed in \<open>auto split: list.splits if_splits\<close>)
  qed
  then show ?thesis using td call(1) by (simp add: ring_inv_def)
next
  case barrier
  then show ?thesis using inv by (auto simp: ring_inv_def) (metis list.set_sel(2))
next
  case (fails r a rest)
  then show ?thesis using inv by (auto simp: ring_inv_def)
qed

lemma ring_inv_steps:
  assumes "(coll_step ms)\<^sup>*\<^sup>* s0 s" and "regions_ok R" and "\<forall>q \<in> ranks ms. \<forall>x \<in> set (todo s0 q). ring_call ms R q x"
  shows "ring_inv ms R s0 s"
  using assms(1)
proof (induction rule: rtranclp_induct)
  case base
  then show ?case using assms(3) by (auto simp: ring_inv_def own_def)
next
  case (step y z)
  then show ?case using ring_inv_step [OF _ assms(2)] by blast
qed

lemma ring_facts:
  assumes g: "new_Group ms r = Inr g" and addr: "distinct_addresses ms"
  shows "member_at ms (gm_ip (right_of g)) (port_for (right_of g) c) c = Some (next_rank ms r)"
    and "member_at ms (gm_ip (left_of g)) (port_for (left_of g) c) c = Some (prev_rank ms r)"
proof -
  note f = new_Group_facts [OF g]
  have "gm_rank (right_of g) = next_rank ms r" "right_of g \<in> set ms" "gm_rank (left_of g) = prev_rank ms r" "left_of g \<in> set ms"
    using f(4) [OF neighbours(1) [OF f(3)]] f(4) [OF neighbours(2) [OF f(3)]] f(1,2)
    by (simp_all add: right_of_def left_of_def next_rank_def prev_rank_def)
  then show "member_at ms (gm_ip (right_of g)) (port_for (right_of g) c) c = Some (next_rank ms r)"
    "member_at ms (gm_ip (left_of g)) (port_for (left_of g) c) c = Some (prev_rank ms r)"
    using member_at_member [OF addr] by metis+
qed

lemma block_in:
  assumes "0 \<le> q" "q < w" "0 \<le> i" "0 < k" "i + k \<le> bpp"
  shows "in_send (block_regions sb rb bpp w) (sb + q * bpp + i) k" "in_recv (block_regions sb rb bpp w) (rb + q * bpp + i) k"
proof -
  have "0 \<le> q * bpp" "q * bpp + (i + k) \<le> w * bpp" using assms block_end by simp_all
  then show "in_send (block_regions sb rb bpp w) (sb + q * bpp + i) k" "in_recv (block_regions sb rb bpp w) (rb + q * bpp + i) k"
    using assms(3) unfolding in_send_def in_recv_def block_regions_def by (simp_all add: algebra_simps)
qed

lemma ring_step_calls:
  assumes g: "new_Group ms r = Inr g" and addr: "distinct_addresses ms" and c: "0 < chunk"
    and st: "ring_step g sb rb bpp chunk conn s = Some as" and x: "x \<in> set as"
  shows "ring_call ms (block_regions sb rb bpp (int (length ms))) r x"
proof -
  let ?w = "int (length ms)" and ?R = "block_regions sb rb bpp (int (length ms))"
  note f = new_Group_facts [OF g]
  let ?cr = "conn_for_pair g r (gm_rank (right_of g)) conn" and ?cl = "conn_for_pair g r (gm_rank (left_of g)) conn"
  let ?sp = "(r - s + ?w) mod ?w" and ?rp = "(r + s) mod ?w"
  let ?f = "\<lambda>i n. [DoGet (gm_ip (left_of g)) (port_for (left_of g) ?cl) (rb + ?rp * bpp + i) (sb + ?rp * bpp + i) n ?cl,
              DoPut (gm_ip (right_of g)) (port_for (right_of g) ?cr) (sb + ?sp * bpp + i) (rb + ?rp * bpp + i) n ?cr]"
  have w: "0 < ?w" using f(3) by (auto simp: ranks_def)
  have m: "0 \<le> ?sp" "?sp < ?w" "0 \<le> ?rp" "?rp < ?w" using w by simp_all
  obtain moves where mv: "chunked ?f bpp chunk 0 = Some moves"
    and each: "\<forall>x \<in> set moves. \<exists>i k. 0 \<le> i \<and> 0 < k \<and> i + k \<le> bpp \<and> x \<in> set (?f i k)"
    using chunked_total [OF c, of ?f bpp 0] by blast
  have "as = moves @ [DoCtrlSend (gm_rank (right_of g)) s, DoCtrlRecv (gm_rank (left_of g)) s]"
    using st mv f(1,2) by (simp add: ring_step_def Let_def)
  then consider "x \<in> set moves" | "x = DoCtrlSend (gm_rank (right_of g)) s \<or> x = DoCtrlRecv (gm_rank (left_of g)) s"
    using x by auto
  then show ?thesis
  proof cases
    case 1
    then obtain i k where i: "0 \<le> i" "0 < k" "i + k \<le> bpp" and xf: "x \<in> set (?f i k)" using each by blast
    note b = block_in [OF m(1,2) i, of sb rb] block_in [OF m(3,4) i, of sb rb]
    show ?thesis using xf b ring_facts [OF g addr] by auto
  qed auto
qed

lemma ring_script:
  assumes g: "new_Group ms r = Inr g" and addr: "distinct_addresses ms"
    and call: "alltoall g have tot tot algo conn sb rb chunk self = Inr (Some as)"
    and algo: "pick_algo (int (length ms)) algo = ''ring''" and c: "0 < chunk" and x: "x \<in> set as"
    and R: "R = block_regions sb (recv_base sb rb tot) (tot div int (length ms)) (int (length ms))"
  shows "ring_call ms R r x" and "extent R = tot"
proof -
  let ?w = "int (length ms)" and ?rb = "recv_base sb rb tot" and ?b = "tot div int (length ms)"
  note f = new_Group_facts [OF g]
  have m: "tot mod ?w = 0" and some: "map_option (\<lambda>as. DoBufPut sb tot # as @ [DoBufGet ?rb tot])
      (ring_alltoall_core g sb ?rb ?b chunk self conn) = Some as"
    using call algo f(2) by (auto simp: alltoall_def recv_base_def Let_def split: if_splits)
  have "?w * ?b = tot" using mult_div_mod_eq [of ?w tot] m by linarith
  then show ext: "extent R = tot" using R by (simp add: block_regions_def)
  obtain core where core: "ring_alltoall_core g sb ?rb ?b chunk self conn = Some core"
    and as: "as = DoBufPut sb tot # core @ [DoBufGet ?rb tot]" using some by auto
  have r: "0 \<le> r" "r < ?w" using f(3) by (auto simp: ranks_def)
  have copy: "ring_call ms R r y" if "y \<in> set (copy_self_if_needed g sb ?rb ?b self)" for y
  proof -
    have y: "y = DoCopyWithin (?rb + r * ?b) (sb + r * ?b) ?b" "0 < ?b"
      using that f(1) by (auto simp: copy_self_if_needed_def split: if_splits)
    show ?thesis using block_in(2) [OF r order.refl y(2), where bpp = ?b and rb = ?rb and sb = sb] y R by simp
  qed
  have "ring_call ms R r y" if y: "y \<in> set core" for y
  proof (cases "?w \<le> 1")
    case True
    then show ?thesis using copy y core f(2) by (simp add: ring_alltoall_core_def Let_def)
  next
    case False
    then obtain steps where st: "those (map (ring_step g sb ?rb ?b chunk conn) [1..?w - 1]) = Some steps"
      and "core = [connect_peer g (gm_rank (right_of g)) (conn_for_pair g r (gm_rank (right_of g)) conn), DoBarrier]
        @ copy_self_if_needed g sb ?rb ?b self @ concat steps"
      using core f(1,2) by (auto simp: ring_alltoall_core_def Let_def)
    then consider "y \<in> set (copy_self_if_needed g sb ?rb ?b self)" | ys where "ys \<in> set steps" "y \<in> set ys"
      | "y = connect_peer g (gm_rank (right_of g)) (conn_for_pair g r (gm_rank (right_of g)) conn)" | "y = DoBarrier"
      using y by auto
    then show ?thesis
    proof cases
      case 2
      then show ?thesis using ring_step_calls [OF g addr c] those_member [OF st] R by blast
    qed (use copy in \<open>auto simp: connect_peer_def Let_def\<close>)
  qed
  moreover have "DoBufPut sb tot = load R" using ext R by (simp add: block_regions_def)
  ultimately show "ring_call ms R r x" using x as by auto
qed

text \<open>C22: The ring does not deliver.  In every state that the ranks can reach in the ring algorithm, what rank \<open>i\<close> has
  received are bytes of itself and of its left neighbour: a byte of another rank \<open>j\<close> that these two do not have is
  missing from block \<open>j\<close>.\<close>

theorem ring_alltoall_undelivered:
  assumes "\<forall>r \<in> ranks ms. new_Group ms r = Inr (g r)" and "distinct_addresses ms"
    and "\<forall>r \<in> ranks ms. alltoall (g r) (have r) tot tot algo conn sb rb chunk self = Inr (Some (todo s0 r))"
    and "pick_algo (int (length ms)) algo = ''ring''" and "0 < chunk" and "0 \<le> tot"
    and "disjoint_regions sb (recv_base sb rb tot) tot"
    and "(coll_step ms)\<^sup>*\<^sup>* s0 s" and "i \<in> ranks ms"
    and "usend s0 j (i * bpp + k) \<notin> range (urecv s0 i) \<union> own s0 i \<union> own s0 (prev_rank ms i)"
  shows "urecv s i (j * bpp + k) \<noteq> usend s0 j (i * bpp + k)"
proof -
  let ?R = "block_regions sb (recv_base sb rb tot) (tot div int (length ms)) (int (length ms))"
  have calls: "\<forall>q \<in> ranks ms. \<forall>x \<in> set (todo s0 q). ring_call ms ?R q x"
    using ring_script(1) [OF _ assms(2) _ assms(4,5) _ refl] assms(1,3) by blast
  have "todo s0 i \<noteq> []" using assms(3,9) by (auto simp: alltoall_def Let_def split: if_splits)
  then obtain x where "x \<in> set (todo s0 i)" by (cases "todo s0 i") auto
  then have "extent ?R = tot" using ring_script(2) [OF _ assms(2) _ assms(4,5) _ refl] assms(1,3,9) by blast
  then have "regions_ok ?R" using assms(6,7) by (auto simp: regions_ok_def disjoint_regions_def block_regions_def)
  from ring_inv_steps [OF assms(8) this calls] have "urecv s i (j * bpp + k) \<in> range (urecv s0 i) \<union> own s0 i \<union> own s0 (prev_rank ms i)"
    using assms(9) by (simp add: ring_inv_def)
  then show ?thesis using assms(10) by metis
qed

text \<open>Two Cambricon ranks of one host are given the same-host transport when the kind is chosen automatically, and a
  session can neither connect nor put over it: the call raises or does not return.\<close>

theorem same_node_mlu_cannot_connect:
  "(conn_for_pair g a b None = P2P \<longleftrightarrow> gm_mem_type (peer g a) = CAMBRICON_MLU
      \<and> gm_mem_type (peer g b) = CAMBRICON_MLU \<and> gm_ip (peer g a) = gm_ip (peer g b))
    \<and> (case session_connect C sk env S pe se ip dp cp dir P2P s of Ret (Inr _, _) \<Rightarrow> False | _ \<Rightarrow> True)
    \<and> (case put_remote C ip port lo ro n P2P s of Ret (Inr _, _) \<Rightarrow> False | _ \<Rightarrow> True)"
proof (intro conjI)
  show "case session_connect C sk env S pe se ip dp cp dir P2P s of Ret (Inr _, _) \<Rightarrow> False | _ \<Rightarrow> True"
    using session_connect_P2P [of C sk env S pe se ip dp cp dir s]
    by (auto split: run.split prod.split sum.split)
  show "case put_remote C ip port lo ro n P2P s of Ret (Inr _, _) \<Rightarrow> False | _ \<Rightarrow> True"
    using put_remote_P2P [of C ip port lo ro n s] by auto
qed (auto simp: conn_for_pair_def pick_conn_def Let_def)

section \<open>Small groups\<close>

definition demo_member :: "int \<Rightarrow> int \<Rightarrow> GroupMember" where
  "demo_member w r = \<lparr> gm_rank = r, gm_world = w, gm_ip = ''h'', gm_port_ucx = 100 + r, gm_port_rdma = 200 + r,
     gm_port_ctrl = 300 + r, gm_mem_type = CPU, gm_device_id = 0, gm_buffer_size = 64 \<rparr>"

definition demo_members :: "int \<Rightarrow> GroupMember list" where
  "demo_members w = map (demo_member w) [0..w - 1]"

definition demo_group :: "int \<Rightarrow> int \<Rightarrow> Group" where
  "demo_group w r = \<lparr> g_members = demo_members w, g_rank = r, g_world = w \<rparr>"

definition demo_call :: "string \<Rightarrow> int \<Rightarrow> int \<Rightarrow> int \<Rightarrow> py_exc + act list option" where
  "demo_call algo w tot r = alltoall (demo_group w r) 64 tot tot algo None 0 None 1 True"

text \<open>Rank \<open>r\<close> sends the bytes \<open>16 * r + 1\<close>, \<open>16 * r + 2\<close> and so on.\<close>

definition demo_start :: "string \<Rightarrow> int \<Rightarrow> int \<Rightarrow> coll_state" where
  "demo_start algo w tot = \<lparr> cbuf = (\<lambda>r x. 0), usend = (\<lambda>r x. word_of_int (16 * r + x mod 8 + 1)), urecv = (\<lambda>r x. 0),
     todo = (\<lambda>r. case demo_call algo w tot r of Inr (Some as) \<Rightarrow> as | _ \<Rightarrow> []), mail = (\<lambda>a b. []), raised = {} \<rparr>"

lemma demo_addresses: "distinct_addresses (demo_members w)"
proof -
  have "a = b" if "port_for a c = port_for b c" "a \<in> set (demo_members w)" "b \<in> set (demo_members w)" for a b c
    using that by (auto simp: demo_members_def demo_member_def port_for_def split: if_splits)
  then show ?thesis unfolding distinct_addresses_def by blast
qed

lemma demo_ranks: "ranks (demo_members 2) = {0, 1}" "ranks (demo_members 3) = {0, 1, 2}"
  by (auto simp: ranks_def demo_members_def)

lemma demo_groups2: "\<forall>r \<in> {0, 1}. new_Group (demo_members 2) r = Inr (demo_group 2 r)"
  by code_simp

lemma demo_groups3: "\<forall>r \<in> {0, 1, 2}. new_Group (demo_members 3) r = Inr (demo_group 3 r)"
  by code_simp

text \<open>With a positive chunk size a call that passes the checks has a list of calls.\<close>

lemma alltoall_called:
  assumes "0 < chunk" and "0 < g_world g" and "tot mod g_world g = 0" and "recv_base sb rb tot + tot \<le> have"
    and "pick_algo (g_world g) algo \<in> {''direct'', ''ring''}"
  shows "\<exists>as. alltoall g have tot tot algo conn sb rb chunk self = Inr (Some as)"
proof -
  let ?b = "tot div g_world g" and ?rb = "recv_base sb rb tot"
  have "\<exists>as. ring_step g sb ?rb ?b chunk conn s = Some as" for s
  proof -
    obtain F X where "ring_step g sb ?rb ?b chunk conn s = map_option X (chunked F ?b chunk 0)"
      unfolding ring_step_def Let_def by blast
    moreover obtain moves where "chunked F ?b chunk 0 = Some moves" using chunked_total [OF assms(1)] by blast
    ultimately show ?thesis by simp
  qed
  then have "\<forall>s \<in> set [1..g_world g - 1]. \<exists>as. ring_step g sb ?rb ?b chunk conn s = Some as" by (intro ballI)
  from those_total [OF this] obtain steps
    where "those (map (ring_step g sb ?rb ?b chunk conn) [1..g_world g - 1]) = Some steps" ..
  moreover obtain puts where "those (map (put_block g sb ?rb ?b chunk conn) [0..g_world g - 1]) = Some puts"
    by (rule put_blocks_some [OF assms(1)])
  ultimately show ?thesis using assms(2-5)
    by (auto simp: alltoall_def direct_alltoall_core_def ring_alltoall_core_def recv_base_def Let_def)
qed

lemma demo_pick: "pick_algo 2 ''auto'' = ''direct''" "pick_algo 3 ''ring'' = ''ring''"
  by code_simp+

lemma demo_length: "int (length (demo_members 2)) = 2" "int (length (demo_members 3)) = 3"
  by (simp_all add: demo_members_def)

lemma demo_calls:
  assumes "0 < w" and "tot mod w = 0" and "tot + tot \<le> 64" and "pick_algo w algo \<in> {''direct'', ''ring''}"
  shows "\<forall>r \<in> S. demo_call algo w tot r = Inr (Some (todo (demo_start algo w tot) r))"
proof
  fix r
  obtain as where "demo_call algo w tot r = Inr (Some as)"
    using alltoall_called [of 1 "demo_group w r" tot 0 None 64 algo None True] assms
    by (auto simp: demo_call_def demo_group_def recv_base_def)
  then show "demo_call algo w tot r = Inr (Some (todo (demo_start algo w tot) r))" by (simp add: demo_start_def)
qed

lemma demo_calls2: "\<forall>r \<in> {0, 1}. demo_call ''auto'' 2 4 r = Inr (Some (todo (demo_start ''auto'' 2 4) r))"
  by (rule demo_calls) (simp_all add: demo_pick)

lemma demo_calls3: "\<forall>r \<in> {0, 1, 2}. demo_call ''ring'' 3 3 r = Inr (Some (todo (demo_start ''ring'' 3 3) r))"
  by (rule demo_calls) (simp_all add: demo_pick)



text \<open>Three ranks start the ring, and rank 0 will not have the byte of rank 1.\<close>

theorem ring_alltoall_undelivered_witness:
  "\<not> (\<exists>s. (coll_step (demo_members 3))\<^sup>*\<^sup>* (demo_start ''ring'' 3 3) s \<and> urecv s 0 1 = 17)"
proof
  assume "\<exists>s. (coll_step (demo_members 3))\<^sup>*\<^sup>* (demo_start ''ring'' 3 3) s \<and> urecv s 0 1 = 17"
  then obtain s where "urecv s 0 1 = 17" and run: "(coll_step (demo_members 3))\<^sup>*\<^sup>* (demo_start ''ring'' 3 3) s" by blast
  have byte: "(17 :: u8) \<noteq> word_of_int (16 * r + x mod 8 + 1)" if "r \<in> {0, 2}" for r x :: int
  proof -
    have "0 \<le> x mod 8" "x mod 8 < 8" by simp_all
    then have "x mod 8 \<in> {0, 1, 2, 3, 4, 5, 6, 7}" by auto
    then show ?thesis using that by auto
  qed
  have "urecv s 0 (1 * 1 + 0) \<noteq> usend (demo_start ''ring'' 3 3) 1 (0 * 1 + 0)"
  proof (rule ring_alltoall_undelivered [of "demo_members 3" "demo_group 3" "\<lambda>_. 64" 3 "''ring''" None 0 None 1 True])
    show "\<forall>r \<in> ranks (demo_members 3). alltoall (demo_group 3 r) 64 3 3 ''ring'' None 0 None 1 True
        = Inr (Some (todo (demo_start ''ring'' 3 3) r))"
      using demo_calls3 unfolding demo_ranks demo_call_def .
    show "pick_algo (int (length (demo_members 3))) ''ring'' = ''ring''" unfolding demo_length by (rule demo_pick)
    have "prev_rank (demo_members 3) 0 = 2" by (simp add: prev_rank_def demo_length)
    then show "usend (demo_start ''ring'' 3 3) 1 (0 * 1 + 0) \<notin> range (urecv (demo_start ''ring'' 3 3) 0)
        \<union> own (demo_start ''ring'' 3 3) 0 \<union> own (demo_start ''ring'' 3 3) (prev_rank (demo_members 3) 0)"
      using byte [of 0] byte [of 2] by (auto simp: own_def demo_start_def)
  qed (use demo_groups3 demo_addresses run in \<open>simp_all add: demo_ranks disjoint_regions_def recv_base_def\<close>)
  with \<open>urecv s 0 1 = 17\<close> show False by (simp add: demo_start_def)
qed

end
