(* ===== verification/Hmc_SessionData.thy ===== *)
theory Hmc_SessionData
  imports Hmc_Session Hmc_PipelineData
begin

text \<open>
  A bulk transfer from the call in Python to the bytes: \<^verbatim>\<open>Session.put_pipeline\<close> and \<^verbatim>\<open>get_pipeline\<close> through the
  communicator, its table of connections and the RDMA endpoint to the memories of the two machines.
\<close>

section \<open>From the session to the endpoint\<close>

text \<open>A call on the RDMA connection to an address, when the connection exists and nothing of it is missing.\<close>

lemma with_conn_rdma:
  assumes "rdma_endpoint_map (conn_manager c) \<lparr> pk_ip = ip, pk_port = port \<rparr> = Some (Some q)"
    and "heap (conn_manager c) q = Some e"
    and run: "with_conn ip port RDMA () f c w = Ret ((st, ()), c', w')"
  shows "\<exists>e'. f q e w = Some ((st, ()), e', w')"
proof -
  have same: "(conn_manager c)\<lparr> heap := (heap (conn_manager c))(q \<mapsto> e) \<rparr> = conn_manager c"
    using assms(2) by (simp add: map_upd_triv)
  have chk: "checkConn ip port RDMA c w = Ret ((SUCCESS, ()), c, w)"
    using assms(1,2) same by (simp add: checkConn_def withEndpoint_def endpointMapFor_def deref_def)
  show ?thesis using run assms(1,2)
    by (auto simp: with_conn_def chk withEndpoint_def endpointMapFor_def deref_def split: option.splits prod.splits)
qed

lemma with_range_returns:
  assumes "with_range port lo ro n f s = Ret (Inr x, s')"
  shows "0 \<le> lo \<and> lo < 2 ^ 64 \<and> 0 \<le> ro \<and> ro < 2 ^ 64 \<and> 0 \<le> n \<and> n < 2 ^ 64
    \<and> f (word_of_int port) (word_of_int lo) (word_of_int ro) (word_of_int n) s = Ret (Inr x, s')"
  using assms by (auto simp: with_range_def require_port_def as_unsigned_def split: if_splits)

lemma py_value_returns:
  assumes "py_value f (c, m, w) = Ret (Inr x, (c', m', w'))"
  shows "f c w = Ret ((SUCCESS, x), c', w')"
  using assms by (auto simp: py_value_def ensure_ok_def split: run.splits prod.splits if_splits)

lemma sizes_returns:
  assumes "(case (as_unsigned cs, as_unsigned mi) of (Inr a, Inr b) \<Rightarrow> g a b | _ \<Rightarrow> Ret (Inl TypeError, s)) = Ret (Inr x, s')"
  shows "g (word_of_int cs) (word_of_int mi) = Ret (Inr x, s')"
  using assms by (auto simp: as_unsigned_def split: if_splits)

text \<open>What a bulk call that returned has handed to the endpoint.\<close>

lemma pipeline_call:
  assumes ep: "rdma_endpoint_map (conn_manager c) \<lparr> pk_ip = ip, pk_port = word_of_int port \<rparr> = Some (Some q)"
    "heap (conn_manager c) q = Some e" and r: "as_rdma C e = Some r"
  shows "put_pipeline C v env ip port lo ro n cs mi RDMA (c, m, w) = Ret (Inr (), (c', m', w')) \<Longrightarrow>
      \<exists>r'. writeDataPipeline v env r (word_of_int lo) (word_of_int ro) (word_of_int n) (word_of_int cs) (word_of_int mi) w
          = Some (SUCCESS, r', w')"
    and "get_pipeline C v env ip port lo ro n cs mi RDMA (c, m, w) = Ret (Inr (), (c', m', w')) \<Longrightarrow>
      \<exists>r'. readDataPipeline v env r (word_of_int lo) (word_of_int ro) (word_of_int n) (word_of_int cs) (word_of_int mi) w
          = Some (SUCCESS, r', w')"
proof -
  assume "put_pipeline C v env ip port lo ro n cs mi RDMA (c, m, w) = Ret (Inr (), (c', m', w'))"
  from with_range_returns [OF this [unfolded put_pipeline_def]]
  have "py_value (putPipeline C v env ip (word_of_int port) (word_of_int lo) (word_of_int ro) (word_of_int n) (word_of_int cs)
      (word_of_int mi) RDMA) (c, m, w) = Ret (Inr (), (c', m', w'))" by (elim conjE) (rule sizes_returns)
  from with_conn_rdma [OF ep py_value_returns [OF this, unfolded putPipeline_def]] r show
    "\<exists>r'. writeDataPipeline v env r (word_of_int lo) (word_of_int ro) (word_of_int n) (word_of_int cs) (word_of_int mi) w
          = Some (SUCCESS, r', w')" by auto
next
  assume "get_pipeline C v env ip port lo ro n cs mi RDMA (c, m, w) = Ret (Inr (), (c', m', w'))"
  from with_range_returns [OF this [unfolded get_pipeline_def]]
  have "py_value (getPipeline C v env ip (word_of_int port) (word_of_int lo) (word_of_int ro) (word_of_int n) (word_of_int cs)
      (word_of_int mi) RDMA) (c, m, w) = Ret (Inr (), (c', m', w'))" by (elim conjE) (rule sizes_returns)
  from with_conn_rdma [OF ep py_value_returns [OF this, unfolded getPipeline_def]] r show
    "\<exists>r'. readDataPipeline v env r (word_of_int lo) (word_of_int ro) (word_of_int n) (word_of_int cs) (word_of_int mi) w
          = Some (SUCCESS, r', w')" by auto
qed

lemma pipeline_ranges:
  assumes "put_pipeline C v env ip port lo ro n cs mi t s = Ret (Inr x, s') \<or> get_pipeline C v env ip port lo ro n cs mi t s = Ret (Inr x, s')"
    and "ro + n \<le> uint (len :: u32)" and "unat i + nat n < 2 ^ 56"
  shows "range_fits (word_of_int ro) (word_of_int n) (ucast len)" and "unat (i :: u64) + unat (word_of_int n :: size_t) < 2 ^ 56"
proof -
  have b: "0 \<le> ro \<and> ro < 2 ^ 64 \<and> 0 \<le> n \<and> n < 2 ^ 64" using assms(1)
  proof
    assume "put_pipeline C v env ip port lo ro n cs mi t s = Ret (Inr x, s')"
    from with_range_returns [OF this [unfolded put_pipeline_def]] show ?thesis by (elim conjE) (intro conjI)
  next
    assume "get_pipeline C v env ip port lo ro n cs mi t s = Ret (Inr x, s')"
    from with_range_returns [OF this [unfolded get_pipeline_def]] show ?thesis by (elim conjE) (intro conjI)
  qed
  have ro: "uint (word_of_int ro :: size_t) = ro" and n: "uint (word_of_int n :: size_t) = n"
    using b by (simp_all add: uint_word_of_int)
  have len: "uint (ucast len :: size_t) = uint len" by (rule uint_up_ucast) (simp add: is_up)
  have le: "uint (word_of_int ro :: size_t) + uint (word_of_int n :: size_t) \<le> uint (ucast len :: size_t)"
    unfolding ro n len by (rule assms(2))
  then show "range_fits (word_of_int ro) (word_of_int n) (ucast len)"
    unfolding range_fits_def by (simp only: uint_nat of_nat_add [symmetric] of_nat_le_iff)
  show "unat i + unat (word_of_int n :: size_t) < 2 ^ 56" using assms(3) unfolding unat_eq_nat_uint n .
qed

section \<open>The bytes\<close>

text \<open>C3: A bulk transfer of the Python session moves the bytes.  When \<^verbatim>\<open>put_pipeline\<close> over an existing RDMA connection
  returns without an exception, on an idle adapter with the guarantees of a reliable connection, and the endpoint
  uses one queue pair or signals every chunk, the range of the local buffer has been copied to the range of the
  peer and nothing else has changed; \<^verbatim>\<open>get_pipeline\<close> copies the other way.\<close>

theorem session_pipeline_delivers:
  assumes "rdma_memory v H L mem did ok" and "ok w" and "did w = L w" and "mset (H w) = mset (due (L w))"
    and "rdma_endpoint_map (conn_manager cm) \<lparr> pk_ip = ip, pk_port = word_of_int port \<rparr> = Some (Some q)"
    and "heap (conn_manager cm) q = Some e" and "as_rdma C e = Some r"
    and "num_qps r \<le> 1 \<or> num_qps r \<le> 256 \<and> pl_signal (pipe_of env r (word_of_int lo) (word_of_int ro) (word_of_int n)
           (word_of_int cs) (word_of_int mi)) \<le> 1"
    and "ro + n \<le> uint (ra_length (remote_metadata_attr r))" and "next_wr_id r \<noteq> 0"
    and "unat (next_wr_id r) + nat n < 2 ^ 56" and "\<forall>i \<in> completed_wr_ids r. unat i < unat (next_wr_id r) * 256"
    and "lb = ptr (ep_buffer r) + word_of_int lo" and "rb = ra_address (remote_metadata_attr r) + word_of_int ro"
  shows "(put_pipeline C v env ip port lo ro n cs mi RDMA (cm, m, w) = Ret (Inr (), (cm', m', w')) \<longrightarrow>
        mem w' = (fst (mem w), dma_copy (fst (mem w)) lb (snd (mem w)) rb (word_of_int n)))
    \<and> (get_pipeline C v env ip port lo ro n cs mi RDMA (cm, m, w) = Ret (Inr (), (cm', m', w')) \<longrightarrow>
        mem w' = (dma_copy (snd (mem w)) rb (fst (mem w)) lb (word_of_int n), snd (mem w)))"
proof (intro conjI impI)
  note call = pipeline_call [OF assms(5-7)]
  assume p: "put_pipeline C v env ip port lo ro n cs mi RDMA (cm, m, w) = Ret (Inr (), (cm', m', w'))"
  note rg = pipeline_ranges [OF disjI1 [OF p] assms(9,11)]
  show "mem w' = (fst (mem w), dma_copy (fst (mem w)) lb (snd (mem w)) rb (word_of_int n))"
    using call(1) [OF p] pipeline_moved [OF assms(1-4,8) rg(1) assms(10) rg(2) assms(12)] unfolding assms(13,14) by blast
next
  note call = pipeline_call [OF assms(5-7)]
  assume p: "get_pipeline C v env ip port lo ro n cs mi RDMA (cm, m, w) = Ret (Inr (), (cm', m', w'))"
  note rg = pipeline_ranges [OF disjI2 [OF p] assms(9,11)]
  show "mem w' = (dma_copy (snd (mem w)) rb (fst (mem w)) lb (word_of_int n), snd (mem w))"
    using call(2) [OF p] pipeline_moved [OF assms(1-4,8) rg(1) assms(10) rg(2) assms(12)] unfolding assms(13,14) by blast
qed

text \<open>Two chunks of four bytes through a session.\<close>

definition demo_session_comm :: "RDMAEndpoint Communicator" where
  "demo_session_comm = (new_Communicator demo_buffer)\<lparr> conn_manager := demo_table \<rparr>"

lemma demo_session_table:
  "rdma_endpoint_map demo_table \<lparr> pk_ip = ''h'', pk_port = 5 \<rparr> = Some (Some 0)" "heap demo_table 0 = Some demo_endpoint"
  by (simp_all add: demo_table_def addEndpoint_def new_ConnManager_def endpointMapFor_def alloc_def set_map_def
      Let_def reset_ptr_def)

theorem session_pipeline_delivers_witness:
  "\<exists>c' m w'. put_pipeline demo_class nic_verbs (\<lambda>_. None) ''h'' 5 0 0 8 4 64 RDMA (demo_session_comm, m, demo_nic)
      = Ret (Inr (), (c', m, w'))
    \<and> rmem w' = dma_copy (lmem demo_nic) 4096 (rmem demo_nic) 8192 8"
proof -
  obtain e' w' where r: "writeDataPipeline nic_verbs (\<lambda>_. None) demo_endpoint 0 0 8 4 64 demo_nic = Some (SUCCESS, e', w')"
    using demo_write_ok by (auto split: option.splits prod.splits)
  have cl: "as_rdma demo_class e = Some e" "of_rdma demo_class e = e" for e by (simp_all add: demo_class_def rdma_class_def)
  have same: "demo_table\<lparr> heap := (heap demo_table)(0 \<mapsto> demo_endpoint) \<rparr> = demo_table"
    using demo_session_table(2) by (simp add: map_upd_triv)
  fix m
  obtain c' where run: "put_pipeline demo_class nic_verbs (\<lambda>_. None) ''h'' 5 0 0 8 4 64 RDMA (demo_session_comm, m, demo_nic)
      = Ret (Inr (), (c', m, w'))"
    by (simp add: put_pipeline_def with_range_def require_port_def as_unsigned_def py_value_def putPipeline_def with_conn_def
        checkConn_def withEndpoint_def endpointMapFor_def deref_def ensure_ok_def demo_session_comm_def demo_session_table same cl r)
  have i: "nic_sound demo_nic" "performed demo_nic = posted demo_nic" "mset (delivered demo_nic) = mset (due (posted demo_nic))"
    by (simp_all add: nic_sound_def demo_nic_def due_def)
  have tb: "rdma_endpoint_map (conn_manager demo_session_comm) \<lparr> pk_ip = ''h'', pk_port = word_of_int 5 \<rparr> = Some (Some 0)"
    "heap (conn_manager demo_session_comm) 0 = Some demo_endpoint"
    by (simp_all add: demo_session_comm_def demo_session_table)
  have e: "num_qps demo_endpoint \<le> 1" "0 + 8 \<le> uint (ra_length (remote_metadata_attr demo_endpoint))"
    "next_wr_id demo_endpoint \<noteq> 0" "unat (next_wr_id demo_endpoint) + nat 8 < 2 ^ 56"
    "\<forall>i \<in> completed_wr_ids demo_endpoint. unat i < unat (next_wr_id demo_endpoint) * 256"
    "ptr (ep_buffer demo_endpoint) = 4096" "ra_address (remote_metadata_attr demo_endpoint) = 8192"
    by (simp_all add: demo_endpoint_def new_RDMAEndpoint_def Let_def demo_buffer_def empty_attr_def)
  note d = session_pipeline_delivers [OF nic_data.rdma_memory_axioms i tb cl(1) disjI1 [OF e(1)] e(2-5) refl refl,
      THEN conjunct1, rule_format, OF run]
  have "rmem w' = dma_copy (lmem demo_nic) 4096 (rmem demo_nic) 8192 8"
    using arg_cong [OF d, of snd] unfolding e(6,7) nic_mem_def by simp
  with run show ?thesis by blast
qed

end
