(* ===== verification/Hmc_Log.thy ===== *)
theory Hmc_Log
  imports Hmc_Env
begin

text \<open>
  Logging (src/utils/log.h).  A stream is the list of the lines written to it; the text of a message is the
  result of \<^verbatim>\<open>snprintf\<close> before it is cut, \<open>None\<close> for a format it rejects.
\<close>

section \<open>The logger\<close>

text \<open>\<open>debug_flag\<close> is the static variable of \<^verbatim>\<open>debug_enabled\<close>, \<open>None\<close> before its first use.\<close>

record log_state =
  to_cout :: "string list"
  to_cerr :: "string list"
  debug_flag :: "bool option"

definition log_line :: "string \<Rightarrow> string \<Rightarrow> string" where
  "log_line level msg = ''['' @ level @ ''] '' @ msg"

definition read_debug_flag :: "environ \<Rightarrow> bool" where
  "read_debug_flag env =
    (case env ''HMC_LOG_DEBUG'' of
       None \<Rightarrow> False
     | Some v \<Rightarrow> v \<in> {''1'', ''true'', ''TRUE'', ''on'', ''ON''})"

definition debug_enabled :: "environ \<Rightarrow> log_state \<Rightarrow> bool \<times> log_state" where
  "debug_enabled env L =
    (case debug_flag L of
       Some b \<Rightarrow> (b, L)
     | None \<Rightarrow> (read_debug_flag env, L\<lparr> debug_flag := Some (read_debug_flag env) \<rparr>))"

text \<open>The buffer has 1024 bytes with the terminator.\<close>

definition log_buffer :: "string \<Rightarrow> string" where
  "log_buffer msg = take 1023 msg"

definition logError :: "string option \<Rightarrow> log_state \<Rightarrow> log_state" where
  "logError text L =
    (case text of None \<Rightarrow> L | Some t \<Rightarrow> L\<lparr> to_cerr := to_cerr L @ [log_line ''ERROR'' (log_buffer t)] \<rparr>)"

definition logDebug :: "environ \<Rightarrow> string option \<Rightarrow> log_state \<Rightarrow> log_state" where
  "logDebug env text L =
    (case debug_enabled env L of (on, L1) \<Rightarrow>
       if on then (case text of None \<Rightarrow> L1 | Some t \<Rightarrow> L1\<lparr> to_cerr := to_cerr L1 @ [log_line ''DEBUG'' (log_buffer t)] \<rparr>)
       else L1)"

definition logInfo :: "string option \<Rightarrow> log_state \<Rightarrow> log_state" where
  "logInfo text L =
    (case text of None \<Rightarrow> L | Some t \<Rightarrow> L\<lparr> to_cout := to_cout L @ [log_line ''INFO'' (log_buffer t)] \<rparr>)"

section \<open>What it promises\<close>

text \<open>Lines are only ever added, and none is longer than the buffer and its prefix.\<close>

definition log_grows :: "log_state \<Rightarrow> log_state \<Rightarrow> bool" where
  "log_grows L L' \<longleftrightarrow> (\<exists>o' e'. to_cout L' = to_cout L @ o' \<and> to_cerr L' = to_cerr L @ e'
    \<and> (\<forall>x \<in> set (o' @ e'). length x \<le> 1023 + 8))"

lemma log_line_length: "length level \<le> 5 \<Longrightarrow> length (log_line level (log_buffer t)) \<le> 1023 + 8"
  by (simp add: log_line_def log_buffer_def)

lemma log_grows:
  "log_grows L (logError text L)" "log_grows L (logInfo text L)" "log_grows L (logDebug env text L)"
  using log_line_length [of "''ERROR''"] log_line_length [of "''INFO''"] log_line_length [of "''DEBUG''"]
  by (auto simp: log_grows_def logError_def logInfo_def logDebug_def debug_enabled_def split: option.split)

text \<open>The setting is read once: after the first debug message the environment no longer matters.\<close>

lemma debug_read_once: "logDebug env' t' (logDebug env t L) = logDebug env t' (logDebug env t L)"
  by (auto simp: logDebug_def debug_enabled_def split: option.splits)

lemma debug_follows_environment:
  assumes "debug_flag L = None"
  shows "to_cerr (logDebug env (Some t) L) = to_cerr L @ (if read_debug_flag env then [log_line ''DEBUG'' (log_buffer t)] else [])"
  using assms by (simp add: logDebug_def debug_enabled_def)

end
