(* ===== verification/Hmc_Tools.thy ===== *)
theory Hmc_Tools
  imports Hmc_Memory
begin

text \<open>
  The stand-alone check of GPUDirect registration (apps/mem/main.cpp) and the unit tests of the host back end
  (tests/mem/host_memory_test.cpp).  A test is a function to a flag that says whether all its expectations hold.
\<close>

section \<open>apps/mem/main.cpp\<close>

text \<open>The calls of the program, each with the code or pointer it returns; the null pointer is \<open>None\<close>.\<close>

record 'w mr_calls =
  mr_cudaSetDevice :: "int \<Rightarrow> 'w \<Rightarrow> bool \<times> 'w"
  mr_cudaFree :: "addr \<Rightarrow> 'w \<Rightarrow> bool \<times> 'w"
  mr_cudaGetDevice :: "'w \<Rightarrow> int option \<times> 'w"
  mr_cudaGetDeviceProperties :: "int \<Rightarrow> 'w \<Rightarrow> bool \<times> 'w"
  mr_cudaDeviceGetPCIBusId :: "int \<Rightarrow> 'w \<Rightarrow> bool \<times> 'w"
  mr_cudaMalloc :: "size_t \<Rightarrow> 'w \<Rightarrow> addr option \<times> 'w"
  mr_get_device_list :: "'w \<Rightarrow> (addr \<times> addr list) option \<times> 'w"
  mr_open_device :: "addr \<Rightarrow> 'w \<Rightarrow> addr option \<times> 'w"
  mr_alloc_pd :: "addr \<Rightarrow> 'w \<Rightarrow> addr option \<times> 'w"
  mr_reg_mr :: "addr \<Rightarrow> addr \<Rightarrow> size_t \<Rightarrow> nat \<Rightarrow> 'w \<Rightarrow> addr option \<times> 'w"
  mr_dereg_mr :: "addr \<Rightarrow> 'w \<Rightarrow> 'w"
  mr_dealloc_pd :: "addr \<Rightarrow> 'w \<Rightarrow> 'w"
  mr_close_device :: "addr \<Rightarrow> 'w \<Rightarrow> 'w"
  mr_free_device_list :: "addr \<Rightarrow> 'w \<Rightarrow> 'w"

text \<open>\<^verbatim>\<open>CHECK_CUDA\<close> ends the process; so does a call that returns nothing usable.\<close>

definition check_cuda :: "bool \<times> 'w \<Rightarrow> ('w \<Rightarrow> int \<times> 'w) \<Rightarrow> int \<times> 'w" where
  "check_cuda r f = (if fst r then f (snd r) else (1, snd r))"

definition need :: "'a option \<times> 'w \<Rightarrow> ('a \<Rightarrow> 'w \<Rightarrow> int \<times> 'w) \<Rightarrow> int \<times> 'w" where
  "need r f = (case fst r of None \<Rightarrow> (1, snd r) | Some x \<Rightarrow> f x (snd r))"

text \<open>Local write, remote read and remote write.\<close>

definition mr_access :: nat where
  "mr_access = 1 + 4 + 2"

definition mem_register :: "'w mr_calls \<Rightarrow> addr \<Rightarrow> size_t \<Rightarrow> addr \<times> addr list \<Rightarrow> 'w \<Rightarrow> int \<times> 'w" where
  "mem_register M gpu_buf buf_size dl w =
    (case dl of
       (dev_list, []) \<Rightarrow> (1, w)
     | (dev_list, d # _) \<Rightarrow>
         need (mr_open_device M d w) (\<lambda>ctx w.
         need (mr_alloc_pd M ctx w) (\<lambda>pd w.
         need (mr_reg_mr M pd gpu_buf buf_size mr_access w) (\<lambda>mr w.
         check_cuda (mr_cudaFree M gpu_buf
             (mr_free_device_list M dev_list (mr_close_device M ctx (mr_dealloc_pd M pd (mr_dereg_mr M mr w))))) (\<lambda>w. (0, w))))))"

definition mem_main :: "'w mr_calls \<Rightarrow> 'w \<Rightarrow> int \<times> 'w" where
  "mem_main M w =
    (let buf_size = 128 * 1024 * 1024 in
     check_cuda (mr_cudaSetDevice M 6 w) (\<lambda>w.
     check_cuda (mr_cudaFree M 0 w) (\<lambda>w.
     need (mr_cudaGetDevice M w) (\<lambda>dev w.
     check_cuda (mr_cudaGetDeviceProperties M dev w) (\<lambda>w.
     check_cuda (mr_cudaDeviceGetPCIBusId M dev w) (\<lambda>w.
     need (mr_cudaMalloc M buf_size w) (\<lambda>gpu_buf w.
     need (mr_get_device_list M w) (\<lambda>dl w. mem_register M gpu_buf buf_size dl w))))))))"

text \<open>The program reports success only if the region was registered, and then it has released what it had
  acquired, each once and in the reverse order.\<close>

lemma check_cuda_0: "check_cuda r f = (0, w') \<longleftrightarrow> fst r \<and> f (snd r) = (0, w')"
  by (simp add: check_cuda_def)

lemma need_0: "need r f = (0, w') \<longleftrightarrow> (\<exists>x. fst r = Some x \<and> f x (snd r) = (0, w'))"
  by (cases "fst r") (simp_all add: need_def)

lemma mem_register_success:
  assumes "mem_register M buf n dl w = (0, w')"
  shows "\<exists>w1 w2 pd mr ctx. mr_reg_mr M pd buf n mr_access w1 = (Some mr, w2)
    \<and> mr_cudaFree M buf (mr_free_device_list M (fst dl) (mr_close_device M ctx (mr_dealloc_pd M pd (mr_dereg_mr M mr w2)))) = (True, w')"
proof -
  obtain lst d ds where dl: "dl = (lst, d # ds)" using assms by (auto simp: mem_register_def split: prod.splits list.splits)
  obtain ctx w0 where o: "mr_open_device M d w = (Some ctx, w0)" using assms
    by (cases "mr_open_device M d w") (auto simp: mem_register_def dl need_def split: option.splits)
  obtain pd w1 where p: "mr_alloc_pd M ctx w0 = (Some pd, w1)" using assms
    by (cases "mr_alloc_pd M ctx w0") (auto simp: mem_register_def dl need_def o split: option.splits)
  obtain mr w2 where r: "mr_reg_mr M pd buf n mr_access w1 = (Some mr, w2)" using assms
    by (cases "mr_reg_mr M pd buf n mr_access w1") (auto simp: mem_register_def dl need_def o p split: option.splits)
  let ?free = "mr_cudaFree M buf (mr_free_device_list M lst (mr_close_device M ctx (mr_dealloc_pd M pd (mr_dereg_mr M mr w2))))"
  have "?free = (True, w')" using assms by (cases ?free) (simp add: mem_register_def dl need_def o p r check_cuda_0)
  with r show ?thesis unfolding dl fst_conv by blast
qed

lemma mem_main_success:
  assumes "mem_main M w = (0, w')"
  shows "\<exists>buf dl w0. mem_register M buf (128 * 1024 * 1024) dl w0 = (0, w')"
  using assms unfolding mem_main_def Let_def check_cuda_0 need_0 by blast

section \<open>tests/mem/host\_memory\_test.cpp\<close>

text \<open>The arrays of a test are at addresses \<open>src\<close> and \<open>dst\<close> of the stack; \<open>hello\<close> is the string with its
  terminator.\<close>

definition hello :: "u8 list" where
  "hello = [72, 101, 108, 108, 111, 44, 32, 87, 111, 114, 108, 100, 33, 0]"

definition test_arrays :: "addr \<Rightarrow> addr \<Rightarrow> 'hw machine \<Rightarrow> 'hw machine" where
  "test_arrays src dst m = m\<lparr> ram := write_bytes dst (replicate 20 0) (write_bytes src hello (ram m)) \<rparr>"

text \<open>\<^verbatim>\<open>SetUp\<close>: the fixture has a \<^verbatim>\<open>Memory\<close> of the host; a test that cannot be set up fails.\<close>

definition with_host_mem :: "'hw platform \<Rightarrow> (Memory \<Rightarrow> 'hw machine \<Rightarrow> bool) \<Rightarrow> 'hw machine \<Rightarrow> bool" where
  "with_host_mem p test m =
    (case setDeviceIdAndMemoryType p 0 CPU m of (Return (_, mo), m1) \<Rightarrow> test mo m1 | _ \<Rightarrow> False)"

definition AllocateAndFreeBuffer :: "'hw platform \<Rightarrow> Memory \<Rightarrow> 'hw machine \<Rightarrow> bool" where
  "AllocateAndFreeBuffer p mo m =
    (case Memory_allocateBuffer p mo 1024 m of ((st, addr, mo1), m1) \<Rightarrow>
       st = SUCCESS \<and> (case addr of None \<Rightarrow> False | Some a \<Rightarrow> a \<noteq> 0 \<and> fst (Memory_freeBuffer p mo1 a m1) = SUCCESS))"

definition FreeBuffer_Nullptr :: "'hw platform \<Rightarrow> Memory \<Rightarrow> 'hw machine \<Rightarrow> bool" where
  "FreeBuffer_Nullptr p mo m \<longleftrightarrow> fst (Memory_freeBuffer p mo 0 m) = ERROR"

text \<open>The three copies are tested alike: a copy of the string arrives, and a null pointer on either side is an
  error.\<close>

definition copy_happy :: "(addr \<Rightarrow> addr \<Rightarrow> size_t \<Rightarrow> ('hw, status_t) call) \<Rightarrow> addr \<Rightarrow> addr \<Rightarrow> 'hw machine \<Rightarrow> bool" where
  "copy_happy copy src dst m =
    (case copy dst src 14 (test_arrays src dst m) of (st, m1) \<Rightarrow> st = SUCCESS \<and> read_bytes (ram m1) dst 14 = hello)"

definition copy_nullptr :: "(addr \<Rightarrow> addr \<Rightarrow> size_t \<Rightarrow> ('hw, status_t) call) \<Rightarrow> addr \<Rightarrow> addr \<Rightarrow> 'hw machine \<Rightarrow> bool" where
  "copy_nullptr copy src dst m =
    (case copy 0 src 14 (test_arrays src dst m) of (st, m1) \<Rightarrow> st = ERROR \<and> fst (copy dst 0 14 m1) = ERROR)"

definition CopyHostToDevice_HappyPath where
  "CopyHostToDevice_HappyPath p src dst mo = copy_happy (Memory_copyHostToDevice p mo) src dst"

definition CopyHostToDevice_Nullptr where
  "CopyHostToDevice_Nullptr p src dst mo = copy_nullptr (Memory_copyHostToDevice p mo) src dst"

definition CopyDeviceToHost_HappyPath where
  "CopyDeviceToHost_HappyPath p src dst mo = copy_happy (Memory_copyDeviceToHost p mo) src dst"

definition CopyDeviceToHost_Nullptr where
  "CopyDeviceToHost_Nullptr p src dst mo = copy_nullptr (Memory_copyDeviceToHost p mo) src dst"

definition CopyDeviceToDevice_HappyPath where
  "CopyDeviceToDevice_HappyPath p src dst mo = copy_happy (Memory_copyDeviceToDevice p mo) src dst"

definition CopyDeviceToDevice_Nullptr where
  "CopyDeviceToDevice_Nullptr p src dst mo = copy_nullptr (Memory_copyDeviceToDevice p mo) src dst"

definition host_tests :: "'hw platform \<Rightarrow> addr \<Rightarrow> addr \<Rightarrow> (Memory \<Rightarrow> 'hw machine \<Rightarrow> bool) list" where
  "host_tests p src dst = [AllocateAndFreeBuffer p, FreeBuffer_Nullptr p,
     CopyHostToDevice_HappyPath p src dst, CopyHostToDevice_Nullptr p src dst,
     CopyDeviceToHost_HappyPath p src dst, CopyDeviceToHost_Nullptr p src dst,
     CopyDeviceToDevice_HappyPath p src dst, CopyDeviceToDevice_Nullptr p src dst]"

text \<open>The tests hold of the model, whatever the build: when memory can be allocated and the two arrays of the
  stack do not overlap.\<close>

lemma hello_there:
  assumes "ranges_disjoint src 14 dst 20"
  shows "read_bytes (ram (test_arrays src dst m)) src 14 = hello"
proof (rule nth_equalityI)
  fix i assume "i < length (read_bytes (ram (test_arrays src dst m)) src 14)"
  then have i: "i < unat (14 :: size_t)" by simp
  then have "in_range (src + of_nat i) src 14" by (rule in_range_offset)
  then have "\<not> in_range (src + of_nat i) dst 20" using assms by (auto simp: ranges_disjoint_def)
  then have far: "\<not> unat (src + of_nat i - dst) < 20" by (simp add: in_range_def word_less_nat_alt)
  have "unat (of_nat i :: addr) = i" using i by (simp add: unat_of_nat)
  then show "read_bytes (ram (test_arrays src dst m)) src 14 ! i = hello ! i"
    using i far by (simp add: test_arrays_def write_bytes_def hello_def)
qed (simp add: hello_def)

definition host_copy :: "(addr \<Rightarrow> addr \<Rightarrow> size_t \<Rightarrow> ('hw, status_t) call) \<Rightarrow> bool" where
  "host_copy copy \<longleftrightarrow> (\<forall>d s n m. copy d s n m = (if d = 0 \<or> s = 0 then (ERROR, m) else (SUCCESS, m\<lparr>ram := memcpy d s n (ram m)\<rparr>)))"

lemma host_copy_tests:
  assumes "host_copy copy" and "ranges_disjoint src 14 dst 20" and "src \<noteq> 0" and "dst \<noteq> 0"
  shows "copy_happy copy src dst m" "copy_nullptr copy src dst m"
proof -
  have "read_bytes (memcpy dst src 14 (ram (test_arrays src dst m))) dst (unat (14 :: size_t)) = hello"
    unfolding read_memcpy using hello_there [OF assms(2)] by simp
  then show "copy_happy copy src dst m" using assms by (simp add: copy_happy_def host_copy_def)
  show "copy_nullptr copy src dst m" using assms(1) by (simp add: copy_nullptr_def host_copy_def)
qed

lemma host_tests_pass:
  assumes "\<And>n m. fst (op_new (lc p) n m) \<noteq> 0" and arr: "ranges_disjoint src 14 dst 20" "src \<noteq> 0" "dst \<noteq> 0"
    and t: "test \<in> set (host_tests p src dst)"
  shows "with_host_mem p test m"
proof -
  obtain st mo where mo: "setDeviceIdAndMemoryType p 0 CPU m = (Return (st, mo), m)"
    and cl': "memoryClass mo = Some (HostMemory (new_MemoryBase 0 CPU))"
    by (auto simp: setDeviceIdAndMemoryType_def createMemoryClass_def construct_def HostMemory_init_def Memory_class_def Let_def)
  then have cl: "Memory_class mo = HostMemory (new_MemoryBase 0 CPU)" by (simp add: Memory_class_def)
  have copies: "host_copy (Memory_copyHostToDevice p mo)" "host_copy (Memory_copyDeviceToHost p mo)"
    "host_copy (Memory_copyDeviceToDevice p mo)"
    by (simp_all add: host_copy_def cl Memory_copyHostToDevice_def Memory_copyDeviceToHost_def Memory_copyDeviceToDevice_def
        HostMemory_copyHostToDevice_def HostMemory_copyDeviceToHost_def HostMemory_copyDeviceToDevice_def)
  obtain a m1 where al: "op_new (lc p) 1024 m = (a, m1)" "a \<noteq> 0" using assms(1) [of 1024 m] by (cases "op_new (lc p) 1024 m") auto
  have "AllocateAndFreeBuffer p mo m"
    using al by (simp add: AllocateAndFreeBuffer_def Memory_allocateBuffer_def Memory_freeBuffer_def cl HostMemory_allocateBuffer_def
        HostMemory_freeBuffer_def) (simp add: Memory_class_def HostMemory_freeBuffer_def)
  moreover have "FreeBuffer_Nullptr p mo m"
    by (simp add: FreeBuffer_Nullptr_def Memory_freeBuffer_def cl HostMemory_freeBuffer_def)
  moreover have "copy_happy (Memory_copyHostToDevice p mo) src dst m" "copy_nullptr (Memory_copyHostToDevice p mo) src dst m"
    "copy_happy (Memory_copyDeviceToHost p mo) src dst m" "copy_nullptr (Memory_copyDeviceToHost p mo) src dst m"
    "copy_happy (Memory_copyDeviceToDevice p mo) src dst m" "copy_nullptr (Memory_copyDeviceToDevice p mo) src dst m"
    using host_copy_tests [OF copies(1) arr] host_copy_tests [OF copies(2) arr] host_copy_tests [OF copies(3) arr] by blast+
  ultimately show ?thesis
    using t by (auto simp: with_host_mem_def mo host_tests_def CopyHostToDevice_HappyPath_def CopyHostToDevice_Nullptr_def
        CopyDeviceToHost_HappyPath_def CopyDeviceToHost_Nullptr_def CopyDeviceToDevice_HappyPath_def CopyDeviceToDevice_Nullptr_def)
qed

end
