(* ===== verification/Spec2Isabelle.thy ===== *)
theory Spec2Isabelle
  imports Hmc_Pipeline Hmc_UhmSafety Hmc_CommProps Hmc_ConnRace Hmc_RdmaBalance Hmc_UcxProps Hmc_MemoryProps
    Hmc_Driver Hmc_AppProps Hmc_AppSlices Hmc_Python Hmc_P2pData Hmc_UcxShare Hmc_PipelineData
    Hmc_Collective Hmc_SessionData Hmc_Log Hmc_Tools
begin

text \<open>
  HMC (Heterogeneous Memories Communication): a verification library for the C++ sources under src/.

  \<^bold>\<open>The program.\<close>  HMC moves bytes between memories of different kinds on one or two machines.  A
  \<^verbatim>\<open>ConnBuffer\<close> is a block of host or accelerator memory obtained from a \<^verbatim>\<open>Memory\<close> back end.  A
  \<^verbatim>\<open>Communicator\<close> owns a buffer and a \<^verbatim>\<open>ConnManager\<close>, whose tables hold one \<^verbatim>\<open>Endpoint\<close> per peer and
  kind of connection: \<^verbatim>\<open>RDMAEndpoint\<close> over verbs, \<^verbatim>\<open>UCXEndpoint\<close> over UCP, and \<^verbatim>\<open>P2pEndpoint\<close> over exported
  memory handles on one host.  Beside the data connections \<^verbatim>\<open>CtrlSocketManager\<close> keeps one stream socket
  per rank for control messages.  Two benchmark programs use all of it.

  \<^bold>\<open>Theories and sources.\<close>
  \<^item> \<open>Hmc_Prelude\<close>: machine integers (\<^verbatim>\<open>size_t\<close> is a 64-bit word), the flat byte memory with
    \<^verbatim>\<open>memcpy\<close> and \<^verbatim>\<open>memmove\<close>, little-endian layouts, and the lemmas all components share.
  \<^item> \<open>Hmc_Types\<close>: include/status.h, the enumerations and the build switches (\<open>build\<close>), \<open>outcome\<close>: a result,
    an exception or the end of the process.
  \<^item> \<open>Hmc_Env\<close>: utils/env.h and the reading of settings.
  \<^item> \<open>Hmc_Gpu\<close>: resource_manager/gpu_interface.cpp; the vendors' run times are records of functions.
  \<^item> \<open>Hmc_Driver\<close>: resource_manager/driver_manager_gpu.cpp and driver_manager_rdma.cpp.
  \<^item> \<open>Hmc_Memory\<close>, \<open>Hmc_MemoryProps\<close>: memories/ and include/mem.h.  A class is a constructor of
    \<open>MemoryClass\<close>, a virtual call a \<open>fun\<close> over it.
  \<^item> \<open>Hmc_ConnBuffer\<close>: network/conn_buffer.cpp.
  \<^item> \<open>Hmc_RdmaEndpoint\<close>, \<open>Hmc_RdmaWait\<close>, \<open>Hmc_Pipeline\<close>, \<open>Hmc_PipelineData\<close>: one-sided operations, completions and bulk
    transfers of network/rdma_endpoint.cpp; \<open>Hmc_Nic\<close> has the laws assumed of an adapter and an adapter that
    has them.
  \<^item> \<open>Hmc_Uhm\<close>, \<open>Hmc_UhmSafety\<close>: \<^verbatim>\<open>uhm_send\<close> and \<^verbatim>\<open>uhm_recv\<close> of the same file, as two processes over shared
    registered memory, one step per access to it.
  \<^item> \<open>Hmc_RdmaSetup\<close>, \<open>Hmc_RdmaMeta\<close>, \<open>Hmc_RdmaConnect\<close>: queue pairs, registration and cleanup, the exchange
    of metadata, \<^verbatim>\<open>RDMAClient\<close> and \<^verbatim>\<open>RDMAServer\<close> (network/rdma_client.cpp, rdma_server.cpp, utils/signal.cpp);
    \<open>Hmc_RdmaObjects\<close> and \<open>Hmc_RdmaBalance\<close>: who owns which verbs object.
  \<^item> \<open>Hmc_Ctrl\<close>, \<open>Hmc_CtrlStream\<close>, \<open>Hmc_CtrlConn\<close>: network/socket_ctrl.cpp over parametric sockets.
  \<^item> \<open>Hmc_ConnManager\<close>, \<open>Hmc_ConnRace\<close>: network/net.h and conn_manager.cpp.
  \<^item> \<open>Hmc_Ucx\<close>, \<open>Hmc_UcxProps\<close>, \<open>Hmc_UcxShare\<close>: network/ucx_endpoint.cpp, ucx_client.cpp, ucx_server.cpp.
  \<^item> \<open>Hmc_P2p\<close>, \<open>Hmc_P2pData\<close>: network/p2p/.
  \<^item> \<open>Hmc_Communicator\<close>, \<open>Hmc_CommProps\<close>: network/communicator.cpp; \<open>hmc_class\<close> joins the endpoint classes.
  \<^item> \<open>Hmc_App\<close>, \<open>Hmc_AppServer\<close>, \<open>Hmc_AppProps\<close>, \<open>Hmc_AppSlices\<close>: apps/uhm_app/client.cpp and server.cpp.
  \<^item> \<open>Hmc_Python\<close>: the parts of python/hmc_py.cpp that have code of their own; \<open>Hmc_Session\<close>: \<^verbatim>\<open>Session\<close> and
    \<^verbatim>\<open>IOBuffer\<close> of hmc/__init__.py over them; \<open>Hmc_Collective\<close>: groups and the all-to-all of hmc/collective.py;
    \<open>Hmc_SessionData\<close>: a bulk transfer from the call in Python to the bytes.
  \<^item> \<open>Hmc_Log\<close>: utils/log.h; \<open>Hmc_Tools\<close>: apps/mem/main.cpp and tests/mem/host_memory_test.cpp.

  \<^bold>\<open>State.\<close>  An object is a record with the source's members, passed and returned.  What lies outside the
  program (adapter, sockets, UCP, run times, clock) is a type variable \<open>'w\<close> with a record of functions over
  it.  Endpoint objects live in the field \<open>heap\<close> of the manager, a table from pointers to objects, because
  the tables, callers and requests in flight share them; a pointer is never used twice, so a dangling pointer stays
  one and dereferencing it is \<open>Fault\<close>.

  \<^bold>\<open>Interfaces.\<close>  What a component relies on is a locale, interpreted on a world of the development:
  \<open>device_copy\<close> (a null-checked copy), \<open>cq_history\<close>, \<open>timed_cq\<close>, \<open>post_log\<close> and \<open>verbs_log\<close> (completion
  queues and posting), \<open>pipeline_poster\<close> (what the pipelines need of a posting function), \<open>rdma_memory\<close> (what a reliable
  connection does with posted requests), \<open>rdma_objects\<close> and
  \<open>rdma_host\<close> (verbs objects), \<open>byte_stream\<close> and \<open>duplex\<close> (sockets as streams), \<open>fd_table\<close> (descriptors),
  \<open>ucp_requests\<close> and \<open>ucp_objects\<close> (UCP), \<open>ipc_mappings\<close> and \<open>p2p_runtimes\<close> (mapped handles), \<open>ipc_memory\<close> (the
  memory behind a handle), \<open>device_contexts\<close> (opened devices).

  \<^bold>\<open>What is shown.\<close>
  \<^item> Data: bytes written to a buffer come back, moves within it are memmoves, and exactly which ranges the
    64-bit checks let through; a \<^verbatim>\<open>Memory\<close> object always has the back end of its type.
  \<^item> RDMA: pipelines post exactly the requested range in the reference chunks, wait for all of it and
    return, and one that succeeds has moved the bytes; the two waiting routines account for every completion; set-up and tear-down release each
    verbs object once; the metadata exchange agrees.
  \<^item> UHM: under every interleaving a receiver that returns has the message when the sender waits for each
    flag; with the built-in settings it need not, and a run can hang.
  \<^item> Control plane: messages form a first-in first-out queue over any segmentation of the stream, the open
    descriptors are those recorded, the first connection to a rank wins, and crossing dials sever it.
  \<^item> Connection manager and communicator: the tables own the live endpoints, locking excludes use after
    free except for replacement, and what connecting, waiting and disconnecting leave behind.
  \<^item> UCX: the handshake agrees, waiting for several requests releases exactly those, clients share
    one context and release each UCP object once; two handshakes can cross.
  \<^item> Same host: mapped handles are balanced, and a put or get moves the bytes between the two buffers.
  \<^item> Python: the direct all-to-all delivers every block and can always go on to its end, in any interleaving of the
    ranks; the ring does not deliver; a bulk transfer that returns has moved the bytes.
  \<^item> Programs: a staged transfer makes exactly the calls of a reference script.

  \<^bold>\<open>Loops and bounds.\<close>  Loops over chunks, slots and sizes are functions with a measure or recursion on a
  number the code computes.  Loops that poll are \<^verbatim>\<open>partial_function (option)\<close>, with \<open>None\<close> for a call
  that never returns, and that \<^verbatim>\<open>waitWrIdMulti\<close> and the pipelines return is proved for an advancing clock.
  No fuel is used.  Retries are recursion on the number of attempts in the source.

  \<^bold>\<open>Granularity.\<close>  An operation is atomic except where the interleaving is the subject: \<open>Hmc_Uhm\<close> (memory
  accesses), \<open>Hmc_Collective\<close> (calls of the ranks), \<open>Hmc_ConnRace\<close> (lock operations), \<open>Hmc_CtrlConn\<close> (calls and rounds of the accepting threads) and
  the rounds of the listening servers.  Undefined behaviour is \<open>Fault\<close>.  The orders in which hash tables
  are walked are arguments.

  \<^bold>\<open>Not modelled.\<close>  The calls of the logger inside the other components, the debug printer of the metadata, sleeps,
  printing and the CSV file of the benchmarks have no effect on the transfers.  The registrations in
  python/hmc_py.cpp only hand calls on; the device tests need a real accelerator, and the Python benchmarks
  time calls of the package.  Libraries (CUDA, HIP, CNDrv, MUSA, libibverbs, librdmacm, UCP, the socket
  interface, pybind11, NumPy, torch) are parameters.  Threads are modelled where they interact through state
  of this program, and memory is sequentially consistent.
\<close>

end
